(* ===== verification/Prelude.thy ===== *)
theory Prelude
  imports Main "HOL-Library.Word" "HOL-Library.Product_Lexorder"
begin

text \<open>
  Shared vocabulary of the development: the machine-integer types of the C++ sources, the
  collections of rewrite rules the component theories fill, and the two access patterns that
  every table of the runtime uses on its vectors: a linear scan that returns the first entry with
  a given key, and a linear scan that overwrites that entry or appends a new one.
\<close>

unbundle bit_operations_syntax

type_synonym u8 = "8 word"
type_synonym u16 = "16 word"
type_synonym u32 = "32 word"
type_synonym u64 = "64 word"

type_synonym ByteBuffer = "u8 list"

named_theorems srf_defs "definitions of the operations, unfolded by the component proofs"
named_theorems srf_codec "length and round-trip rules of the byte encodings"
named_theorems srf_phase "the phase of each reason code"
named_theorems srf_inv "preservation of the component invariants"

section \<open>Vectors searched by key\<close>

text \<open>
  \<open>find_key key k xs\<close> is the loop \<^verbatim>\<open>for (auto& r : xs) if (r.key == k) return &r; return nullptr;\<close>.
  \<open>update_key\<close> applies a change to the first entry with the key, \<open>upsert\<close> overwrites it or appends.
\<close>

primrec find_key :: "('a \<Rightarrow> 'k) \<Rightarrow> 'k \<Rightarrow> 'a list \<Rightarrow> 'a option" where
  "find_key key k [] = None"
| "find_key key k (x # xs) = (if key x = k then Some x else find_key key k xs)"

primrec update_key :: "('a \<Rightarrow> 'k) \<Rightarrow> 'k \<Rightarrow> ('a \<Rightarrow> 'a) \<Rightarrow> 'a list \<Rightarrow> 'a list" where
  "update_key key k f [] = []"
| "update_key key k f (x # xs) = (if key x = k then f x # xs else x # update_key key k f xs)"

definition upsert :: "('a \<Rightarrow> 'k) \<Rightarrow> 'a \<Rightarrow> 'a list \<Rightarrow> 'a list" where
  "upsert key x xs =
     (case find_key key (key x) xs of
        None \<Rightarrow> xs @ [x]
      | Some _ \<Rightarrow> update_key key (key x) (\<lambda>_. x) xs)"

lemma find_key_SomeD:
  "find_key key k xs = Some x \<Longrightarrow> x \<in> set xs \<and> key x = k"
  by (induction xs) (auto split: if_splits)

lemma find_key_None_iff: "find_key key k xs = None \<longleftrightarrow> k \<notin> key ` set xs"
  by (induction xs) auto

lemma find_key_append:
  "find_key key k (xs @ ys) =
     (case find_key key k xs of None \<Rightarrow> find_key key k ys | Some x \<Rightarrow> Some x)"
  by (induction xs) auto

lemma find_key_distinct:
  "distinct (map key xs) \<Longrightarrow> x \<in> set xs \<Longrightarrow> find_key key (key x) xs = Some x"
  by (induction xs) (auto simp: image_iff)

lemma find_key_map:
  "(\<And>x. key (f x) = key x) \<Longrightarrow> find_key key k (map f xs) = map_option f (find_key key k xs)"
  by (induction xs) auto

lemma length_update_key [simp]: "length (update_key key k f xs) = length xs"
  by (induction xs) auto

lemma map_key_update_key [simp]:
  "(\<And>x. key x = k \<Longrightarrow> key (f x) = k) \<Longrightarrow> map key (update_key key k f xs) = map key xs"
  by (induction xs) auto

lemma update_key_id: "k \<notin> key ` set xs \<Longrightarrow> update_key key k f xs = xs"
  by (induction xs) auto

lemma find_key_update_key:
  assumes "\<And>x. key x = k \<Longrightarrow> key (f x) = k"
  shows "find_key key j (update_key key k f xs) =
           (if j = k then map_option f (find_key key k xs) else find_key key j xs)"
  using assms by (induction xs) auto

lemma set_update_key_subset:
  "set (update_key key k f xs) \<subseteq> set xs \<union> f ` {x \<in> set xs. key x = k}"
  by (induction xs) auto

lemma set_update_key_distinct:
  assumes "distinct (map key xs)"
  shows "set (update_key key k f xs) = (\<lambda>x. if key x = k then f x else x) ` set xs"
  using assms by (induction xs) (auto simp: image_iff)

lemma upsert_new: "find_key key (key x) xs = None \<Longrightarrow> upsert key x xs = xs @ [x]"
  by (simp add: upsert_def)

lemma upsert_old:
  "find_key key (key x) xs = Some y \<Longrightarrow> upsert key x xs = update_key key (key x) (\<lambda>_. x) xs"
  by (simp add: upsert_def)

lemma find_key_upsert:
  "find_key key k (upsert key x xs) = (if k = key x then Some x else find_key key k xs)"
proof (cases "find_key key (key x) xs")
  case None
  then show ?thesis
    by (cases "find_key key k xs") (auto simp: upsert_new find_key_append)
next
  case (Some y)
  then show ?thesis
    by (simp add: upsert_old find_key_update_key)
qed

lemma length_upsert:
  "length (upsert key x xs) =
     (if find_key key (key x) xs = None then Suc (length xs) else length xs)"
  by (simp add: upsert_def split: option.split)

lemma distinct_upsert:
  "distinct (map key xs) \<Longrightarrow> distinct (map key (upsert key x xs))"
  by (cases "find_key key (key x) xs")
     (auto simp: upsert_new upsert_old find_key_None_iff)

lemma key_set_upsert: "key ` set (upsert key x xs) = insert (key x) (key ` set xs)"
proof (cases "find_key key (key x) xs")
  case None
  then show ?thesis by (auto simp: upsert_new)
next
  case (Some y)
  have "map key (update_key key (key x) (\<lambda>_. x) xs) = map key xs"
    by (rule map_key_update_key) simp
  then have "key ` set (upsert key x xs) = key ` set xs"
    using Some by (metis list.set_map upsert_old)
  also have "\<dots> = insert (key x) (key ` set xs)"
    using find_key_SomeD [OF Some] by (metis image_eqI insert_absorb)
  finally show ?thesis .
qed

section \<open>The interface of a keyed table\<close>

text \<open>
  The tables of the runtime (publishers, profiles, policies, lists, attempt records, evidence
  records) all offer a lookup by key and an overwrite-or-append. The interface states what a
  lookup returns after a write; clients of the interface get the effect of replaying a whole
  vector of writes, which is what recovery does.
\<close>

locale keyed_table =
  fixes lookup :: "'t \<Rightarrow> 'k \<Rightarrow> 'v option"
    and store :: "'v \<Rightarrow> 't \<Rightarrow> 't"
    and key :: "'v \<Rightarrow> 'k"
  assumes lookup_store: "lookup (store v t) k = (if k = key v then Some v else lookup t k)"
begin

lemma lookup_replay:
  "lookup (fold store vs t) k =
     (case find_key key k (rev vs) of None \<Rightarrow> lookup t k | Some v \<Rightarrow> Some v)"
  by (induction vs arbitrary: t) (auto simp: lookup_store find_key_append split: option.splits)

lemma lookup_replay_distinct:
  assumes "distinct (map key vs)" and "v \<in> set vs"
  shows "lookup (fold store vs t) (key v) = Some v"
  using assms by (simp add: lookup_replay find_key_distinct rev_map [symmetric])

lemma lookup_replay_other:
  "k \<notin> key ` set vs \<Longrightarrow> lookup (fold store vs t) k = lookup t k"
  by (simp add: lookup_replay find_key_None_iff split: option.splits)
     (metis find_key_SomeD image_eqI set_rev)

end

section \<open>Words\<close>

lemma unat_succ: "v \<noteq> (- 1 :: 'a::len word) \<Longrightarrow> unat (v + 1) = Suc (unat v)"
  using unatSuc [of v] by (metis add.commute add_eq_0_iff)

lemma word_succ_gt: "v \<noteq> (- 1 :: 'a::len word) \<Longrightarrow> v < v + 1"
  by (simp add: word_less_nat_alt unat_succ)

lemma word_ne_plus_of_nat:
  assumes "0 < k" and "k < 2 ^ LENGTH('a)"
  shows "(w :: 'a::len word) + of_nat k \<noteq> w"
proof
  assume "w + of_nat k = w"
  then have "unat (of_nat k :: 'a word) = 0" by simp
  moreover have "unat (of_nat k :: 'a word) = k"
    using assms(2) by (simp add: unat_of_nat)
  ultimately show False using assms(1) by simp
qed

end
