(* ===== verification/Strong.thy ===== *)
theory Strong
  imports Prelude
begin

text \<open>
  The strongly typed identifiers and the checked generation counters of
  \<^verbatim>\<open>include/srf/strong.hpp\<close> and \<^verbatim>\<open>include/srf/ids.hpp\<close>. An identifier and a generation are a
  64-bit value whose zero is the invalid sentinel. The identifier domains are type synonyms.
\<close>

section \<open>Identifier domains\<close>

type_synonym SegmentListId = u64
type_synonym SegmentId = u64
type_synonym SegmentProfileId = u64
type_synonym SegmentPolicyId = u64
type_synonym NodeId = u64
type_synonym AdjacencyId = u64
type_synonym EndpointId = u64
type_synonym BindingId = u64
type_synonym PathId = u64
type_synonym RouteId = u64
type_synonym ConstraintEvaluationId = u64
type_synonym PublisherId = u64
type_synonym WorkerBootId = u64
type_synonym MutationAttemptId = u64
type_synonym SnapshotId = u64
type_synonym ScopeId = u64
type_synonym CapabilityKey = u64
type_synonym HistoryId = u64

type_synonym SegmentListGeneration = u64
type_synonym SegmentGeneration = u64
type_synonym SegmentProfileGeneration = u64
type_synonym SegmentPolicyGeneration = u64
type_synonym TopologyGeneration = u64
type_synonym CapabilityGeneration = u64
type_synonym PathAuthorityGeneration = u64
type_synonym RouteGeneration = u64
type_synonym ConstraintGeneration = u64
type_synonym CoordinatorEpoch = u64

section \<open>Operations\<close>

definition valid :: "u64 \<Rightarrow> bool" where
  [srf_defs]: "valid v \<longleftrightarrow> v \<noteq> 0"

definition max_value :: u64 where
  [srf_defs]: "max_value = 0xFFFFFFFFFFFFFFFF"

definition initial_generation :: u64 where
  [srf_defs]: "initial_generation = 1"

definition exhausted :: "u64 \<Rightarrow> bool" where
  [srf_defs]: "exhausted v \<longleftrightarrow> v = max_value"

definition next_generation :: "u64 \<Rightarrow> u64 option" where
  [srf_defs]: "next_generation v = (if v \<ge> max_value then None else Some (v + 1))"

section \<open>Counters never wrap\<close>

lemma max_value_minus_one: "max_value = - 1"
  by (simp add: max_value_def)

lemma max_value_top [simp]: "v \<le> max_value"
  by (simp add: max_value_minus_one)

lemma valid_0 [simp]: "\<not> valid 0"
  by (simp add: valid_def)

lemma valid_initial [simp]: "valid initial_generation"
  by (simp add: valid_def initial_generation_def)

lemma exhausted_iff: "exhausted v \<longleftrightarrow> next_generation v = None"
  by (simp add: exhausted_def next_generation_def order_antisym_conv)

lemma unat_next: "\<not> exhausted v \<Longrightarrow> unat (v + 1) = Suc (unat v)"
  by (simp add: exhausted_def max_value_minus_one unat_succ)

lemma gt_succ: "\<not> exhausted v \<Longrightarrow> v < v + 1"
  by (simp add: word_less_nat_alt unat_next)

lemma valid_succ: "\<not> exhausted v \<Longrightarrow> valid (v + 1)"
  using gt_succ by (fastforce simp: valid_def)

lemma generation_next_valid: "next_generation v = Some w \<Longrightarrow> valid w \<and> v < w"
  by (auto simp: exhausted_iff gt_succ valid_succ next_generation_def split: if_splits)

text \<open>
  a generation counter is checked, monotonic and non-wrapping: \<open>next\<close> refuses exactly at the
  maximum value, and otherwise yields the numerically next value, which is valid and strictly
  greater than the one it was computed from.
\<close>

theorem generation_next_monotonic:
  "case next_generation v of
     None \<Rightarrow> v = max_value \<and> exhausted v
   | Some w \<Rightarrow> unat w = Suc (unat v) \<and> v < w \<and> valid w \<and> \<not> exhausted v"
  by (auto simp: exhausted_iff unat_next gt_succ valid_succ next_generation_def
      order_antisym_conv split: if_splits)

end
