(* ===== verification/Bytes.thy ===== *)
theory Bytes
  imports Strong
begin

text \<open>
  The explicit little-endian byte writer and the bounds-checked byte reader of
  \<^verbatim>\<open>include/srf/bytes.hpp\<close>. A \<^verbatim>\<open>ByteWriter\<close> is the buffer it has accumulated; each operation
  returns the extended buffer. The writer copies the object representation of an integer, which
  is its little-endian bytes on the hosts the runtime is built for. A \<^verbatim>\<open>ByteReader\<close> keeps its data,
  its position and the sticky failure flag.
\<close>

section \<open>Little-endian integers\<close>

definition le_bytes :: "nat \<Rightarrow> 'a::len word \<Rightarrow> u8 list" where
  "le_bytes n v = map (\<lambda>i. ucast (drop_bit (8 * i) v)) [0..<n]"

primrec le_word :: "u8 list \<Rightarrow> 'a::len word" where
  "le_word [] = 0"
| "le_word (b # bs) = ucast b OR push_bit 8 (le_word bs)"

lemma length_le_bytes [simp, srf_codec]: "length (le_bytes n v) = n"
  by (simp add: le_bytes_def)

lemma le_bytes_0 [simp]: "le_bytes 0 v = []"
  by (simp add: le_bytes_def)

lemma le_bytes_Suc: "le_bytes (Suc n) v = ucast v # le_bytes n (drop_bit 8 v)"
proof -
  have "[0..<Suc n] = 0 # map Suc [0..<n]" by (simp add: upt_conv_Cons map_Suc_upt del: upt_Suc)
  then show ?thesis by (simp add: le_bytes_def comp_def add.commute)
qed

lemma bit_le_word:
  "bit (le_word (le_bytes n v) :: 'a::len word) k \<longleftrightarrow> k < 8 * n \<and> bit (v :: 'a word) k"
proof (induction n arbitrary: v k)
  case 0
  then show ?case by simp
next
  case (Suc n)
  show ?case
    by (cases "k < 8")
       (auto simp: le_bytes_Suc bit_or_iff bit_push_bit_iff Suc bit_drop_bit_eq bit_ucast_iff
         dest: bit_imp_le_length)
qed

lemma le_word_le_bytes [simp, srf_codec]:
  "LENGTH('a) \<le> 8 * n \<Longrightarrow> (le_word (le_bytes n v) :: 'a::len word) = v"
  by (rule bit_word_eqI) (simp add: bit_le_word)

lemma le_bytes_inj [simp]:
  "LENGTH('a) \<le> 8 * n \<Longrightarrow> le_bytes n v = le_bytes n (w :: 'a::len word) \<longleftrightarrow> v = w"
  by (metis le_word_le_bytes)

section \<open>ByteWriter\<close>

definition w_u8 :: "u8 \<Rightarrow> ByteBuffer \<Rightarrow> ByteBuffer" where
  [srf_defs]: "w_u8 v buf = buf @ le_bytes 1 v"

definition w_u16 :: "u16 \<Rightarrow> ByteBuffer \<Rightarrow> ByteBuffer" where
  [srf_defs]: "w_u16 v buf = buf @ le_bytes 2 v"

definition w_u32 :: "u32 \<Rightarrow> ByteBuffer \<Rightarrow> ByteBuffer" where
  [srf_defs]: "w_u32 v buf = buf @ le_bytes 4 v"

definition w_u64 :: "u64 \<Rightarrow> ByteBuffer \<Rightarrow> ByteBuffer" where
  [srf_defs]: "w_u64 v buf = buf @ le_bytes 8 v"

definition w_bytes :: "u8 list \<Rightarrow> ByteBuffer \<Rightarrow> ByteBuffer" where
  [srf_defs]: "w_bytes s buf = buf @ s"

text \<open>\<open>fixed_bytes\<close> returns whether it accepted the payload, and the buffer.\<close>

definition fixed_bytes :: "u8 list \<Rightarrow> nat \<Rightarrow> ByteBuffer \<Rightarrow> bool \<times> ByteBuffer" where
  [srf_defs]: "fixed_bytes s width buf =
     (if length s > width then (False, buf)
      else (True, buf @ s @ replicate (width - length s) 0))"

section \<open>ByteReader\<close>

record ByteReader =
  br_data :: "u8 list"
  br_pos :: nat
  br_ok :: bool

definition byte_reader :: "u8 list \<Rightarrow> ByteReader" where
  "byte_reader d = \<lparr>br_data = d, br_pos = 0, br_ok = True\<rparr>"

definition at_end :: "ByteReader \<Rightarrow> bool" where
  "at_end r \<longleftrightarrow> br_pos r = length (br_data r)"

definition remaining :: "ByteReader \<Rightarrow> nat" where
  "remaining r = length (br_data r) - br_pos r"

definition rest :: "ByteReader \<Rightarrow> u8 list" where
  "rest r = drop (br_pos r) (br_data r)"

definition r_raw :: "nat \<Rightarrow> ByteReader \<Rightarrow> u8 list option \<times> ByteReader" where
  "r_raw n r =
     (if \<not> br_ok r \<or> remaining r < n then (None, r\<lparr>br_ok := False\<rparr>)
      else (Some (take n (drop (br_pos r) (br_data r))), r\<lparr>br_pos := br_pos r + n\<rparr>))"

definition r_u8 :: "ByteReader \<Rightarrow> u8 option \<times> ByteReader" where
  "r_u8 r = map_prod (map_option le_word) id (r_raw 1 r)"

definition r_u16 :: "ByteReader \<Rightarrow> u16 option \<times> ByteReader" where
  "r_u16 r = map_prod (map_option le_word) id (r_raw 2 r)"

definition r_u32 :: "ByteReader \<Rightarrow> u32 option \<times> ByteReader" where
  "r_u32 r = map_prod (map_option le_word) id (r_raw 4 r)"

definition r_u64 :: "ByteReader \<Rightarrow> u64 option \<times> ByteReader" where
  "r_u64 r = map_prod (map_option le_word) id (r_raw 8 r)"

definition r_bytes :: "nat \<Rightarrow> ByteReader \<Rightarrow> u8 list option \<times> ByteReader" where
  "r_bytes n r = r_raw n r"

definition r_skip :: "nat \<Rightarrow> ByteReader \<Rightarrow> bool \<times> ByteReader" where
  "r_skip n r =
     (if \<not> br_ok r \<or> remaining r < n then (False, r\<lparr>br_ok := False\<rparr>)
      else (True, r\<lparr>br_pos := br_pos r + n\<rparr>))"

definition reader_ok :: "ByteReader \<Rightarrow> bool" where
  "reader_ok r \<longleftrightarrow> br_pos r \<le> length (br_data r)"

lemmas reader_defs = r_raw_def r_u8_def r_u16_def r_u32_def r_u64_def r_bytes_def r_skip_def
  remaining_def rest_def at_end_def byte_reader_def reader_ok_def

lemma reader_ok_init [simp]: "reader_ok (byte_reader d)"
  by (simp add: reader_defs)

lemma reader_ok_raw: "reader_ok r \<Longrightarrow> reader_ok (snd (r_raw n r))"
  by (auto simp: reader_defs)

lemma r_raw_data [simp]: "br_data (snd (r_raw n r)) = br_data r"
  by (simp add: r_raw_def)

lemma at_end_iff_rest: "reader_ok r \<Longrightarrow> at_end r \<longleftrightarrow> rest r = []"
  by (auto simp: reader_defs)

lemma r_raw_rest:
  assumes "br_ok r" and "reader_ok r" and "rest r = bs @ ts" and "length bs = n"
  shows "fst (r_raw n r) = Some bs" "br_ok (snd (r_raw n r))" "reader_ok (snd (r_raw n r))"
    "rest (snd (r_raw n r)) = ts"
proof -
  have len: "length (br_data r) - br_pos r = n + length ts"
    using assms(3,4) by (metis length_append length_drop rest_def)
  have d: "drop (br_pos r) (br_data r) = bs @ ts" using assms(3) by (simp add: rest_def)
  have d': "drop (br_pos r + n) (br_data r) = ts"
    using d assms(4) by (metis add.commute append_eq_conv_conj drop_drop)
  show "fst (r_raw n r) = Some bs" "br_ok (snd (r_raw n r))" "rest (snd (r_raw n r)) = ts"
    using assms(1,4) len d d' by (simp_all add: r_raw_def remaining_def rest_def)
  show "reader_ok (snd (r_raw n r))" by (rule reader_ok_raw) (rule assms(2))
qed

section \<open>The interface of a field codec\<close>

text \<open>
  A field is written by an encoder and read by a reader. The law of the interface is the round
  trip: from a reader in good standing whose unread bytes start with the encoding, the read
  returns the value, stays in good standing and leaves exactly the bytes behind the encoding.
  Injectivity, prefix-freeness and the round trip of vectors of fields follow once and for all.
\<close>

primrec read_many ::
  "(ByteReader \<Rightarrow> 'v option \<times> ByteReader) \<Rightarrow> nat \<Rightarrow> ByteReader \<Rightarrow> 'v list option \<times> ByteReader"
where
  "read_many dec 0 r = (Some [], r)"
| "read_many dec (Suc n) r =
     (case dec r of
        (None, r') \<Rightarrow> (None, r')
      | (Some v, r') \<Rightarrow>
          (case read_many dec n r' of
             (None, r'') \<Rightarrow> (None, r'')
           | (Some vs, r'') \<Rightarrow> (Some (v # vs), r'')))"

locale field_codec =
  fixes enc :: "'v \<Rightarrow> u8 list"
    and dec :: "ByteReader \<Rightarrow> 'v option \<times> ByteReader"
    and wf :: "'v \<Rightarrow> bool"
  assumes round_trip:
    "\<lbrakk>wf v; br_ok r; reader_ok r; rest r = enc v @ ts\<rbrakk> \<Longrightarrow>
       \<exists>r'. dec r = (Some v, r') \<and> br_ok r' \<and> reader_ok r' \<and> rest r' = ts"
begin

lemma enc_prefix_free:
  assumes "wf v" and "wf w" and "enc v @ s = enc w @ t"
  shows "v = w \<and> s = t"
proof -
  let ?r = "byte_reader (enc v @ s)"
  have r: "br_ok ?r" "reader_ok ?r" "rest ?r = enc v @ s"
    by (simp_all add: reader_defs)
  from round_trip [OF assms(1) r] obtain r1 where
    r1: "dec ?r = (Some v, r1)" "rest r1 = s" by auto
  from r(3) assms(3) have "rest ?r = enc w @ t" by simp
  from round_trip [OF assms(2) r(1,2) this] obtain r2 where
    r2: "dec ?r = (Some w, r2)" "rest r2 = t" by auto
  from r1 r2 show ?thesis by simp
qed

lemma enc_inj: "\<lbrakk>wf v; wf w; enc v = enc w\<rbrakk> \<Longrightarrow> v = w"
  using enc_prefix_free [of v w "[]" "[]"] by simp

lemma round_trip_many:
  assumes "\<forall>v \<in> set vs. wf v" "br_ok r" "reader_ok r" "rest r = concat (map enc vs) @ ts"
  shows "\<exists>r'. read_many dec (length vs) r = (Some vs, r') \<and> br_ok r' \<and> reader_ok r' \<and> rest r' = ts"
  using assms
proof (induction vs arbitrary: r)
  case Nil
  then show ?case by simp
next
  case (Cons v vs)
  then obtain r1 where r1: "dec r = (Some v, r1)" "br_ok r1" "reader_ok r1"
      "rest r1 = concat (map enc vs) @ ts"
    using round_trip [of v r "concat (map enc vs) @ ts"] by auto
  from Cons.IH [OF _ r1(2-4)] Cons.prems(1) obtain r2 where
    "read_many dec (length vs) r1 = (Some vs, r2)" "br_ok r2" "reader_ok r2" "rest r2 = ts"
    by auto
  with r1(1) show ?case by simp
qed

lemma concat_enc_inj:
  assumes "\<forall>v \<in> set vs. wf v" "\<forall>w \<in> set ws. wf w" "length vs = length ws"
    and "concat (map enc vs) @ s = concat (map enc ws) @ t"
  shows "vs = ws \<and> s = t"
  using assms(3,1,2,4)
proof (induction vs ws rule: list_induct2)
  case (Cons v vs w ws)
  then have "enc v @ (concat (map enc vs) @ s) = enc w @ (concat (map enc ws) @ t)" by simp
  from enc_prefix_free [OF _ _ this] Cons.prems have
    "v = w" "concat (map enc vs) @ s = concat (map enc ws) @ t" by auto
  with Cons.IH Cons.prems show ?case by simp
qed simp

end

lemma raw_field_codec:
  assumes "LENGTH('a) = 8 * n"
  shows "field_codec (le_bytes n :: 'a::len word \<Rightarrow> u8 list)
           (\<lambda>r. map_prod (map_option le_word) id (r_raw n r)) (\<lambda>_. True)"
proof
  fix v :: "'a word" and r ts
  assume r: "br_ok r" "reader_ok r" "rest r = le_bytes n v @ ts"
  from r_raw_rest [OF r] have f: "fst (r_raw n r) = Some (le_bytes n v)"
    "br_ok (snd (r_raw n r))" "reader_ok (snd (r_raw n r))" "rest (snd (r_raw n r)) = ts"
    by simp_all
  have eq: "map_prod (map_option le_word) id (r_raw n r) = (Some v, snd (r_raw n r))"
    using f(1) assms by (cases "r_raw n r") simp
  show "\<exists>r'. map_prod (map_option le_word) id (r_raw n r) = (Some v, r') \<and>
           br_ok r' \<and> reader_ok r' \<and> rest r' = ts"
    by (intro exI [of _ "snd (r_raw n r)"] conjI eq f)
qed

interpretation c8: field_codec "le_bytes 1 :: u8 \<Rightarrow> u8 list" r_u8 "\<lambda>_. True"
  using raw_field_codec [where 'a = 8 and n = 1] by (simp add: r_u8_def [abs_def])

interpretation c16: field_codec "le_bytes 2 :: u16 \<Rightarrow> u8 list" r_u16 "\<lambda>_. True"
  using raw_field_codec [where 'a = 16 and n = 2] by (simp add: r_u16_def [abs_def])

interpretation c32: field_codec "le_bytes 4 :: u32 \<Rightarrow> u8 list" r_u32 "\<lambda>_. True"
  using raw_field_codec [where 'a = 32 and n = 4] by (simp add: r_u32_def [abs_def])

interpretation c64: field_codec "le_bytes 8 :: u64 \<Rightarrow> u8 list" r_u64 "\<lambda>_. True"
  using raw_field_codec [where 'a = 64 and n = 8] by (simp add: r_u64_def [abs_def])

end
