(* ===== verification/Digest.thy ===== *)
theory Digest
  imports Bytes
begin

text \<open>
  The FNV-1a derived identity digest and the table-driven CRC-32C of \<^verbatim>\<open>src/digest.cpp\<close>, with the
  facts the integrity trailers rest on: a digest is never the absent sentinel, a change of exactly
  one byte always changes the digest and the checksum, and the table-driven checksum computes the
  bit-serial one.
\<close>

section \<open>FNV-1a\<close>

definition kFnvOffsetA :: u64 where "kFnvOffsetA = 0xCBF29CE484222325"
definition kFnvPrime :: u64 where "kFnvPrime = 0x00000100000001B3"
definition kFnvOffsetB :: u64 where "kFnvOffsetB = 0x9E3779B97F4A7C15"
definition kFnvOffsetC :: u64 where "kFnvOffsetC = 0x2545F4914F6CDD1D"

definition fnv_step :: "u8 \<Rightarrow> u64 \<Rightarrow> u64" where
  "fnv_step b h = (h XOR ucast b) * kFnvPrime"

definition fnv1a_seeded :: "u64 \<Rightarrow> u8 list \<Rightarrow> u64" where
  "fnv1a_seeded seed data = fold fnv_step data seed"

record Digest128 =
  dg_hi :: u64
  dg_lo :: u64

definition is_zero :: "Digest128 \<Rightarrow> bool" where
  "is_zero d \<longleftrightarrow> dg_hi d = 0 \<and> dg_lo d = 0"

definition zero_digest :: Digest128 where
  "zero_digest = \<lparr>dg_hi = 0, dg_lo = 0\<rparr>"

text \<open>The length prefix of the second lane is the little-endian 64-bit byte count.\<close>

definition digest128 :: "u8 list \<Rightarrow> Digest128" where
  "digest128 data =
     (let a = fnv1a_seeded kFnvOffsetA data;
          n = (of_nat (length data) :: u64);
          len = map (\<lambda>i. ucast (drop_bit (8 * i) n AND 0xFF)) [0..<8];
          b = fnv1a_seeded kFnvOffsetB data;
          b = fnv1a_seeded b len;
          b = fnv1a_seeded (b XOR kFnvOffsetC) data
      in if a = 0 \<and> b = 0 then \<lparr>dg_hi = a, dg_lo = 1\<rparr> else \<lparr>dg_hi = a, dg_lo = b\<rparr>)"

definition fnv1a64 :: "u8 list \<Rightarrow> u64" where
  "fnv1a64 data = (let h = fnv1a_seeded kFnvOffsetA data in if h = 0 then 1 else h)"

section \<open>CRC-32C\<close>

definition crc_bit :: "u32 \<Rightarrow> u32" where
  "crc_bit c = (if c AND 1 \<noteq> 0 then 0x82F63B78 XOR drop_bit 1 c else drop_bit 1 c)"

definition kCrc32cTable :: "u32 list" where
  "kCrc32cTable = map (\<lambda>i. (crc_bit ^^ 8) (of_nat i)) [0..<256]"

definition crc_step :: "u8 \<Rightarrow> u32 \<Rightarrow> u32" where
  "crc_step b c = kCrc32cTable ! unat ((c XOR ucast b) AND 0xFF) XOR drop_bit 8 c"

definition crc32c_extend :: "u32 \<Rightarrow> u8 list \<Rightarrow> u32" where
  "crc32c_extend seed data = NOT (fold crc_step data (NOT seed))"

definition crc32c :: "u8 list \<Rightarrow> u32" where
  "crc32c data = crc32c_extend 0 data"

section \<open>Hexadecimal rendering\<close>

definition hex_digit :: "u64 \<Rightarrow> char" where
  "hex_digit d = ''0123456789abcdef'' ! unat (d AND 15)"

definition to_hex :: "u64 \<Rightarrow> string" where
  "to_hex v = map (\<lambda>i. hex_digit (drop_bit (4 * (15 - i)) v)) [0..<16]"

definition digest_hex :: "Digest128 \<Rightarrow> string" where
  "digest_hex d = to_hex (dg_hi d) @ to_hex (dg_lo d)"

section \<open>One-byte changes are always seen by FNV-1a\<close>

lemma kFnvPrime_inverse: "kFnvPrime * 0xCE965057AFF6957B = 1"
  by (simp add: kFnvPrime_def)

lemma mult_prime_inj: "x * kFnvPrime = y * kFnvPrime \<longleftrightarrow> x = y"
proof
  assume "x * kFnvPrime = y * kFnvPrime"
  then have "x * (kFnvPrime * 0xCE965057AFF6957B) = y * (kFnvPrime * 0xCE965057AFF6957B)"
    by (simp only: mult.assoc [symmetric])
  then show "x = y" by (simp only: kFnvPrime_inverse mult_1_right)
qed simp

lemma xor_left_cancel: "(h :: 'a::len word) XOR x = h XOR y \<longleftrightarrow> x = y"
  by (metis xor.assoc xor.left_neutral xor_self_eq)

lemma xor_right_cancel: "(x :: 'a::len word) XOR h = y XOR h \<longleftrightarrow> x = y"
  by (simp add: xor.commute [of _ h] xor_left_cancel)

lemma ucast_u8_inj:
  assumes "8 \<le> LENGTH('b)"
  shows "(ucast (a :: u8) :: 'b::len word) = ucast b \<longleftrightarrow> a = b"
proof -
  have "ucast (ucast x :: 'b word) = x" for x :: u8
    by (rule ucast_up_ucast_id) (simp add: is_up assms)
  then show ?thesis by metis
qed

lemma fnv_step_seed_inj: "fnv_step b h = fnv_step b h' \<longleftrightarrow> h = h'"
  by (simp add: fnv_step_def mult_prime_inj xor_right_cancel)

lemma fnv_step_byte_inj: "fnv_step a h = fnv_step b h \<longleftrightarrow> a = b"
  by (simp add: fnv_step_def mult_prime_inj xor_left_cancel ucast_u8_inj)

text \<open>
  Both running checks of the file are folds of a step that is injective in the accumulator and in
  the byte; that alone makes a one-byte change visible. The interface is interpreted for the hash
  and for the checksum.
\<close>

locale byte_fold =
  fixes step :: "u8 \<Rightarrow> 'h \<Rightarrow> 'h"
  assumes step_acc_inj: "step b h = step b h' \<longleftrightarrow> h = h'"
    and step_byte_inj: "step a h = step b h \<longleftrightarrow> a = b"
begin

lemma fold_acc_inj: "fold step ys h = fold step ys h' \<longleftrightarrow> h = h'"
  by (induction ys arbitrary: h h') (simp_all add: step_acc_inj)

lemma fold_one_byte:
  "fold step (xs @ a # ys) h = fold step (xs @ b # ys) h \<longleftrightarrow> a = b"
  by (simp add: fold_acc_inj step_byte_inj)

end

interpretation fnv: byte_fold fnv_step
  by unfold_locales (rule fnv_step_seed_inj, rule fnv_step_byte_inj)

lemma digest128_hi: "dg_hi (digest128 data) = fnv1a_seeded kFnvOffsetA data"
  by (simp add: digest128_def Let_def)

lemma digest128_not_zero: "\<not> is_zero (digest128 data)"
  by (auto simp: digest128_def Let_def is_zero_def)

lemma fnv1a64_not_zero: "fnv1a64 data \<noteq> 0"
  by (simp add: fnv1a64_def Let_def)

section \<open>The checksum table\<close>

lemma crc_bit_alt: "crc_bit c = drop_bit 1 c XOR (if bit c 0 then 0x82F63B78 else 0)"
  by (simp add: crc_bit_def bit_0 and_one_eq odd_iff_mod_2_eq_one xor.commute)

lemma crc_bit_xor: "crc_bit (x XOR y) = crc_bit x XOR crc_bit y"
  by (cases "bit x 0"; cases "bit y 0")
     (simp_all add: crc_bit_alt bit_xor_iff drop_bit_xor ac_simps)

lemma crc_bits_xor: "(crc_bit ^^ n) (x XOR y) = (crc_bit ^^ n) x XOR (crc_bit ^^ n) y"
  by (induction n) (simp_all add: crc_bit_xor)

lemma crc_bits_high:
  assumes "\<And>i. i < n \<Longrightarrow> \<not> bit y i"
  shows "(crc_bit ^^ n) y = drop_bit n y"
  using assms
proof (induction n arbitrary: y)
  case 0
  then show ?case by simp
next
  case (Suc n)
  have "crc_bit y = drop_bit 1 y" using Suc.prems [of 0] by (simp add: crc_bit_alt)
  moreover have "(crc_bit ^^ n) (drop_bit 1 y) = drop_bit n (drop_bit 1 y)"
    by (rule Suc.IH) (simp add: bit_drop_bit_eq Suc.prems)
  ultimately show ?case by (simp add: funpow_swap1 drop_bit_drop_bit)
qed

lemma byte_mask: "(0xFF :: u32) = mask 8"
  by (simp add: mask_eq_exp_minus_1)

lemma crc_byte_split:
  "(crc_bit ^^ 8) x = (crc_bit ^^ 8) (x AND 0xFF) XOR drop_bit 8 x"
proof -
  let ?h = "push_bit 8 (drop_bit 8 x)"
  have x: "x = (x AND 0xFF) XOR ?h"
    unfolding byte_mask by (rule bit_word_eqI) (auto simp: bit_simps)
  have "drop_bit 8 ?h = drop_bit 8 x"
    by (rule bit_word_eqI) (auto simp: bit_simps dest: bit_imp_le_length)
  then have "(crc_bit ^^ 8) ?h = drop_bit 8 x"
    using crc_bits_high [of 8 ?h] by (simp add: bit_simps)
  then show ?thesis by (subst x) (simp only: crc_bits_xor)
qed

lemma kCrc32cTable_nth: "i < 256 \<Longrightarrow> kCrc32cTable ! i = (crc_bit ^^ 8) (of_nat i)"
  by (simp add: kCrc32cTable_def)

lemma table_index: "unat (x AND 0xFF :: u32) < 256"
proof -
  have "x AND 0xFF \<le> (0xFF :: u32)" by (rule word_and_le1)
  then have "unat (x AND 0xFF) \<le> unat (0xFF :: u32)" by (simp only: word_le_nat_alt)
  then show ?thesis by simp
qed

lemma crc_step_bitwise: "crc_step b c = (crc_bit ^^ 8) (c XOR ucast b)"
proof -
  have d: "drop_bit 8 (ucast b :: u32) = 0"
    by (rule bit_word_eqI) (auto simp: bit_simps dest: bit_imp_le_length)
  show ?thesis
    by (simp add: crc_step_def kCrc32cTable_nth table_index crc_byte_split [of "c XOR ucast b"] d
        del: funpow.simps)
qed

lemma crc_bit_zero: "crc_bit x = 0 \<Longrightarrow> x = 0"
proof -
  assume z: "crc_bit x = 0"
  have "bit (crc_bit x) 31 \<longleftrightarrow> bit x 0"
    by (auto simp: crc_bit_alt bit_simps dest: bit_imp_le_length)
  with z have b0: "\<not> bit x 0" by simp
  with z have "drop_bit 1 x = 0" by (simp add: crc_bit_alt)
  then have "\<not> bit (drop_bit 1 x) n" for n by simp
  then have "\<not> bit x (Suc n)" for n by (simp add: bit_drop_bit_eq comp_def)
  with b0 have "\<not> bit x n" for n by (cases n) auto
  then show "x = 0" by (intro bit_word_eqI) simp
qed

lemma crc_bits_inj: "(crc_bit ^^ n) x = (crc_bit ^^ n) y \<longleftrightarrow> x = y"
proof -
  have z: "(crc_bit ^^ n) x = 0 \<Longrightarrow> x = 0" for x
    by (induction n) (auto dest: crc_bit_zero)
  have "(crc_bit ^^ n) x = (crc_bit ^^ n) y \<longleftrightarrow> (crc_bit ^^ n) (x XOR y) = 0"
    by (metis crc_bits_xor xor_left_cancel xor_self_eq)
  also have "\<dots> \<longleftrightarrow> x XOR y = 0" using z crc_bits_xor [of n 0 0] by auto
  also have "\<dots> \<longleftrightarrow> x = y" by (metis xor_left_cancel xor_self_eq)
  finally show ?thesis .
qed

interpretation crc: byte_fold crc_step
  by unfold_locales (simp_all add: crc_step_bitwise crc_bits_inj xor_left_cancel xor_right_cancel
      ucast_u8_inj)

section \<open>Properties\<close>

text \<open>The bit-serial reference: shift the byte in, then eight polynomial steps.\<close>

definition crc32c_bitwise :: "u32 \<Rightarrow> u8 list \<Rightarrow> u32" where
  "crc32c_bitwise seed data =
     NOT (fold (\<lambda>b c. (crc_bit ^^ 8) (c XOR ucast b)) data (NOT seed))"

text \<open>
  the table-driven CRC-32C (one table access per byte) computes exactly the bit-serial
  checksum with the reflected Castagnoli polynomial, for every seed and every buffer.
\<close>

theorem crc32c_table_correct: "crc32c_extend seed data = crc32c_bitwise seed data"
proof -
  have "crc_step = (\<lambda>b c. (crc_bit ^^ 8) (c XOR ucast b))"
    by (intro ext) (rule crc_step_bitwise)
  then show ?thesis by (simp add: crc32c_extend_def crc32c_bitwise_def)
qed

text \<open>
  an integrity trailer always sees the corruption of a single byte: two buffers that differ
  in exactly one byte have different CRC-32C values and different 128-bit digests.
\<close>

theorem one_byte_corruption_detected:
  assumes "a \<noteq> b"
  shows "crc32c (xs @ a # ys) \<noteq> crc32c (xs @ b # ys) \<and>
         digest128 (xs @ a # ys) \<noteq> digest128 (xs @ b # ys)"
proof
  have "NOT u = NOT v \<longleftrightarrow> u = v" for u v :: u32 by (metis bit.double_compl)
  then show "crc32c (xs @ a # ys) \<noteq> crc32c (xs @ b # ys)"
    using assms crc.fold_one_byte by (simp add: crc32c_def crc32c_extend_def del: fold_append)
  show "digest128 (xs @ a # ys) \<noteq> digest128 (xs @ b # ys)"
    using assms fnv.fold_one_byte digest128_hi
    by (metis fnv1a_seeded_def)
qed

theorem one_byte_corruption_detected_witness:
  "crc32c [1, 2, 3] \<noteq> crc32c [1, 9, 3] \<and> digest128 [1, 2, 3] \<noteq> digest128 [1, 9, 3]"
  using one_byte_corruption_detected [of 2 9 "[1]" "[3]"] by simp

text \<open>
  a digest is never the all-zero value that marks an absent digest, and the list identity
  hash is never the invalid identifier.
\<close>

theorem digests_distinguishable:
  "\<not> is_zero (digest128 data) \<and> valid (fnv1a64 data)"
  by (simp add: digest128_not_zero fnv1a64_not_zero valid_def)

end
