(* ===== verification/Limits.thy ===== *)
theory Limits
  imports Strong
begin

text \<open>The configured resource bounds of \<^verbatim>\<open>include/srf/limits.hpp\<close>, with their shipped defaults.\<close>

record Limits =
  max_lists :: u32
  max_segments_per_list :: u32
  max_segment_payload_bytes :: u32
  max_profiles :: u32
  max_policies :: u32
  max_batch_size :: u32
  max_publishers :: u32
  max_frame_bytes :: u32
  max_history :: u32
  max_explanation_entries :: u32
  max_persistence_record_bytes :: u32
  max_reasons :: u32
  max_diff_entries :: u32
  max_total_segments :: u32
  max_attempt_records :: u32
  max_evidence_records :: u32

definition default_limits :: Limits where
  "default_limits = \<lparr>
     max_lists = 4096,
     max_segments_per_list = 32,
     max_segment_payload_bytes = 16,
     max_profiles = 64,
     max_policies = 256,
     max_batch_size = 64,
     max_publishers = 32,
     max_frame_bytes = 262144,
     max_history = 256,
     max_explanation_entries = 64,
     max_persistence_record_bytes = 1048576,
     max_reasons = 32,
     max_diff_entries = 512,
     max_total_segments = 65536,
     max_attempt_records = 4096,
     max_evidence_records = 8192\<rparr>"

end
