(* ===== verification/Reason.thy ===== *)
theory Reason
  imports Digest Limits
begin

text \<open>
  The machine-readable rejection reasons of \<^verbatim>\<open>include/srf/reason.hpp\<close> and \<^verbatim>\<open>src/reason.cpp\<close>: the
  fixed validation phases, the reason codes with their numeric values, the ordered table that
  assigns every code its name and its phase, and \<^verbatim>\<open>ValidationResult\<close>, the bounded, deduplicated,
  phase-ordered reason list. A \<^verbatim>\<open>ReasonCode\<close> is its 16-bit underlying value, so that a value with
  no table entry is representable, as it is in the code.
\<close>

section \<open>Phases\<close>

datatype ValidationPhase =
    Ph_Ok
  | Ph_WireDecode
  | Ph_CallerIdentity
  | Ph_EpochBootScope
  | Ph_ListLifecycleGeneration
  | Ph_Profile
  | Ph_Policy
  | Ph_StructuralSegment
  | Ph_CapabilityEvidence
  | Ph_TopologyEvidence
  | Ph_PathAuthority
  | Ph_RouteBinding
  | Ph_ConstraintBinding
  | Ph_ResourceLimits
  | Ph_Commit

primrec phase_value :: "ValidationPhase \<Rightarrow> nat" where
  "phase_value Ph_Ok = 0"
| "phase_value Ph_WireDecode = 1"
| "phase_value Ph_CallerIdentity = 2"
| "phase_value Ph_EpochBootScope = 3"
| "phase_value Ph_ListLifecycleGeneration = 4"
| "phase_value Ph_Profile = 5"
| "phase_value Ph_Policy = 6"
| "phase_value Ph_StructuralSegment = 7"
| "phase_value Ph_CapabilityEvidence = 8"
| "phase_value Ph_TopologyEvidence = 9"
| "phase_value Ph_PathAuthority = 10"
| "phase_value Ph_RouteBinding = 11"
| "phase_value Ph_ConstraintBinding = 12"
| "phase_value Ph_ResourceLimits = 13"
| "phase_value Ph_Commit = 14"

primrec phase_name :: "ValidationPhase \<Rightarrow> string" where
  "phase_name Ph_Ok = ''Ok''"
| "phase_name Ph_WireDecode = ''WireDecode''"
| "phase_name Ph_CallerIdentity = ''CallerIdentity''"
| "phase_name Ph_EpochBootScope = ''EpochBootScope''"
| "phase_name Ph_ListLifecycleGeneration = ''ListLifecycleGeneration''"
| "phase_name Ph_Profile = ''Profile''"
| "phase_name Ph_Policy = ''Policy''"
| "phase_name Ph_StructuralSegment = ''StructuralSegment''"
| "phase_name Ph_CapabilityEvidence = ''CapabilityEvidence''"
| "phase_name Ph_TopologyEvidence = ''TopologyEvidence''"
| "phase_name Ph_PathAuthority = ''PathAuthority''"
| "phase_name Ph_RouteBinding = ''RouteBinding''"
| "phase_name Ph_ConstraintBinding = ''ConstraintBinding''"
| "phase_name Ph_ResourceLimits = ''ResourceLimits''"
| "phase_name Ph_Commit = ''Commit''"

lemma phase_value_inj [simp]: "phase_value p = phase_value q \<longleftrightarrow> p = q"
  by (cases p; cases q) simp_all

instantiation ValidationPhase :: linorder
begin

definition less_eq_ValidationPhase :: "ValidationPhase \<Rightarrow> ValidationPhase \<Rightarrow> bool" where
  "p \<le> q \<longleftrightarrow> phase_value p \<le> phase_value q"

definition less_ValidationPhase :: "ValidationPhase \<Rightarrow> ValidationPhase \<Rightarrow> bool" where
  "p < q \<longleftrightarrow> phase_value p < phase_value q"

instance
  by standard (auto simp: less_eq_ValidationPhase_def less_ValidationPhase_def)

end

section \<open>Codes\<close>

type_synonym ReasonCode = u16

abbreviation RC_Ok :: ReasonCode where "RC_Ok \<equiv> 0"
abbreviation RC_WireMagicMismatch :: ReasonCode where "RC_WireMagicMismatch \<equiv> 1"
abbreviation RC_WireUnsupportedVersion :: ReasonCode where "RC_WireUnsupportedVersion \<equiv> 2"
abbreviation RC_WireUnknownMessageId :: ReasonCode where "RC_WireUnknownMessageId \<equiv> 3"
abbreviation RC_WireMalformedFrame :: ReasonCode where "RC_WireMalformedFrame \<equiv> 4"
abbreviation RC_WireHeaderTruncated :: ReasonCode where "RC_WireHeaderTruncated \<equiv> 5"
abbreviation RC_WirePayloadLengthMismatch :: ReasonCode where "RC_WirePayloadLengthMismatch \<equiv> 6"
abbreviation RC_WireIntegrityMismatch :: ReasonCode where "RC_WireIntegrityMismatch \<equiv> 7"
abbreviation RC_WireTrailingBytes :: ReasonCode where "RC_WireTrailingBytes \<equiv> 8"
abbreviation RC_WireUnknownEnumValue :: ReasonCode where "RC_WireUnknownEnumValue \<equiv> 9"
abbreviation RC_WireUnsupportedFlags :: ReasonCode where "RC_WireUnsupportedFlags \<equiv> 10"
abbreviation RC_WireAssemblyOverflow :: ReasonCode where "RC_WireAssemblyOverflow \<equiv> 11"
abbreviation RC_WireFieldOutOfRange :: ReasonCode where "RC_WireFieldOutOfRange \<equiv> 12"
abbreviation RC_CallerMissingPublisher :: ReasonCode where "RC_CallerMissingPublisher \<equiv> 40"
abbreviation RC_CallerUnknownPublisher :: ReasonCode where "RC_CallerUnknownPublisher \<equiv> 41"
abbreviation RC_CallerFencedPublisher :: ReasonCode where "RC_CallerFencedPublisher \<equiv> 42"
abbreviation RC_CallerMissingWorkerBoot :: ReasonCode where "RC_CallerMissingWorkerBoot \<equiv> 43"
abbreviation RC_CallerStaleWorkerBoot :: ReasonCode where "RC_CallerStaleWorkerBoot \<equiv> 44"
abbreviation RC_CallerMissingMutationAttempt :: ReasonCode where "RC_CallerMissingMutationAttempt \<equiv> 45"
abbreviation RC_CallerMutationAttemptReuseMismatch :: ReasonCode where "RC_CallerMutationAttemptReuseMismatch \<equiv> 46"
abbreviation RC_CallerMissingScope :: ReasonCode where "RC_CallerMissingScope \<equiv> 47"
abbreviation RC_CallerScopeMismatch :: ReasonCode where "RC_CallerScopeMismatch \<equiv> 48"
abbreviation RC_CallerInvalidIdentity :: ReasonCode where "RC_CallerInvalidIdentity \<equiv> 49"
abbreviation RC_EpochInvalid :: ReasonCode where "RC_EpochInvalid \<equiv> 80"
abbreviation RC_EpochStale :: ReasonCode where "RC_EpochStale \<equiv> 81"
abbreviation RC_EpochExhausted :: ReasonCode where "RC_EpochExhausted \<equiv> 82"
abbreviation RC_BootUnknown :: ReasonCode where "RC_BootUnknown \<equiv> 83"
abbreviation RC_BootAlreadyFenced :: ReasonCode where "RC_BootAlreadyFenced \<equiv> 84"
abbreviation RC_ScopeNotPermitted :: ReasonCode where "RC_ScopeNotPermitted \<equiv> 85"
abbreviation RC_ScopeMismatch :: ReasonCode where "RC_ScopeMismatch \<equiv> 86"
abbreviation RC_ListIdInvalid :: ReasonCode where "RC_ListIdInvalid \<equiv> 120"
abbreviation RC_ListNotFound :: ReasonCode where "RC_ListNotFound \<equiv> 121"
abbreviation RC_ListAlreadyExists :: ReasonCode where "RC_ListAlreadyExists \<equiv> 122"
abbreviation RC_ListGenerationInvalid :: ReasonCode where "RC_ListGenerationInvalid \<equiv> 123"
abbreviation RC_ListGenerationConflict :: ReasonCode where "RC_ListGenerationConflict \<equiv> 124"
abbreviation RC_ListGenerationExhausted :: ReasonCode where "RC_ListGenerationExhausted \<equiv> 125"
abbreviation RC_ListGenerationRegressed :: ReasonCode where "RC_ListGenerationRegressed \<equiv> 126"
abbreviation RC_LifecycleTransitionDenied :: ReasonCode where "RC_LifecycleTransitionDenied \<equiv> 127"
abbreviation RC_ListRetired :: ReasonCode where "RC_ListRetired \<equiv> 128"
abbreviation RC_ListRevoked :: ReasonCode where "RC_ListRevoked \<equiv> 129"
abbreviation RC_ListWithdrawn :: ReasonCode where "RC_ListWithdrawn \<equiv> 130"
abbreviation RC_ListSuperseded :: ReasonCode where "RC_ListSuperseded \<equiv> 131"
abbreviation RC_ListEmptyNotPermitted :: ReasonCode where "RC_ListEmptyNotPermitted \<equiv> 132"
abbreviation RC_ListSupersedesUnknown :: ReasonCode where "RC_ListSupersedesUnknown \<equiv> 133"
abbreviation RC_ListKeyMismatch :: ReasonCode where "RC_ListKeyMismatch \<equiv> 134"
abbreviation RC_ListLineageMismatch :: ReasonCode where "RC_ListLineageMismatch \<equiv> 135"
abbreviation RC_ProfileUnknown :: ReasonCode where "RC_ProfileUnknown \<equiv> 170"
abbreviation RC_ProfileIdInvalid :: ReasonCode where "RC_ProfileIdInvalid \<equiv> 171"
abbreviation RC_ProfileGenerationInvalid :: ReasonCode where "RC_ProfileGenerationInvalid \<equiv> 172"
abbreviation RC_ProfileGenerationMismatch :: ReasonCode where "RC_ProfileGenerationMismatch \<equiv> 173"
abbreviation RC_ProfileKindNotAllowed :: ReasonCode where "RC_ProfileKindNotAllowed \<equiv> 174"
abbreviation RC_ProfilePayloadWidthExceeded :: ReasonCode where "RC_ProfilePayloadWidthExceeded \<equiv> 175"
abbreviation RC_ProfileMaxDepthExceeded :: ReasonCode where "RC_ProfileMaxDepthExceeded \<equiv> 176"
abbreviation RC_ProfileRepeatNotPermitted :: ReasonCode where "RC_ProfileRepeatNotPermitted \<equiv> 177"
abbreviation RC_ProfileEmptyNotPermitted :: ReasonCode where "RC_ProfileEmptyNotPermitted \<equiv> 178"
abbreviation RC_ProfileEncodingUnsupported :: ReasonCode where "RC_ProfileEncodingUnsupported \<equiv> 179"
abbreviation RC_ProfileKindMismatch :: ReasonCode where "RC_ProfileKindMismatch \<equiv> 180"
abbreviation RC_ProfileDigestMismatch :: ReasonCode where "RC_ProfileDigestMismatch \<equiv> 181"
abbreviation RC_ProfileStrictnessUnsupported :: ReasonCode where "RC_ProfileStrictnessUnsupported \<equiv> 182"
abbreviation RC_PolicyUnknown :: ReasonCode where "RC_PolicyUnknown \<equiv> 210"
abbreviation RC_PolicyIdInvalid :: ReasonCode where "RC_PolicyIdInvalid \<equiv> 211"
abbreviation RC_PolicyGenerationInvalid :: ReasonCode where "RC_PolicyGenerationInvalid \<equiv> 212"
abbreviation RC_PolicyGenerationMismatch :: ReasonCode where "RC_PolicyGenerationMismatch \<equiv> 213"
abbreviation RC_PolicyDeniedProfile :: ReasonCode where "RC_PolicyDeniedProfile \<equiv> 214"
abbreviation RC_PolicyDeniedSegmentKind :: ReasonCode where "RC_PolicyDeniedSegmentKind \<equiv> 215"
abbreviation RC_PolicyMaxDepthExceeded :: ReasonCode where "RC_PolicyMaxDepthExceeded \<equiv> 216"
abbreviation RC_PolicyRequiredEntityMissing :: ReasonCode where "RC_PolicyRequiredEntityMissing \<equiv> 217"
abbreviation RC_PolicyForbiddenEntityPresent :: ReasonCode where "RC_PolicyForbiddenEntityPresent \<equiv> 218"
abbreviation RC_PolicyOwnershipMismatch :: ReasonCode where "RC_PolicyOwnershipMismatch \<equiv> 219"
abbreviation RC_PolicyReplacementDenied :: ReasonCode where "RC_PolicyReplacementDenied \<equiv> 220"
abbreviation RC_PolicyDerivationDenied :: ReasonCode where "RC_PolicyDerivationDenied \<equiv> 221"
abbreviation RC_PolicyDigestMismatch :: ReasonCode where "RC_PolicyDigestMismatch \<equiv> 222"
abbreviation RC_PolicyStrictnessRequired :: ReasonCode where "RC_PolicyStrictnessRequired \<equiv> 223"
abbreviation RC_SegmentKindInvalid :: ReasonCode where "RC_SegmentKindInvalid \<equiv> 250"
abbreviation RC_SegmentIdInvalid :: ReasonCode where "RC_SegmentIdInvalid \<equiv> 251"
abbreviation RC_SegmentGenerationInvalid :: ReasonCode where "RC_SegmentGenerationInvalid \<equiv> 252"
abbreviation RC_SegmentPayloadTooLarge :: ReasonCode where "RC_SegmentPayloadTooLarge \<equiv> 253"
abbreviation RC_SegmentReservedFieldSet :: ReasonCode where "RC_SegmentReservedFieldSet \<equiv> 254"
abbreviation RC_SegmentMissingBinding :: ReasonCode where "RC_SegmentMissingBinding \<equiv> 255"
abbreviation RC_SegmentUnexpectedBinding :: ReasonCode where "RC_SegmentUnexpectedBinding \<equiv> 256"
abbreviation RC_SegmentBindingIncomplete :: ReasonCode where "RC_SegmentBindingIncomplete \<equiv> 257"
abbreviation RC_SegmentEncodingMismatch :: ReasonCode where "RC_SegmentEncodingMismatch \<equiv> 258"
abbreviation RC_SegmentEntityUnknown :: ReasonCode where "RC_SegmentEntityUnknown \<equiv> 259"
abbreviation RC_SegmentEntityGenerationMismatch :: ReasonCode where "RC_SegmentEntityGenerationMismatch \<equiv> 260"
abbreviation RC_SegmentEntityKindMismatch :: ReasonCode where "RC_SegmentEntityKindMismatch \<equiv> 261"
abbreviation RC_SegmentCountMismatch :: ReasonCode where "RC_SegmentCountMismatch \<equiv> 262"
abbreviation RC_SegmentDuplicateConsecutive :: ReasonCode where "RC_SegmentDuplicateConsecutive \<equiv> 263"
abbreviation RC_SegmentDuplicateNonConsecutive :: ReasonCode where "RC_SegmentDuplicateNonConsecutive \<equiv> 264"
abbreviation RC_SegmentAggregateDigestMismatch :: ReasonCode where "RC_SegmentAggregateDigestMismatch \<equiv> 265"
abbreviation RC_CapabilityMissing :: ReasonCode where "RC_CapabilityMissing \<equiv> 290"
abbreviation RC_CapabilityUnsupported :: ReasonCode where "RC_CapabilityUnsupported \<equiv> 291"
abbreviation RC_CapabilityGenerationMismatch :: ReasonCode where "RC_CapabilityGenerationMismatch \<equiv> 292"
abbreviation RC_CapabilityEvidenceUnavailable :: ReasonCode where "RC_CapabilityEvidenceUnavailable \<equiv> 293"
abbreviation RC_CapabilityKeyInvalid :: ReasonCode where "RC_CapabilityKeyInvalid \<equiv> 294"
abbreviation RC_TopologyGenerationInvalid :: ReasonCode where "RC_TopologyGenerationInvalid \<equiv> 320"
abbreviation RC_TopologyGenerationMismatch :: ReasonCode where "RC_TopologyGenerationMismatch \<equiv> 321"
abbreviation RC_TopologyAdjacencyUnknown :: ReasonCode where "RC_TopologyAdjacencyUnknown \<equiv> 322"
abbreviation RC_TopologyAdjacencyStale :: ReasonCode where "RC_TopologyAdjacencyStale \<equiv> 323"
abbreviation RC_TopologyEvidenceUnavailable :: ReasonCode where "RC_TopologyEvidenceUnavailable \<equiv> 324"
abbreviation RC_TopologyAdjacencyKindMismatch :: ReasonCode where "RC_TopologyAdjacencyKindMismatch \<equiv> 325"
abbreviation RC_PathIdInvalid :: ReasonCode where "RC_PathIdInvalid \<equiv> 350"
abbreviation RC_PathUnknown :: ReasonCode where "RC_PathUnknown \<equiv> 351"
abbreviation RC_PathAuthorityGenerationInvalid :: ReasonCode where "RC_PathAuthorityGenerationInvalid \<equiv> 352"
abbreviation RC_PathAuthorityGenerationStale :: ReasonCode where "RC_PathAuthorityGenerationStale \<equiv> 353"
abbreviation RC_PathAuthorityDenied :: ReasonCode where "RC_PathAuthorityDenied \<equiv> 354"
abbreviation RC_PathBindingMissing :: ReasonCode where "RC_PathBindingMissing \<equiv> 355"
abbreviation RC_PathBelongsToOtherScope :: ReasonCode where "RC_PathBelongsToOtherScope \<equiv> 356"
abbreviation RC_RouteBindingUnknown :: ReasonCode where "RC_RouteBindingUnknown \<equiv> 380"
abbreviation RC_RouteBindingGenerationStale :: ReasonCode where "RC_RouteBindingGenerationStale \<equiv> 381"
abbreviation RC_RouteBindingInvalid :: ReasonCode where "RC_RouteBindingInvalid \<equiv> 382"
abbreviation RC_ConstraintBindingUnknown :: ReasonCode where "RC_ConstraintBindingUnknown \<equiv> 400"
abbreviation RC_ConstraintBindingGenerationStale :: ReasonCode where "RC_ConstraintBindingGenerationStale \<equiv> 401"
abbreviation RC_ConstraintBindingInvalid :: ReasonCode where "RC_ConstraintBindingInvalid \<equiv> 402"
abbreviation RC_LimitMaxLists :: ReasonCode where "RC_LimitMaxLists \<equiv> 420"
abbreviation RC_LimitMaxSegmentsPerList :: ReasonCode where "RC_LimitMaxSegmentsPerList \<equiv> 421"
abbreviation RC_LimitMaxSegmentPayloadBytes :: ReasonCode where "RC_LimitMaxSegmentPayloadBytes \<equiv> 422"
abbreviation RC_LimitMaxProfiles :: ReasonCode where "RC_LimitMaxProfiles \<equiv> 423"
abbreviation RC_LimitMaxPolicies :: ReasonCode where "RC_LimitMaxPolicies \<equiv> 424"
abbreviation RC_LimitMaxBatchSize :: ReasonCode where "RC_LimitMaxBatchSize \<equiv> 425"
abbreviation RC_LimitMaxPublishers :: ReasonCode where "RC_LimitMaxPublishers \<equiv> 426"
abbreviation RC_LimitMaxFrameBytes :: ReasonCode where "RC_LimitMaxFrameBytes \<equiv> 427"
abbreviation RC_LimitMaxHistory :: ReasonCode where "RC_LimitMaxHistory \<equiv> 428"
abbreviation RC_LimitMaxExplanationEntries :: ReasonCode where "RC_LimitMaxExplanationEntries \<equiv> 429"
abbreviation RC_LimitMaxPersistenceRecordBytes :: ReasonCode where "RC_LimitMaxPersistenceRecordBytes \<equiv> 430"
abbreviation RC_LimitMaxReasons :: ReasonCode where "RC_LimitMaxReasons \<equiv> 431"
abbreviation RC_LimitMaxDiffEntries :: ReasonCode where "RC_LimitMaxDiffEntries \<equiv> 432"
abbreviation RC_LimitMaxTotalSegments :: ReasonCode where "RC_LimitMaxTotalSegments \<equiv> 433"
abbreviation RC_LimitMaxAttemptRecords :: ReasonCode where "RC_LimitMaxAttemptRecords \<equiv> 434"
abbreviation RC_LimitMaxEvidenceRecords :: ReasonCode where "RC_LimitMaxEvidenceRecords \<equiv> 435"
abbreviation RC_CommitWatermarkChanged :: ReasonCode where "RC_CommitWatermarkChanged \<equiv> 470"
abbreviation RC_CommitConflict :: ReasonCode where "RC_CommitConflict \<equiv> 471"
abbreviation RC_CommitPersistenceFailure :: ReasonCode where "RC_CommitPersistenceFailure \<equiv> 472"
abbreviation RC_CommitGenerationExhausted :: ReasonCode where "RC_CommitGenerationExhausted \<equiv> 473"
abbreviation RC_CommitReplayPayloadMismatch :: ReasonCode where "RC_CommitReplayPayloadMismatch \<equiv> 474"
abbreviation RC_CommitAborted :: ReasonCode where "RC_CommitAborted \<equiv> 475"
abbreviation RC_CommitNotDurable :: ReasonCode where "RC_CommitNotDurable \<equiv> 476"
abbreviation RC_CurrentnessCurrent :: ReasonCode where "RC_CurrentnessCurrent \<equiv> 520"
abbreviation RC_CurrentnessStaleProfile :: ReasonCode where "RC_CurrentnessStaleProfile \<equiv> 521"
abbreviation RC_CurrentnessStalePolicy :: ReasonCode where "RC_CurrentnessStalePolicy \<equiv> 522"
abbreviation RC_CurrentnessStaleTopology :: ReasonCode where "RC_CurrentnessStaleTopology \<equiv> 523"
abbreviation RC_CurrentnessStaleCapability :: ReasonCode where "RC_CurrentnessStaleCapability \<equiv> 524"
abbreviation RC_CurrentnessStalePathAuthority :: ReasonCode where "RC_CurrentnessStalePathAuthority \<equiv> 525"
abbreviation RC_CurrentnessStaleRouteBinding :: ReasonCode where "RC_CurrentnessStaleRouteBinding \<equiv> 526"
abbreviation RC_CurrentnessStaleConstraintBinding :: ReasonCode where "RC_CurrentnessStaleConstraintBinding \<equiv> 527"
abbreviation RC_CurrentnessStaleEpoch :: ReasonCode where "RC_CurrentnessStaleEpoch \<equiv> 528"
abbreviation RC_CurrentnessFencedPublisher :: ReasonCode where "RC_CurrentnessFencedPublisher \<equiv> 529"
abbreviation RC_CurrentnessRevalidationRequired :: ReasonCode where "RC_CurrentnessRevalidationRequired \<equiv> 530"
abbreviation RC_CurrentnessUnknown :: ReasonCode where "RC_CurrentnessUnknown \<equiv> 531"
abbreviation RC_PersistBadMagic :: ReasonCode where "RC_PersistBadMagic \<equiv> 560"
abbreviation RC_PersistBadVersion :: ReasonCode where "RC_PersistBadVersion \<equiv> 561"
abbreviation RC_PersistTruncated :: ReasonCode where "RC_PersistTruncated \<equiv> 562"
abbreviation RC_PersistCorrupt :: ReasonCode where "RC_PersistCorrupt \<equiv> 563"
abbreviation RC_PersistBadIntegrity :: ReasonCode where "RC_PersistBadIntegrity \<equiv> 564"
abbreviation RC_PersistBadRecord :: ReasonCode where "RC_PersistBadRecord \<equiv> 565"
abbreviation RC_PersistDuplicateIdentity :: ReasonCode where "RC_PersistDuplicateIdentity \<equiv> 566"
abbreviation RC_PersistImpossibleGeneration :: ReasonCode where "RC_PersistImpossibleGeneration \<equiv> 567"
abbreviation RC_PersistDanglingReference :: ReasonCode where "RC_PersistDanglingReference \<equiv> 568"
abbreviation RC_PersistAbsurdCount :: ReasonCode where "RC_PersistAbsurdCount \<equiv> 569"
abbreviation RC_PersistTrailingBytes :: ReasonCode where "RC_PersistTrailingBytes \<equiv> 570"
abbreviation RC_PersistIoError :: ReasonCode where "RC_PersistIoError \<equiv> 571"
abbreviation RC_PersistIndexInconsistent :: ReasonCode where "RC_PersistIndexInconsistent \<equiv> 572"
abbreviation RC_PersistCountMismatch :: ReasonCode where "RC_PersistCountMismatch \<equiv> 573"
abbreviation RC_PersistOverflow :: ReasonCode where "RC_PersistOverflow \<equiv> 574"
abbreviation RC_PersistKindInvalid :: ReasonCode where "RC_PersistKindInvalid \<equiv> 575"
abbreviation RC_PersistProfileInvalid :: ReasonCode where "RC_PersistProfileInvalid \<equiv> 576"
abbreviation RC_PersistEncodingInvalid :: ReasonCode where "RC_PersistEncodingInvalid \<equiv> 577"
abbreviation RC_PersistDepthInvalid :: ReasonCode where "RC_PersistDepthInvalid \<equiv> 578"
abbreviation RC_PersistDigestMismatch :: ReasonCode where "RC_PersistDigestMismatch \<equiv> 579"
abbreviation RC_PersistEmpty :: ReasonCode where "RC_PersistEmpty \<equiv> 580"
abbreviation RC_InvalidArgument :: ReasonCode where "RC_InvalidArgument \<equiv> 620"
abbreviation RC_InternalError :: ReasonCode where "RC_InternalError \<equiv> 621"
abbreviation RC_ResourceExhausted :: ReasonCode where "RC_ResourceExhausted \<equiv> 622"
abbreviation RC_NotSupported :: ReasonCode where "RC_NotSupported \<equiv> 623"

section \<open>The code table\<close>

record CodeName =
  cn_code :: ReasonCode
  cn_name :: string
  cn_phase :: ValidationPhase

definition code_entry :: "ReasonCode \<Rightarrow> string \<Rightarrow> ValidationPhase \<Rightarrow> CodeName" where
  "code_entry c n p = \<lparr>cn_code = c, cn_name = n, cn_phase = p\<rparr>"

definition kCodes :: "CodeName list" where
  "kCodes = [
     code_entry RC_Ok ''Ok'' Ph_Ok,
     code_entry RC_WireMagicMismatch ''WireMagicMismatch'' Ph_WireDecode,
     code_entry RC_WireUnsupportedVersion ''WireUnsupportedVersion'' Ph_WireDecode,
     code_entry RC_WireUnknownMessageId ''WireUnknownMessageId'' Ph_WireDecode,
     code_entry RC_WireMalformedFrame ''WireMalformedFrame'' Ph_WireDecode,
     code_entry RC_WireHeaderTruncated ''WireHeaderTruncated'' Ph_WireDecode,
     code_entry RC_WirePayloadLengthMismatch ''WirePayloadLengthMismatch'' Ph_WireDecode,
     code_entry RC_WireIntegrityMismatch ''WireIntegrityMismatch'' Ph_WireDecode,
     code_entry RC_WireTrailingBytes ''WireTrailingBytes'' Ph_WireDecode,
     code_entry RC_WireUnknownEnumValue ''WireUnknownEnumValue'' Ph_WireDecode,
     code_entry RC_WireUnsupportedFlags ''WireUnsupportedFlags'' Ph_WireDecode,
     code_entry RC_WireAssemblyOverflow ''WireAssemblyOverflow'' Ph_WireDecode,
     code_entry RC_WireFieldOutOfRange ''WireFieldOutOfRange'' Ph_WireDecode,
     code_entry RC_CallerMissingPublisher ''CallerMissingPublisher'' Ph_CallerIdentity,
     code_entry RC_CallerUnknownPublisher ''CallerUnknownPublisher'' Ph_CallerIdentity,
     code_entry RC_CallerFencedPublisher ''CallerFencedPublisher'' Ph_CallerIdentity,
     code_entry RC_CallerMissingWorkerBoot ''CallerMissingWorkerBoot'' Ph_CallerIdentity,
     code_entry RC_CallerStaleWorkerBoot ''CallerStaleWorkerBoot'' Ph_CallerIdentity,
     code_entry RC_CallerMissingMutationAttempt ''CallerMissingMutationAttempt'' Ph_CallerIdentity,
     code_entry RC_CallerMutationAttemptReuseMismatch ''CallerMutationAttemptReuseMismatch'' Ph_CallerIdentity,
     code_entry RC_CallerMissingScope ''CallerMissingScope'' Ph_CallerIdentity,
     code_entry RC_CallerScopeMismatch ''CallerScopeMismatch'' Ph_CallerIdentity,
     code_entry RC_CallerInvalidIdentity ''CallerInvalidIdentity'' Ph_CallerIdentity,
     code_entry RC_EpochInvalid ''EpochInvalid'' Ph_EpochBootScope,
     code_entry RC_EpochStale ''EpochStale'' Ph_EpochBootScope,
     code_entry RC_EpochExhausted ''EpochExhausted'' Ph_EpochBootScope,
     code_entry RC_BootUnknown ''BootUnknown'' Ph_EpochBootScope,
     code_entry RC_BootAlreadyFenced ''BootAlreadyFenced'' Ph_EpochBootScope,
     code_entry RC_ScopeNotPermitted ''ScopeNotPermitted'' Ph_EpochBootScope,
     code_entry RC_ScopeMismatch ''ScopeMismatch'' Ph_EpochBootScope,
     code_entry RC_ListIdInvalid ''ListIdInvalid'' Ph_ListLifecycleGeneration,
     code_entry RC_ListNotFound ''ListNotFound'' Ph_ListLifecycleGeneration,
     code_entry RC_ListAlreadyExists ''ListAlreadyExists'' Ph_ListLifecycleGeneration,
     code_entry RC_ListGenerationInvalid ''ListGenerationInvalid'' Ph_ListLifecycleGeneration,
     code_entry RC_ListGenerationConflict ''ListGenerationConflict'' Ph_ListLifecycleGeneration,
     code_entry RC_ListGenerationExhausted ''ListGenerationExhausted'' Ph_ListLifecycleGeneration,
     code_entry RC_ListGenerationRegressed ''ListGenerationRegressed'' Ph_ListLifecycleGeneration,
     code_entry RC_LifecycleTransitionDenied ''LifecycleTransitionDenied'' Ph_ListLifecycleGeneration,
     code_entry RC_ListRetired ''ListRetired'' Ph_ListLifecycleGeneration,
     code_entry RC_ListRevoked ''ListRevoked'' Ph_ListLifecycleGeneration,
     code_entry RC_ListWithdrawn ''ListWithdrawn'' Ph_ListLifecycleGeneration,
     code_entry RC_ListSuperseded ''ListSuperseded'' Ph_ListLifecycleGeneration,
     code_entry RC_ListEmptyNotPermitted ''ListEmptyNotPermitted'' Ph_ListLifecycleGeneration,
     code_entry RC_ListSupersedesUnknown ''ListSupersedesUnknown'' Ph_ListLifecycleGeneration,
     code_entry RC_ListKeyMismatch ''ListKeyMismatch'' Ph_ListLifecycleGeneration,
     code_entry RC_ListLineageMismatch ''ListLineageMismatch'' Ph_ListLifecycleGeneration,
     code_entry RC_ProfileUnknown ''ProfileUnknown'' Ph_Profile,
     code_entry RC_ProfileIdInvalid ''ProfileIdInvalid'' Ph_Profile,
     code_entry RC_ProfileGenerationInvalid ''ProfileGenerationInvalid'' Ph_Profile,
     code_entry RC_ProfileGenerationMismatch ''ProfileGenerationMismatch'' Ph_Profile,
     code_entry RC_ProfileKindNotAllowed ''ProfileKindNotAllowed'' Ph_Profile,
     code_entry RC_ProfilePayloadWidthExceeded ''ProfilePayloadWidthExceeded'' Ph_Profile,
     code_entry RC_ProfileMaxDepthExceeded ''ProfileMaxDepthExceeded'' Ph_Profile,
     code_entry RC_ProfileRepeatNotPermitted ''ProfileRepeatNotPermitted'' Ph_Profile,
     code_entry RC_ProfileEmptyNotPermitted ''ProfileEmptyNotPermitted'' Ph_Profile,
     code_entry RC_ProfileEncodingUnsupported ''ProfileEncodingUnsupported'' Ph_Profile,
     code_entry RC_ProfileKindMismatch ''ProfileKindMismatch'' Ph_Profile,
     code_entry RC_ProfileDigestMismatch ''ProfileDigestMismatch'' Ph_Profile,
     code_entry RC_ProfileStrictnessUnsupported ''ProfileStrictnessUnsupported'' Ph_Profile,
     code_entry RC_PolicyUnknown ''PolicyUnknown'' Ph_Policy,
     code_entry RC_PolicyIdInvalid ''PolicyIdInvalid'' Ph_Policy,
     code_entry RC_PolicyGenerationInvalid ''PolicyGenerationInvalid'' Ph_Policy,
     code_entry RC_PolicyGenerationMismatch ''PolicyGenerationMismatch'' Ph_Policy,
     code_entry RC_PolicyDeniedProfile ''PolicyDeniedProfile'' Ph_Policy,
     code_entry RC_PolicyDeniedSegmentKind ''PolicyDeniedSegmentKind'' Ph_Policy,
     code_entry RC_PolicyMaxDepthExceeded ''PolicyMaxDepthExceeded'' Ph_Policy,
     code_entry RC_PolicyRequiredEntityMissing ''PolicyRequiredEntityMissing'' Ph_Policy,
     code_entry RC_PolicyForbiddenEntityPresent ''PolicyForbiddenEntityPresent'' Ph_Policy,
     code_entry RC_PolicyOwnershipMismatch ''PolicyOwnershipMismatch'' Ph_Policy,
     code_entry RC_PolicyReplacementDenied ''PolicyReplacementDenied'' Ph_Policy,
     code_entry RC_PolicyDerivationDenied ''PolicyDerivationDenied'' Ph_Policy,
     code_entry RC_PolicyDigestMismatch ''PolicyDigestMismatch'' Ph_Policy,
     code_entry RC_PolicyStrictnessRequired ''PolicyStrictnessRequired'' Ph_Policy,
     code_entry RC_SegmentKindInvalid ''SegmentKindInvalid'' Ph_StructuralSegment,
     code_entry RC_SegmentIdInvalid ''SegmentIdInvalid'' Ph_StructuralSegment,
     code_entry RC_SegmentGenerationInvalid ''SegmentGenerationInvalid'' Ph_StructuralSegment,
     code_entry RC_SegmentPayloadTooLarge ''SegmentPayloadTooLarge'' Ph_StructuralSegment,
     code_entry RC_SegmentReservedFieldSet ''SegmentReservedFieldSet'' Ph_StructuralSegment,
     code_entry RC_SegmentMissingBinding ''SegmentMissingBinding'' Ph_StructuralSegment,
     code_entry RC_SegmentUnexpectedBinding ''SegmentUnexpectedBinding'' Ph_StructuralSegment,
     code_entry RC_SegmentBindingIncomplete ''SegmentBindingIncomplete'' Ph_StructuralSegment,
     code_entry RC_SegmentEncodingMismatch ''SegmentEncodingMismatch'' Ph_StructuralSegment,
     code_entry RC_SegmentEntityUnknown ''SegmentEntityUnknown'' Ph_StructuralSegment,
     code_entry RC_SegmentEntityGenerationMismatch ''SegmentEntityGenerationMismatch'' Ph_StructuralSegment,
     code_entry RC_SegmentEntityKindMismatch ''SegmentEntityKindMismatch'' Ph_StructuralSegment,
     code_entry RC_SegmentCountMismatch ''SegmentCountMismatch'' Ph_StructuralSegment,
     code_entry RC_SegmentDuplicateConsecutive ''SegmentDuplicateConsecutive'' Ph_StructuralSegment,
     code_entry RC_SegmentDuplicateNonConsecutive ''SegmentDuplicateNonConsecutive'' Ph_StructuralSegment,
     code_entry RC_SegmentAggregateDigestMismatch ''SegmentAggregateDigestMismatch'' Ph_StructuralSegment,
     code_entry RC_CapabilityMissing ''CapabilityMissing'' Ph_CapabilityEvidence,
     code_entry RC_CapabilityUnsupported ''CapabilityUnsupported'' Ph_CapabilityEvidence,
     code_entry RC_CapabilityGenerationMismatch ''CapabilityGenerationMismatch'' Ph_CapabilityEvidence,
     code_entry RC_CapabilityEvidenceUnavailable ''CapabilityEvidenceUnavailable'' Ph_CapabilityEvidence,
     code_entry RC_CapabilityKeyInvalid ''CapabilityKeyInvalid'' Ph_CapabilityEvidence,
     code_entry RC_TopologyGenerationInvalid ''TopologyGenerationInvalid'' Ph_TopologyEvidence,
     code_entry RC_TopologyGenerationMismatch ''TopologyGenerationMismatch'' Ph_TopologyEvidence,
     code_entry RC_TopologyAdjacencyUnknown ''TopologyAdjacencyUnknown'' Ph_TopologyEvidence,
     code_entry RC_TopologyAdjacencyStale ''TopologyAdjacencyStale'' Ph_TopologyEvidence,
     code_entry RC_TopologyEvidenceUnavailable ''TopologyEvidenceUnavailable'' Ph_TopologyEvidence,
     code_entry RC_TopologyAdjacencyKindMismatch ''TopologyAdjacencyKindMismatch'' Ph_TopologyEvidence,
     code_entry RC_PathIdInvalid ''PathIdInvalid'' Ph_PathAuthority,
     code_entry RC_PathUnknown ''PathUnknown'' Ph_PathAuthority,
     code_entry RC_PathAuthorityGenerationInvalid ''PathAuthorityGenerationInvalid'' Ph_PathAuthority,
     code_entry RC_PathAuthorityGenerationStale ''PathAuthorityGenerationStale'' Ph_PathAuthority,
     code_entry RC_PathAuthorityDenied ''PathAuthorityDenied'' Ph_PathAuthority,
     code_entry RC_PathBindingMissing ''PathBindingMissing'' Ph_PathAuthority,
     code_entry RC_PathBelongsToOtherScope ''PathBelongsToOtherScope'' Ph_PathAuthority,
     code_entry RC_RouteBindingUnknown ''RouteBindingUnknown'' Ph_RouteBinding,
     code_entry RC_RouteBindingGenerationStale ''RouteBindingGenerationStale'' Ph_RouteBinding,
     code_entry RC_RouteBindingInvalid ''RouteBindingInvalid'' Ph_RouteBinding,
     code_entry RC_ConstraintBindingUnknown ''ConstraintBindingUnknown'' Ph_ConstraintBinding,
     code_entry RC_ConstraintBindingGenerationStale ''ConstraintBindingGenerationStale'' Ph_ConstraintBinding,
     code_entry RC_ConstraintBindingInvalid ''ConstraintBindingInvalid'' Ph_ConstraintBinding,
     code_entry RC_LimitMaxLists ''LimitMaxLists'' Ph_ResourceLimits,
     code_entry RC_LimitMaxSegmentsPerList ''LimitMaxSegmentsPerList'' Ph_ResourceLimits,
     code_entry RC_LimitMaxSegmentPayloadBytes ''LimitMaxSegmentPayloadBytes'' Ph_ResourceLimits,
     code_entry RC_LimitMaxProfiles ''LimitMaxProfiles'' Ph_ResourceLimits,
     code_entry RC_LimitMaxPolicies ''LimitMaxPolicies'' Ph_ResourceLimits,
     code_entry RC_LimitMaxBatchSize ''LimitMaxBatchSize'' Ph_ResourceLimits,
     code_entry RC_LimitMaxPublishers ''LimitMaxPublishers'' Ph_ResourceLimits,
     code_entry RC_LimitMaxFrameBytes ''LimitMaxFrameBytes'' Ph_ResourceLimits,
     code_entry RC_LimitMaxHistory ''LimitMaxHistory'' Ph_ResourceLimits,
     code_entry RC_LimitMaxExplanationEntries ''LimitMaxExplanationEntries'' Ph_ResourceLimits,
     code_entry RC_LimitMaxPersistenceRecordBytes ''LimitMaxPersistenceRecordBytes'' Ph_ResourceLimits,
     code_entry RC_LimitMaxReasons ''LimitMaxReasons'' Ph_ResourceLimits,
     code_entry RC_LimitMaxDiffEntries ''LimitMaxDiffEntries'' Ph_ResourceLimits,
     code_entry RC_LimitMaxTotalSegments ''LimitMaxTotalSegments'' Ph_ResourceLimits,
     code_entry RC_LimitMaxAttemptRecords ''LimitMaxAttemptRecords'' Ph_ResourceLimits,
     code_entry RC_LimitMaxEvidenceRecords ''LimitMaxEvidenceRecords'' Ph_ResourceLimits,
     code_entry RC_CommitWatermarkChanged ''CommitWatermarkChanged'' Ph_Commit,
     code_entry RC_CommitConflict ''CommitConflict'' Ph_Commit,
     code_entry RC_CommitPersistenceFailure ''CommitPersistenceFailure'' Ph_Commit,
     code_entry RC_CommitGenerationExhausted ''CommitGenerationExhausted'' Ph_Commit,
     code_entry RC_CommitReplayPayloadMismatch ''CommitReplayPayloadMismatch'' Ph_Commit,
     code_entry RC_CommitAborted ''CommitAborted'' Ph_Commit,
     code_entry RC_CommitNotDurable ''CommitNotDurable'' Ph_Commit,
     code_entry RC_CurrentnessCurrent ''CurrentnessCurrent'' Ph_Ok,
     code_entry RC_CurrentnessStaleProfile ''CurrentnessStaleProfile'' Ph_Ok,
     code_entry RC_CurrentnessStalePolicy ''CurrentnessStalePolicy'' Ph_Ok,
     code_entry RC_CurrentnessStaleTopology ''CurrentnessStaleTopology'' Ph_Ok,
     code_entry RC_CurrentnessStaleCapability ''CurrentnessStaleCapability'' Ph_Ok,
     code_entry RC_CurrentnessStalePathAuthority ''CurrentnessStalePathAuthority'' Ph_Ok,
     code_entry RC_CurrentnessStaleRouteBinding ''CurrentnessStaleRouteBinding'' Ph_Ok,
     code_entry RC_CurrentnessStaleConstraintBinding ''CurrentnessStaleConstraintBinding'' Ph_Ok,
     code_entry RC_CurrentnessStaleEpoch ''CurrentnessStaleEpoch'' Ph_Ok,
     code_entry RC_CurrentnessFencedPublisher ''CurrentnessFencedPublisher'' Ph_Ok,
     code_entry RC_CurrentnessRevalidationRequired ''CurrentnessRevalidationRequired'' Ph_Ok,
     code_entry RC_CurrentnessUnknown ''CurrentnessUnknown'' Ph_Ok,
     code_entry RC_PersistBadMagic ''PersistBadMagic'' Ph_Commit,
     code_entry RC_PersistBadVersion ''PersistBadVersion'' Ph_Commit,
     code_entry RC_PersistTruncated ''PersistTruncated'' Ph_Commit,
     code_entry RC_PersistCorrupt ''PersistCorrupt'' Ph_Commit,
     code_entry RC_PersistBadIntegrity ''PersistBadIntegrity'' Ph_Commit,
     code_entry RC_PersistBadRecord ''PersistBadRecord'' Ph_Commit,
     code_entry RC_PersistDuplicateIdentity ''PersistDuplicateIdentity'' Ph_Commit,
     code_entry RC_PersistImpossibleGeneration ''PersistImpossibleGeneration'' Ph_Commit,
     code_entry RC_PersistDanglingReference ''PersistDanglingReference'' Ph_Commit,
     code_entry RC_PersistAbsurdCount ''PersistAbsurdCount'' Ph_Commit,
     code_entry RC_PersistTrailingBytes ''PersistTrailingBytes'' Ph_Commit,
     code_entry RC_PersistIoError ''PersistIoError'' Ph_Commit,
     code_entry RC_PersistIndexInconsistent ''PersistIndexInconsistent'' Ph_Commit,
     code_entry RC_PersistCountMismatch ''PersistCountMismatch'' Ph_Commit,
     code_entry RC_PersistOverflow ''PersistOverflow'' Ph_Commit,
     code_entry RC_PersistKindInvalid ''PersistKindInvalid'' Ph_Commit,
     code_entry RC_PersistProfileInvalid ''PersistProfileInvalid'' Ph_Commit,
     code_entry RC_PersistEncodingInvalid ''PersistEncodingInvalid'' Ph_Commit,
     code_entry RC_PersistDepthInvalid ''PersistDepthInvalid'' Ph_Commit,
     code_entry RC_PersistDigestMismatch ''PersistDigestMismatch'' Ph_Commit,
     code_entry RC_PersistEmpty ''PersistEmpty'' Ph_Commit,
     code_entry RC_InvalidArgument ''InvalidArgument'' Ph_CallerIdentity,
     code_entry RC_InternalError ''InternalError'' Ph_Commit,
     code_entry RC_ResourceExhausted ''ResourceExhausted'' Ph_ResourceLimits,
     code_entry RC_NotSupported ''NotSupported'' Ph_Profile]"

definition code_lookup :: "ReasonCode \<Rightarrow> CodeName option" where
  "code_lookup code = find_key cn_code code kCodes"

definition reason_code_name :: "ReasonCode \<Rightarrow> string" where
  "reason_code_name code =
     (case code_lookup code of Some e \<Rightarrow> cn_name e | None \<Rightarrow> ''UnnamedReason'')"

definition phase_of :: "ReasonCode \<Rightarrow> ValidationPhase" where
  "phase_of code = (case code_lookup code of Some e \<Rightarrow> cn_phase e | None \<Rightarrow> Ph_Commit)"

text \<open>The table is ordered by code, so it lists every code once.\<close>

lemma kCodes_ordered: "successively (<) (map cn_code kCodes)"
  by (simp add: kCodes_def code_entry_def)

lemma kCodes_distinct: "distinct (map cn_code kCodes)"
proof -
  have "sorted_wrt (<) (map cn_code kCodes)"
    using kCodes_ordered by (subst (asm) successively_conv_sorted_wrt) auto
  then show ?thesis by (simp add: strict_sorted_iff)
qed

lemma phase_of_all: "list_all (\<lambda>e. phase_of (cn_code e) = cn_phase e) kCodes"
  by (simp add: list_all_iff phase_of_def code_lookup_def find_key_distinct [OF kCodes_distinct])

lemmas phase_of_table [simp, srf_phase] =
  phase_of_all [unfolded kCodes_def list.pred_inject code_entry_def CodeName.select_convs]

section \<open>Reasons\<close>

record Reason =
  rs_code :: ReasonCode
  rs_index :: u32
  rs_detail :: u64

abbreviation reason :: "ReasonCode \<Rightarrow> u32 \<Rightarrow> u64 \<Rightarrow> Reason" where
  "reason c i d \<equiv> \<lparr>rs_code = c, rs_index = i, rs_detail = d\<rparr>"

definition reason_less :: "Reason \<Rightarrow> Reason \<Rightarrow> bool" where
  "reason_less a b =
     (if rs_code a \<noteq> rs_code b then rs_code a < rs_code b
      else if rs_index a \<noteq> rs_index b then rs_index a < rs_index b
      else rs_detail a < rs_detail b)"

text \<open>The comparator of \<^verbatim>\<open>sort_and_dedup\<close>, and the key that represents it.\<close>

definition reason_before :: "Reason \<Rightarrow> Reason \<Rightarrow> bool" where
  "reason_before a b =
     (let pa = phase_of (rs_code a); pb = phase_of (rs_code b)
      in if pa \<noteq> pb then pa < pb else reason_less a b)"

definition reason_key :: "Reason \<Rightarrow> ValidationPhase \<times> ReasonCode \<times> u32 \<times> u64" where
  "reason_key r = (phase_of (rs_code r), rs_code r, rs_index r, rs_detail r)"

lemma reason_before_key: "reason_before a b \<longleftrightarrow> reason_key a < reason_key b"
  by (auto simp: reason_before_def reason_less_def reason_key_def Let_def less_prod_simp
      dest: order_less_imp_not_eq)

lemma reason_key_inj [simp]: "reason_key a = reason_key b \<longleftrightarrow> a = b"
  by (auto simp: reason_key_def)

section \<open>ValidationResult\<close>

record ValidationResult =
  vr_reasons :: "Reason list"
  vr_limits :: "Limits option"
  vr_truncated :: bool

definition vr_success :: ValidationResult where
  "vr_success = \<lparr>vr_reasons = [], vr_limits = None, vr_truncated = False\<rparr>"

definition set_limits :: "Limits option \<Rightarrow> ValidationResult \<Rightarrow> ValidationResult" where
  "set_limits l v = v\<lparr>vr_limits := l\<rparr>"

definition vr_ok :: "ValidationResult \<Rightarrow> bool" where
  "vr_ok v \<longleftrightarrow> vr_reasons v = []"

definition vr_failed :: "ValidationResult \<Rightarrow> bool" where
  "vr_failed v \<longleftrightarrow> vr_reasons v \<noteq> []"

text \<open>
  \<^verbatim>\<open>std::sort\<close> with the comparator above, then \<^verbatim>\<open>std::unique\<close>, which drops adjacent repeats. The
  comparator is total on distinct reasons, so the sorted order is unique.
\<close>

definition sort_and_dedup :: "ValidationResult \<Rightarrow> ValidationResult" where
  "sort_and_dedup v = v\<lparr>vr_reasons := remdups_adj (sort_key reason_key (vr_reasons v))\<rparr>"

definition vr_cap :: "ValidationResult \<Rightarrow> nat" where
  "vr_cap v = (case vr_limits v of Some l \<Rightarrow> unat (max_reasons l) | None \<Rightarrow> 32)"

definition vr_add :: "ReasonCode \<Rightarrow> u32 \<Rightarrow> u64 \<Rightarrow> ValidationResult \<Rightarrow> ValidationResult" where
  "vr_add code index detail v =
     (if code = RC_Ok then v
      else if length (vr_reasons v) \<ge> vr_cap v then
        (let already = list_ex (\<lambda>r. rs_code r = RC_LimitMaxReasons) (vr_reasons v) in
         if \<not> already \<and> vr_cap v > 0 then
           sort_and_dedup
             (v\<lparr>vr_reasons := butlast (vr_reasons v) @ [reason RC_LimitMaxReasons 0 0],
                vr_truncated := True\<rparr>)
         else if vr_cap v = 0 then v\<lparr>vr_truncated := True\<rparr>
         else v)
      else sort_and_dedup (v\<lparr>vr_reasons := vr_reasons v @ [reason code index detail]\<rparr>))"

definition vr_add_reason :: "Reason \<Rightarrow> ValidationResult \<Rightarrow> ValidationResult" where
  "vr_add_reason r = vr_add (rs_code r) (rs_index r) (rs_detail r)"

text \<open>A sequence of \<^verbatim>\<open>add\<close> calls in program order.\<close>

definition vr_add_all :: "Reason list \<Rightarrow> ValidationResult \<Rightarrow> ValidationResult" where
  "vr_add_all rs v = fold vr_add_reason rs v"

definition vr_failure :: "ReasonCode \<Rightarrow> u32 \<Rightarrow> u64 \<Rightarrow> ValidationResult" where
  "vr_failure code index detail = vr_add code index detail vr_success"

definition absorb :: "ValidationResult \<Rightarrow> ValidationResult \<Rightarrow> ValidationResult" where
  "absorb other v =
     vr_add_all (vr_reasons other) (v\<lparr>vr_truncated := vr_truncated v \<or> vr_truncated other\<rparr>)"

text \<open>
  The overload for a temporary takes over the buffer when nothing was recorded yet and both
  results use the same limits object.
\<close>

definition absorb_move :: "ValidationResult \<Rightarrow> ValidationResult \<Rightarrow> ValidationResult" where
  "absorb_move other v =
     (let v' = v\<lparr>vr_truncated := vr_truncated v \<or> vr_truncated other\<rparr> in
      if vr_reasons v = [] \<and> vr_limits v = vr_limits other
      then sort_and_dedup (v'\<lparr>vr_reasons := vr_reasons other\<rparr>)
      else vr_add_all (vr_reasons other) v')"

definition primary :: "ValidationResult \<Rightarrow> Reason" where
  "primary v = (case vr_reasons v of [] \<Rightarrow> reason RC_Ok 0 0 | r # _ \<Rightarrow> r)"

definition vr_contains :: "ReasonCode \<Rightarrow> ValidationResult \<Rightarrow> bool" where
  "vr_contains code v \<longleftrightarrow> list_ex (\<lambda>r. rs_code r = code) (vr_reasons v)"

definition primary_phase :: "ValidationResult \<Rightarrow> ValidationPhase" where
  "primary_phase v = (case vr_reasons v of [] \<Rightarrow> Ph_Ok | r # _ \<Rightarrow> phase_of (rs_code r))"

definition primary_name :: "ValidationResult \<Rightarrow> string" where
  "primary_name v = (case vr_reasons v of [] \<Rightarrow> ''Ok'' | r # _ \<Rightarrow> reason_code_name (rs_code r))"

lemmas vr_defs = vr_success_def set_limits_def vr_ok_def vr_failed_def vr_cap_def
  vr_add_reason_def vr_failure_def primary_def vr_contains_def primary_phase_def

section \<open>The reason list is ordered, duplicate-free and bounded\<close>

definition vr_wf :: "ValidationResult \<Rightarrow> bool" where
  "vr_wf v \<longleftrightarrow> sorted_wrt reason_before (vr_reasons v) \<and>
     (\<forall>r \<in> set (vr_reasons v). rs_code r \<noteq> RC_Ok) \<and> length (vr_reasons v) \<le> vr_cap v"

lemma sorted_before_iff:
  "sorted_wrt reason_before rs \<longleftrightarrow> sorted (map reason_key rs) \<and> distinct rs"
proof -
  have "sorted_wrt reason_before rs \<longleftrightarrow> sorted_wrt (<) (map reason_key rs)"
    by (simp add: sorted_wrt_map reason_before_key [abs_def])
  also have "\<dots> \<longleftrightarrow> sorted (map reason_key rs) \<and> distinct (map reason_key rs)"
    by (simp add: strict_sorted_iff)
  finally show ?thesis by (simp add: distinct_map inj_on_def)
qed

lemma sorted_distinct_adj:
  "sorted (map f rs) \<Longrightarrow> inj f \<Longrightarrow> distinct (remdups_adj rs)"
  by (induction rs rule: remdups_adj.induct)
     (auto simp: inj_eq dest: order_antisym)

lemma sorted_remdups_adj: "sorted (map f rs) \<Longrightarrow> sorted (map f (remdups_adj rs))"
  by (induction rs rule: remdups_adj.induct) auto

lemma sort_and_dedup_sorted: "sorted_wrt reason_before (vr_reasons (sort_and_dedup v))"
proof -
  have "inj reason_key" by (simp add: inj_def)
  then show ?thesis
    by (simp add: sorted_before_iff sort_and_dedup_def sorted_distinct_adj [where f = reason_key]
        sorted_remdups_adj)
qed

lemma set_sort_and_dedup [simp]: "set (vr_reasons (sort_and_dedup v)) = set (vr_reasons v)"
  by (simp add: sort_and_dedup_def)

lemma length_sort_and_dedup: "length (vr_reasons (sort_and_dedup v)) \<le> length (vr_reasons v)"
  using remdups_adj_length [of "sort_key reason_key (vr_reasons v)"] by (simp add: sort_and_dedup_def)

lemma sort_and_dedup_frame [simp]:
  "vr_limits (sort_and_dedup v) = vr_limits v"
  "vr_truncated (sort_and_dedup v) = vr_truncated v"
  "vr_cap (sort_and_dedup v) = vr_cap v"
  by (simp_all add: sort_and_dedup_def vr_cap_def)

lemma vr_add_limits [simp]: "vr_limits (vr_add c i d v) = vr_limits v"
  by (simp add: vr_add_def Let_def)

lemma vr_add_cap [simp]: "vr_cap (vr_add c i d v) = vr_cap v"
  by (simp add: vr_cap_def)

lemma vr_add_all_limits [simp]: "vr_limits (vr_add_all rs v) = vr_limits v"
  by (induction rs arbitrary: v) (simp_all add: vr_add_all_def vr_add_reason_def)

lemma vr_add_all_cap [simp]: "vr_cap (vr_add_all rs v) = vr_cap v"
  by (simp add: vr_cap_def)

lemma vr_add_all_simps [simp]:
  "vr_add_all [] v = v"
  "vr_add_all (r # rs) v = vr_add_all rs (vr_add_reason r v)"
  "vr_add_all (rs @ ss) v = vr_add_all ss (vr_add_all rs v)"
  by (simp_all add: vr_add_all_def)

lemma vr_wf_add [srf_inv]:
  assumes "vr_wf v"
  shows "vr_wf (vr_add c i d v)"
proof -
  let ?w1 = "v\<lparr>vr_reasons := butlast (vr_reasons v) @ [reason RC_LimitMaxReasons 0 0],
               vr_truncated := True\<rparr>"
  let ?w2 = "v\<lparr>vr_reasons := vr_reasons v @ [reason c i d]\<rparr>"
  have w1: "vr_wf (sort_and_dedup ?w1)" if "length (vr_reasons v) \<ge> vr_cap v" "vr_cap v > 0"
    using assms that length_sort_and_dedup [of ?w1]
    by (auto simp: vr_wf_def sort_and_dedup_sorted vr_cap_def dest: in_set_butlastD)
  have w2: "vr_wf (sort_and_dedup ?w2)" if "length (vr_reasons v) < vr_cap v" "c \<noteq> RC_Ok"
    using assms that length_sort_and_dedup [of ?w2]
    by (auto simp: vr_wf_def sort_and_dedup_sorted vr_cap_def)
  show ?thesis using assms w1 w2
    by (auto simp: vr_add_def Let_def not_le) (auto simp: vr_wf_def vr_cap_def)
qed

lemma vr_wf_add_all [srf_inv]: "vr_wf v \<Longrightarrow> vr_wf (vr_add_all rs v)"
  by (induction rs arbitrary: v) (simp_all add: vr_add_reason_def vr_wf_add)

lemma vr_wf_success [simp]: "vr_wf vr_success" "vr_wf (set_limits l vr_success)"
  by (simp_all add: vr_wf_def vr_defs)

lemma vr_wf_truncated [simp]: "vr_wf (v\<lparr>vr_truncated := b\<rparr>) = vr_wf v"
  by (simp add: vr_wf_def vr_cap_def)

lemma vr_wf_absorb [srf_inv]: "vr_wf v \<Longrightarrow> vr_wf (absorb w v)"
  by (simp add: absorb_def vr_wf_add_all)

section \<open>What a result reports\<close>

lemma sort_and_dedup_empty [simp]: "vr_reasons (sort_and_dedup v) = [] \<longleftrightarrow> vr_reasons v = []"
  by (metis set_empty set_sort_and_dedup)

lemma vr_add_empty:
  "vr_reasons (vr_add c i d v) = [] \<longleftrightarrow> vr_reasons v = [] \<and> (c = RC_Ok \<or> vr_cap v = 0)"
  by (auto simp: vr_add_def Let_def)

lemma vr_ok_add_all:
  assumes "vr_cap v > 0"
  shows "vr_ok (vr_add_all rs v) \<longleftrightarrow> vr_ok v \<and> (\<forall>r \<in> set rs. rs_code r = RC_Ok)"
  using assms
  by (induction rs arbitrary: v) (auto simp: vr_ok_def vr_add_reason_def vr_add_empty)

lemma vr_add_room:
  assumes "c \<noteq> RC_Ok" and "length (vr_reasons v) < vr_cap v"
  shows "set (vr_reasons (vr_add c i d v)) = insert (reason c i d) (set (vr_reasons v))"
    and "vr_truncated (vr_add c i d v) = vr_truncated v"
  using assms by (auto simp: vr_add_def)

lemma vr_wf_length: "vr_wf v \<Longrightarrow> length (vr_reasons v) = card (set (vr_reasons v))"
  by (simp add: vr_wf_def sorted_before_iff distinct_card)

lemma vr_add_all_room:
  assumes "vr_wf v" and "\<forall>r \<in> set rs. rs_code r \<noteq> RC_Ok"
    and "card (set (vr_reasons v) \<union> set rs) < vr_cap v"
  shows "set (vr_reasons (vr_add_all rs v)) = set (vr_reasons v) \<union> set rs \<and>
         vr_truncated (vr_add_all rs v) = vr_truncated v"
  using assms
proof (induction rs arbitrary: v)
  case Nil
  then show ?case by simp
next
  case (Cons r rs)
  let ?v = "vr_add_reason r v"
  have "card (set (vr_reasons v)) \<le> card (set (vr_reasons v) \<union> set (r # rs))"
    by (rule card_mono) auto
  then have room: "length (vr_reasons v) < vr_cap v"
    using Cons.prems by (simp add: vr_wf_length)
  have set_v: "set (vr_reasons ?v) = insert r (set (vr_reasons v))"
    and tr: "vr_truncated ?v = vr_truncated v"
    using vr_add_room [OF _ room] Cons.prems(2) by (cases r, simp_all add: vr_add_reason_def)+
  have "set (vr_reasons ?v) \<union> set rs = set (vr_reasons v) \<union> set (r # rs)"
    using set_v by auto
  moreover have "vr_wf ?v" "vr_cap ?v = vr_cap v"
    using Cons.prems(1) by (simp_all add: vr_add_reason_def vr_wf_add)
  ultimately have "set (vr_reasons (vr_add_all rs ?v)) = set (vr_reasons v) \<union> set (r # rs) \<and>
      vr_truncated (vr_add_all rs ?v) = vr_truncated ?v"
    using Cons.IH [of ?v] Cons.prems by simp
  with tr show ?case by simp
qed

text \<open>The primary reason is the least one of the list.\<close>

lemma hd_sorted_before:
  assumes "sorted_wrt reason_before (r # rs)" and "x \<in> set (r # rs)"
  shows "phase_of (rs_code r) \<le> phase_of (rs_code x)"
proof (cases "x = r")
  case False
  with assms have "reason_key r < reason_key x" by (auto simp: reason_before_key)
  then show ?thesis by (auto simp: reason_key_def less_prod_simp)
qed simp

lemma primary_phase_least:
  assumes "vr_wf v" and "x \<in> set (vr_reasons v)" and "phase_of (rs_code x) = p"
    and "\<forall>r \<in> set (vr_reasons v). p \<le> phase_of (rs_code r)"
  shows "primary_phase v = p"
proof (cases "vr_reasons v")
  case Nil
  then show ?thesis using assms by simp
next
  case (Cons r rs)
  with assms have "phase_of (rs_code r) \<le> p"
    using hd_sorted_before [of r rs x] by (auto simp: vr_wf_def)
  moreover have "p \<le> phase_of (rs_code r)" using Cons assms(4) by simp
  ultimately show ?thesis using Cons by (simp add: primary_phase_def)
qed

lemma primary_phase_hd:
  assumes "vr_wf v" and "vr_reasons v = r # rs" and "x \<in> set (vr_reasons v)"
  shows "primary_phase v \<le> phase_of (rs_code x)"
  using assms hd_sorted_before [of r rs x] by (simp add: primary_phase_def vr_wf_def)

text \<open>
  A later reason of the same or a later phase never changes the primary phase, not even when it
  is dropped at the cap: with room for two reasons the least one survives the replacement of the
  last one by the cap marker.
\<close>

lemma primary_phase_add:
  assumes wf: "vr_wf v" and ne: "vr_reasons v \<noteq> []" and cap: "vr_cap v \<ge> 2"
    and le: "primary_phase v \<le> phase_of c" "primary_phase v \<le> Ph_ResourceLimits"
  shows "primary_phase (vr_add c i d v) = primary_phase v"
proof -
  let ?p = "primary_phase v"
  obtain r rs where r: "vr_reasons v = r # rs" using ne by (cases "vr_reasons v") auto
  have p: "phase_of (rs_code r) = ?p" using r by (simp add: primary_phase_def)
  have all: "\<forall>x \<in> set (vr_reasons v). ?p \<le> phase_of (rs_code x)"
    using primary_phase_hd [OF wf r] by blast
  note wf' = vr_wf_add [OF wf, of c i d]
  consider "c = RC_Ok" | "c \<noteq> RC_Ok" "length (vr_reasons v) < vr_cap v"
    | "c \<noteq> RC_Ok" "length (vr_reasons v) \<ge> vr_cap v"
      "list_ex (\<lambda>r. rs_code r = RC_LimitMaxReasons) (vr_reasons v)"
    | "c \<noteq> RC_Ok" "length (vr_reasons v) \<ge> vr_cap v"
      "\<not> list_ex (\<lambda>r. rs_code r = RC_LimitMaxReasons) (vr_reasons v)"
    by linarith
  then show ?thesis
  proof cases
    case 1
    then show ?thesis by (simp add: vr_add_def)
  next
    case 2
    then show ?thesis
      using primary_phase_least [OF wf', of r ?p] vr_add_room [OF 2] all le r p by auto
  next
    case 3
    then show ?thesis using cap by (simp add: vr_add_def Let_def)
  next
    case 4
    then have s: "set (vr_reasons (vr_add c i d v)) =
        set (butlast (vr_reasons v) @ [reason RC_LimitMaxReasons 0 0])"
      using cap by (auto simp: vr_add_def Let_def)
    have "rs \<noteq> []" using 4 r cap by (cases rs) auto
    then have m: "r \<in> set (butlast (vr_reasons v))" using r by simp
    have "\<forall>x \<in> set (butlast (vr_reasons v)). ?p \<le> phase_of (rs_code x)"
      using all by (auto dest: in_set_butlastD)
    with m s p le(2) show ?thesis
      by (intro primary_phase_least [OF wf', of r ?p]) auto
  qed
qed

lemma primary_phase_add_all:
  assumes "vr_wf v" and "vr_reasons v \<noteq> []" and "vr_cap v \<ge> 2"
    and "\<forall>r \<in> set rs. primary_phase v \<le> phase_of (rs_code r)"
    and "primary_phase v \<le> Ph_ResourceLimits"
  shows "primary_phase (vr_add_all rs v) = primary_phase v"
  using assms
proof (induction rs arbitrary: v)
  case (Cons r rs)
  let ?v = "vr_add_reason r v"
  have "primary_phase ?v = primary_phase v"
    using Cons.prems primary_phase_add by (simp add: vr_add_reason_def)
  moreover have "vr_wf ?v" "vr_reasons ?v \<noteq> []" "vr_cap ?v = vr_cap v"
    using Cons.prems by (simp_all add: vr_add_reason_def vr_wf_add vr_add_empty)
  ultimately show ?case using Cons.IH [of ?v] Cons.prems by simp
qed simp

end
