(* ===== verification/Segment.thy ===== *)
theory Segment
  imports Reason
begin

text \<open>
  Segments, segment profiles and segment policies: \<^verbatim>\<open>segment.hpp/.cpp\<close>, \<^verbatim>\<open>profile.hpp/.cpp\<close>,
  \<^verbatim>\<open>policy.hpp/.cpp\<close>, with the payload comparison of \<^verbatim>\<open>canonical.cpp\<close> that segment equality uses.
\<close>

section \<open>Kinds, encodings, strictness\<close>

datatype SegmentKind = SK_Invalid | SK_Node | SK_Adjacency | SK_Endpoint | SK_Binding | SK_Policy

primrec kind_value :: "SegmentKind \<Rightarrow> nat" where
  "kind_value SK_Invalid = 0"
| "kind_value SK_Node = 1"
| "kind_value SK_Adjacency = 2"
| "kind_value SK_Endpoint = 3"
| "kind_value SK_Binding = 4"
| "kind_value SK_Policy = 5"

datatype SegmentEncodingId =
    SE_Invalid
  | SE_AbstractNodeV1
  | SE_AbstractAdjacencyV1
  | SE_AbstractEndpointV1
  | SE_AbstractBindingV1
  | SE_AbstractPolicyV1

primrec encoding_value :: "SegmentEncodingId \<Rightarrow> nat" where
  "encoding_value SE_Invalid = 0"
| "encoding_value SE_AbstractNodeV1 = 1"
| "encoding_value SE_AbstractAdjacencyV1 = 2"
| "encoding_value SE_AbstractEndpointV1 = 3"
| "encoding_value SE_AbstractBindingV1 = 4"
| "encoding_value SE_AbstractPolicyV1 = 5"

datatype Strictness = Strict | Loose

primrec strictness_value :: "Strictness \<Rightarrow> nat" where
  "strictness_value Strict = 1"
| "strictness_value Loose = 2"

primrec segment_kind_name :: "SegmentKind \<Rightarrow> string" where
  "segment_kind_name SK_Invalid = ''Invalid''"
| "segment_kind_name SK_Node = ''Node''"
| "segment_kind_name SK_Adjacency = ''Adjacency''"
| "segment_kind_name SK_Endpoint = ''Endpoint''"
| "segment_kind_name SK_Binding = ''Binding''"
| "segment_kind_name SK_Policy = ''Policy''"

primrec segment_encoding_name :: "SegmentEncodingId \<Rightarrow> string" where
  "segment_encoding_name SE_Invalid = ''Invalid''"
| "segment_encoding_name SE_AbstractNodeV1 = ''AbstractNodeV1''"
| "segment_encoding_name SE_AbstractAdjacencyV1 = ''AbstractAdjacencyV1''"
| "segment_encoding_name SE_AbstractEndpointV1 = ''AbstractEndpointV1''"
| "segment_encoding_name SE_AbstractBindingV1 = ''AbstractBindingV1''"
| "segment_encoding_name SE_AbstractPolicyV1 = ''AbstractPolicyV1''"

primrec strictness_name :: "Strictness \<Rightarrow> string" where
  "strictness_name Strict = ''Strict''"
| "strictness_name Loose = ''Loose''"

primrec expected_encoding_for :: "SegmentKind \<Rightarrow> SegmentEncodingId" where
  "expected_encoding_for SK_Node = SE_AbstractNodeV1"
| "expected_encoding_for SK_Adjacency = SE_AbstractAdjacencyV1"
| "expected_encoding_for SK_Endpoint = SE_AbstractEndpointV1"
| "expected_encoding_for SK_Binding = SE_AbstractBindingV1"
| "expected_encoding_for SK_Policy = SE_AbstractPolicyV1"
| "expected_encoding_for SK_Invalid = SE_Invalid"

definition kind_u16 :: "SegmentKind \<Rightarrow> u16" where
  "kind_u16 k = of_nat (kind_value k)"

definition encoding_u16 :: "SegmentEncodingId \<Rightarrow> u16" where
  "encoding_u16 e = of_nat (encoding_value e)"

definition kind_u64 :: "SegmentKind \<Rightarrow> u64" where
  "kind_u64 k = of_nat (kind_value k)"

definition strictness_u8 :: "Strictness \<Rightarrow> u8" where
  "strictness_u8 s = of_nat (strictness_value s)"

lemma kind_u16_inj [simp]: "kind_u16 k = kind_u16 k' \<longleftrightarrow> k = k'"
  by (cases k; cases k') (simp_all add: kind_u16_def)

lemma encoding_u16_inj [simp]: "encoding_u16 e = encoding_u16 e' \<longleftrightarrow> e = e'"
  by (cases e; cases e') (simp_all add: encoding_u16_def)

lemma strictness_u8_inj [simp]: "strictness_u8 s = strictness_u8 s' \<longleftrightarrow> s = s'"
  by (cases s; cases s') (simp_all add: strictness_u8_def)

section \<open>Segments\<close>

record Segment =
  seg_kind :: SegmentKind
  seg_encoding :: SegmentEncodingId
  seg_id :: SegmentId
  seg_generation :: SegmentGeneration
  seg_node :: NodeId
  seg_adjacency :: AdjacencyId
  seg_endpoint :: EndpointId
  seg_binding :: BindingId
  seg_policy :: SegmentPolicyId
  seg_policy_generation :: SegmentPolicyGeneration
  seg_topology :: TopologyGeneration
  seg_payload :: ByteBuffer

definition effective_encoding :: "Segment \<Rightarrow> SegmentEncodingId" where
  "effective_encoding s =
     (if seg_encoding s \<noteq> SE_Invalid then seg_encoding s else expected_encoding_for (seg_kind s))"

definition same_scalar_content :: "Segment \<Rightarrow> Segment \<Rightarrow> bool" where
  "same_scalar_content a b \<longleftrightarrow>
     seg_kind a = seg_kind b \<and> effective_encoding a = effective_encoding b \<and>
     seg_id a = seg_id b \<and> seg_generation a = seg_generation b \<and> seg_node a = seg_node b \<and>
     seg_adjacency a = seg_adjacency b \<and> seg_endpoint a = seg_endpoint b \<and>
     seg_binding a = seg_binding b \<and> seg_policy a = seg_policy b \<and>
     seg_policy_generation a = seg_policy_generation b \<and> seg_topology a = seg_topology b"

definition canonical_payload_equal :: "u8 list \<Rightarrow> u8 list \<Rightarrow> u32 \<Rightarrow> bool" where
  "canonical_payload_equal a b payload_width =
     (if length a > unat payload_width \<or> length b > unat payload_width then False
      else list_all (\<lambda>i. (if i < length a then a ! i else 0) = (if i < length b then b ! i else 0))
             [0..<unat payload_width])"

definition canonical_payload_padded_equal :: "Segment \<Rightarrow> Segment \<Rightarrow> bool" where
  "canonical_payload_padded_equal a b =
     (let width = (if length (seg_payload a) > length (seg_payload b)
                   then length (seg_payload a) else length (seg_payload b))
      in canonical_payload_equal (seg_payload a) (seg_payload b) (of_nat width))"

definition segment_eq :: "Segment \<Rightarrow> Segment \<Rightarrow> bool" where
  "segment_eq a b =
     (if \<not> same_scalar_content a b then False else canonical_payload_padded_equal a b)"

definition segment_semantic_equal :: "Segment \<Rightarrow> Segment \<Rightarrow> u32 \<Rightarrow> bool" where
  "segment_semantic_equal a b payload_width =
     (if \<not> same_scalar_content a b then False
      else canonical_payload_equal (seg_payload a) (seg_payload b) payload_width)"

section \<open>Profiles\<close>

datatype SupportClassification = AbstractSynthetic | PhysicalUnverified

primrec support_value :: "SupportClassification \<Rightarrow> nat" where
  "support_value AbstractSynthetic = 1"
| "support_value PhysicalUnverified = 2"

record SegmentProfile =
  pf_id :: SegmentProfileId
  pf_generation :: SegmentProfileGeneration
  pf_name :: string
  pf_support :: SupportClassification
  pf_allowed_kinds_mask :: u16
  pf_max_depth :: u32
  pf_payload_width :: u32
  pf_allow_empty :: bool
  pf_allow_consecutive_repeats :: bool
  pf_allow_nonconsecutive_repeats :: bool
  pf_allow_loose :: bool
  pf_required_capabilities :: "CapabilityKey list"

text \<open>
  \<^verbatim>\<open>1u << (kind - 1u)\<close>. The shift is only meaningful for a kind other than \<open>SK_Invalid\<close>, and both
  callers test for that kind first.
\<close>

definition kind_bit :: "SegmentKind \<Rightarrow> u16" where
  "kind_bit k = push_bit (kind_value k - 1) 1"

definition allows_kind :: "SegmentProfile \<Rightarrow> SegmentKind \<Rightarrow> bool" where
  "allows_kind p kind =
     (if kind = SK_Invalid then False else pf_allowed_kinds_mask p AND kind_bit kind \<noteq> 0)"

definition bool_u8 :: "bool \<Rightarrow> u8" where
  "bool_u8 b = (if b then 1 else 0)"

definition string_bytes :: "string \<Rightarrow> u8 list" where
  "string_bytes s = map (\<lambda>c. of_nat (of_char c)) s"

definition profile_bytes :: "SegmentProfile \<Rightarrow> ByteBuffer" where
  "profile_bytes p =
     le_bytes 2 (0xA510 :: u16) @
     le_bytes 8 (pf_id p) @
     le_bytes 8 (pf_generation p) @
     le_bytes 1 (of_nat (support_value (pf_support p)) :: u8) @
     le_bytes 2 (pf_allowed_kinds_mask p) @
     le_bytes 4 (pf_max_depth p) @
     le_bytes 4 (pf_payload_width p) @
     le_bytes 1 (bool_u8 (pf_allow_empty p)) @
     le_bytes 1 (bool_u8 (pf_allow_consecutive_repeats p)) @
     le_bytes 1 (bool_u8 (pf_allow_nonconsecutive_repeats p)) @
     le_bytes 1 (bool_u8 (pf_allow_loose p)) @
     le_bytes 4 (of_nat (length (pf_required_capabilities p)) :: u32) @
     concat (map (le_bytes 8) (pf_required_capabilities p)) @
     string_bytes (pf_name p)"

definition profile_digest :: "SegmentProfile \<Rightarrow> Digest128" where
  "profile_digest p = digest128 (profile_bytes p)"

definition abstract_governance_profile :: SegmentProfile where
  "abstract_governance_profile = \<lparr>
     pf_id = 0x00010001,
     pf_generation = 1,
     pf_name = ''abstract-governance-v1'',
     pf_support = AbstractSynthetic,
     pf_allowed_kinds_mask = kind_bit SK_Node OR kind_bit SK_Adjacency OR kind_bit SK_Endpoint OR
       kind_bit SK_Binding OR kind_bit SK_Policy,
     pf_max_depth = 8,
     pf_payload_width = 4,
     pf_allow_empty = False,
     pf_allow_consecutive_repeats = False,
     pf_allow_nonconsecutive_repeats = False,
     pf_allow_loose = False,
     pf_required_capabilities = [0x1001, 0x1002]\<rparr>"

definition abstract_ordered_profile :: SegmentProfile where
  "abstract_ordered_profile = \<lparr>
     pf_id = 0x00010002,
     pf_generation = 1,
     pf_name = ''abstract-ordered-v1'',
     pf_support = AbstractSynthetic,
     pf_allowed_kinds_mask = kind_bit SK_Node OR kind_bit SK_Adjacency OR kind_bit SK_Endpoint,
     pf_max_depth = 16,
     pf_payload_width = 8,
     pf_allow_empty = False,
     pf_allow_consecutive_repeats = False,
     pf_allow_nonconsecutive_repeats = True,
     pf_allow_loose = True,
     pf_required_capabilities = [0x1001]\<rparr>"

definition abstract_nullable_profile :: SegmentProfile where
  "abstract_nullable_profile = \<lparr>
     pf_id = 0x00010003,
     pf_generation = 1,
     pf_name = ''abstract-nullable-v1'',
     pf_support = AbstractSynthetic,
     pf_allowed_kinds_mask = kind_bit SK_Node OR kind_bit SK_Policy,
     pf_max_depth = 4,
     pf_payload_width = 2,
     pf_allow_empty = True,
     pf_allow_consecutive_repeats = True,
     pf_allow_nonconsecutive_repeats = True,
     pf_allow_loose = False,
     pf_required_capabilities = []\<rparr>"

section \<open>Policies\<close>

record SegmentPolicy =
  po_id :: SegmentPolicyId
  po_generation :: SegmentPolicyGeneration
  po_owner_scope :: ScopeId
  po_allowed_profiles :: "SegmentProfileId list"
  po_allowed_kinds_mask :: u16
  po_max_depth :: u32
  po_required_segments :: "SegmentId list"
  po_forbidden_segments :: "SegmentId list"
  po_allow_replacement :: bool
  po_allow_derivation :: bool
  po_require_strict :: bool

definition policy_bytes :: "SegmentPolicy \<Rightarrow> ByteBuffer" where
  "policy_bytes p =
     le_bytes 2 (0xB700 :: u16) @
     le_bytes 8 (po_id p) @
     le_bytes 8 (po_generation p) @
     le_bytes 8 (po_owner_scope p) @
     le_bytes 4 (of_nat (length (po_allowed_profiles p)) :: u32) @
     concat (map (le_bytes 8) (po_allowed_profiles p)) @
     le_bytes 2 (po_allowed_kinds_mask p) @
     le_bytes 4 (po_max_depth p) @
     le_bytes 4 (of_nat (length (po_required_segments p)) :: u32) @
     concat (map (le_bytes 8) (po_required_segments p)) @
     le_bytes 4 (of_nat (length (po_forbidden_segments p)) :: u32) @
     concat (map (le_bytes 8) (po_forbidden_segments p)) @
     le_bytes 1 (bool_u8 (po_allow_replacement p)) @
     le_bytes 1 (bool_u8 (po_allow_derivation p)) @
     le_bytes 1 (bool_u8 (po_require_strict p))"

definition policy_digest :: "SegmentPolicy \<Rightarrow> Digest128" where
  "policy_digest p = digest128 (policy_bytes p)"

section \<open>Payload comparison\<close>

definition pad_payload :: "nat \<Rightarrow> u8 list \<Rightarrow> u8 list" where
  "pad_payload w p = take w p @ replicate (w - length p) 0"

lemma length_pad_payload [simp]: "length (pad_payload w p) = w"
  by (simp add: pad_payload_def)

lemma pad_payload_nth:
  "length p \<le> w \<Longrightarrow> i < w \<Longrightarrow> pad_payload w p ! i = (if i < length p then p ! i else 0)"
  by (simp add: pad_payload_def nth_append)

lemma canonical_payload_equal_iff:
  "canonical_payload_equal a b w \<longleftrightarrow>
     length a \<le> unat w \<and> length b \<le> unat w \<and> pad_payload (unat w) a = pad_payload (unat w) b"
proof (cases "length a \<le> unat w \<and> length b \<le> unat w")
  case True
  then have "canonical_payload_equal a b w \<longleftrightarrow>
      (\<forall>i < unat w. pad_payload (unat w) a ! i = pad_payload (unat w) b ! i)"
    by (auto simp: canonical_payload_equal_def list_all_iff pad_payload_nth)
  with True show ?thesis by (simp add: list_eq_iff_nth_eq [of "pad_payload _ _"])
next
  case False
  then show ?thesis by (auto simp: canonical_payload_equal_def)
qed

lemma segment_semantic_equal_iff:
  "segment_semantic_equal a b w \<longleftrightarrow> same_scalar_content a b \<and>
     canonical_payload_equal (seg_payload a) (seg_payload b) w"
  by (simp add: segment_semantic_equal_def)

lemma segment_semantic_equal_sym: "segment_semantic_equal a b w = segment_semantic_equal b a w"
  by (auto simp: segment_semantic_equal_iff canonical_payload_equal_iff same_scalar_content_def)

lemma segment_semantic_equal_trans:
  "segment_semantic_equal a b w \<Longrightarrow> segment_semantic_equal b c w \<Longrightarrow> segment_semantic_equal a c w"
  by (simp add: segment_semantic_equal_iff canonical_payload_equal_iff same_scalar_content_def)

end
