(* ===== verification/Lifecycle.thy ===== *)
theory Lifecycle
  imports Reason
begin

text \<open>
  The segment-list lifecycle of \<^verbatim>\<open>lifecycle.hpp/.cpp\<close>: nine states, sixteen events, the literal
  transition table, and the currentness classes. A denied transition (\<^verbatim>\<open>allowed == false\<close>) is \<open>None\<close>.
\<close>

section \<open>States and events\<close>

datatype LifecycleState =
    LS_Invalid
  | LS_Declared
  | LS_Validating
  | LS_Active
  | LS_RevalidationRequired
  | LS_Withdrawing
  | LS_Withdrawn
  | LS_Superseded
  | LS_Revoked
  | LS_Retired

datatype LifecycleEvent =
    LE_Invalid
  | LE_ValidateBegin
  | LE_ValidateSucceed
  | LE_ValidateFail
  | LE_RevalidateBegin
  | LE_RevalidateSucceed
  | LE_RevalidateFail
  | LE_DependencyChanged
  | LE_WithdrawBegin
  | LE_WithdrawCommit
  | LE_SupersedeBegin
  | LE_SupersedeCommit
  | LE_Revoke
  | LE_Retire
  | LE_Reactivate
  | LE_RecoveryLoad
  | LE_ReplaceBegin

primrec state_value :: "LifecycleState \<Rightarrow> nat" where
  "state_value LS_Invalid = 0"
| "state_value LS_Declared = 1"
| "state_value LS_Validating = 2"
| "state_value LS_Active = 3"
| "state_value LS_RevalidationRequired = 4"
| "state_value LS_Withdrawing = 5"
| "state_value LS_Withdrawn = 6"
| "state_value LS_Superseded = 7"
| "state_value LS_Revoked = 8"
| "state_value LS_Retired = 9"

primrec event_value :: "LifecycleEvent \<Rightarrow> nat" where
  "event_value LE_Invalid = 0"
| "event_value LE_ValidateBegin = 1"
| "event_value LE_ValidateSucceed = 2"
| "event_value LE_ValidateFail = 3"
| "event_value LE_RevalidateBegin = 4"
| "event_value LE_RevalidateSucceed = 5"
| "event_value LE_RevalidateFail = 6"
| "event_value LE_DependencyChanged = 7"
| "event_value LE_WithdrawBegin = 8"
| "event_value LE_WithdrawCommit = 9"
| "event_value LE_SupersedeBegin = 10"
| "event_value LE_SupersedeCommit = 11"
| "event_value LE_Revoke = 12"
| "event_value LE_Retire = 13"
| "event_value LE_Reactivate = 14"
| "event_value LE_RecoveryLoad = 15"
| "event_value LE_ReplaceBegin = 16"

definition kLifecycleStateCount :: nat where "kLifecycleStateCount = 9"
definition kLifecycleEventCount :: nat where "kLifecycleEventCount = 16"

section \<open>The transition table\<close>

abbreviation (input) "kD \<equiv> LS_Invalid"
abbreviation (input) "kDecl \<equiv> LS_Declared"
abbreviation (input) "kVal \<equiv> LS_Validating"
abbreviation (input) "kAct \<equiv> LS_Active"
abbreviation (input) "kRvl \<equiv> LS_RevalidationRequired"
abbreviation (input) "kWbg \<equiv> LS_Withdrawing"
abbreviation (input) "kWdn \<equiv> LS_Withdrawn"
abbreviation (input) "kSup \<equiv> LS_Superseded"
abbreviation (input) "kRev \<equiv> LS_Revoked"
abbreviation (input) "kRet \<equiv> LS_Retired"

definition kTable :: "LifecycleState list list" where
  "kTable = [
    [kVal, kD, kD, kD, kD, kD, kD, kWbg, kD, kSup, kD, kRev, kRet, kD, kDecl, kVal],
    [kD, kAct, kDecl, kD, kD, kD, kDecl, kWbg, kD, kSup, kD, kRev, kRet, kD, kDecl, kVal],
    [kD, kD, kD, kVal, kAct, kD, kRvl, kWbg, kD, kSup, kD, kRev, kRet, kD, kRvl, kVal],
    [kD, kD, kD, kVal, kAct, kRvl, kRvl, kWbg, kD, kSup, kD, kRev, kRet, kD, kRvl, kVal],
    [kD, kD, kD, kD, kD, kD, kWbg, kD, kWdn, kSup, kD, kRev, kRet, kD, kWdn, kD],
    [kD, kD, kD, kD, kD, kD, kWdn, kD, kD, kSup, kD, kRev, kRet, kD, kWdn, kD],
    [kD, kD, kD, kD, kD, kD, kSup, kD, kD, kD, kSup, kRev, kRet, kD, kSup, kD],
    [kD, kD, kD, kD, kD, kD, kRev, kD, kD, kD, kD, kD, kRet, kD, kRev, kD],
    [kD, kD, kD, kD, kD, kD, kD, kD, kD, kD, kD, kD, kD, kD, kRet, kD]]"

definition state_index :: "LifecycleState \<Rightarrow> nat option" where
  "state_index s =
     (let v = state_value s in if v \<ge> 1 \<and> v \<le> kLifecycleStateCount then Some (v - 1) else None)"

definition event_index :: "LifecycleEvent \<Rightarrow> nat option" where
  "event_index e =
     (let v = event_value e in if v \<ge> 1 \<and> v \<le> kLifecycleEventCount then Some (v - 1) else None)"

definition lifecycle_transition :: "LifecycleState \<Rightarrow> LifecycleEvent \<Rightarrow> LifecycleState option" where
  "lifecycle_transition state event =
     (case (state_index state, event_index event) of
        (Some s, Some e) \<Rightarrow>
          (let next = kTable ! s ! e in if next = LS_Invalid then None else Some next)
      | _ \<Rightarrow> None)"

primrec lifecycle_state_name :: "LifecycleState \<Rightarrow> string" where
  "lifecycle_state_name LS_Invalid = ''Invalid''"
| "lifecycle_state_name LS_Declared = ''DECLARED''"
| "lifecycle_state_name LS_Validating = ''VALIDATING''"
| "lifecycle_state_name LS_Active = ''ACTIVE''"
| "lifecycle_state_name LS_RevalidationRequired = ''REVALIDATION_REQUIRED''"
| "lifecycle_state_name LS_Withdrawing = ''WITHDRAWING''"
| "lifecycle_state_name LS_Withdrawn = ''WITHDRAWN''"
| "lifecycle_state_name LS_Superseded = ''SUPERSEDED''"
| "lifecycle_state_name LS_Revoked = ''REVOKED''"
| "lifecycle_state_name LS_Retired = ''RETIRED''"

primrec lifecycle_event_name :: "LifecycleEvent \<Rightarrow> string" where
  "lifecycle_event_name LE_Invalid = ''Invalid''"
| "lifecycle_event_name LE_ValidateBegin = ''ValidateBegin''"
| "lifecycle_event_name LE_ValidateSucceed = ''ValidateSucceed''"
| "lifecycle_event_name LE_ValidateFail = ''ValidateFail''"
| "lifecycle_event_name LE_RevalidateBegin = ''RevalidateBegin''"
| "lifecycle_event_name LE_RevalidateSucceed = ''RevalidateSucceed''"
| "lifecycle_event_name LE_RevalidateFail = ''RevalidateFail''"
| "lifecycle_event_name LE_DependencyChanged = ''DependencyChanged''"
| "lifecycle_event_name LE_WithdrawBegin = ''WithdrawBegin''"
| "lifecycle_event_name LE_WithdrawCommit = ''WithdrawCommit''"
| "lifecycle_event_name LE_SupersedeBegin = ''SupersedeBegin''"
| "lifecycle_event_name LE_SupersedeCommit = ''SupersedeCommit''"
| "lifecycle_event_name LE_Revoke = ''Revoke''"
| "lifecycle_event_name LE_Retire = ''Retire''"
| "lifecycle_event_name LE_Reactivate = ''Reactivate''"
| "lifecycle_event_name LE_RecoveryLoad = ''RecoveryLoad''"
| "lifecycle_event_name LE_ReplaceBegin = ''ReplaceBegin''"

definition lifecycle_is_terminal_for_activation :: "LifecycleState \<Rightarrow> bool" where
  "lifecycle_is_terminal_for_activation state =
     (case state of
        LS_Withdrawn \<Rightarrow> True | LS_Superseded \<Rightarrow> True | LS_Revoked \<Rightarrow> True | LS_Retired \<Rightarrow> True
      | _ \<Rightarrow> False)"

definition lifecycle_is_available :: "LifecycleState \<Rightarrow> bool" where
  "lifecycle_is_available state \<longleftrightarrow> state = LS_Active"

section \<open>Currentness\<close>

datatype Currentness =
    Cu_Unknown
  | Cu_Current
  | Cu_RevalidationRequired
  | Cu_StaleProfile
  | Cu_StalePolicy
  | Cu_StaleTopology
  | Cu_StaleCapability
  | Cu_StalePathAuthority
  | Cu_StaleRouteBinding
  | Cu_StaleConstraintBinding
  | Cu_StaleEpoch
  | Cu_FencedPublisher

primrec currentness_value :: "Currentness \<Rightarrow> nat" where
  "currentness_value Cu_Unknown = 0"
| "currentness_value Cu_Current = 1"
| "currentness_value Cu_RevalidationRequired = 2"
| "currentness_value Cu_StaleProfile = 3"
| "currentness_value Cu_StalePolicy = 4"
| "currentness_value Cu_StaleTopology = 5"
| "currentness_value Cu_StaleCapability = 6"
| "currentness_value Cu_StalePathAuthority = 7"
| "currentness_value Cu_StaleRouteBinding = 8"
| "currentness_value Cu_StaleConstraintBinding = 9"
| "currentness_value Cu_StaleEpoch = 10"
| "currentness_value Cu_FencedPublisher = 11"

primrec currentness_name :: "Currentness \<Rightarrow> string" where
  "currentness_name Cu_Unknown = ''Unknown''"
| "currentness_name Cu_Current = ''CURRENT''"
| "currentness_name Cu_RevalidationRequired = ''REVALIDATION_REQUIRED''"
| "currentness_name Cu_StaleProfile = ''STALE_PROFILE''"
| "currentness_name Cu_StalePolicy = ''STALE_POLICY''"
| "currentness_name Cu_StaleTopology = ''STALE_TOPOLOGY''"
| "currentness_name Cu_StaleCapability = ''STALE_CAPABILITY''"
| "currentness_name Cu_StalePathAuthority = ''STALE_PATH_AUTHORITY''"
| "currentness_name Cu_StaleRouteBinding = ''STALE_ROUTE_BINDING''"
| "currentness_name Cu_StaleConstraintBinding = ''STALE_CONSTRAINT_BINDING''"
| "currentness_name Cu_StaleEpoch = ''STALE_EPOCH''"
| "currentness_name Cu_FencedPublisher = ''FENCED_PUBLISHER''"

primrec currentness_reason :: "Currentness \<Rightarrow> ReasonCode" where
  "currentness_reason Cu_Unknown = RC_CurrentnessUnknown"
| "currentness_reason Cu_Current = RC_CurrentnessCurrent"
| "currentness_reason Cu_RevalidationRequired = RC_CurrentnessRevalidationRequired"
| "currentness_reason Cu_StaleProfile = RC_CurrentnessStaleProfile"
| "currentness_reason Cu_StalePolicy = RC_CurrentnessStalePolicy"
| "currentness_reason Cu_StaleTopology = RC_CurrentnessStaleTopology"
| "currentness_reason Cu_StaleCapability = RC_CurrentnessStaleCapability"
| "currentness_reason Cu_StalePathAuthority = RC_CurrentnessStalePathAuthority"
| "currentness_reason Cu_StaleRouteBinding = RC_CurrentnessStaleRouteBinding"
| "currentness_reason Cu_StaleConstraintBinding = RC_CurrentnessStaleConstraintBinding"
| "currentness_reason Cu_StaleEpoch = RC_CurrentnessStaleEpoch"
| "currentness_reason Cu_FencedPublisher = RC_CurrentnessFencedPublisher"

definition currentness_is_usable :: "Currentness \<Rightarrow> bool" where
  "currentness_is_usable c \<longleftrightarrow> c = Cu_Current"

section \<open>Reading the table\<close>

lemmas lifecycle_eval = lifecycle_transition_def state_index_def event_index_def
  kLifecycleStateCount_def kLifecycleEventCount_def kTable_def Let_def

definition all_states :: "LifecycleState list" where
  "all_states = [LS_Declared, LS_Validating, LS_Active, LS_RevalidationRequired, LS_Withdrawing, LS_Withdrawn, LS_Superseded, LS_Revoked, LS_Retired]"

definition all_events :: "LifecycleEvent list" where
  "all_events = [LE_ValidateBegin, LE_ValidateSucceed, LE_ValidateFail, LE_RevalidateBegin, LE_RevalidateSucceed, LE_RevalidateFail, LE_DependencyChanged, LE_WithdrawBegin, LE_WithdrawCommit, LE_SupersedeBegin, LE_SupersedeCommit, LE_Revoke, LE_Retire, LE_Reactivate, LE_RecoveryLoad, LE_ReplaceBegin]"

text \<open>One step of the machine, and every state it can reach.\<close>

inductive lifecycle_step :: "LifecycleState \<Rightarrow> LifecycleState \<Rightarrow> bool" where
  event: "lifecycle_transition s e = Some s' \<Longrightarrow> lifecycle_step s s'"

inductive_cases lifecycle_stepE [elim]: "lifecycle_step s s'"

text \<open>A set of states is closed when no permitted event leaves it.\<close>

definition closed_states :: "LifecycleState list \<Rightarrow> bool" where
  "closed_states S \<longleftrightarrow>
     list_all (\<lambda>s. list_all (\<lambda>e. case lifecycle_transition s e of None \<Rightarrow> True
                                   | Some s' \<Rightarrow> List.member S s') all_events) S"

lemma event_in_all: "e \<noteq> LE_Invalid \<Longrightarrow> e \<in> set all_events"
  by (cases e) (simp_all add: all_events_def)

lemma transition_invalid_event [simp]: "lifecycle_transition s LE_Invalid = None"
  by (simp add: lifecycle_transition_def event_index_def split: option.split)

lemma transition_invalid_state [simp]: "lifecycle_transition LS_Invalid e = None"
  by (simp add: lifecycle_transition_def state_index_def)

lemma closed_step:
  assumes "closed_states S" and "s \<in> set S" and "lifecycle_transition s e = Some s'"
  shows "s' \<in> set S"
proof -
  have "e \<in> set all_events" using assms(3) by (cases "e = LE_Invalid") (auto intro: event_in_all)
  with assms show ?thesis by (fastforce simp: closed_states_def list_all_iff)
qed

lemma closed_reachable:
  assumes "closed_states S" and "lifecycle_step\<^sup>*\<^sup>* s s'" and "s \<in> set S"
  shows "s' \<in> set S"
  using assms(2,3) by (induction rule: rtranclp_induct) (auto dest: closed_step [OF assms(1)])

lemma terminal_states_iff:
  "lifecycle_is_terminal_for_activation s \<longleftrightarrow>
     s \<in> set [LS_Withdrawn, LS_Superseded, LS_Revoked, LS_Retired]"
  by (cases s) (simp_all add: lifecycle_is_terminal_for_activation_def)

lemma terminal_closed: "closed_states [LS_Withdrawn, LS_Superseded, LS_Revoked, LS_Retired]"
  by code_simp

lemma withdrawing_closed:
  "closed_states [LS_Withdrawing, LS_Withdrawn, LS_Superseded, LS_Revoked, LS_Retired]"
  by code_simp

lemma terminal_step:
  "lifecycle_is_terminal_for_activation s \<Longrightarrow> lifecycle_transition s e = Some s' \<Longrightarrow>
   lifecycle_is_terminal_for_activation s'"
  unfolding terminal_states_iff by (rule closed_step [OF terminal_closed])

lemma transition_not_invalid: "lifecycle_transition s e = Some s' \<Longrightarrow> s' \<noteq> LS_Invalid"
  by (auto simp: lifecycle_transition_def Let_def split: option.splits if_splits)

section \<open>Properties\<close>

text \<open>
  a RETIRED, REVOKED, SUPERSEDED or WITHDRAWN lineage can never reactivate: whatever sequence
  of events is applied to it, the lifecycle stays inside these four states, so it is never ACTIVE
  (and never even re-enters validation) again. A RETIRED lineage never changes state at all.
\<close>

theorem terminal_never_reactivates:
  assumes "lifecycle_is_terminal_for_activation s" and "lifecycle_step\<^sup>*\<^sup>* s s'"
  shows "lifecycle_is_terminal_for_activation s' \<and> \<not> lifecycle_is_available s' \<and>
         (s = LS_Retired \<longrightarrow> s' = LS_Retired)"
proof -
  have t: "lifecycle_is_terminal_for_activation s'"
    using assms closed_reachable [OF terminal_closed] unfolding terminal_states_iff by blast
  have "closed_states [LS_Retired]" by code_simp
  then have "s = LS_Retired \<longrightarrow> s' = LS_Retired" using closed_reachable assms(2) by force
  with t show ?thesis
    by (auto simp: lifecycle_is_available_def lifecycle_is_terminal_for_activation_def)
qed

theorem terminal_never_reactivates_witness:
  "lifecycle_is_terminal_for_activation LS_Revoked \<and> lifecycle_step\<^sup>*\<^sup>* LS_Revoked LS_Retired \<and>
   lifecycle_is_terminal_for_activation LS_Retired \<and> \<not> lifecycle_is_available LS_Retired"
proof -
  have "lifecycle_transition LS_Revoked LE_Retire = Some LS_Retired" by (simp add: lifecycle_eval)
  then have r: "lifecycle_step\<^sup>*\<^sup>* LS_Revoked LS_Retired" by (blast intro: lifecycle_step.intros)
  have t: "lifecycle_is_terminal_for_activation LS_Revoked"
    by (simp add: lifecycle_is_terminal_for_activation_def)
  show ?thesis using r t terminal_never_reactivates [OF t r] by blast
qed

text \<open>
  the transition table is total with exactly 55 permitted pairs out of 144; every permitted
  pair leads to a proper state, and the REACTIVATE event is denied in every state.
\<close>

theorem transition_table_shape:
  "length (filter (\<lambda>(s, e). lifecycle_transition s e \<noteq> None) (List.product all_states all_events)) = 55 \<and>
   length (List.product all_states all_events) = 144 \<and>
   (\<forall>s e s'. lifecycle_transition s e = Some s' \<longrightarrow> s' \<in> set all_states) \<and>
   (\<forall>s. lifecycle_transition s LE_Reactivate = None)"
proof (intro conjI allI impI)
  show "length (filter (\<lambda>(s, e). lifecycle_transition s e \<noteq> None)
          (List.product all_states all_events)) = 55" by code_simp
  show "length (List.product all_states all_events) = 144" by code_simp
  show "s' \<in> set all_states" if "lifecycle_transition s e = Some s'" for s e s'
    using transition_not_invalid [OF that] by (cases s') (simp_all add: all_states_def)
  show "lifecycle_transition s LE_Reactivate = None" for s
    by (cases s) (simp_all add: lifecycle_eval)
qed

theorem transition_table_shape_witness:
  "lifecycle_transition LS_Declared LE_ValidateBegin = Some LS_Validating \<and>
   LS_Validating \<in> set all_states"
proof -
  have "lifecycle_transition LS_Declared LE_ValidateBegin = Some LS_Validating"
    by (simp add: lifecycle_eval)
  with transition_table_shape show ?thesis by blast
qed

text \<open>
  exactly the states DECLARED, VALIDATING, ACTIVE and REVALIDATION\_REQUIRED can still become
  ACTIVE. WITHDRAWING cannot either, although \<open>lifecycle_is_terminal_for_activation\<close> answers false
  for it.
\<close>

theorem active_reachable_iff:
  "lifecycle_step\<^sup>*\<^sup>* s LS_Active \<longleftrightarrow>
     s \<in> {LS_Declared, LS_Validating, LS_Active, LS_RevalidationRequired}"
proof
  assume r: "lifecycle_step\<^sup>*\<^sup>* s LS_Active"
  have "closed_states [LS_Invalid]" by code_simp
  then have "s \<noteq> LS_Invalid" using closed_reachable r by fastforce
  then show "s \<in> {LS_Declared, LS_Validating, LS_Active, LS_RevalidationRequired}"
    using closed_reachable [OF withdrawing_closed r] by (cases s) auto
next
  have dv: "lifecycle_step LS_Declared LS_Validating"
    by (rule lifecycle_step.intros [of _ LE_ValidateBegin]) (simp add: lifecycle_eval)
  have va: "lifecycle_step LS_Validating LS_Active"
    by (rule lifecycle_step.intros [of _ LE_ValidateSucceed]) (simp add: lifecycle_eval)
  have ra: "lifecycle_step LS_RevalidationRequired LS_Active"
    by (rule lifecycle_step.intros [of _ LE_RevalidateSucceed]) (simp add: lifecycle_eval)
  assume "s \<in> {LS_Declared, LS_Validating, LS_Active, LS_RevalidationRequired}"
  then show "lifecycle_step\<^sup>*\<^sup>* s LS_Active"
    using dv va ra by (auto intro: converse_rtranclp_into_rtranclp)
qed

end
