(* ===== verification/SegList.thy ===== *)
theory SegList
  imports Segment Lifecycle
begin

text \<open>
  The governed list of \<^verbatim>\<open>list.hpp/.cpp\<close> (immutable content, lineage, authority, provenance,
  lifecycle) and its canonical byte encoding of \<^verbatim>\<open>canonical.cpp\<close>.
\<close>

section \<open>Lists\<close>

record SegmentListContent =
  lc_id :: SegmentListId
  lc_scope :: ScopeId
  lc_profile :: SegmentProfileId
  lc_profile_generation :: SegmentProfileGeneration
  lc_policy :: SegmentPolicyId
  lc_policy_generation :: SegmentPolicyGeneration
  lc_strictness :: Strictness
  lc_topology :: TopologyGeneration
  lc_capability :: CapabilityGeneration
  lc_path :: PathId
  lc_path_authority :: PathAuthorityGeneration
  lc_route :: RouteId
  lc_route_generation :: RouteGeneration
  lc_constraint :: ConstraintEvaluationId
  lc_constraint_generation :: ConstraintGeneration
  lc_segments :: "Segment list"

record SegmentListProvenance =
  pv_source_path :: PathId
  pv_source_path_authority :: PathAuthorityGeneration
  pv_source_route :: RouteId
  pv_source_route_generation :: RouteGeneration
  pv_source_constraint :: ConstraintEvaluationId
  pv_source_constraint_generation :: ConstraintGeneration
  pv_derivation_policy :: SegmentPolicyGeneration
  pv_observed_topology :: TopologyGeneration
  pv_observed_capability :: CapabilityGeneration
  pv_publisher :: PublisherId
  pv_boot :: WorkerBootId
  pv_epoch :: CoordinatorEpoch

record SegmentListAuthority =
  la_publisher :: PublisherId
  la_boot :: WorkerBootId
  la_epoch :: CoordinatorEpoch
  la_attempt :: MutationAttemptId

record SegmentListLineage =
  ln_supersedes :: SegmentListGeneration
  ln_superseded_by :: SegmentListId
  ln_history :: HistoryId

record SegmentList =
  sl_content :: SegmentListContent
  sl_generation :: SegmentListGeneration
  sl_lineage :: SegmentListLineage
  sl_authority :: SegmentListAuthority
  sl_provenance :: SegmentListProvenance
  sl_state :: LifecycleState
  sl_currentness :: Currentness
  sl_content_digest :: Digest128
  sl_sequence_digest :: Digest128
  sl_committed_revision :: u64

abbreviation sl_id :: "SegmentList \<Rightarrow> SegmentListId" where
  "sl_id l \<equiv> lc_id (sl_content l)"

definition segment_list_state_name :: "SegmentList \<Rightarrow> string" where
  "segment_list_state_name l = lifecycle_state_name (sl_state l)"

definition derive_segment_list_id :: "string \<Rightarrow> string \<Rightarrow> SegmentListId" where
  "derive_segment_list_id scope name =
     (let h = fnv1a64
            (le_bytes 2 (0x1D01 :: u16) @
             le_bytes 4 (of_nat (length scope) :: u32) @
             string_bytes scope @
             le_bytes 4 (of_nat (length name) :: u32) @
             string_bytes name)
      in if h = 0 then 1 else h)"

section \<open>Canonical encoding\<close>

definition kSegmentMagic :: u16 where "kSegmentMagic = 0xC501"
definition kContentMagic :: u16 where "kContentMagic = 0xC502"
definition kSequenceMagic :: u16 where "kSequenceMagic = 0xC503"

text \<open>The bytes that \<^verbatim>\<open>write_segment\<close> appends to the writer.\<close>

definition write_segment :: "u32 \<Rightarrow> Segment \<Rightarrow> u8 list" where
  "write_segment payload_width s =
     (let usable = (if length (seg_payload s) < unat payload_width
                    then length (seg_payload s) else unat payload_width)
      in
      le_bytes 2 (kind_u16 (seg_kind s)) @
      le_bytes 2 (encoding_u16 (seg_encoding s)) @
      le_bytes 8 (seg_id s) @
      le_bytes 8 (seg_generation s) @
      le_bytes 8 (seg_node s) @
      le_bytes 8 (seg_adjacency s) @
      le_bytes 8 (seg_endpoint s) @
      le_bytes 8 (seg_binding s) @
      le_bytes 8 (seg_policy s) @
      le_bytes 8 (seg_policy_generation s) @
      le_bytes 8 (seg_topology s) @
      le_bytes 2 (ucast payload_width :: u16) @
      take usable (seg_payload s) @
      replicate (unat payload_width - usable) 0)"

definition canonical_segment_bytes :: "Segment \<Rightarrow> u32 \<Rightarrow> ByteBuffer" where
  "canonical_segment_bytes segment payload_width =
     le_bytes 2 kSegmentMagic @ write_segment payload_width segment"

definition canonical_sequence_bytes :: "Segment list \<Rightarrow> u32 \<Rightarrow> ByteBuffer" where
  "canonical_sequence_bytes segments payload_width =
     le_bytes 2 kSequenceMagic @
     le_bytes 4 (of_nat (length segments) :: u32) @
     concat (map (write_segment payload_width) segments)"

definition canonical_content_bytes :: "SegmentListContent \<Rightarrow> u32 \<Rightarrow> ByteBuffer" where
  "canonical_content_bytes content payload_width =
     le_bytes 2 kContentMagic @
     le_bytes 4 payload_width @
     le_bytes 8 (lc_id content) @
     le_bytes 8 (lc_scope content) @
     le_bytes 8 (lc_profile content) @
     le_bytes 8 (lc_profile_generation content) @
     le_bytes 8 (lc_policy content) @
     le_bytes 8 (lc_policy_generation content) @
     le_bytes 1 (strictness_u8 (lc_strictness content)) @
     le_bytes 8 (lc_topology content) @
     le_bytes 8 (lc_capability content) @
     le_bytes 8 (lc_path content) @
     le_bytes 8 (lc_path_authority content) @
     le_bytes 8 (lc_route content) @
     le_bytes 8 (lc_route_generation content) @
     le_bytes 8 (lc_constraint content) @
     le_bytes 8 (lc_constraint_generation content) @
     le_bytes 4 (of_nat (length (lc_segments content)) :: u32) @
     concat (map (write_segment payload_width) (lc_segments content))"

definition content_digest :: "SegmentListContent \<Rightarrow> u32 \<Rightarrow> Digest128" where
  "content_digest content payload_width =
     digest128 (canonical_content_bytes content payload_width)"

definition sequence_digest :: "Segment list \<Rightarrow> u32 \<Rightarrow> Digest128" where
  "sequence_digest segments payload_width =
     digest128 (canonical_sequence_bytes segments payload_width)"

text \<open>\<^verbatim>\<open>canonicalize_segments\<close> of \<^verbatim>\<open>validation.cpp\<close>: an unset encoding is filled in, nothing else.\<close>

definition canonicalize_segment :: "Segment \<Rightarrow> Segment" where
  "canonicalize_segment s =
     (if seg_encoding s = SE_Invalid
      then s\<lparr>seg_encoding := expected_encoding_for (seg_kind s)\<rparr> else s)"

definition canonicalize_segments :: "Segment list \<Rightarrow> Segment list" where
  "canonicalize_segments segments = map canonicalize_segment segments"

section \<open>The encoding is injective up to payload padding\<close>

text \<open>The semantic content of a segment at a payload width.\<close>

definition canonical_form :: "u32 \<Rightarrow> Segment \<Rightarrow> Segment" where
  "canonical_form w s = s\<lparr>seg_payload := pad_payload (unat w) (seg_payload s)\<rparr>"

lemma le_bytes_append_inj [srf_codec]:
  "LENGTH('a) \<le> 8 * n \<Longrightarrow>
   le_bytes n (a :: 'a::len word) @ xs = le_bytes n b @ ys \<longleftrightarrow> a = b \<and> xs = ys"
  by simp

lemma write_segment_alt:
  "write_segment w s =
     le_bytes 2 (kind_u16 (seg_kind s)) @ le_bytes 2 (encoding_u16 (seg_encoding s)) @
     le_bytes 8 (seg_id s) @ le_bytes 8 (seg_generation s) @ le_bytes 8 (seg_node s) @
     le_bytes 8 (seg_adjacency s) @ le_bytes 8 (seg_endpoint s) @ le_bytes 8 (seg_binding s) @
     le_bytes 8 (seg_policy s) @ le_bytes 8 (seg_policy_generation s) @
     le_bytes 8 (seg_topology s) @ le_bytes 2 (ucast w :: u16) @
     pad_payload (unat w) (seg_payload s)"
  by (simp add: write_segment_def pad_payload_def Let_def)

lemma length_write_segment [simp, srf_codec]: "length (write_segment w s) = 78 + unat w"
  by (simp add: write_segment_alt)

lemma write_segment_eq_iff:
  "write_segment w s = write_segment w t \<longleftrightarrow> canonical_form w s = canonical_form w t"
  by (cases s; cases t) (auto simp: write_segment_alt canonical_form_def)

lemma concat_write_inj:
  assumes "length xs = length ys"
  shows "concat (map (write_segment w) xs) = concat (map (write_segment w) ys) \<longleftrightarrow>
         map (canonical_form w) xs = map (canonical_form w) ys"
  using assms by (induction xs ys rule: list_induct2) (simp_all add: write_segment_eq_iff)

lemma u32_length_inj:
  assumes "length xs < 2 ^ 32" and "length ys < 2 ^ 32"
  shows "(of_nat (length xs) :: u32) = of_nat (length ys) \<longleftrightarrow> length xs = length ys"
proof
  assume "(of_nat (length xs) :: u32) = of_nat (length ys)"
  then have "unat (of_nat (length xs) :: u32) = unat (of_nat (length ys) :: u32)" by simp
  with assms show "length xs = length ys" by (simp add: unat_of_nat)
qed simp

lemma sequence_tail_inj:
  assumes "length xs < 2 ^ 32" and "length ys < 2 ^ 32"
  shows "le_bytes 4 (of_nat (length xs) :: u32) @ concat (map (write_segment w) xs) =
         le_bytes 4 (of_nat (length ys) :: u32) @ concat (map (write_segment w) ys) \<longleftrightarrow>
         map (canonical_form w) xs = map (canonical_form w) ys"
  using concat_write_inj [of xs ys w] u32_length_inj [OF assms]
  by (auto dest: map_eq_imp_length_eq)

lemma canonicalize_segment_frame [simp]:
  "seg_kind (canonicalize_segment s) = seg_kind s"
  "seg_encoding (canonicalize_segment s) = effective_encoding s"
  "seg_id (canonicalize_segment s) = seg_id s"
  "seg_generation (canonicalize_segment s) = seg_generation s"
  "seg_node (canonicalize_segment s) = seg_node s"
  "seg_adjacency (canonicalize_segment s) = seg_adjacency s"
  "seg_endpoint (canonicalize_segment s) = seg_endpoint s"
  "seg_binding (canonicalize_segment s) = seg_binding s"
  "seg_policy (canonicalize_segment s) = seg_policy s"
  "seg_policy_generation (canonicalize_segment s) = seg_policy_generation s"
  "seg_topology (canonicalize_segment s) = seg_topology s"
  "seg_payload (canonicalize_segment s) = seg_payload s"
  by (simp_all add: canonicalize_segment_def effective_encoding_def)

lemma segment_eq_fields:
  "(s :: Segment) = t \<longleftrightarrow>
     seg_kind s = seg_kind t \<and> seg_encoding s = seg_encoding t \<and> seg_id s = seg_id t \<and>
     seg_generation s = seg_generation t \<and> seg_node s = seg_node t \<and>
     seg_adjacency s = seg_adjacency t \<and> seg_endpoint s = seg_endpoint t \<and>
     seg_binding s = seg_binding t \<and> seg_policy s = seg_policy t \<and>
     seg_policy_generation s = seg_policy_generation t \<and> seg_topology s = seg_topology t \<and>
     seg_payload s = seg_payload t"
  by (cases s; cases t) simp

lemma canonicalize_segment_idem [simp]:
  "canonicalize_segment (canonicalize_segment s) = canonicalize_segment s"
  by (cases "seg_kind s") (auto simp: canonicalize_segment_def)

lemma semantic_equal_canonical:
  "segment_semantic_equal a b w \<longleftrightarrow>
     length (seg_payload a) \<le> unat w \<and> length (seg_payload b) \<le> unat w \<and>
     canonical_segment_bytes (canonicalize_segment a) w =
     canonical_segment_bytes (canonicalize_segment b) w"
proof -
  have "canonical_segment_bytes (canonicalize_segment a) w =
        canonical_segment_bytes (canonicalize_segment b) w \<longleftrightarrow>
        canonical_form w (canonicalize_segment a) = canonical_form w (canonicalize_segment b)"
    by (simp add: canonical_segment_bytes_def write_segment_eq_iff)
  also have "\<dots> \<longleftrightarrow> same_scalar_content a b \<and>
      pad_payload (unat w) (seg_payload a) = pad_payload (unat w) (seg_payload b)"
    by (simp add: segment_eq_fields canonical_form_def same_scalar_content_def)
  finally show ?thesis by (auto simp: segment_semantic_equal_iff canonical_payload_equal_iff)
qed

section \<open>Properties\<close>

text \<open>
  C29: order is semantic. The canonical bytes of two ordered sequences at the same payload width
  agree exactly when the sequences agree position by position (up to the zero padding of each
  payload to the width). In particular no reordering, insertion, removal or deduplication of
  segments is invisible to the canonical bytes from which the sequence digest is computed.
\<close>

theorem canonical_sequence_order_exact:
  assumes "length xs < 2 ^ 32" and "length ys < 2 ^ 32"
  shows "canonical_sequence_bytes xs w = canonical_sequence_bytes ys w \<longleftrightarrow>
         map (canonical_form w) xs = map (canonical_form w) ys"
  using sequence_tail_inj [OF assms] by (simp add: canonical_sequence_bytes_def)

definition node_segment_example :: "u64 \<Rightarrow> Segment" where
  "node_segment_example i = \<lparr>seg_kind = SK_Node, seg_encoding = SE_AbstractNodeV1, seg_id = i,
     seg_generation = 1, seg_node = i, seg_adjacency = 0, seg_endpoint = 0, seg_binding = 0,
     seg_policy = 0, seg_policy_generation = 0, seg_topology = 0, seg_payload = [7]\<rparr>"

theorem canonical_sequence_order_exact_witness:
  "canonical_sequence_bytes [node_segment_example 1, node_segment_example 2] 4 \<noteq>
   canonical_sequence_bytes [node_segment_example 2, node_segment_example 1] 4"
  using canonical_sequence_order_exact
    [of "[node_segment_example 1, node_segment_example 2]"
        "[node_segment_example 2, node_segment_example 1]" 4]
  by (simp add: canonical_form_def node_segment_example_def)

text \<open>
  the content bytes, from which the content digest is computed, determine the payload width
  and every governed field of the list content: identity, scope, profile, policy, strictness, all
  bound dependency generations and the ordered segments.
\<close>

theorem canonical_content_exact:
  assumes "length (lc_segments c) < 2 ^ 32" and "length (lc_segments d) < 2 ^ 32"
  shows "canonical_content_bytes c w = canonical_content_bytes d v \<longleftrightarrow>
         w = v \<and> c\<lparr>lc_segments := map (canonical_form w) (lc_segments c)\<rparr> =
                  d\<lparr>lc_segments := map (canonical_form w) (lc_segments d)\<rparr>"
  using sequence_tail_inj [OF assms, of w]
  by (cases c; cases d) (auto simp: canonical_content_bytes_def)

definition content_example :: "Segment list \<Rightarrow> SegmentListContent" where
  "content_example segs = \<lparr>lc_id = 11, lc_scope = 0x100, lc_profile = 0x10001,
     lc_profile_generation = 1, lc_policy = 0, lc_policy_generation = 0, lc_strictness = Strict,
     lc_topology = 0, lc_capability = 1, lc_path = 0, lc_path_authority = 0, lc_route = 0,
     lc_route_generation = 0, lc_constraint = 0, lc_constraint_generation = 0,
     lc_segments = segs\<rparr>"

theorem canonical_content_exact_witness:
  "canonical_content_bytes (content_example [node_segment_example 1]) 4 \<noteq>
   canonical_content_bytes ((content_example [node_segment_example 1])\<lparr>lc_capability := 2\<rparr>) 4"
  using canonical_content_exact
    [of "content_example [node_segment_example 1]"
        "(content_example [node_segment_example 1])\<lparr>lc_capability := 2\<rparr>" 4 4]
  by (simp add: content_example_def)

text \<open>
  the semantic segment equality that the duplicate gates use is exactly equality of canonical
  encodings. For payloads that fit the profile width, two segments are semantically equal iff
  their canonicalized forms have identical canonical bytes; a payload that does not fit makes a
  segment semantically equal to nothing.
\<close>

theorem semantic_equality_is_canonical_equality:
  "segment_semantic_equal a b w \<longleftrightarrow>
     length (seg_payload a) \<le> unat w \<and> length (seg_payload b) \<le> unat w \<and>
     canonical_segment_bytes (canonicalize_segment a) w =
     canonical_segment_bytes (canonicalize_segment b) w"
  by (rule semantic_equal_canonical)

end
