(* ===== verification/Evidence.thy ===== *)
theory Evidence
  imports SegList
begin

text \<open>
  Fabric evidence (\<^verbatim>\<open>evidence.hpp/.cpp\<close>): the record tables the owning runtimes supply, the
  watermark of all dependency generations, and \<^verbatim>\<open>SyntheticEvidence\<close>, the evidence source the
  repository ships. Every fabrication operation is one constructor of \<open>evidence_op\<close>, so that a run
  of concurrent changes is a list of them.
\<close>

section \<open>Records\<close>

record CapabilityRecord =
  cr_key :: CapabilityKey
  cr_generation :: CapabilityGeneration
  cr_supported :: bool

record SegmentRecord =
  sr_id :: SegmentId
  sr_kind :: SegmentKind
  sr_generation :: SegmentGeneration
  sr_scope :: ScopeId

record NodeRecord =
  nr_id :: NodeId
  nr_scope :: ScopeId

record AdjacencyRecord =
  ar_id :: AdjacencyId
  ar_topology :: TopologyGeneration
  ar_from :: NodeId
  ar_to :: NodeId
  ar_scope :: ScopeId

record EndpointRecord =
  er_id :: EndpointId
  er_node :: NodeId
  er_scope :: ScopeId

record BindingRecord =
  br_id :: BindingId
  br_bound_segment :: SegmentId
  br_scope :: ScopeId

record PathRecord =
  pr_id :: PathId
  pr_authority :: PathAuthorityGeneration
  pr_scope :: ScopeId

record RouteRecord =
  rr_id :: RouteId
  rr_generation :: RouteGeneration
  rr_list :: SegmentListId
  rr_list_generation :: SegmentListGeneration
  rr_scope :: ScopeId

record ConstraintRecord =
  xr_id :: ConstraintEvaluationId
  xr_generation :: ConstraintGeneration
  xr_scope :: ScopeId

record EvidenceWatermark =
  wm_topology :: TopologyGeneration
  wm_capability :: CapabilityGeneration
  wm_path_authority :: PathAuthorityGeneration
  wm_route :: RouteGeneration
  wm_constraint :: ConstraintGeneration
  wm_revision :: u64

record FabricEvidence =
  fe_topology :: TopologyGeneration
  fe_capability :: CapabilityGeneration
  fe_path_authority :: PathAuthorityGeneration
  fe_route :: RouteGeneration
  fe_constraint :: ConstraintGeneration
  fe_capabilities :: "CapabilityRecord list"
  fe_segments :: "SegmentRecord list"
  fe_nodes :: "NodeRecord list"
  fe_adjacencies :: "AdjacencyRecord list"
  fe_endpoints :: "EndpointRecord list"
  fe_bindings :: "BindingRecord list"
  fe_paths :: "PathRecord list"
  fe_routes :: "RouteRecord list"
  fe_constraints :: "ConstraintRecord list"

definition empty_evidence :: FabricEvidence where
  "empty_evidence = \<lparr>fe_topology = 0, fe_capability = 0, fe_path_authority = 0, fe_route = 0,
     fe_constraint = 0, fe_capabilities = [], fe_segments = [], fe_nodes = [], fe_adjacencies = [],
     fe_endpoints = [], fe_bindings = [], fe_paths = [], fe_routes = [], fe_constraints = []\<rparr>"

definition empty_watermark :: EvidenceWatermark where
  "empty_watermark = \<lparr>wm_topology = 0, wm_capability = 0, wm_path_authority = 0, wm_route = 0,
     wm_constraint = 0, wm_revision = 0\<rparr>"

section \<open>Lookups\<close>

definition find_capability :: "FabricEvidence \<Rightarrow> CapabilityKey \<Rightarrow> CapabilityRecord option" where
  "find_capability e k = find_key cr_key k (fe_capabilities e)"

definition find_segment :: "FabricEvidence \<Rightarrow> SegmentId \<Rightarrow> SegmentRecord option" where
  "find_segment e i = find_key sr_id i (fe_segments e)"

definition find_node :: "FabricEvidence \<Rightarrow> NodeId \<Rightarrow> NodeRecord option" where
  "find_node e i = find_key nr_id i (fe_nodes e)"

definition find_adjacency :: "FabricEvidence \<Rightarrow> AdjacencyId \<Rightarrow> AdjacencyRecord option" where
  "find_adjacency e i = find_key ar_id i (fe_adjacencies e)"

definition find_endpoint :: "FabricEvidence \<Rightarrow> EndpointId \<Rightarrow> EndpointRecord option" where
  "find_endpoint e i = find_key er_id i (fe_endpoints e)"

definition find_binding :: "FabricEvidence \<Rightarrow> BindingId \<Rightarrow> BindingRecord option" where
  "find_binding e i = find_key br_id i (fe_bindings e)"

definition find_path :: "FabricEvidence \<Rightarrow> PathId \<Rightarrow> PathRecord option" where
  "find_path e i = find_key pr_id i (fe_paths e)"

definition find_route :: "FabricEvidence \<Rightarrow> RouteId \<Rightarrow> RouteRecord option" where
  "find_route e i = find_key rr_id i (fe_routes e)"

definition find_constraint ::
  "FabricEvidence \<Rightarrow> ConstraintEvaluationId \<Rightarrow> ConstraintRecord option" where
  "find_constraint e i = find_key xr_id i (fe_constraints e)"

definition evidence_record_count :: "FabricEvidence \<Rightarrow> nat" where
  "evidence_record_count e =
     length (fe_capabilities e) + length (fe_segments e) + length (fe_nodes e) +
     length (fe_adjacencies e) + length (fe_endpoints e) + length (fe_bindings e) +
     length (fe_paths e) + length (fe_routes e) + length (fe_constraints e)"

section \<open>SyntheticEvidence\<close>

record SyntheticEvidence =
  se_evidence :: FabricEvidence
  se_revision :: u64

definition new_evidence :: SyntheticEvidence where
  "new_evidence = \<lparr>se_evidence = empty_evidence, se_revision = 0\<rparr>"

definition snapshot :: "SyntheticEvidence \<Rightarrow> FabricEvidence" where
  "snapshot s = se_evidence s"

definition watermark :: "SyntheticEvidence \<Rightarrow> EvidenceWatermark" where
  "watermark s = \<lparr>
     wm_topology = fe_topology (se_evidence s),
     wm_capability = fe_capability (se_evidence s),
     wm_path_authority = fe_path_authority (se_evidence s),
     wm_route = fe_route (se_evidence s),
     wm_constraint = fe_constraint (se_evidence s),
     wm_revision = se_revision s\<rparr>"

text \<open>A fabrication step: change the evidence, then count \<open>n\<close> revisions (\<^verbatim>\<open>++revision_\<close> wraps).\<close>

definition bump :: "nat \<Rightarrow> (FabricEvidence \<Rightarrow> FabricEvidence) \<Rightarrow> SyntheticEvidence \<Rightarrow> SyntheticEvidence" where
  "bump n f s = \<lparr>se_evidence = f (se_evidence s), se_revision = se_revision s + of_nat n\<rparr>"

definition set_topology_generation :: "u64 \<Rightarrow> SyntheticEvidence \<Rightarrow> SyntheticEvidence" where
  "set_topology_generation g = bump 1 (fe_topology_update (\<lambda>_. g))"

definition set_capability_generation :: "u64 \<Rightarrow> SyntheticEvidence \<Rightarrow> SyntheticEvidence" where
  "set_capability_generation g = bump 1 (fe_capability_update (\<lambda>_. g))"

definition set_path_authority_generation :: "u64 \<Rightarrow> SyntheticEvidence \<Rightarrow> SyntheticEvidence" where
  "set_path_authority_generation g = bump 1 (fe_path_authority_update (\<lambda>_. g))"

definition set_route_generation :: "u64 \<Rightarrow> SyntheticEvidence \<Rightarrow> SyntheticEvidence" where
  "set_route_generation g = bump 1 (fe_route_update (\<lambda>_. g))"

definition add_capability :: "CapabilityRecord \<Rightarrow> SyntheticEvidence \<Rightarrow> SyntheticEvidence" where
  "add_capability r = bump 1 (fe_capabilities_update (upsert cr_key r))"

definition remove_capability :: "CapabilityKey \<Rightarrow> SyntheticEvidence \<Rightarrow> SyntheticEvidence" where
  "remove_capability k s =
     (if list_ex (\<lambda>r. cr_key r = k) (fe_capabilities (se_evidence s))
      then bump 1 (fe_capabilities_update (filter (\<lambda>r. cr_key r \<noteq> k))) s else s)"

definition add_segment :: "SegmentRecord \<Rightarrow> SyntheticEvidence \<Rightarrow> SyntheticEvidence" where
  "add_segment r = bump 1 (fe_segments_update (upsert sr_id r))"

definition remove_segment :: "SegmentId \<Rightarrow> SyntheticEvidence \<Rightarrow> SyntheticEvidence" where
  "remove_segment i s =
     (if list_ex (\<lambda>r. sr_id r = i) (fe_segments (se_evidence s))
      then bump 1 (fe_segments_update (filter (\<lambda>r. sr_id r \<noteq> i))) s else s)"

definition add_node :: "NodeRecord \<Rightarrow> SyntheticEvidence \<Rightarrow> SyntheticEvidence" where
  "add_node r = bump 1 (fe_nodes_update (upsert nr_id r))"

definition add_adjacency :: "AdjacencyRecord \<Rightarrow> SyntheticEvidence \<Rightarrow> SyntheticEvidence" where
  "add_adjacency r = bump 1 (fe_adjacencies_update (upsert ar_id r))"

definition remove_adjacency :: "AdjacencyId \<Rightarrow> SyntheticEvidence \<Rightarrow> SyntheticEvidence" where
  "remove_adjacency i s =
     (if list_ex (\<lambda>r. ar_id r = i) (fe_adjacencies (se_evidence s))
      then bump 1 (fe_adjacencies_update (filter (\<lambda>r. ar_id r \<noteq> i))) s else s)"

definition add_endpoint :: "EndpointRecord \<Rightarrow> SyntheticEvidence \<Rightarrow> SyntheticEvidence" where
  "add_endpoint r = bump 1 (fe_endpoints_update (upsert er_id r))"

definition add_binding :: "BindingRecord \<Rightarrow> SyntheticEvidence \<Rightarrow> SyntheticEvidence" where
  "add_binding r = bump 1 (fe_bindings_update (upsert br_id r))"

definition add_path :: "PathRecord \<Rightarrow> SyntheticEvidence \<Rightarrow> SyntheticEvidence" where
  "add_path r = bump 1 (fe_paths_update (upsert pr_id r))"

definition set_path_authority :: "PathId \<Rightarrow> u64 \<Rightarrow> SyntheticEvidence \<Rightarrow> SyntheticEvidence" where
  "set_path_authority i a = add_path \<lparr>pr_id = i, pr_authority = a, pr_scope = 0\<rparr>"

definition remove_path :: "PathId \<Rightarrow> SyntheticEvidence \<Rightarrow> SyntheticEvidence" where
  "remove_path i s =
     (if list_ex (\<lambda>r. pr_id r = i) (fe_paths (se_evidence s))
      then bump 1 (fe_paths_update (filter (\<lambda>r. pr_id r \<noteq> i))) s else s)"

definition add_route :: "RouteRecord \<Rightarrow> SyntheticEvidence \<Rightarrow> SyntheticEvidence" where
  "add_route r = bump 1 (fe_routes_update (upsert rr_id r))"

text \<open>\<^verbatim>\<open>set_route\<close> updates every route of the list and counts one revision for each.\<close>

definition set_route :: "SegmentListId \<Rightarrow> u64 \<Rightarrow> SyntheticEvidence \<Rightarrow> SyntheticEvidence" where
  "set_route l g s =
     bump (length (filter (\<lambda>r. rr_list r = l) (fe_routes (se_evidence s))))
       (fe_routes_update
          (map (\<lambda>r. if rr_list r = l then r\<lparr>rr_list_generation := g\<rparr> else r))) s"

definition add_constraint :: "ConstraintRecord \<Rightarrow> SyntheticEvidence \<Rightarrow> SyntheticEvidence" where
  "add_constraint r = bump 1 (fe_constraints_update (upsert xr_id r))"

definition set_constraint_generation :: "u64 \<Rightarrow> u64 \<Rightarrow> SyntheticEvidence \<Rightarrow> SyntheticEvidence" where
  "set_constraint_generation i g =
     bump 1 (fe_constraints_update
       (\<lambda>xs. case find_key xr_id i xs of
               Some _ \<Rightarrow> update_key xr_id i (\<lambda>r. r\<lparr>xr_generation := g\<rparr>) xs
             | None \<Rightarrow> xs @ [\<lparr>xr_id = i, xr_generation = g, xr_scope = 0\<rparr>]))"

section \<open>The fabricated fabric\<close>

definition kSyntheticScope :: u64 where "kSyntheticScope = 0x100"

definition fabric_node :: "u64 \<Rightarrow> SyntheticEvidence \<Rightarrow> SyntheticEvidence" where
  "fabric_node n =
     add_constraint \<lparr>xr_id = 0x6001, xr_generation = 1, xr_scope = kSyntheticScope\<rparr> \<circ>
     add_binding \<lparr>br_id = 0xA000 + n, br_bound_segment = 0x3000 + n, br_scope = kSyntheticScope\<rparr> \<circ>
     add_endpoint \<lparr>er_id = 0x8000 + n, er_node = 0x2000 + n, er_scope = kSyntheticScope\<rparr> \<circ>
     add_adjacency \<lparr>ar_id = 0x7000 + n, ar_topology = 1, ar_from = 0x2000 + n,
                     ar_to = 0x2000 + n + 1, ar_scope = kSyntheticScope\<rparr> \<circ>
     add_segment \<lparr>sr_id = 0x3000 + 400 + n, sr_kind = SK_Policy, sr_generation = 1,
                   sr_scope = kSyntheticScope\<rparr> \<circ>
     add_segment \<lparr>sr_id = 0x3000 + 300 + n, sr_kind = SK_Binding, sr_generation = 1,
                   sr_scope = kSyntheticScope\<rparr> \<circ>
     add_segment \<lparr>sr_id = 0x3000 + 200 + n, sr_kind = SK_Endpoint, sr_generation = 1,
                   sr_scope = kSyntheticScope\<rparr> \<circ>
     add_segment \<lparr>sr_id = 0x3000 + 100 + n, sr_kind = SK_Adjacency, sr_generation = 1,
                   sr_scope = kSyntheticScope\<rparr> \<circ>
     add_segment \<lparr>sr_id = 0x3000 + n, sr_kind = SK_Node, sr_generation = 1,
                   sr_scope = kSyntheticScope\<rparr> \<circ>
     add_node \<lparr>nr_id = 0x2000 + n, nr_scope = kSyntheticScope\<rparr>"

definition make_synthetic_fabric :: "nat \<Rightarrow> SyntheticEvidence" where
  "make_synthetic_fabric node_count =
     (let e = new_evidence;
          e = set_topology_generation 1 e;
          e = set_capability_generation 1 e;
          e = set_path_authority_generation 1 e;
          e = set_route_generation 1 e;
          e = add_capability \<lparr>cr_key = 0x1001, cr_generation = 1, cr_supported = True\<rparr> e;
          e = add_capability \<lparr>cr_key = 0x1002, cr_generation = 1, cr_supported = True\<rparr> e;
          e = fold (\<lambda>n. fabric_node (of_nat n)) [1..<Suc node_count] e;
          e = add_path \<lparr>pr_id = 0x4001, pr_authority = 1, pr_scope = kSyntheticScope\<rparr> e
      in add_route \<lparr>rr_id = 0x5001, rr_generation = 1, rr_list = 0, rr_list_generation = 0,
                     rr_scope = kSyntheticScope\<rparr> e)"

section \<open>Runs of concurrent changes\<close>

datatype evidence_op =
    SetTopologyGeneration u64
  | SetCapabilityGeneration u64
  | SetPathAuthorityGeneration u64
  | SetRouteGeneration u64
  | AddCapability CapabilityRecord
  | RemoveCapability CapabilityKey
  | AddSegment SegmentRecord
  | RemoveSegment SegmentId
  | AddNode NodeRecord
  | AddAdjacency AdjacencyRecord
  | RemoveAdjacency AdjacencyId
  | AddEndpoint EndpointRecord
  | AddBinding BindingRecord
  | AddPath PathRecord
  | SetPathAuthority PathId u64
  | RemovePath PathId
  | AddRoute RouteRecord
  | SetRoute SegmentListId u64
  | AddConstraint ConstraintRecord
  | SetConstraintGeneration u64 u64

primrec evidence_step :: "evidence_op \<Rightarrow> SyntheticEvidence \<Rightarrow> SyntheticEvidence" where
  "evidence_step (SetTopologyGeneration g) = set_topology_generation g"
| "evidence_step (SetCapabilityGeneration g) = set_capability_generation g"
| "evidence_step (SetPathAuthorityGeneration g) = set_path_authority_generation g"
| "evidence_step (SetRouteGeneration g) = set_route_generation g"
| "evidence_step (AddCapability r) = add_capability r"
| "evidence_step (RemoveCapability k) = remove_capability k"
| "evidence_step (AddSegment r) = add_segment r"
| "evidence_step (RemoveSegment i) = remove_segment i"
| "evidence_step (AddNode r) = add_node r"
| "evidence_step (AddAdjacency r) = add_adjacency r"
| "evidence_step (RemoveAdjacency i) = remove_adjacency i"
| "evidence_step (AddEndpoint r) = add_endpoint r"
| "evidence_step (AddBinding r) = add_binding r"
| "evidence_step (AddPath r) = add_path r"
| "evidence_step (SetPathAuthority i a) = set_path_authority i a"
| "evidence_step (RemovePath i) = remove_path i"
| "evidence_step (AddRoute r) = add_route r"
| "evidence_step (SetRoute l g) = set_route l g"
| "evidence_step (AddConstraint r) = add_constraint r"
| "evidence_step (SetConstraintGeneration i g) = set_constraint_generation i g"

lemmas evidence_op_defs = set_topology_generation_def set_capability_generation_def
  set_path_authority_generation_def set_route_generation_def add_capability_def
  remove_capability_def add_segment_def remove_segment_def add_node_def add_adjacency_def
  remove_adjacency_def add_endpoint_def add_binding_def add_path_def set_path_authority_def
  remove_path_def add_route_def set_route_def add_constraint_def set_constraint_generation_def

text \<open>How many revisions a step counts: at least one unless it leaves the evidence as it is.\<close>

definition step_revisions :: "evidence_op \<Rightarrow> SyntheticEvidence \<Rightarrow> nat" where
  "step_revisions op s =
     (case op of
        SetRoute l g \<Rightarrow> length (filter (\<lambda>r. rr_list r = l) (fe_routes (se_evidence s)))
      | RemoveCapability k \<Rightarrow>
          (if list_ex (\<lambda>r. cr_key r = k) (fe_capabilities (se_evidence s)) then 1 else 0)
      | RemoveSegment i \<Rightarrow>
          (if list_ex (\<lambda>r. sr_id r = i) (fe_segments (se_evidence s)) then 1 else 0)
      | RemoveAdjacency i \<Rightarrow>
          (if list_ex (\<lambda>r. ar_id r = i) (fe_adjacencies (se_evidence s)) then 1 else 0)
      | RemovePath i \<Rightarrow>
          (if list_ex (\<lambda>r. pr_id r = i) (fe_paths (se_evidence s)) then 1 else 0)
      | _ \<Rightarrow> 1)"


section \<open>The evidence-source interface\<close>

text \<open>
  The store relies on two reads of an evidence source: the snapshot it validates against and the
  watermark it re-checks before it commits. The contract is that a change which is not counted
  by the watermark's revision is no change of the snapshot. From it, one comparison of
  watermarks rules out every change in between, as long as fewer than \<open>2^64\<close> of them were counted.
\<close>

primrec run_ops :: "('op \<Rightarrow> 's \<Rightarrow> 's) \<Rightarrow> 'op list \<Rightarrow> 's \<Rightarrow> 's" where
  "run_ops step [] s = s"
| "run_ops step (op # ops) s = run_ops step ops (step op s)"

primrec counted :: "('op \<Rightarrow> 's \<Rightarrow> 's) \<Rightarrow> ('op \<Rightarrow> 's \<Rightarrow> nat) \<Rightarrow> 'op list \<Rightarrow> 's \<Rightarrow> nat" where
  "counted step n [] s = 0"
| "counted step n (op # ops) s = n op s + counted step n ops (step op s)"

locale evidence_source =
  fixes snap :: "'s \<Rightarrow> FabricEvidence"
    and wm :: "'s \<Rightarrow> EvidenceWatermark"
    and step :: "'op \<Rightarrow> 's \<Rightarrow> 's"
    and revisions :: "'op \<Rightarrow> 's \<Rightarrow> nat"
  assumes step_revision:
      "wm_revision (wm (step op s)) = wm_revision (wm s) + of_nat (revisions op s)"
    and uncounted_no_change: "revisions op s = 0 \<Longrightarrow> snap (step op s) = snap s"
begin

lemma run_revision:
  "wm_revision (wm (run_ops step ops s)) = wm_revision (wm s) + of_nat (counted step revisions ops s)"
  by (induction ops arbitrary: s) (simp_all add: step_revision)

lemma run_uncounted: "counted step revisions ops s = 0 \<Longrightarrow> snap (run_ops step ops s) = snap s"
  by (induction ops arbitrary: s) (simp_all add: uncounted_no_change)

lemma same_watermark_same_snapshot:
  assumes "counted step revisions ops s < 2 ^ 64" and "wm (run_ops step ops s) = wm s"
  shows "snap (run_ops step ops s) = snap s"
proof -
  have "wm_revision (wm s) + of_nat (counted step revisions ops s) = wm_revision (wm s)"
    using assms(2) run_revision [of ops s] by simp
  with assms(1) have "counted step revisions ops s = 0"
    using word_ne_plus_of_nat [where w = "wm_revision (wm s)" and k = "counted step revisions ops s"]
    by fastforce
  then show ?thesis by (rule run_uncounted)
qed

lemma same_watermark_split:
  assumes "counted step revisions (before @ after) s < 2 ^ 64"
    and "wm (run_ops step (before @ after) s) = wm s"
  shows "snap (run_ops step before s) = snap (run_ops step (before @ after) s)"
proof -
  have split: "counted step revisions (before @ after) s =
      counted step revisions before s + counted step revisions after (run_ops step before s)"
    by (induction before arbitrary: s) simp_all
  have app: "run_ops step (before @ after) s = run_ops step after (run_ops step before s)"
    by (induction before arbitrary: s) simp_all
  have "wm_revision (wm s) + of_nat (counted step revisions (before @ after) s) = wm_revision (wm s)"
    using assms(2) run_revision [of "before @ after" s] by simp
  with assms(1) have "counted step revisions (before @ after) s = 0"
    using word_ne_plus_of_nat [where w = "wm_revision (wm s)"
        and k = "counted step revisions (before @ after) s"] by fastforce
  then have "counted step revisions after (run_ops step before s) = 0" by (simp add: split)
  then show ?thesis using run_uncounted app by simp
qed

end

lemma bump_revision [simp]: "se_revision (bump n f s) = se_revision s + of_nat n"
  by (simp add: bump_def)

lemma bump_evidence [simp]: "se_evidence (bump n f s) = f (se_evidence s)"
  by (simp add: bump_def)

lemma watermark_revision [simp]: "wm_revision (watermark s) = se_revision s"
  by (simp add: watermark_def)

lemma set_route_idle:
  "filter (\<lambda>r. rr_list r = l) (fe_routes (se_evidence s)) = [] \<Longrightarrow>
   map (\<lambda>r. if rr_list r = l then r\<lparr>rr_list_generation := g\<rparr> else r) (fe_routes (se_evidence s)) =
   fe_routes (se_evidence s)"
  by (rule map_idI) (auto simp: filter_empty_conv)

interpretation synthetic: evidence_source snapshot watermark evidence_step step_revisions
proof
  fix op s
  show "wm_revision (watermark (evidence_step op s)) =
        wm_revision (watermark s) + of_nat (step_revisions op s)"
    by (cases op) (simp_all add: evidence_op_defs step_revisions_def)
  show "snapshot (evidence_step op s) = snapshot s" if "step_revisions op s = 0"
    using that by (cases op)
      (auto simp: evidence_op_defs step_revisions_def snapshot_def set_route_idle split: if_splits)
qed

section \<open>The record tables as keyed tables\<close>

interpretation segment_table: keyed_table
  "\<lambda>s i. find_segment (snapshot s) i" add_segment sr_id
  by unfold_locales (simp add: find_segment_def snapshot_def add_segment_def find_key_upsert)

interpretation capability_table: keyed_table
  "\<lambda>s i. find_capability (snapshot s) i" add_capability cr_key
  by unfold_locales (simp add: find_capability_def snapshot_def add_capability_def find_key_upsert)

interpretation adjacency_table: keyed_table
  "\<lambda>s i. find_adjacency (snapshot s) i" add_adjacency ar_id
  by unfold_locales (simp add: find_adjacency_def snapshot_def add_adjacency_def find_key_upsert)

section \<open>Properties\<close>

text \<open>
  one watermark comparison covers all evidence. If fewer than \<open>2^64\<close> revisions were counted
  between two reads of a \<^verbatim>\<open>SyntheticEvidence\<close> and the two watermarks agree, then every evidence
  table and generation is unchanged: the snapshots agree, whatever fabrication operations ran.
\<close>

theorem watermark_covers_snapshot:
  assumes "counted evidence_step step_revisions ops s < 2 ^ 64"
    and "watermark (run_ops evidence_step ops s) = watermark s"
  shows "snapshot (run_ops evidence_step ops s) = snapshot s"
  using assms by (rule synthetic.same_watermark_same_snapshot)

theorem watermark_covers_snapshot_witness:
  "watermark (run_ops evidence_step [RemovePath 9, SetRoute 4 2] new_evidence) =
     watermark new_evidence \<and>
   snapshot (run_ops evidence_step [RemovePath 9, SetRoute 4 2] new_evidence) =
     snapshot new_evidence"
proof -
  have wm: "watermark (run_ops evidence_step [RemovePath 9, SetRoute 4 2] new_evidence) =
      watermark new_evidence"
    by (simp add: evidence_op_defs new_evidence_def empty_evidence_def watermark_def)
  have c: "counted evidence_step step_revisions [RemovePath 9, SetRoute 4 2] new_evidence < 2 ^ 64"
    by (simp add: step_revisions_def evidence_op_defs new_evidence_def empty_evidence_def)
  show ?thesis using wm watermark_covers_snapshot [OF c wm] by simp
qed

end
