(* ===== verification/Authority.thy ===== *)
theory Authority
  imports SegList
begin

text \<open>
  Coordinator-owned authority (\<^verbatim>\<open>authority.hpp/.cpp\<close>): the epoch, the registered publishers and the
  permanently fenced boots. Each method takes the mutex for its whole body, so each is one atomic
  operation on the table. \<^verbatim>\<open>AuthorityView\<close> (\<^verbatim>\<open>validation.hpp/.cpp\<close>) is a copy of the table.
\<close>

section \<open>State\<close>

record CallerIdentity =
  ca_epoch :: CoordinatorEpoch
  ca_publisher :: PublisherId
  ca_boot :: WorkerBootId
  ca_scope :: ScopeId
  ca_attempt :: MutationAttemptId

record PublisherState =
  ps_id :: PublisherId
  ps_boot :: WorkerBootId
  ps_scope :: ScopeId
  ps_epoch :: CoordinatorEpoch
  ps_alive :: bool
  ps_fenced :: bool

record AuthorityTable =
  at_epoch :: CoordinatorEpoch
  at_publishers :: "PublisherState list"
  at_fenced_boots :: "WorkerBootId list"

definition new_authority :: AuthorityTable where
  "new_authority = \<lparr>at_epoch = initial_generation, at_publishers = [], at_fenced_boots = []\<rparr>"

section \<open>Operations\<close>

definition advance_epoch :: "AuthorityTable \<Rightarrow> bool \<times> AuthorityTable" where
  "advance_epoch a =
     (case next_generation (at_epoch a) of
        None \<Rightarrow> (False, a)
      | Some n \<Rightarrow> (True, a\<lparr>at_epoch := n\<rparr>))"

definition restore_epoch :: "CoordinatorEpoch \<Rightarrow> AuthorityTable \<Rightarrow> bool \<times> AuthorityTable" where
  "restore_epoch epoch a =
     (if \<not> valid epoch \<or> epoch < at_epoch a then (False, a)
      else (True, a\<lparr>at_epoch := epoch\<rparr>))"

definition register_publisher ::
  "PublisherId \<Rightarrow> WorkerBootId \<Rightarrow> ScopeId \<Rightarrow> CoordinatorEpoch \<Rightarrow> Limits \<Rightarrow> AuthorityTable \<Rightarrow>
   ValidationResult \<times> AuthorityTable" where
  "register_publisher pid boot scope epoch limits a =
     (let result = set_limits (Some limits) vr_success in
      if \<not> valid pid then (vr_add RC_CallerMissingPublisher 0 0 result, a)
      else if \<not> valid boot then (vr_add RC_CallerMissingWorkerBoot 0 0 result, a)
      else if \<not> valid scope then (vr_add RC_CallerMissingScope 0 0 result, a)
      else if \<not> valid epoch then (vr_add RC_EpochInvalid 0 0 result, a)
      else if epoch \<noteq> at_epoch a then (vr_add RC_EpochStale 0 epoch result, a)
      else if List.member (at_fenced_boots a) boot
      then (vr_add RC_BootAlreadyFenced 0 boot result, a)
      else
        (case find_key ps_id pid (at_publishers a) of
           Some p \<Rightarrow>
             (if ps_boot p \<noteq> boot then (vr_add RC_CallerStaleWorkerBoot 0 (ps_boot p) result, a)
              else (result,
                a\<lparr>at_publishers := update_key ps_id pid
                    (\<lambda>p. p\<lparr>ps_scope := scope, ps_epoch := epoch, ps_alive := True, ps_fenced := False\<rparr>)
                    (at_publishers a)\<rparr>))
         | None \<Rightarrow>
             (if length (at_publishers a) \<ge> unat (max_publishers limits)
              then (vr_add RC_LimitMaxPublishers 0 (ucast (max_publishers limits)) result, a)
              else (result,
                a\<lparr>at_publishers := at_publishers a @
                    [\<lparr>ps_id = pid, ps_boot = boot, ps_scope = scope, ps_epoch = epoch,
                      ps_alive = True, ps_fenced = False\<rparr>]\<rparr>))))"

definition heartbeat ::
  "PublisherId \<Rightarrow> WorkerBootId \<Rightarrow> CoordinatorEpoch \<Rightarrow> AuthorityTable \<Rightarrow>
   ValidationResult \<times> AuthorityTable" where
  "heartbeat pid boot epoch a =
     (let result = vr_success in
      if \<not> valid pid then (vr_add RC_CallerMissingPublisher 0 0 result, a)
      else if \<not> valid boot then (vr_add RC_CallerMissingWorkerBoot 0 0 result, a)
      else if epoch \<noteq> at_epoch a then (vr_add RC_EpochStale 0 epoch result, a)
      else
        (case find_key ps_id pid (at_publishers a) of
           Some p \<Rightarrow>
             (if ps_boot p \<noteq> boot then (vr_add RC_CallerStaleWorkerBoot 0 (ps_boot p) result, a)
              else if ps_fenced p \<or> List.member (at_fenced_boots a) boot
              then (vr_add RC_CallerFencedPublisher 0 boot result, a)
              else (result, a\<lparr>at_publishers :=
                     update_key ps_id pid (\<lambda>p. p\<lparr>ps_alive := True\<rparr>) (at_publishers a)\<rparr>))
         | None \<Rightarrow> (vr_add RC_CallerUnknownPublisher 0 pid result, a)))"

definition push_boot :: "WorkerBootId \<Rightarrow> WorkerBootId list \<Rightarrow> WorkerBootId list" where
  "push_boot b bs = (if List.member bs b then bs else bs @ [b])"

definition kill :: "PublisherState \<Rightarrow> PublisherState" where
  "kill p = p\<lparr>ps_alive := False, ps_fenced := True\<rparr>"

definition mark_dead :: "PublisherId \<Rightarrow> AuthorityTable \<Rightarrow> ValidationResult \<times> AuthorityTable" where
  "mark_dead pid a =
     (case find_key ps_id pid (at_publishers a) of
        Some p \<Rightarrow>
          (vr_success,
           a\<lparr>at_publishers := update_key ps_id pid kill (at_publishers a),
              at_fenced_boots := push_boot (ps_boot p) (at_fenced_boots a)\<rparr>)
      | None \<Rightarrow> (vr_add RC_CallerUnknownPublisher 0 pid vr_success, a))"

definition fence_boot :: "WorkerBootId \<Rightarrow> AuthorityTable \<Rightarrow> ValidationResult \<times> AuthorityTable" where
  "fence_boot boot a =
     (if \<not> valid boot then (vr_add RC_CallerMissingWorkerBoot 0 0 vr_success, a)
      else (vr_success,
        a\<lparr>at_fenced_boots := push_boot boot (at_fenced_boots a),
           at_publishers :=
             map (\<lambda>p. if ps_boot p = boot then kill p else p) (at_publishers a)\<rparr>))"

definition is_fenced :: "WorkerBootId \<Rightarrow> AuthorityTable \<Rightarrow> bool" where
  "is_fenced boot a = List.member (at_fenced_boots a) boot"

definition is_alive :: "PublisherId \<Rightarrow> AuthorityTable \<Rightarrow> bool" where
  "is_alive pid a =
     (case find_key ps_id pid (at_publishers a) of
        Some p \<Rightarrow> ps_alive p \<and> \<not> ps_fenced p
      | None \<Rightarrow> False)"

definition find_publisher :: "PublisherId \<Rightarrow> AuthorityTable \<Rightarrow> PublisherState option" where
  "find_publisher pid a = find_key ps_id pid (at_publishers a)"

definition publisher_count :: "AuthorityTable \<Rightarrow> nat" where
  "publisher_count a = length (at_publishers a)"

definition restore_publisher :: "PublisherState \<Rightarrow> AuthorityTable \<Rightarrow> AuthorityTable" where
  "restore_publisher st a = a\<lparr>at_publishers := upsert ps_id st (at_publishers a)\<rparr>"

definition restore_fenced_boot :: "WorkerBootId \<Rightarrow> AuthorityTable \<Rightarrow> AuthorityTable" where
  "restore_fenced_boot boot a = a\<lparr>at_fenced_boots := push_boot boot (at_fenced_boots a)\<rparr>"

definition fence_all_on_recovery :: "AuthorityTable \<Rightarrow> AuthorityTable" where
  "fence_all_on_recovery a =
     a\<lparr>at_publishers := map kill (at_publishers a),
        at_fenced_boots := fold (\<lambda>p. push_boot (ps_boot p)) (at_publishers a) (at_fenced_boots a)\<rparr>"

text \<open>
  How \<^verbatim>\<open>SegmentListStore::load\<close> restores one durable publisher: dead, and with its boot fenced.
\<close>

definition restore_dead_publisher :: "PublisherState \<Rightarrow> AuthorityTable \<Rightarrow> AuthorityTable" where
  "restore_dead_publisher st a =
     (let a' = restore_publisher (kill st) a
      in if valid (ps_boot st) then restore_fenced_boot (ps_boot st) a' else a')"

text \<open>The point-in-time copy that validation reads.\<close>

type_synonym AuthorityView = AuthorityTable

definition boot_fenced :: "AuthorityView \<Rightarrow> WorkerBootId \<Rightarrow> bool" where
  "boot_fenced v boot = (if \<not> valid boot then False else List.member (at_fenced_boots v) boot)"

lemmas authority_defs = advance_epoch_def restore_epoch_def register_publisher_def heartbeat_def
  mark_dead_def fence_boot_def restore_publisher_def restore_fenced_boot_def
  fence_all_on_recovery_def restore_dead_publisher_def Let_def

section \<open>The authority state machine\<close>

inductive authority_step :: "AuthorityTable \<Rightarrow> AuthorityTable \<Rightarrow> bool" where
  advance: "authority_step a (snd (advance_epoch a))"
| restore: "authority_step a (snd (restore_epoch e a))"
| register: "authority_step a (snd (register_publisher pid boot scope e limits a))"
| beat: "authority_step a (snd (heartbeat pid boot e a))"
| dead: "authority_step a (snd (mark_dead pid a))"
| fence: "authority_step a (snd (fence_boot boot a))"
| restore_dead: "authority_step a (restore_dead_publisher st a)"
| restore_boot: "authority_step a (restore_fenced_boot boot a)"
| recovery: "authority_step a (fence_all_on_recovery a)"

inductive_cases authority_stepE [elim]: "authority_step a a'"

text \<open>
  A publisher is either alive or fenced, and the boot of a fenced one is on the fenced list (the
  invalid boot aside, with which nothing can register).
\<close>

definition publisher_wf :: "AuthorityTable \<Rightarrow> PublisherState \<Rightarrow> bool" where
  "publisher_wf a p \<longleftrightarrow> (ps_fenced p \<longleftrightarrow> \<not> ps_alive p) \<and>
     (ps_fenced p \<longrightarrow> valid (ps_boot p) \<longrightarrow> ps_boot p \<in> set (at_fenced_boots a))"

definition authority_wf :: "AuthorityTable \<Rightarrow> bool" where
  "authority_wf a \<longleftrightarrow> valid (at_epoch a) \<and> distinct (map ps_id (at_publishers a)) \<and>
     distinct (at_fenced_boots a) \<and> (\<forall>p \<in> set (at_publishers a). publisher_wf a p)"

lemma set_push_boot [simp]: "set (push_boot b bs) = insert b (set bs)"
  by (auto simp: push_boot_def)

lemma distinct_push_boot: "distinct bs \<Longrightarrow> distinct (push_boot b bs)"
  by (simp add: push_boot_def)

lemma kill_simps [simp]:
  "ps_id (kill p) = ps_id p" "ps_boot (kill p) = ps_boot p" "ps_scope (kill p) = ps_scope p"
  "\<not> ps_alive (kill p)" "ps_fenced (kill p)"
  by (simp_all add: kill_def)

lemma set_fold_push_boot [simp]:
  "set (fold (\<lambda>p. push_boot (f p)) ps bs) = set bs \<union> f ` set ps"
  by (induction ps arbitrary: bs) auto

lemma distinct_fold_push_boot: "distinct bs \<Longrightarrow> distinct (fold (\<lambda>p. push_boot (f p)) ps bs)"
  by (induction ps arbitrary: bs) (simp_all add: distinct_push_boot)


lemma wf_publisher_update:
  assumes "\<forall>p \<in> set ps. P p" and "\<And>p. p \<in> set ps \<Longrightarrow> P p \<Longrightarrow> Q p"
    and "\<And>p. p \<in> set ps \<Longrightarrow> k p = i \<Longrightarrow> P p \<Longrightarrow> Q (f p)"
  shows "\<forall>p \<in> set (update_key k i f ps). Q p"
  using assms set_update_key_subset [of k i f ps] by fastforce

lemma publisher_wf_mono:
  "publisher_wf a p \<Longrightarrow> set (at_fenced_boots a) \<subseteq> set (at_fenced_boots a') \<Longrightarrow> publisher_wf a' p"
  by (auto simp: publisher_wf_def)

lemma authority_wf_new: "authority_wf new_authority"
  by (simp add: authority_wf_def new_authority_def)

lemma advance_epoch_wf [srf_inv]: "authority_wf a \<Longrightarrow> authority_wf (snd (advance_epoch a))"
  using generation_next_valid [of "at_epoch a"]
  by (auto simp: authority_wf_def advance_epoch_def publisher_wf_def split: option.split)

lemma restore_epoch_wf [srf_inv]: "authority_wf a \<Longrightarrow> authority_wf (snd (restore_epoch e a))"
  by (auto simp: authority_wf_def restore_epoch_def publisher_wf_def)

lemma register_publisher_wf [srf_inv]:
  assumes "authority_wf a"
  shows "authority_wf (snd (register_publisher pid boot scope e l a))"
proof -
  let ?f = "\<lambda>p. p\<lparr>ps_scope := scope, ps_epoch := e, ps_alive := True, ps_fenced := False\<rparr>"
  have "\<forall>p \<in> set (update_key ps_id pid ?f (at_publishers a)). publisher_wf a p"
    by (rule wf_publisher_update [where P = "publisher_wf a"])
       (use assms in \<open>auto simp: authority_wf_def publisher_wf_def\<close>)
  with assms show ?thesis
    by (auto simp: authority_wf_def register_publisher_def Let_def publisher_wf_def
        find_key_None_iff split: option.split)
qed

lemma heartbeat_wf [srf_inv]:
  assumes "authority_wf a"
  shows "authority_wf (snd (heartbeat pid boot e a))"
proof (cases "\<exists>p. find_key ps_id pid (at_publishers a) = Some p \<and> \<not> ps_fenced p")
  case True
  then obtain p where p: "find_key ps_id pid (at_publishers a) = Some p" "\<not> ps_fenced p" by blast
  have pp: "q = p" if "q \<in> set (at_publishers a)" "ps_id q = pid" for q
    using assms that p find_key_distinct [of ps_id "at_publishers a" q] by (auto simp: authority_wf_def)
  have "\<forall>q \<in> set (update_key ps_id pid (\<lambda>p. p\<lparr>ps_alive := True\<rparr>) (at_publishers a)). publisher_wf a q"
    by (rule wf_publisher_update [where P = "publisher_wf a"])
       (use assms p(2) pp in \<open>auto simp: authority_wf_def publisher_wf_def\<close>)
  with assms p show ?thesis
    by (auto simp: authority_wf_def heartbeat_def Let_def publisher_wf_def)
next
  case False
  with assms show ?thesis by (auto simp: heartbeat_def Let_def split: option.split)
qed

lemma mark_dead_wf [srf_inv]:
  assumes "authority_wf a"
  shows "authority_wf (snd (mark_dead pid a))"
proof (cases "find_key ps_id pid (at_publishers a)")
  case (Some p)
  let ?a = "snd (mark_dead pid a)"
  have sub: "set (at_fenced_boots a) \<subseteq> set (at_fenced_boots ?a)"
    and boot: "ps_boot p \<in> set (at_fenced_boots ?a)"
    using Some by (auto simp: mark_dead_def)
  have pp: "q = p" if "q \<in> set (at_publishers a)" "ps_id q = pid" for q
    using assms that Some find_key_distinct [of ps_id "at_publishers a" q] by (auto simp: authority_wf_def)
  have "\<forall>q \<in> set (update_key ps_id pid kill (at_publishers a)). publisher_wf ?a q"
    by (rule wf_publisher_update [where P = "publisher_wf a"])
       (use assms boot pp sub in \<open>auto simp: authority_wf_def publisher_wf_def\<close>)
  with assms Some show ?thesis
    by (auto simp: authority_wf_def mark_dead_def distinct_push_boot)
next
  case None
  with assms show ?thesis by (simp add: mark_dead_def)
qed

lemma fence_boot_wf [srf_inv]: "authority_wf a \<Longrightarrow> authority_wf (snd (fence_boot boot a))"
  by (auto simp: authority_wf_def fence_boot_def publisher_wf_def distinct_push_boot comp_def
      if_distrib cong: if_cong)

lemma restore_fenced_boot_wf [srf_inv]: "authority_wf a \<Longrightarrow> authority_wf (restore_fenced_boot b a)"
  by (auto simp: authority_wf_def restore_fenced_boot_def distinct_push_boot publisher_wf_def)

lemma restore_dead_publisher_wf [srf_inv]:
  assumes "authority_wf a"
  shows "authority_wf (restore_dead_publisher st a)"
proof -
  have "set (upsert ps_id (kill st) (at_publishers a)) \<subseteq> insert (kill st) (set (at_publishers a))"
    using set_update_key_subset [of ps_id "ps_id st" "\<lambda>_. kill st" "at_publishers a"]
    by (auto simp: upsert_def split: option.split)
  with assms show ?thesis
    by (auto simp: authority_wf_def restore_dead_publisher_def Let_def restore_publisher_def
        restore_fenced_boot_def distinct_push_boot distinct_upsert publisher_wf_def)
qed

lemma fence_all_on_recovery_wf [srf_inv]: "authority_wf a \<Longrightarrow> authority_wf (fence_all_on_recovery a)"
  by (auto simp: authority_wf_def fence_all_on_recovery_def distinct_fold_push_boot publisher_wf_def
      comp_def)

lemma authority_step_wf: "authority_step a a' \<Longrightarrow> authority_wf a \<Longrightarrow> authority_wf a'"
  by (auto intro: srf_inv)


section \<open>What a step can never undo\<close>

lemma authority_step_mono:
  assumes "authority_step a a'"
  shows "at_epoch a \<le> at_epoch a' \<and> set (at_fenced_boots a) \<subseteq> set (at_fenced_boots a')"
  using assms
  by (cases rule: authority_step.cases)
     (auto simp: authority_defs not_less dest!: generation_next_valid split: option.splits)

definition dead_publisher :: "PublisherId \<Rightarrow> AuthorityTable \<Rightarrow> bool" where
  "dead_publisher pid a \<longleftrightarrow> (\<exists>p. find_publisher pid a = Some p \<and> \<not> ps_alive p)"

lemma dead_publisher_not_alive: "dead_publisher pid a \<Longrightarrow> \<not> is_alive pid a"
  by (auto simp: dead_publisher_def is_alive_def find_publisher_def)

lemma find_publisher_wf:
  "authority_wf a \<Longrightarrow> find_key ps_id pid (at_publishers a) = Some p \<Longrightarrow> publisher_wf a p"
  by (auto simp: authority_wf_def dest: find_key_SomeD)

lemma dead_register:
  assumes wf: "authority_wf a" and "dead_publisher pid a"
  shows "dead_publisher pid (snd (register_publisher q boot scope e l a))"
proof -
  from assms obtain p where p: "find_key ps_id pid (at_publishers a) = Some p" "\<not> ps_alive p"
    by (auto simp: dead_publisher_def find_publisher_def)
  with find_publisher_wf [OF wf] have "valid (ps_boot p) \<longrightarrow> ps_boot p \<in> set (at_fenced_boots a)"
    by (auto simp: publisher_wf_def)
  with p show ?thesis
    by (auto simp: dead_publisher_def find_publisher_def register_publisher_def Let_def
        find_key_update_key find_key_append split: option.split)
qed

lemma dead_heartbeat:
  assumes wf: "authority_wf a" and "dead_publisher pid a"
  shows "dead_publisher pid (snd (heartbeat q boot e a))"
proof -
  from assms obtain p where p: "find_key ps_id pid (at_publishers a) = Some p" "\<not> ps_alive p"
    by (auto simp: dead_publisher_def find_publisher_def)
  with find_publisher_wf [OF wf] have "ps_fenced p" by (auto simp: publisher_wf_def)
  with p show ?thesis
    by (auto simp: dead_publisher_def find_publisher_def heartbeat_def Let_def
        find_key_update_key split: option.split)
qed

lemma dead_fence_boot:
  assumes "dead_publisher pid a"
  shows "dead_publisher pid (snd (fence_boot b a))"
proof -
  from assms obtain p where p: "find_key ps_id pid (at_publishers a) = Some p" "\<not> ps_alive p"
    by (auto simp: dead_publisher_def find_publisher_def)
  have "\<not> ps_alive (if ps_boot p = b then kill p else p)" using p(2) by simp
  with p show ?thesis
    by (simp add: dead_publisher_def find_publisher_def fence_boot_def find_key_map)
qed

lemma dead_other:
  assumes "dead_publisher pid a"
  shows "dead_publisher pid (snd (mark_dead q a))" "dead_publisher pid (restore_dead_publisher st a)"
    "dead_publisher pid (restore_fenced_boot b a)" "dead_publisher pid (fence_all_on_recovery a)"
    "dead_publisher pid (snd (advance_epoch a))" "dead_publisher pid (snd (restore_epoch e a))"
  using assms
  by (auto simp: dead_publisher_def find_publisher_def authority_defs find_key_update_key
      find_key_upsert find_key_map split: option.split)

lemma dead_step:
  "authority_step a a' \<Longrightarrow> authority_wf a \<Longrightarrow> dead_publisher pid a \<Longrightarrow> dead_publisher pid a'"
  by (auto intro: dead_register dead_heartbeat dead_fence_boot dead_other)

lemma authority_run:
  assumes "authority_step\<^sup>*\<^sup>* a a'" and "authority_wf a"
  shows "authority_wf a' \<and> at_epoch a \<le> at_epoch a' \<and>
    set (at_fenced_boots a) \<subseteq> set (at_fenced_boots a') \<and>
    (dead_publisher pid a \<longrightarrow> dead_publisher pid a')"
  using assms
proof (induction rule: rtranclp_induct)
  case (step b c)
  then show ?case
    using authority_step_wf authority_step_mono [of b c] dead_step [of b c]
    by (meson order_trans)
qed simp

lemma register_fenced:
  assumes "boot \<in> set (at_fenced_boots a)"
  shows "snd (register_publisher pid boot scope e l a) = a"
    and "0 < max_reasons l \<Longrightarrow> vr_failed (fst (register_publisher pid boot scope e l a))"
  using assms
  by (auto simp: register_publisher_def Let_def vr_failed_def vr_add_empty vr_defs word_gt_0
      unat_eq_0)

section \<open>Properties\<close>

text \<open>
  fencing is permanent. Once a boot is fenced it stays fenced through every sequence of
  authority operations (registration, heartbeats, deaths, epoch changes, recovery), and a
  registration that presents it is always refused and changes nothing.
\<close>

theorem fenced_boot_stays_fenced:
  assumes "authority_wf a" and "authority_step\<^sup>*\<^sup>* a a'" and "is_fenced boot a"
    and "0 < max_reasons l"
  shows "is_fenced boot a' \<and> snd (register_publisher pid boot scope e l a') = a' \<and>
         vr_failed (fst (register_publisher pid boot scope e l a'))"
proof -
  have "boot \<in> set (at_fenced_boots a')"
    using authority_run [OF assms(2,1)] assms(3) by (auto simp: is_fenced_def)
  with register_fenced [OF this] assms(4) show ?thesis by (simp add: is_fenced_def)
qed

definition authority_example :: AuthorityTable where
  "authority_example =
     snd (mark_dead 7 (snd (register_publisher 7 70 0x100 1 default_limits new_authority)))"

lemma authority_example_eval:
  "authority_example = \<lparr>at_epoch = 1, at_publishers = [\<lparr>ps_id = 7, ps_boot = 70, ps_scope = 0x100,
     ps_epoch = 1, ps_alive = False, ps_fenced = True\<rparr>], at_fenced_boots = [70]\<rparr>"
  by (simp add: authority_example_def authority_defs new_authority_def default_limits_def valid_def
      initial_generation_def kill_def push_boot_def)

lemma authority_example_wf: "authority_wf authority_example"
  by (simp add: authority_example_eval authority_wf_def publisher_wf_def valid_def)

theorem fenced_boot_stays_fenced_witness:
  "is_fenced 70 (snd (advance_epoch authority_example)) \<and>
   vr_failed (fst (register_publisher 8 70 0x100 2 default_limits
     (snd (advance_epoch authority_example))))"
proof -
  have r: "authority_step\<^sup>*\<^sup>* authority_example (snd (advance_epoch authority_example))"
    by (rule r_into_rtranclp) (rule authority_step.advance)
  have f: "is_fenced 70 authority_example" by (simp add: is_fenced_def authority_example_eval)
  show ?thesis
    using fenced_boot_stays_fenced [OF authority_example_wf r f, where l = default_limits and pid = 8
        and scope = "0x100" and e = 2]
    by (simp add: default_limits_def)
qed

text \<open>
  death of a publisher is final. After \<^verbatim>\<open>mark_dead\<close> of a registered publisher its boot is fenced,
  and no later sequence of authority operations makes that publisher identity alive again.
\<close>

theorem dead_publisher_never_alive:
  assumes "authority_wf a" and "find_publisher pid a = Some p"
    and "authority_step\<^sup>*\<^sup>* (snd (mark_dead pid a)) a'"
  shows "\<not> is_alive pid a' \<and> is_fenced (ps_boot p) a'"
proof -
  let ?d = "snd (mark_dead pid a)"
  have "dead_publisher pid ?d" and b: "ps_boot p \<in> set (at_fenced_boots ?d)"
    using assms(2) by (auto simp: dead_publisher_def find_publisher_def mark_dead_def find_key_update_key)
  moreover have "authority_wf ?d" using assms(1) by (rule mark_dead_wf)
  ultimately have "dead_publisher pid a'" "ps_boot p \<in> set (at_fenced_boots a')"
    using authority_run [OF assms(3)] by auto
  then show ?thesis by (simp add: dead_publisher_not_alive is_fenced_def)
qed

theorem dead_publisher_never_alive_witness:
  "\<not> is_alive 7 (snd (heartbeat 7 70 1 authority_example)) \<and>
   is_fenced 70 (snd (heartbeat 7 70 1 authority_example))"
proof -
  let ?a = "snd (register_publisher 7 70 0x100 1 default_limits new_authority)"
  let ?p = "\<lparr>ps_id = 7, ps_boot = 70, ps_scope = 0x100, ps_epoch = 1, ps_alive = True, ps_fenced = False\<rparr>"
  have wf: "authority_wf ?a" by (intro register_publisher_wf authority_wf_new)
  have p: "find_publisher 7 ?a = Some ?p"
    by (simp add: find_publisher_def authority_defs new_authority_def default_limits_def valid_def
        initial_generation_def)
  have r: "authority_step\<^sup>*\<^sup>* (snd (mark_dead 7 ?a)) (snd (heartbeat 7 70 1 authority_example))"
    unfolding authority_example_def by (rule r_into_rtranclp) (rule authority_step.beat)
  show ?thesis using dead_publisher_never_alive [OF wf p r] by simp
qed

text \<open>
  the coordinator epoch never goes back, in any sequence of authority operations, and every
  table reached from a new one satisfies the table invariant (valid epoch, one entry per
  publisher, each entry alive or fenced, fenced boots on the fenced list).
\<close>

theorem authority_invariant:
  assumes "authority_step\<^sup>*\<^sup>* new_authority a" and "authority_step\<^sup>*\<^sup>* a a'"
  shows "authority_wf a \<and> at_epoch a \<le> at_epoch a'"
  using authority_run [OF assms(1) authority_wf_new] authority_run [OF assms(2)] by blast

theorem authority_invariant_witness:
  "authority_wf (snd (advance_epoch new_authority)) \<and>
   at_epoch (snd (advance_epoch new_authority)) \<le>
   at_epoch (snd (advance_epoch (snd (advance_epoch new_authority))))"
  using authority_invariant [OF r_into_rtranclp [of authority_step, OF authority_step.advance]
      r_into_rtranclp [of authority_step, OF authority_step.advance]] .

section \<open>The publisher table as a keyed table\<close>

interpretation publisher_table: keyed_table
  "\<lambda>a i. find_publisher i a" restore_publisher ps_id
  by unfold_locales (simp add: find_publisher_def restore_publisher_def find_key_upsert)

end
