(* ===== verification/Registry.thy ===== *)
theory Registry
  imports SegList
begin

text \<open>
  The generation-bound registries of segment profiles and segment policies
  (\<^verbatim>\<open>registry.hpp/.cpp\<close>). Each method is one atomic operation on the registry.
\<close>

record Registry =
  rg_profiles :: "SegmentProfile list"
  rg_policies :: "SegmentPolicy list"
  rg_revision :: u64

definition new_registry :: Registry where
  "new_registry = \<lparr>rg_profiles = [], rg_policies = [], rg_revision = 0\<rparr>"

section \<open>Operations\<close>

definition register_profile :: "SegmentProfile \<Rightarrow> Limits \<Rightarrow> Registry \<Rightarrow> ValidationResult \<times> Registry" where
  "register_profile profile limits g =
     (let result = set_limits (Some limits) vr_success in
      if \<not> valid (pf_id profile) then (vr_add RC_ProfileIdInvalid 0 0 result, g)
      else if \<not> valid (pf_generation profile)
      then (vr_add RC_ProfileGenerationInvalid 0 0 result, g)
      else if pf_payload_width profile = 0 \<or> pf_max_depth profile = 0
      then (vr_add RC_ProfileIdInvalid 0 (pf_id profile) result, g)
      else
        (case find_key pf_id (pf_id profile) (rg_profiles g) of
           Some p \<Rightarrow>
             (if pf_generation profile \<le> pf_generation p
              then (vr_add RC_ProfileGenerationInvalid 0 (pf_generation p) result, g)
              else (result,
                g\<lparr>rg_profiles :=
                    update_key pf_id (pf_id profile) (\<lambda>_. profile) (rg_profiles g),
                   rg_revision := rg_revision g + 1\<rparr>))
         | None \<Rightarrow>
             (if length (rg_profiles g) \<ge> unat (max_profiles limits)
              then (vr_add RC_LimitMaxProfiles 0 (ucast (max_profiles limits)) result, g)
              else (result,
                g\<lparr>rg_profiles := rg_profiles g @ [profile], rg_revision := rg_revision g + 1\<rparr>))))"

definition register_policy :: "SegmentPolicy \<Rightarrow> Limits \<Rightarrow> Registry \<Rightarrow> ValidationResult \<times> Registry" where
  "register_policy policy limits g =
     (let result = set_limits (Some limits) vr_success in
      if \<not> valid (po_id policy) then (vr_add RC_PolicyIdInvalid 0 0 result, g)
      else if \<not> valid (po_generation policy)
      then (vr_add RC_PolicyGenerationInvalid 0 0 result, g)
      else
        (case find_key po_id (po_id policy) (rg_policies g) of
           Some p \<Rightarrow>
             (if po_generation policy \<le> po_generation p
              then (vr_add RC_PolicyGenerationInvalid 0 (po_generation p) result, g)
              else (result,
                g\<lparr>rg_policies :=
                    update_key po_id (po_id policy) (\<lambda>_. policy) (rg_policies g),
                   rg_revision := rg_revision g + 1\<rparr>))
         | None \<Rightarrow>
             (if length (rg_policies g) \<ge> unat (max_policies limits)
              then (vr_add RC_LimitMaxPolicies 0 (ucast (max_policies limits)) result, g)
              else (result,
                g\<lparr>rg_policies := rg_policies g @ [policy], rg_revision := rg_revision g + 1\<rparr>))))"

definition advance_profile_generation ::
  "SegmentProfileId \<Rightarrow> Registry \<Rightarrow> ValidationResult \<times> Registry" where
  "advance_profile_generation i g =
     (case find_key pf_id i (rg_profiles g) of
        Some p \<Rightarrow>
          (case next_generation (pf_generation p) of
             None \<Rightarrow> (vr_add RC_ProfileGenerationInvalid 0 (pf_generation p) vr_success, g)
           | Some n \<Rightarrow>
               (vr_success,
                g\<lparr>rg_profiles :=
                    update_key pf_id i (\<lambda>p. p\<lparr>pf_generation := n\<rparr>) (rg_profiles g),
                   rg_revision := rg_revision g + 1\<rparr>))
      | None \<Rightarrow> (vr_add RC_ProfileUnknown 0 i vr_success, g))"

definition advance_policy_generation ::
  "SegmentPolicyId \<Rightarrow> Registry \<Rightarrow> ValidationResult \<times> Registry" where
  "advance_policy_generation i g =
     (case find_key po_id i (rg_policies g) of
        Some p \<Rightarrow>
          (case next_generation (po_generation p) of
             None \<Rightarrow> (vr_add RC_PolicyGenerationInvalid 0 (po_generation p) vr_success, g)
           | Some n \<Rightarrow>
               (vr_success,
                g\<lparr>rg_policies :=
                    update_key po_id i (\<lambda>p. p\<lparr>po_generation := n\<rparr>) (rg_policies g),
                   rg_revision := rg_revision g + 1\<rparr>))
      | None \<Rightarrow> (vr_add RC_PolicyUnknown 0 i vr_success, g))"

definition find_profile :: "SegmentProfileId \<Rightarrow> Registry \<Rightarrow> SegmentProfile option" where
  "find_profile i g = find_key pf_id i (rg_profiles g)"

text \<open>The exact lookups return whether the generation matched, and the entry they copied out.\<close>

definition find_profile_exact ::
  "SegmentProfileId \<Rightarrow> SegmentProfileGeneration \<Rightarrow> Registry \<Rightarrow> bool \<times> SegmentProfile option" where
  "find_profile_exact i generation g =
     (case find_key pf_id i (rg_profiles g) of
        Some p \<Rightarrow> (\<not> valid generation \<or> pf_generation p = generation, Some p)
      | None \<Rightarrow> (False, None))"

definition find_policy :: "SegmentPolicyId \<Rightarrow> Registry \<Rightarrow> SegmentPolicy option" where
  "find_policy i g = find_key po_id i (rg_policies g)"

definition find_policy_exact ::
  "SegmentPolicyId \<Rightarrow> SegmentPolicyGeneration \<Rightarrow> Registry \<Rightarrow> bool \<times> SegmentPolicy option" where
  "find_policy_exact i generation g =
     (case find_key po_id i (rg_policies g) of
        Some p \<Rightarrow> (\<not> valid generation \<or> po_generation p = generation, Some p)
      | None \<Rightarrow> (False, None))"

definition restore_profile :: "SegmentProfile \<Rightarrow> Registry \<Rightarrow> Registry" where
  "restore_profile profile g = g\<lparr>rg_profiles := upsert pf_id profile (rg_profiles g)\<rparr>"

definition restore_policy :: "SegmentPolicy \<Rightarrow> Registry \<Rightarrow> Registry" where
  "restore_policy policy g = g\<lparr>rg_policies := upsert po_id policy (rg_policies g)\<rparr>"

lemmas registry_defs = register_profile_def register_policy_def advance_profile_generation_def
  advance_policy_generation_def Let_def

section \<open>The registry state machine\<close>

inductive registry_step :: "Limits \<Rightarrow> Registry \<Rightarrow> Registry \<Rightarrow> bool" for l where
  profile: "registry_step l g (snd (register_profile p l g))"
| policy: "registry_step l g (snd (register_policy q l g))"
| advance_profile: "registry_step l g (snd (advance_profile_generation i g))"
| advance_policy: "registry_step l g (snd (advance_policy_generation j g))"

definition profile_entry_wf :: "SegmentProfile \<Rightarrow> bool" where
  "profile_entry_wf p \<longleftrightarrow> valid (pf_id p) \<and> valid (pf_generation p) \<and>
     pf_payload_width p \<noteq> 0 \<and> pf_max_depth p \<noteq> 0"

definition policy_entry_wf :: "SegmentPolicy \<Rightarrow> bool" where
  "policy_entry_wf q \<longleftrightarrow> valid (po_id q) \<and> valid (po_generation q)"

definition registry_wf :: "Registry \<Rightarrow> bool" where
  "registry_wf g \<longleftrightarrow>
     distinct (map pf_id (rg_profiles g)) \<and> distinct (map po_id (rg_policies g)) \<and>
     (\<forall>p \<in> set (rg_profiles g). profile_entry_wf p) \<and> (\<forall>q \<in> set (rg_policies g). policy_entry_wf q)"

lemma registry_wf_new: "registry_wf new_registry"
  by (simp add: registry_wf_def new_registry_def)

lemma ball_update_key:
  assumes "\<forall>p \<in> set ps. P p" and "\<And>p. p \<in> set ps \<Longrightarrow> k p = i \<Longrightarrow> P p \<Longrightarrow> P (f p)"
  shows "\<forall>p \<in> set (update_key k i f ps). P p"
  using assms set_update_key_subset [of k i f ps] by fastforce

lemma profile_entry_advance:
  "profile_entry_wf p \<Longrightarrow> valid n \<Longrightarrow> profile_entry_wf (p\<lparr>pf_generation := n\<rparr>)"
  by (simp add: profile_entry_wf_def)

lemma policy_entry_advance:
  "policy_entry_wf p \<Longrightarrow> valid n \<Longrightarrow> policy_entry_wf (p\<lparr>po_generation := n\<rparr>)"
  by (simp add: policy_entry_wf_def)

lemma register_profile_wf [srf_inv]:
  assumes "registry_wf g"
  shows "registry_wf (snd (register_profile p l g))"
proof -
  have "\<forall>q \<in> set (update_key pf_id (pf_id p) (\<lambda>_. p) (rg_profiles g)). profile_entry_wf q"
    if "profile_entry_wf p"
    by (rule ball_update_key) (use assms that in \<open>auto simp: registry_wf_def\<close>)
  moreover have "profile_entry_wf p" if "valid (pf_id p)" "valid (pf_generation p)"
    "\<not> (pf_payload_width p = 0 \<or> pf_max_depth p = 0)"
    using that by (simp add: profile_entry_wf_def)
  ultimately show ?thesis
    using assms
    by (simp add: registry_wf_def register_profile_def Let_def find_key_None_iff
        split: option.split if_split)
qed

lemma register_policy_wf [srf_inv]:
  assumes "registry_wf g"
  shows "registry_wf (snd (register_policy p l g))"
proof -
  have "\<forall>q \<in> set (update_key po_id (po_id p) (\<lambda>_. p) (rg_policies g)). policy_entry_wf q"
    if "policy_entry_wf p"
    by (rule ball_update_key) (use assms that in \<open>auto simp: registry_wf_def\<close>)
  moreover have "policy_entry_wf p" if "valid (po_id p)" "valid (po_generation p)"
    using that by (simp add: policy_entry_wf_def)
  ultimately show ?thesis
    using assms
    by (simp add: registry_wf_def register_policy_def Let_def find_key_None_iff
        split: option.split if_split)
qed

lemma advance_profile_wf [srf_inv]:
  assumes "registry_wf g"
  shows "registry_wf (snd (advance_profile_generation i g))"
proof -
  have "\<forall>q \<in> set (update_key pf_id i (\<lambda>p. p\<lparr>pf_generation := n\<rparr>) (rg_profiles g)).
      profile_entry_wf q" if "valid n" for n
    by (rule ball_update_key)
       (use assms that profile_entry_advance in \<open>auto simp: registry_wf_def\<close>)
  with assms show ?thesis
    by (auto simp: registry_wf_def advance_profile_generation_def dest: generation_next_valid
        split: option.split)
qed

lemma advance_policy_wf [srf_inv]:
  assumes "registry_wf g"
  shows "registry_wf (snd (advance_policy_generation i g))"
proof -
  have "\<forall>q \<in> set (update_key po_id i (\<lambda>p. p\<lparr>po_generation := n\<rparr>) (rg_policies g)).
      policy_entry_wf q" if "valid n" for n
    by (rule ball_update_key)
       (use assms that policy_entry_advance in \<open>auto simp: registry_wf_def\<close>)
  with assms show ?thesis
    by (auto simp: registry_wf_def advance_policy_generation_def dest: generation_next_valid
        split: option.split)
qed

text \<open>What a step may do to the entry of one identifier: keep it or raise its generation.\<close>

definition profile_le :: "SegmentProfile option \<Rightarrow> SegmentProfile option \<Rightarrow> bool" where
  "profile_le a b \<longleftrightarrow>
     (case a of None \<Rightarrow> True
      | Some p \<Rightarrow> (case b of None \<Rightarrow> False | Some q \<Rightarrow> q = p \<or> pf_generation p < pf_generation q))"

definition policy_le :: "SegmentPolicy option \<Rightarrow> SegmentPolicy option \<Rightarrow> bool" where
  "policy_le a b \<longleftrightarrow>
     (case a of None \<Rightarrow> True
      | Some p \<Rightarrow> (case b of None \<Rightarrow> False | Some q \<Rightarrow> q = p \<or> po_generation p < po_generation q))"

lemma registry_step_le:
  assumes "registry_step l g g'"
  shows "profile_le (find_profile i g) (find_profile i g') \<and>
         policy_le (find_policy i g) (find_policy i g')"
  using assms
  by (cases rule: registry_step.cases)
     (auto simp: registry_defs profile_le_def policy_le_def find_profile_def find_policy_def
       find_key_update_key find_key_append not_le dest!: generation_next_valid split: option.splits)

text \<open>A step that changes any entry is counted by the registry revision.\<close>

lemma registry_step_revision:
  assumes "registry_step l g g'"
  shows "g' = g \<or> rg_revision g' = rg_revision g + 1"
  using assms
  by (cases rule: registry_step.cases) (auto simp: registry_defs split: option.split)

lemma profile_le_refl [simp]: "profile_le a a"
  by (simp add: profile_le_def split: option.split)

lemma policy_le_refl [simp]: "policy_le a a"
  by (simp add: policy_le_def split: option.split)

lemma profile_le_trans: "profile_le a b \<Longrightarrow> profile_le b c \<Longrightarrow> profile_le a c"
  by (auto simp: profile_le_def split: option.splits)

lemma policy_le_trans: "policy_le a b \<Longrightarrow> policy_le b c \<Longrightarrow> policy_le a c"
  by (auto simp: policy_le_def split: option.splits)

lemma registry_step_wf: "registry_step l g g' \<Longrightarrow> registry_wf g \<Longrightarrow> registry_wf g'"
  by (auto elim!: registry_step.cases intro: srf_inv)

section \<open>Properties\<close>

text \<open>
  a profile or policy identifier never loses its entry and never goes back to an older
  generation: over any sequence of registrations and generation advances the entry of an
  identifier stays exactly as it was or is replaced by one of a strictly greater generation, and
  the registry keeps its invariant (one entry per identifier, valid identifiers and generations,
  non-zero payload widths and depths).
\<close>

theorem registry_generations_monotonic:
  assumes "registry_wf g" and "(registry_step l)\<^sup>*\<^sup>* g g'"
  shows "registry_wf g' \<and> profile_le (find_profile i g) (find_profile i g') \<and>
         policy_le (find_policy i g) (find_policy i g')"
  using assms(2,1)
proof (induction rule: rtranclp_induct)
  case (step b c)
  then show ?case
    using registry_step_le [OF step(2), of i] registry_step_wf [OF step(2)]
      profile_le_trans policy_le_trans by blast
qed simp

theorem registry_generations_monotonic_witness:
  "registry_wf (snd (register_profile abstract_governance_profile default_limits new_registry)) \<and>
   profile_le None (find_profile 0x10001
     (snd (register_profile abstract_governance_profile default_limits new_registry)))"
proof -
  have "(registry_step default_limits)\<^sup>*\<^sup>* new_registry
      (snd (register_profile abstract_governance_profile default_limits new_registry))"
    by (rule r_into_rtranclp) (rule registry_step.profile)
  from registry_generations_monotonic [OF registry_wf_new this, of "0x10001"]
  show ?thesis by (simp add: find_profile_def new_registry_def)
qed

text \<open>
  a profile registration is accepted exactly when the profile is well-formed and either raises
  the generation of its identifier or is new and fits the configured number of profiles. Then it
  is what lookups of that identifier return, no other entry changes and the registry revision
  counts the change; otherwise it is refused and the registry is untouched.
\<close>

definition profile_acceptable :: "SegmentProfile \<Rightarrow> Limits \<Rightarrow> Registry \<Rightarrow> bool" where
  "profile_acceptable p l g \<longleftrightarrow> profile_entry_wf p \<and>
     (case find_profile (pf_id p) g of
        Some q \<Rightarrow> pf_generation q < pf_generation p
      | None \<Rightarrow> length (rg_profiles g) < unat (max_profiles l))"

theorem register_profile_effect:
  assumes "0 < max_reasons l"
  shows "let (res, g') = register_profile p l g in
    if profile_acceptable p l g
    then vr_ok res \<and> rg_revision g' = rg_revision g + 1 \<and> rg_policies g' = rg_policies g \<and>
         (\<forall>j. find_profile j g' = (if j = pf_id p then Some p else find_profile j g))
    else vr_failed res \<and> g' = g"
proof -
  have "unat (max_reasons l) > 0" using assms by (simp add: word_gt_0 unat_gt_0)
  then show ?thesis
    by (auto simp: register_profile_def Let_def find_profile_def find_key_update_key find_key_append
        profile_acceptable_def profile_entry_wf_def vr_defs vr_add_empty not_le
        split: option.splits if_splits)
qed

theorem register_profile_effect_witness:
  "find_profile 0x10001
     (snd (register_profile abstract_governance_profile default_limits new_registry)) =
   Some abstract_governance_profile"
proof -
  have l: "0 < max_reasons default_limits" by (simp add: default_limits_def)
  have "profile_acceptable abstract_governance_profile default_limits new_registry"
    by (simp add: profile_acceptable_def profile_entry_wf_def new_registry_def find_profile_def
        abstract_governance_profile_def valid_def default_limits_def)
  with register_profile_effect [OF l, of abstract_governance_profile new_registry]
  show ?thesis by (auto simp: abstract_governance_profile_def Let_def split: prod.splits)
qed

section \<open>The registries as keyed tables\<close>

interpretation profile_table: keyed_table "\<lambda>g i. find_profile i g" restore_profile pf_id
  by unfold_locales (simp add: find_profile_def restore_profile_def find_key_upsert)

interpretation policy_table: keyed_table "\<lambda>g i. find_policy i g" restore_policy po_id
  by unfold_locales (simp add: find_policy_def restore_policy_def find_key_upsert)

end
