(* ===== verification/Durable.thy ===== *)
theory Durable
  imports Evidence Authority Registry
begin

text \<open>
  The durable state of a coordinator and the persistence interface (\<^verbatim>\<open>persistence.hpp\<close>). The store
  reaches persistence only through the two virtual methods \<^verbatim>\<open>save\<close> and \<^verbatim>\<open>load\<close> of \<^verbatim>\<open>IPersistence\<close>; an
  implementation is a record of these two functions over its own state type \<open>'p\<close>.
\<close>

section \<open>Durable records\<close>

record DurableAttemptRecord =
  dar_attempt :: MutationAttemptId
  dar_list :: SegmentListId
  dar_payload :: Digest128
  dar_generation :: SegmentListGeneration
  dar_committed :: bool

record DurableHistoryEntry =
  dhe_id :: HistoryId
  dhe_list :: SegmentListId
  dhe_generation :: SegmentListGeneration
  dhe_state :: LifecycleState
  dhe_currentness :: Currentness
  dhe_digest :: Digest128
  dhe_revision :: u64

record DurableState =
  ds_format_version :: u16
  ds_epoch :: CoordinatorEpoch
  ds_revision :: u64
  ds_profiles :: "SegmentProfile list"
  ds_policies :: "SegmentPolicy list"
  ds_lists :: "SegmentList list"
  ds_history :: "DurableHistoryEntry list"
  ds_attempts :: "DurableAttemptRecord list"
  ds_publishers :: "PublisherState list"
  ds_fenced_boots :: "WorkerBootId list"

definition kPersistenceFormatVersion :: u16 where "kPersistenceFormatVersion = 1"

definition initial_state :: DurableState where
  "initial_state = \<lparr>ds_format_version = kPersistenceFormatVersion, ds_epoch = initial_generation,
     ds_revision = 0, ds_profiles = [], ds_policies = [], ds_lists = [], ds_history = [],
     ds_attempts = [], ds_publishers = [], ds_fenced_boots = []\<rparr>"

record LoadReport =
  lr_loaded :: bool
  lr_empty :: bool
  lr_result :: ValidationResult
  lr_state :: DurableState
  lr_lists_recovered :: nat
  lr_lists_requiring_revalidation :: nat
  lr_publishers_fenced :: nat
  lr_history_entries :: nat

definition empty_report :: LoadReport where
  "empty_report = \<lparr>lr_loaded = False, lr_empty = False, lr_result = vr_success,
     lr_state = initial_state\<lparr>ds_epoch := 0\<rparr>, lr_lists_recovered = 0,
     lr_lists_requiring_revalidation = 0, lr_publishers_fenced = 0, lr_history_entries = 0\<rparr>"

section \<open>The persistence interface\<close>

record 'p IPersistence =
  ip_save :: "DurableState \<Rightarrow> Limits \<Rightarrow> ValidationResult \<Rightarrow> 'p \<Rightarrow> bool \<times> ValidationResult \<times> 'p"
  ip_load :: "LoadReport \<Rightarrow> Limits \<Rightarrow> 'p \<Rightarrow> bool \<times> LoadReport \<times> 'p"

section \<open>Attempt records and history\<close>

definition find_attempt :: "DurableState \<Rightarrow> MutationAttemptId \<Rightarrow> DurableAttemptRecord option" where
  "find_attempt st attempt = find_key dar_attempt attempt (ds_attempts st)"

definition record_attempt ::
  "MutationAttemptId \<Rightarrow> SegmentListId \<Rightarrow> Digest128 \<Rightarrow> SegmentListGeneration \<Rightarrow> DurableState \<Rightarrow>
   DurableState" where
  "record_attempt attempt list payload generation st =
     (case find_key dar_attempt attempt (ds_attempts st) of
        Some _ \<Rightarrow>
          st\<lparr>ds_attempts := update_key dar_attempt attempt
               (\<lambda>r. r\<lparr>dar_list := list, dar_payload := payload, dar_generation := generation,
                      dar_committed := True\<rparr>) (ds_attempts st)\<rparr>
      | None \<Rightarrow>
          st\<lparr>ds_attempts := ds_attempts st @
               [\<lparr>dar_attempt = attempt, dar_list = list, dar_payload = payload,
                 dar_generation = generation, dar_committed = True\<rparr>]\<rparr>)"

definition attempt_table_accepts :: "Limits \<Rightarrow> DurableState \<Rightarrow> MutationAttemptId \<Rightarrow> bool" where
  "attempt_table_accepts limits st attempt =
     (if \<not> valid attempt then True
      else if list_ex (\<lambda>r. dar_attempt r = attempt) (ds_attempts st) then True
      else length (ds_attempts st) < unat (max_attempt_records limits))"

definition next_history_id :: "DurableState \<Rightarrow> HistoryId" where
  "next_history_id st =
     (if ds_history st = [] then 1
      else (let lst = dhe_id (last (ds_history st)) in if lst \<ge> max_value then 0 else lst + 1))"

text \<open>
  When the window is full the oldest entry is erased first. With a configured window of zero the
  source erases from an empty vector, which is undefined; the model keeps the empty list there, and
  the bounds below are stated for a positive window.
\<close>

definition append_history :: "Limits \<Rightarrow> SegmentList \<Rightarrow> DurableState \<Rightarrow> DurableState" where
  "append_history limits list st =
     (let i = next_history_id st in
      if \<not> valid i then st
      else
        (let h = (if length (ds_history st) \<ge> unat (max_history limits)
                  then tl (ds_history st) else ds_history st)
         in st\<lparr>ds_history := h @
              [\<lparr>dhe_id = i, dhe_list = sl_id list, dhe_generation = sl_generation list,
                dhe_state = sl_state list, dhe_currentness = sl_currentness list,
                dhe_digest = sl_content_digest list, dhe_revision = ds_revision st + 1\<rparr>]\<rparr>))"

section \<open>Attempt table laws\<close>

lemma record_attempt_frame [simp]:
  "ds_format_version (record_attempt a l p g st) = ds_format_version st"
  "ds_epoch (record_attempt a l p g st) = ds_epoch st"
  "ds_revision (record_attempt a l p g st) = ds_revision st"
  "ds_profiles (record_attempt a l p g st) = ds_profiles st"
  "ds_policies (record_attempt a l p g st) = ds_policies st"
  "ds_lists (record_attempt a l p g st) = ds_lists st"
  "ds_history (record_attempt a l p g st) = ds_history st"
  "ds_publishers (record_attempt a l p g st) = ds_publishers st"
  "ds_fenced_boots (record_attempt a l p g st) = ds_fenced_boots st"
  by (simp_all add: record_attempt_def split: option.split)

lemma append_history_frame [simp]:
  "ds_format_version (append_history l x st) = ds_format_version st"
  "ds_epoch (append_history l x st) = ds_epoch st"
  "ds_revision (append_history l x st) = ds_revision st"
  "ds_profiles (append_history l x st) = ds_profiles st"
  "ds_policies (append_history l x st) = ds_policies st"
  "ds_lists (append_history l x st) = ds_lists st"
  "ds_attempts (append_history l x st) = ds_attempts st"
  "ds_publishers (append_history l x st) = ds_publishers st"
  "ds_fenced_boots (append_history l x st) = ds_fenced_boots st"
  by (simp_all add: append_history_def Let_def)

lemma find_attempt_record:
  "find_attempt (record_attempt a l p g st) b =
     (if b = a then Some \<lparr>dar_attempt = a, dar_list = l, dar_payload = p, dar_generation = g,
                          dar_committed = True\<rparr>
      else find_attempt st b)"
proof (cases "find_key dar_attempt a (ds_attempts st)")
  case None
  then show ?thesis
    by (cases "find_key dar_attempt b (ds_attempts st)")
       (auto simp: find_attempt_def record_attempt_def find_key_append)
next
  case (Some r)
  then have "dar_attempt r = a" by (auto dest: find_key_SomeD)
  with Some show ?thesis
    by (cases r) (simp add: find_attempt_def record_attempt_def find_key_update_key)
qed

lemma find_attempt_history [simp]: "find_attempt (append_history l x st) a = find_attempt st a"
  by (simp add: find_attempt_def)

lemma length_record_attempt:
  "length (ds_attempts (record_attempt a l p g st)) =
     (if find_attempt st a = None then Suc (length (ds_attempts st)) else length (ds_attempts st))"
  by (auto simp: record_attempt_def find_attempt_def split: option.split)

lemma attempt_accepts_iff:
  "attempt_table_accepts limits st a \<longleftrightarrow>
     \<not> valid a \<or> find_attempt st a \<noteq> None \<or> length (ds_attempts st) < unat (max_attempt_records limits)"
  by (auto simp: attempt_table_accepts_def find_attempt_def find_key_None_iff list_ex_iff image_iff
      dest: find_key_SomeD)

lemma history_bounded:
  assumes "length (ds_history st) \<le> unat (max_history limits)" and "0 < max_history limits"
  shows "length (ds_history (append_history limits x st)) \<le> unat (max_history limits)"
  using assms by (auto simp: append_history_def Let_def word_less_nat_alt)

text \<open>The attempt table as a keyed table of what was recorded for each attempt.\<close>

definition attempt_entry ::
  "DurableAttemptRecord \<Rightarrow> MutationAttemptId \<times> SegmentListId \<times> Digest128 \<times> SegmentListGeneration" where
  "attempt_entry r = (dar_attempt r, dar_list r, dar_payload r, dar_generation r)"

interpretation attempt_table: keyed_table
  "\<lambda>st a. map_option attempt_entry (find_attempt st a)" "\<lambda>(a, l, p, g). record_attempt a l p g" fst
  by unfold_locales (auto simp: find_attempt_record attempt_entry_def)

end
