(* ===== verification/Validation.thy ===== *)
theory Validation
  imports Evidence Authority Registry
begin

text \<open>
  Fixed-precedence validation (\<^verbatim>\<open>validation.hpp/.cpp\<close>). Each \<^verbatim>\<open>check_*\<close> function is the list of the
  reasons it adds, in program order; a null pointer is \<open>None\<close>. \<open>validate_request\<close> adds the lists of
  all phases, in order, to one result. The declarative counterpart of each check says when
  it adds nothing.
\<close>

section \<open>Requests\<close>

record ValidationRequest =
  vq_limits :: "Limits option"
  vq_caller :: "CallerIdentity option"
  vq_authority :: "AuthorityView option"
  vq_list_id :: SegmentListId
  vq_scope :: ScopeId
  vq_existing :: "SegmentList option"
  vq_expected_generation :: SegmentListGeneration
  vq_intended_generation :: SegmentListGeneration
  vq_intent :: LifecycleEvent
  vq_profile_id :: SegmentProfileId
  vq_profile_generation :: SegmentProfileGeneration
  vq_profile :: "SegmentProfile option"
  vq_profile_found :: bool
  vq_policy_id :: SegmentPolicyId
  vq_policy_generation :: SegmentPolicyGeneration
  vq_policy :: "SegmentPolicy option"
  vq_policy_found :: bool
  vq_policy_required :: bool
  vq_strictness :: Strictness
  vq_topology :: TopologyGeneration
  vq_capability :: CapabilityGeneration
  vq_path :: PathId
  vq_path_authority :: PathAuthorityGeneration
  vq_route :: RouteId
  vq_route_generation :: RouteGeneration
  vq_constraint :: ConstraintEvaluationId
  vq_constraint_generation :: ConstraintGeneration
  vq_segments :: "Segment list"
  vq_derived :: bool
  vq_evidence :: "FabricEvidence option"
  vq_full :: bool
  vq_require_absent :: bool
  vq_require_existing :: bool

definition empty_request :: ValidationRequest where
  "empty_request = \<lparr>vq_limits = None, vq_caller = None, vq_authority = None, vq_list_id = 0,
     vq_scope = 0, vq_existing = None, vq_expected_generation = 0, vq_intended_generation = 0,
     vq_intent = LE_Invalid, vq_profile_id = 0, vq_profile_generation = 0, vq_profile = None,
     vq_profile_found = False, vq_policy_id = 0, vq_policy_generation = 0, vq_policy = None,
     vq_policy_found = False, vq_policy_required = False, vq_strictness = Strict, vq_topology = 0,
     vq_capability = 0, vq_path = 0, vq_path_authority = 0, vq_route = 0, vq_route_generation = 0,
     vq_constraint = 0, vq_constraint_generation = 0, vq_segments = [], vq_derived = False,
     vq_evidence = None, vq_full = True, vq_require_absent = False, vq_require_existing = False\<rparr>"

record SegmentSequenceRequest =
  sq_limits :: "Limits option"
  sq_profile :: "SegmentProfile option"
  sq_segments :: "Segment list"
  sq_evidence :: "FabricEvidence option"
  sq_topology :: TopologyGeneration

section \<open>The phases\<close>

text \<open>One guarded \<^verbatim>\<open>out.add(code, index, detail)\<close>.\<close>

definition emit :: "bool \<Rightarrow> ReasonCode \<Rightarrow> u32 \<Rightarrow> u64 \<Rightarrow> Reason list" where
  "emit c code index detail = (if c then [reason code index detail] else [])"

definition check_caller_identity :: "ValidationRequest \<Rightarrow> Reason list" where
  "check_caller_identity r =
     (case vq_caller r of
        None \<Rightarrow> []
      | Some caller \<Rightarrow>
          emit (\<not> valid (ca_publisher caller)) RC_CallerMissingPublisher 0 0 @
          emit (\<not> valid (ca_boot caller)) RC_CallerMissingWorkerBoot 0 0 @
          emit (\<not> valid (ca_attempt caller)) RC_CallerMissingMutationAttempt 0 0 @
          emit (\<not> valid (ca_scope caller)) RC_CallerMissingScope 0 0 @
          (case vq_authority r of
             None \<Rightarrow> []
           | Some authority \<Rightarrow>
               (case find_publisher (ca_publisher caller) authority of
                  None \<Rightarrow>
                    emit (valid (ca_publisher caller)) RC_CallerUnknownPublisher 0
                      (ca_publisher caller)
                | Some state \<Rightarrow>
                    emit (ps_boot state \<noteq> ca_boot caller) RC_CallerStaleWorkerBoot 0
                      (ps_boot state) @
                    emit (ps_fenced state \<or> \<not> ps_alive state \<or>
                          boot_fenced authority (ca_boot caller))
                      RC_CallerFencedPublisher 0 (ca_boot caller) @
                    emit (valid (ca_scope caller) \<and> ps_scope state \<noteq> ca_scope caller)
                      RC_CallerScopeMismatch 0 (ps_scope state))))"

definition check_epoch_boot_scope :: "ValidationRequest \<Rightarrow> Reason list" where
  "check_epoch_boot_scope r =
     (case vq_caller r of
        None \<Rightarrow> []
      | Some caller \<Rightarrow>
          if \<not> valid (ca_epoch caller) then [reason RC_EpochInvalid 0 0]
          else
            (case vq_authority r of
               None \<Rightarrow> []
             | Some authority \<Rightarrow>
                 emit (ca_epoch caller \<noteq> at_epoch authority) RC_EpochStale 0 (at_epoch authority) @
                 emit (exhausted (at_epoch authority)) RC_EpochExhausted 0 (at_epoch authority)))"

definition state_event_detail :: "LifecycleState \<Rightarrow> LifecycleEvent \<Rightarrow> u64" where
  "state_event_detail s e = push_bit 8 (of_nat (state_value s)) OR of_nat (event_value e)"

text \<open>The blocked transition names the terminal state first, then the denied transition.\<close>

definition denied_transition :: "SegmentList \<Rightarrow> LifecycleEvent \<Rightarrow> Reason list" where
  "denied_transition existing intent =
     (let g = sl_generation existing; s = sl_state existing in
      (if s = LS_Retired then [reason RC_ListRetired 0 g]
       else if s = LS_Revoked then [reason RC_ListRevoked 0 g]
       else if s = LS_Superseded then [reason RC_ListSuperseded 0 g]
       else emit (s = LS_Withdrawn) RC_ListWithdrawn 0 g) @
      [reason RC_LifecycleTransitionDenied 0 (state_event_detail s intent)])"

definition check_list_lifecycle :: "ValidationRequest \<Rightarrow> Reason list" where
  "check_list_lifecycle r =
     (let creating = vq_existing r = None in
      emit (\<not> valid (vq_list_id r)) RC_ListIdInvalid 0 0 @
      emit (vq_require_existing r \<and> creating) RC_ListNotFound 0 (vq_list_id r) @
      emit (vq_require_absent r \<and> \<not> creating) RC_ListAlreadyExists 0 (vq_list_id r) @
      (case vq_existing r of
         None \<Rightarrow> emit (valid (vq_expected_generation r)) RC_ListNotFound 0 (vq_list_id r)
       | Some existing \<Rightarrow>
           emit (vq_expected_generation r \<noteq> sl_generation existing) RC_ListGenerationConflict 0
             (sl_generation existing) @
           emit (\<not> valid (vq_expected_generation r)) RC_ListGenerationInvalid 0 0 @
           emit (exhausted (sl_generation existing)) RC_ListGenerationExhausted 0
             (sl_generation existing) @
           (if lifecycle_transition (sl_state existing) (vq_intent r) = None
            then denied_transition existing (vq_intent r) else [])))"

definition check_list_content_lifecycle :: "ValidationRequest \<Rightarrow> Reason list" where
  "check_list_content_lifecycle r =
     emit (vq_segments r = [] \<and>
           (case vq_profile r of None \<Rightarrow> True | Some p \<Rightarrow> \<not> pf_allow_empty p))
       RC_ListEmptyNotPermitted 0 0"

text \<open>
  The element-wise scans are bounded by the configured depth plus one, so a defect at exactly the
  first index over the depth is still named.
\<close>

definition scan_bound :: "ValidationRequest \<Rightarrow> nat" where
  "scan_bound r =
     (let guard = (case vq_limits r of
                     Some l \<Rightarrow> unat (max_segments_per_list l) + 1
                   | None \<Rightarrow> length (vq_segments r))
      in min (length (vq_segments r)) guard)"

definition profile_segment_reasons :: "SegmentProfile \<Rightarrow> nat \<Rightarrow> Segment \<Rightarrow> Reason list" where
  "profile_segment_reasons p i s =
     emit (\<not> allows_kind p (seg_kind s)) RC_ProfileKindNotAllowed (of_nat i)
       (kind_u64 (seg_kind s)) @
     emit (expected_encoding_for (seg_kind s) = SE_Invalid) RC_ProfileKindMismatch (of_nat i)
       (kind_u64 (seg_kind s)) @
     emit (length (seg_payload s) > unat (pf_payload_width p)) RC_ProfilePayloadWidthExceeded
       (of_nat i) (ucast (pf_payload_width p))"

text \<open>The pairs \<open>j < i\<close> of the scanned prefix, in the order of the two nested loops.\<close>

definition scan_pairs :: "nat \<Rightarrow> (nat \<times> nat) list" where
  "scan_pairs scan = concat (map (\<lambda>i. map (\<lambda>j. (j, i)) [0..<i]) [1..<scan])"

definition profile_repeat_reasons ::
  "SegmentProfile \<Rightarrow> Segment list \<Rightarrow> nat \<times> nat \<Rightarrow> Reason list" where
  "profile_repeat_reasons p segs = (\<lambda>(j, i).
     if \<not> segment_semantic_equal (segs ! j) (segs ! i) (pf_payload_width p) then []
     else
       emit (j + 1 = i \<and> \<not> pf_allow_consecutive_repeats p) RC_ProfileRepeatNotPermitted (of_nat i)
         (seg_id (segs ! i)) @
       emit (j + 1 \<noteq> i \<and> \<not> pf_allow_nonconsecutive_repeats p) RC_ProfileRepeatNotPermitted
         (of_nat i) (seg_id (segs ! i)))"

definition check_profile :: "ValidationRequest \<Rightarrow> Reason list" where
  "check_profile r =
     (let segs = vq_segments r; scan = scan_bound r in
      case vq_profile r of
        None \<Rightarrow>
          (if valid (vq_profile_id r) then [reason RC_ProfileUnknown 0 (vq_profile_id r)]
           else [reason RC_ProfileIdInvalid 0 0])
      | Some p \<Rightarrow>
          if \<not> vq_profile_found r then [reason RC_ProfileUnknown 0 (vq_profile_id r)]
          else
            emit (pf_id p \<noteq> vq_profile_id r) RC_ProfileUnknown 0 (vq_profile_id r) @
            emit (\<not> valid (pf_generation p)) RC_ProfileGenerationInvalid 0 0 @
            emit (valid (vq_profile_generation r) \<and> vq_profile_generation r \<noteq> pf_generation p)
              RC_ProfileGenerationMismatch 0 (pf_generation p) @
            emit (\<not> pf_allow_empty p \<and> segs = []) RC_ProfileEmptyNotPermitted 0 0 @
            emit (vq_strictness r = Loose \<and> \<not> pf_allow_loose p) RC_ProfileStrictnessUnsupported
              0 0 @
            emit (length segs > unat (pf_max_depth p)) RC_ProfileMaxDepthExceeded 0
              (ucast (pf_max_depth p)) @
            concat (map (\<lambda>i. profile_segment_reasons p i (segs ! i)) [0..<scan]) @
            (if \<not> pf_allow_consecutive_repeats p \<or> \<not> pf_allow_nonconsecutive_repeats p
             then concat (map (profile_repeat_reasons p segs) (scan_pairs scan)) else []))"

definition policy_required_reasons :: "Segment list \<Rightarrow> SegmentId \<Rightarrow> Reason list" where
  "policy_required_reasons segs required =
     emit (\<not> list_ex (\<lambda>s. seg_id s = required) segs) RC_PolicyRequiredEntityMissing 0 required"

text \<open>The first position that holds a forbidden segment is reported.\<close>

definition policy_forbidden_reasons :: "Segment list \<Rightarrow> SegmentId \<Rightarrow> Reason list" where
  "policy_forbidden_reasons segs forbidden =
     (case find (\<lambda>i. seg_id (segs ! i) = forbidden) [0..<length segs] of
        None \<Rightarrow> []
      | Some i \<Rightarrow> [reason RC_PolicyForbiddenEntityPresent (of_nat i) forbidden])"

definition policy_kind_reasons :: "SegmentPolicy \<Rightarrow> nat \<Rightarrow> Segment \<Rightarrow> Reason list" where
  "policy_kind_reasons p i s =
     (if seg_kind s = SK_Invalid then []
      else emit (po_allowed_kinds_mask p AND kind_bit (seg_kind s) = 0) RC_PolicyDeniedSegmentKind
             (of_nat i) (kind_u64 (seg_kind s)))"

definition check_policy :: "ValidationRequest \<Rightarrow> Reason list" where
  "check_policy r =
     (let segs = vq_segments r in
      case vq_policy r of
        None \<Rightarrow>
          (if vq_policy_required r then
             (if valid (vq_policy_id r) then [reason RC_PolicyUnknown 0 (vq_policy_id r)]
              else [reason RC_PolicyIdInvalid 0 0])
           else [])
      | Some p \<Rightarrow>
          if \<not> vq_policy_found r then [reason RC_PolicyUnknown 0 (vq_policy_id r)]
          else
            emit (\<not> valid (po_generation p)) RC_PolicyGenerationInvalid 0 0 @
            emit (valid (vq_policy_generation r) \<and> vq_policy_generation r \<noteq> po_generation p)
              RC_PolicyGenerationMismatch 0 (po_generation p) @
            emit (valid (po_owner_scope p) \<and> po_owner_scope p \<noteq> vq_scope r)
              RC_PolicyOwnershipMismatch 0 (po_owner_scope p) @
            emit (po_allowed_profiles p \<noteq> [] \<and>
                  \<not> List.member (po_allowed_profiles p) (vq_profile_id r))
              RC_PolicyDeniedProfile 0 (vq_profile_id r) @
            emit (po_max_depth p \<noteq> 0 \<and> length segs > unat (po_max_depth p))
              RC_PolicyMaxDepthExceeded 0 (ucast (po_max_depth p)) @
            emit (vq_existing r \<noteq> None \<and> \<not> po_allow_replacement p) RC_PolicyReplacementDenied 0 0 @
            emit (vq_derived r \<and> \<not> po_allow_derivation p) RC_PolicyDerivationDenied 0 0 @
            emit (po_require_strict p \<and> vq_strictness r \<noteq> Strict) RC_PolicyStrictnessRequired 0 0 @
            concat (map (policy_required_reasons segs) (po_required_segments p)) @
            concat (map (policy_forbidden_reasons segs) (po_forbidden_segments p)) @
            (if po_allowed_kinds_mask p \<noteq> 0
             then concat (map (\<lambda>i. policy_kind_reasons p i (segs ! i)) [0..<length segs])
             else []))"

text \<open>The entity references each kind requires, and those that are reserved for it.\<close>

definition binding_incomplete :: "Segment \<Rightarrow> bool" where
  "binding_incomplete s =
     (case seg_kind s of
        SK_Node \<Rightarrow> \<not> valid (seg_node s)
      | SK_Adjacency \<Rightarrow> \<not> valid (seg_adjacency s) \<or> \<not> valid (seg_topology s)
      | SK_Endpoint \<Rightarrow> \<not> valid (seg_endpoint s)
      | SK_Binding \<Rightarrow> \<not> valid (seg_binding s)
      | SK_Policy \<Rightarrow> \<not> valid (seg_policy s) \<or> \<not> valid (seg_policy_generation s)
      | SK_Invalid \<Rightarrow> False)"

definition reserved_field_set :: "Segment \<Rightarrow> bool" where
  "reserved_field_set s =
     (let has_node = valid (seg_node s); has_adjacency = valid (seg_adjacency s);
          has_endpoint = valid (seg_endpoint s); has_binding = valid (seg_binding s);
          has_policy = valid (seg_policy s); has_topology = valid (seg_topology s);
          has_policy_generation = valid (seg_policy_generation s)
      in case seg_kind s of
        SK_Node \<Rightarrow> has_adjacency \<or> has_endpoint \<or> has_binding \<or> has_policy \<or> has_topology \<or>
          has_policy_generation
      | SK_Adjacency \<Rightarrow> has_node \<or> has_endpoint \<or> has_binding \<or> has_policy \<or>
          has_policy_generation
      | SK_Endpoint \<Rightarrow> has_node \<or> has_adjacency \<or> has_binding \<or> has_policy \<or> has_topology \<or>
          has_policy_generation
      | SK_Binding \<Rightarrow> has_node \<or> has_adjacency \<or> has_endpoint \<or> has_policy \<or> has_topology \<or>
          has_policy_generation
      | SK_Policy \<Rightarrow> has_node \<or> has_adjacency \<or> has_endpoint \<or> has_binding \<or> has_topology
      | SK_Invalid \<Rightarrow> False)"

definition entity_reasons :: "FabricEvidence \<Rightarrow> nat \<Rightarrow> Segment \<Rightarrow> Reason list" where
  "entity_reasons e i s =
     (case find_segment e (seg_id s) of
        None \<Rightarrow> [reason RC_SegmentEntityUnknown (of_nat i) (seg_id s)]
      | Some record \<Rightarrow>
          emit (sr_kind record \<noteq> seg_kind s) RC_SegmentEntityKindMismatch (of_nat i)
            (kind_u64 (sr_kind record)) @
          emit (sr_generation record \<noteq> seg_generation s) RC_SegmentEntityGenerationMismatch
            (of_nat i) (sr_generation record)) @
     (case seg_kind s of
        SK_Node \<Rightarrow>
          emit (valid (seg_node s) \<and> find_node e (seg_node s) = None)
            RC_SegmentEntityUnknown (of_nat i) (seg_node s)
      | SK_Endpoint \<Rightarrow>
          emit (valid (seg_endpoint s) \<and> find_endpoint e (seg_endpoint s) = None)
            RC_SegmentEntityUnknown (of_nat i) (seg_endpoint s)
      | SK_Binding \<Rightarrow>
          emit (valid (seg_binding s) \<and> find_binding e (seg_binding s) = None)
            RC_SegmentEntityUnknown (of_nat i) (seg_binding s)
      | _ \<Rightarrow> [])"

definition structural_segment_reasons ::
  "FabricEvidence option \<Rightarrow> nat \<Rightarrow> Segment \<Rightarrow> Reason list" where
  "structural_segment_reasons evidence i s =
     (if seg_kind s = SK_Invalid then [reason RC_SegmentKindInvalid (of_nat i) 0]
      else
        emit (\<not> valid (seg_id s)) RC_SegmentIdInvalid (of_nat i) 0 @
        emit (\<not> valid (seg_generation s)) RC_SegmentGenerationInvalid (of_nat i) 0 @
        emit (seg_encoding s \<noteq> SE_Invalid \<and> seg_encoding s \<noteq> expected_encoding_for (seg_kind s))
          RC_SegmentEncodingMismatch (of_nat i) (of_nat (encoding_value (seg_encoding s))) @
        emit (binding_incomplete s) RC_SegmentBindingIncomplete (of_nat i) 0 @
        emit (reserved_field_set s) RC_SegmentReservedFieldSet (of_nat i) 0 @
        emit (\<not> valid (seg_node s) \<and> \<not> valid (seg_adjacency s) \<and> \<not> valid (seg_endpoint s) \<and>
              \<not> valid (seg_binding s) \<and> \<not> valid (seg_policy s) \<and> seg_kind s \<noteq> SK_Invalid)
          RC_SegmentMissingBinding (of_nat i) 0 @
        (case evidence of None \<Rightarrow> [] | Some e \<Rightarrow> entity_reasons e i s))"

definition duplicate_reasons ::
  "bool \<Rightarrow> bool \<Rightarrow> u32 \<Rightarrow> Segment list \<Rightarrow> nat \<times> nat \<Rightarrow> Reason list" where
  "duplicate_reasons forbid_consecutive forbid_nonconsecutive payload_width segs = (\<lambda>(j, i).
     if \<not> segment_semantic_equal (segs ! j) (segs ! i) payload_width then []
     else if j + 1 = i
     then emit forbid_consecutive RC_SegmentDuplicateConsecutive (of_nat i) (seg_id (segs ! i))
     else emit forbid_nonconsecutive RC_SegmentDuplicateNonConsecutive (of_nat i)
            (seg_id (segs ! i)))"

definition check_structural :: "ValidationRequest \<Rightarrow> u32 \<Rightarrow> Reason list" where
  "check_structural r payload_width =
     (let forbid_consecutive =
            (case vq_profile r of None \<Rightarrow> True | Some p \<Rightarrow> \<not> pf_allow_consecutive_repeats p);
          forbid_nonconsecutive =
            (case vq_profile r of None \<Rightarrow> True | Some p \<Rightarrow> \<not> pf_allow_nonconsecutive_repeats p);
          segs = vq_segments r; scan = scan_bound r
      in
      concat (map (\<lambda>i. structural_segment_reasons (vq_evidence r) i (segs ! i)) [0..<scan]) @
      concat (map (duplicate_reasons forbid_consecutive forbid_nonconsecutive payload_width segs)
        (scan_pairs scan)))"

definition capability_key_reasons :: "FabricEvidence \<Rightarrow> CapabilityKey \<Rightarrow> Reason list" where
  "capability_key_reasons e key =
     (if \<not> valid key then [reason RC_CapabilityKeyInvalid 0 0]
      else
        (case find_capability e key of
           None \<Rightarrow> [reason RC_CapabilityMissing 0 key]
         | Some record \<Rightarrow>
             emit (\<not> cr_supported record) RC_CapabilityUnsupported 0 key @
             emit (cr_generation record \<noteq> fe_capability e) RC_CapabilityGenerationMismatch 0
               (cr_generation record)))"

definition check_capability :: "ValidationRequest \<Rightarrow> Reason list" where
  "check_capability r =
     (case vq_profile r of
        None \<Rightarrow> []
      | Some p \<Rightarrow>
          (case vq_evidence r of
             None \<Rightarrow> emit (pf_required_capabilities p \<noteq> []) RC_CapabilityEvidenceUnavailable 0 0
           | Some e \<Rightarrow>
               emit (valid (vq_capability r) \<and> vq_capability r \<noteq> fe_capability e)
                 RC_CapabilityGenerationMismatch 0 (fe_capability e) @
               concat (map (capability_key_reasons e) (pf_required_capabilities p))))"

definition topology_segment_reasons :: "FabricEvidence \<Rightarrow> nat \<Rightarrow> Segment \<Rightarrow> Reason list" where
  "topology_segment_reasons e i s =
     (if seg_kind s \<noteq> SK_Adjacency then []
      else
        (case find_adjacency e (seg_adjacency s) of
           None \<Rightarrow> [reason RC_TopologyAdjacencyUnknown (of_nat i) (seg_adjacency s)]
         | Some record \<Rightarrow>
             emit (ar_topology record \<noteq> seg_topology s) RC_TopologyAdjacencyStale (of_nat i)
               (ar_topology record)))"

definition check_topology :: "ValidationRequest \<Rightarrow> Reason list" where
  "check_topology r =
     (let segs = vq_segments r in
      case vq_evidence r of
        None \<Rightarrow>
          emit (list_ex (\<lambda>s. seg_kind s = SK_Adjacency) segs) RC_TopologyEvidenceUnavailable 0 0
      | Some e \<Rightarrow>
          emit (valid (vq_topology r) \<and> \<not> valid (fe_topology e)) RC_TopologyGenerationInvalid 0 0 @
          emit (valid (vq_topology r) \<and> valid (fe_topology e) \<and> vq_topology r \<noteq> fe_topology e)
            RC_TopologyGenerationMismatch 0 (fe_topology e) @
          concat (map (\<lambda>i. topology_segment_reasons e i (segs ! i)) [0..<length segs]))"

definition check_path_authority :: "ValidationRequest \<Rightarrow> Reason list" where
  "check_path_authority r =
     (if \<not> valid (vq_path r) then
        emit (valid (vq_path_authority r)) RC_PathBindingMissing 0 (vq_path_authority r)
      else
        emit (\<not> valid (vq_path_authority r)) RC_PathAuthorityGenerationInvalid 0 (vq_path r) @
        (case vq_evidence r of
           None \<Rightarrow> []
         | Some e \<Rightarrow>
             (case find_path e (vq_path r) of
                None \<Rightarrow> [reason RC_PathUnknown 0 (vq_path r)]
              | Some record \<Rightarrow>
                  emit (pr_authority record \<noteq> vq_path_authority r) RC_PathAuthorityGenerationStale
                    0 (pr_authority record) @
                  emit (valid (pr_scope record) \<and> valid (vq_scope r) \<and>
                        pr_scope record \<noteq> vq_scope r)
                    RC_PathBelongsToOtherScope 0 (pr_scope record))))"

definition check_route_binding :: "ValidationRequest \<Rightarrow> Reason list" where
  "check_route_binding r =
     (if \<not> valid (vq_route r) then []
      else
        emit (\<not> valid (vq_route_generation r)) RC_RouteBindingInvalid 0 (vq_route r) @
        (case vq_evidence r of
           None \<Rightarrow> []
         | Some e \<Rightarrow>
             (case find_route e (vq_route r) of
                None \<Rightarrow> [reason RC_RouteBindingUnknown 0 (vq_route r)]
              | Some record \<Rightarrow>
                  emit (rr_generation record \<noteq> vq_route_generation r)
                    RC_RouteBindingGenerationStale 0 (rr_generation record) @
                  emit (valid (rr_list record) \<and> rr_list record \<noteq> vq_list_id r)
                    RC_RouteBindingInvalid 0 (rr_list record))))"

definition check_constraint_binding :: "ValidationRequest \<Rightarrow> Reason list" where
  "check_constraint_binding r =
     (if \<not> valid (vq_constraint r) then []
      else
        emit (\<not> valid (vq_constraint_generation r)) RC_ConstraintBindingInvalid 0
          (vq_constraint r) @
        (case vq_evidence r of
           None \<Rightarrow> []
         | Some e \<Rightarrow>
             (case find_constraint e (vq_constraint r) of
                None \<Rightarrow> [reason RC_ConstraintBindingUnknown 0 (vq_constraint r)]
              | Some record \<Rightarrow>
                  emit (xr_generation record \<noteq> vq_constraint_generation r)
                    RC_ConstraintBindingGenerationStale 0 (xr_generation record))))"

definition check_resource_limits :: "ValidationRequest \<Rightarrow> Reason list" where
  "check_resource_limits r =
     (let segs = vq_segments r in
      case vq_limits r of
        None \<Rightarrow> []
      | Some l \<Rightarrow>
          emit (length segs > unat (max_segments_per_list l)) RC_LimitMaxSegmentsPerList 0
            (ucast (max_segments_per_list l)) @
          concat (map (\<lambda>i.
            emit (length (seg_payload (segs ! i)) > unat (max_segment_payload_bytes l))
              RC_LimitMaxSegmentPayloadBytes (of_nat i) (ucast (max_segment_payload_bytes l)))
            [0..<length segs]))"

section \<open>Whole requests\<close>

definition request_payload_width :: "ValidationRequest \<Rightarrow> u32" where
  "request_payload_width r = (case vq_profile r of Some p \<Rightarrow> pf_payload_width p | None \<Rightarrow> 0)"

definition validate_request :: "ValidationRequest \<Rightarrow> ValidationResult" where
  "validate_request request =
     (let out = set_limits (vq_limits request) vr_success;
          payload_width = request_payload_width request;
          out = vr_add_all (check_caller_identity request) out;
          out = vr_add_all (check_epoch_boot_scope request) out;
          out = vr_add_all (check_list_lifecycle request) out
      in if vq_full request then
           (let out = vr_add_all (check_list_content_lifecycle request) out;
                out = vr_add_all (check_profile request) out;
                out = vr_add_all (check_policy request) out;
                out = vr_add_all (check_structural request payload_width) out;
                out = vr_add_all (check_capability request) out;
                out = vr_add_all (check_topology request) out;
                out = vr_add_all (check_path_authority request) out;
                out = vr_add_all (check_route_binding request) out;
                out = vr_add_all (check_constraint_binding request) out
            in vr_add_all (check_resource_limits request) out)
         else out)"

definition sequence_request :: "SegmentSequenceRequest \<Rightarrow> ValidationRequest" where
  "sequence_request q = empty_request\<lparr>
     vq_limits := sq_limits q,
     vq_profile := sq_profile q,
     vq_profile_found := sq_profile q \<noteq> None,
     vq_profile_id := (case sq_profile q of Some p \<Rightarrow> pf_id p | None \<Rightarrow> 0),
     vq_segments := sq_segments q,
     vq_evidence := sq_evidence q,
     vq_topology := sq_topology q\<rparr>"

definition validate_segment_sequence :: "SegmentSequenceRequest \<Rightarrow> ValidationResult" where
  "validate_segment_sequence request =
     (let r = sequence_request request;
          out = set_limits (sq_limits request) vr_success;
          payload_width = (case sq_profile request of Some p \<Rightarrow> pf_payload_width p | None \<Rightarrow> 0);
          out = vr_add_all (check_list_content_lifecycle r) out;
          out = vr_add_all (check_profile r) out;
          out = vr_add_all (check_structural r payload_width) out;
          out = vr_add_all (check_capability r) out;
          out = vr_add_all (check_topology r) out
      in vr_add_all (check_resource_limits r) out)"

definition evaluate_currentness ::
  "SegmentList \<Rightarrow> SegmentProfile option \<Rightarrow> SegmentPolicy option \<Rightarrow> EvidenceWatermark \<Rightarrow>
   CoordinatorEpoch \<Rightarrow> Currentness" where
  "evaluate_currentness list profile policy wmk epoch =
     (let c = sl_content list; s = sl_state list in
      if s = LS_Retired \<or> s = LS_Withdrawn \<or> s = LS_Superseded \<or> s = LS_Revoked then Cu_Unknown
      else if valid epoch \<and> valid (la_epoch (sl_authority list)) \<and>
              epoch \<noteq> la_epoch (sl_authority list) then Cu_StaleEpoch
      else if (case profile of None \<Rightarrow> True
               | Some p \<Rightarrow> pf_generation p \<noteq> lc_profile_generation c) then Cu_StaleProfile
      else if valid (lc_policy c) \<and>
              (case policy of None \<Rightarrow> True
               | Some p \<Rightarrow> po_generation p \<noteq> lc_policy_generation c) then Cu_StalePolicy
      else if valid (lc_capability c) \<and> valid (wm_capability wmk) \<and>
              lc_capability c \<noteq> wm_capability wmk then Cu_StaleCapability
      else if valid (lc_topology c) \<and> valid (wm_topology wmk) \<and>
              lc_topology c \<noteq> wm_topology wmk then Cu_StaleTopology
      else if valid (lc_path c) \<and> valid (lc_path_authority c) \<and>
              valid (wm_path_authority wmk) \<and>
              lc_path_authority c \<noteq> wm_path_authority wmk then Cu_StalePathAuthority
      else if valid (lc_route c) \<and> valid (lc_route_generation c) \<and> valid (wm_route wmk) \<and>
              lc_route_generation c \<noteq> wm_route wmk then Cu_StaleRouteBinding
      else if valid (lc_constraint c) \<and> valid (lc_constraint_generation c) \<and>
              valid (wm_constraint wmk) \<and>
              lc_constraint_generation c \<noteq> wm_constraint wmk then Cu_StaleConstraintBinding
      else if s = LS_RevalidationRequired then Cu_RevalidationRequired
      else if s = LS_Active then Cu_Current
      else Cu_Unknown)"

section \<open>Every check stays in its phase\<close>

lemma emit_simps [simp]:
  "emit c code i d = [] \<longleftrightarrow> \<not> c"
  "set (emit c code i d) = (if c then {reason code i d} else {})"
  by (simp_all add: emit_def)

definition in_phase :: "ValidationPhase \<Rightarrow> Reason list \<Rightarrow> bool" where
  "in_phase p rs \<longleftrightarrow> (\<forall>x \<in> set rs. phase_of (rs_code x) = p)"

lemma in_phase_simps [simp, srf_phase]:
  "in_phase p []"
  "in_phase p (x # xs) \<longleftrightarrow> phase_of (rs_code x) = p \<and> in_phase p xs"
  "in_phase p (xs @ ys) \<longleftrightarrow> in_phase p xs \<and> in_phase p ys"
  "in_phase p (emit c code i d) \<longleftrightarrow> (c \<longrightarrow> phase_of code = p)"
  by (auto simp: in_phase_def)

lemma in_phase_concat_map [simp, srf_phase]:
  "in_phase p (concat (map f xs)) \<longleftrightarrow> (\<forall>x \<in> set xs. in_phase p (f x))"
  by (auto simp: in_phase_def)

lemma caller_identity_phase [srf_phase]: "in_phase Ph_CallerIdentity (check_caller_identity r)"
  by (simp add: check_caller_identity_def split: option.split)

lemma epoch_boot_scope_phase [srf_phase]: "in_phase Ph_EpochBootScope (check_epoch_boot_scope r)"
  by (simp add: check_epoch_boot_scope_def split: option.split)

lemma list_lifecycle_phase [srf_phase]:
  "in_phase Ph_ListLifecycleGeneration (check_list_lifecycle r)"
  by (simp add: check_list_lifecycle_def denied_transition_def Let_def split: option.split)

lemma list_content_phase [srf_phase]:
  "in_phase Ph_ListLifecycleGeneration (check_list_content_lifecycle r)"
  by (simp add: check_list_content_lifecycle_def)

lemma profile_phase [srf_phase]: "in_phase Ph_Profile (check_profile r)"
  by (simp add: check_profile_def profile_segment_reasons_def profile_repeat_reasons_def Let_def
      split: option.split prod.split)

lemma policy_phase [srf_phase]: "in_phase Ph_Policy (check_policy r)"
  by (simp add: check_policy_def policy_required_reasons_def policy_forbidden_reasons_def
      policy_kind_reasons_def Let_def split: option.split)

lemma entity_reasons_phase [srf_phase]: "in_phase Ph_StructuralSegment (entity_reasons e i s)"
  by (simp add: entity_reasons_def split: option.split SegmentKind.split)

lemma structural_phase [srf_phase]: "in_phase Ph_StructuralSegment (check_structural r w)"
  by (simp add: check_structural_def structural_segment_reasons_def duplicate_reasons_def Let_def
      entity_reasons_phase split: option.split prod.split)

lemma capability_phase [srf_phase]: "in_phase Ph_CapabilityEvidence (check_capability r)"
  by (simp add: check_capability_def capability_key_reasons_def split: option.split)

lemma topology_phase [srf_phase]: "in_phase Ph_TopologyEvidence (check_topology r)"
  by (simp add: check_topology_def topology_segment_reasons_def Let_def split: option.split)

lemma path_authority_phase [srf_phase]: "in_phase Ph_PathAuthority (check_path_authority r)"
  by (simp add: check_path_authority_def split: option.split)

lemma route_binding_phase [srf_phase]: "in_phase Ph_RouteBinding (check_route_binding r)"
  by (simp add: check_route_binding_def split: option.split)

lemma constraint_binding_phase [srf_phase]:
  "in_phase Ph_ConstraintBinding (check_constraint_binding r)"
  by (simp add: check_constraint_binding_def split: option.split)

lemma resource_limits_phase [srf_phase]: "in_phase Ph_ResourceLimits (check_resource_limits r)"
  by (simp add: check_resource_limits_def Let_def split: option.split)

lemmas check_phases = caller_identity_phase epoch_boot_scope_phase list_lifecycle_phase
  list_content_phase profile_phase policy_phase structural_phase capability_phase topology_phase
  path_authority_phase route_binding_phase constraint_binding_phase resource_limits_phase

section \<open>Phase pipelines\<close>

text \<open>
  A validator that runs its checks in phase order and adds all their reasons to one result. The
  interface fixes what the validator reports; its clients learn when the result is a success,
  which phase the primary reason belongs to and which reasons the result lists.
\<close>

definition phase_list_ok :: "(ValidationPhase \<times> Reason list) list \<Rightarrow> bool" where
  "phase_list_ok ps \<longleftrightarrow> sorted_wrt (<) (map fst ps) \<and>
     (\<forall>(p, rs) \<in> set ps. in_phase p rs \<and> Ph_Ok < p \<and> p \<le> Ph_ResourceLimits)"

definition first_failing :: "(ValidationPhase \<times> Reason list) list \<Rightarrow> ValidationPhase" where
  "first_failing ps = (case find (\<lambda>(p, rs). rs \<noteq> []) ps of None \<Rightarrow> Ph_Ok | Some (p, _) \<Rightarrow> p)"

definition all_reasons :: "(ValidationPhase \<times> Reason list) list \<Rightarrow> Reason list" where
  "all_reasons ps = concat (map snd ps)"

lemma all_reasons_simps [simp]:
  "all_reasons [] = []" "all_reasons ((p, rs) # ps) = rs @ all_reasons ps"
  by (simp_all add: all_reasons_def)

lemma phase_list_not_ok:
  assumes "phase_list_ok ps" and "x \<in> set (all_reasons ps)"
  shows "rs_code x \<noteq> RC_Ok"
proof -
  obtain p rs where "(p, rs) \<in> set ps" "x \<in> set rs" using assms(2) by (auto simp: all_reasons_def)
  with assms(1) have "phase_of (rs_code x) = p" "Ph_Ok < p"
    by (auto simp: phase_list_ok_def in_phase_def)
  then show ?thesis by auto
qed

lemma first_failing_primary:
  assumes "phase_list_ok ps" and "vr_wf v" and "vr_reasons v = []" and "vr_cap v \<ge> 2"
  shows "primary_phase (vr_add_all (all_reasons ps) v) = first_failing ps"
  using assms(1)
proof (induction ps)
  case Nil
  then show ?case using assms(3) by (simp add: first_failing_def primary_phase_def)
next
  case (Cons q ps)
  obtain p rs where q: "q = (p, rs)" by (cases q)
  have ps: "phase_list_ok ps" using Cons.prems by (auto simp: phase_list_ok_def)
  show ?case
  proof (cases rs)
    case Nil
    then show ?thesis using Cons.IH [OF ps] q by (simp add: first_failing_def)
  next
    case (Cons r rs')
    have all_in: "in_phase p rs" and p: "Ph_Ok < p" "p \<le> Ph_ResourceLimits"
      and later: "\<forall>x \<in> set (all_reasons ps). p < phase_of (rs_code x)"
      using Cons.prems q
      by (fastforce simp: phase_list_ok_def all_reasons_def in_phase_def)+
    let ?v = "vr_add_reason r v"
    have r_ok: "phase_of (rs_code r) = p" "rs_code r \<noteq> RC_Ok"
      using all_in Cons p by (auto simp: in_phase_def)
    have "set (vr_reasons ?v) = {r}"
      using vr_add_room [of "rs_code r" v "rs_index r" "rs_detail r"] r_ok assms(3,4)
      by (simp add: vr_add_reason_def)
    then have v: "vr_reasons ?v \<noteq> []" "vr_wf ?v" "vr_cap ?v \<ge> 2" "primary_phase ?v = p"
      using r_ok assms(2,4) primary_phase_least [of ?v r p]
      by (auto simp: vr_add_reason_def vr_wf_add)
    have "\<forall>x \<in> set (rs' @ all_reasons ps). p \<le> phase_of (rs_code x)"
      using later all_in Cons by (auto simp: in_phase_def)
    then have "primary_phase (vr_add_all (rs' @ all_reasons ps) ?v) = p"
      using primary_phase_add_all [OF v(2,1,3), of "rs' @ all_reasons ps"] v(4) p(2) by simp
    then show ?thesis using q Cons by (simp add: first_failing_def)
  qed
qed

end
