(* ===== verification/Admission.thy ===== *)
theory Admission
  imports Validation
begin

text \<open>
  The contract of validation: the declarative admissibility of a request, phase by phase, and the
  pipeline interface that relates it to the results the validators compute.
\<close>

section \<open>The pipeline interface\<close>

definition reason_cap :: "Limits option \<Rightarrow> nat" where
  "reason_cap l = (case l of Some l \<Rightarrow> unat (max_reasons l) | None \<Rightarrow> 32)"

lemma fresh_result [simp]:
  "vr_cap (set_limits l vr_success) = reason_cap l"
  "vr_reasons (set_limits l vr_success) = []"
  "vr_truncated (set_limits l vr_success) = False"
  "vr_limits (set_limits l vr_success) = l"
  by (simp_all add: vr_defs reason_cap_def)

locale phase_pipeline =
  fixes run :: "'r \<Rightarrow> ValidationResult"
    and limits_of :: "'r \<Rightarrow> Limits option"
    and phases :: "'r \<Rightarrow> (ValidationPhase \<times> Reason list) list"
  assumes run_adds:
      "run r = vr_add_all (all_reasons (phases r)) (set_limits (limits_of r) vr_success)"
    and phases_ok: "phase_list_ok (phases r)"
begin

lemma run_wf: "vr_wf (run r)"
  by (simp add: run_adds vr_wf_add_all)

lemma run_cap: "vr_cap (run r) = reason_cap (limits_of r)"
  by (simp add: run_adds)

lemma run_ok:
  assumes "reason_cap (limits_of r) > 0"
  shows "vr_ok (run r) \<longleftrightarrow> (\<forall>(p, rs) \<in> set (phases r). rs = [])"
proof -
  have "vr_ok (run r) \<longleftrightarrow> (\<forall>x \<in> set (all_reasons (phases r)). rs_code x = RC_Ok)"
    using assms by (simp add: run_adds vr_ok_add_all) (simp add: vr_ok_def)
  also have "\<dots> \<longleftrightarrow> all_reasons (phases r) = []"
    using phase_list_not_ok [OF phases_ok [of r]]
    by (metis list.set_sel(1) set_empty empty_iff)
  finally show ?thesis by (auto simp: all_reasons_def)
qed

lemma run_primary:
  assumes "reason_cap (limits_of r) \<ge> 2"
  shows "primary_phase (run r) = first_failing (phases r)"
  using first_failing_primary [OF phases_ok] assms by (simp add: run_adds)

lemma run_complete:
  assumes "card (set (all_reasons (phases r))) < reason_cap (limits_of r)"
  shows "set (vr_reasons (run r)) = set (all_reasons (phases r)) \<and> \<not> vr_truncated (run r)"
  using vr_add_all_room [of "set_limits (limits_of r) vr_success" "all_reasons (phases r)"]
    phase_list_not_ok [OF phases_ok] assms by (auto simp: run_adds)

lemma run_fail_open:
  assumes "reason_cap (limits_of r) = 0"
  shows "vr_ok (run r)"
proof -
  have "vr_reasons (vr_add_all rs v) = []" if "vr_reasons v = []" "vr_cap v = 0" for rs v
    using that by (induction rs arbitrary: v) (simp_all add: vr_add_reason_def vr_add_empty)
  then show ?thesis using assms by (simp add: run_adds vr_ok_def)
qed

end

definition validation_phases :: "ValidationRequest \<Rightarrow> (ValidationPhase \<times> Reason list) list" where
  "validation_phases r =
     [(Ph_CallerIdentity, check_caller_identity r),
      (Ph_EpochBootScope, check_epoch_boot_scope r),
      (Ph_ListLifecycleGeneration,
         check_list_lifecycle r @ (if vq_full r then check_list_content_lifecycle r else []))] @
     (if vq_full r then
        [(Ph_Profile, check_profile r),
         (Ph_Policy, check_policy r),
         (Ph_StructuralSegment, check_structural r (request_payload_width r)),
         (Ph_CapabilityEvidence, check_capability r),
         (Ph_TopologyEvidence, check_topology r),
         (Ph_PathAuthority, check_path_authority r),
         (Ph_RouteBinding, check_route_binding r),
         (Ph_ConstraintBinding, check_constraint_binding r),
         (Ph_ResourceLimits, check_resource_limits r)]
      else [])"

definition sequence_phases ::
  "SegmentSequenceRequest \<Rightarrow> (ValidationPhase \<times> Reason list) list" where
  "sequence_phases q =
     (let r = sequence_request q in
      [(Ph_ListLifecycleGeneration, check_list_content_lifecycle r),
       (Ph_Profile, check_profile r),
       (Ph_StructuralSegment, check_structural r (request_payload_width r)),
       (Ph_CapabilityEvidence, check_capability r),
       (Ph_TopologyEvidence, check_topology r),
       (Ph_ResourceLimits, check_resource_limits r)])"

lemmas phase_order = less_ValidationPhase_def less_eq_ValidationPhase_def

interpretation request: phase_pipeline validate_request vq_limits validation_phases
proof
  fix r
  show "validate_request r =
      vr_add_all (all_reasons (validation_phases r)) (set_limits (vq_limits r) vr_success)"
    by (simp add: validate_request_def validation_phases_def)
  show "phase_list_ok (validation_phases r)"
    by (cases "vq_full r")
       (simp_all add: phase_list_ok_def validation_phases_def check_phases phase_order)
qed

interpretation segment_sequence: phase_pipeline validate_segment_sequence sq_limits sequence_phases
proof
  fix q
  show "validate_segment_sequence q =
      vr_add_all (all_reasons (sequence_phases q)) (set_limits (sq_limits q) vr_success)"
    by (simp add: validate_segment_sequence_def sequence_phases_def request_payload_width_def
        sequence_request_def Let_def)
  show "phase_list_ok (sequence_phases q)"
    by (simp add: phase_list_ok_def sequence_phases_def check_phases Let_def phase_order)
qed

section \<open>Admissibility, phase by phase\<close>

definition caller_admissible :: "ValidationRequest \<Rightarrow> bool" where
  "caller_admissible r \<longleftrightarrow>
     (\<forall>c. vq_caller r = Some c \<longrightarrow>
        valid (ca_publisher c) \<and> valid (ca_boot c) \<and> valid (ca_attempt c) \<and> valid (ca_scope c) \<and>
        (\<forall>a. vq_authority r = Some a \<longrightarrow>
           (\<exists>p. find_publisher (ca_publisher c) a = Some p \<and> ps_boot p = ca_boot c \<and> ps_alive p \<and>
                \<not> ps_fenced p \<and> ca_boot c \<notin> set (at_fenced_boots a) \<and> ps_scope p = ca_scope c)))"

definition epoch_admissible :: "ValidationRequest \<Rightarrow> bool" where
  "epoch_admissible r \<longleftrightarrow>
     (\<forall>c. vq_caller r = Some c \<longrightarrow> valid (ca_epoch c) \<and>
        (\<forall>a. vq_authority r = Some a \<longrightarrow> ca_epoch c = at_epoch a \<and> \<not> exhausted (at_epoch a)))"

definition list_admissible :: "ValidationRequest \<Rightarrow> bool" where
  "list_admissible r \<longleftrightarrow> valid (vq_list_id r) \<and>
     (case vq_existing r of
        None \<Rightarrow> \<not> vq_require_existing r \<and> \<not> valid (vq_expected_generation r)
      | Some l \<Rightarrow> \<not> vq_require_absent r \<and> vq_expected_generation r = sl_generation l \<and>
          valid (sl_generation l) \<and> \<not> exhausted (sl_generation l) \<and>
          (\<exists>s. lifecycle_transition (sl_state l) (vq_intent r) = Some s))"

text \<open>A repetition of a semantically equal segment, at positions \<open>j < i\<close> of the scanned prefix.\<close>

definition repeats_permitted ::
  "bool \<Rightarrow> bool \<Rightarrow> u32 \<Rightarrow> Segment list \<Rightarrow> nat \<Rightarrow> bool" where
  "repeats_permitted consecutive nonconsecutive w segs n \<longleftrightarrow>
     (\<forall>i j. j < i \<longrightarrow> i < n \<longrightarrow> segment_semantic_equal (segs ! j) (segs ! i) w \<longrightarrow>
        (if Suc j = i then consecutive else nonconsecutive))"

definition profile_admissible :: "ValidationRequest \<Rightarrow> bool" where
  "profile_admissible r \<longleftrightarrow>
     (\<exists>p. vq_profile r = Some p \<and> vq_profile_found r \<and> pf_id p = vq_profile_id r \<and>
        valid (pf_generation p) \<and>
        (valid (vq_profile_generation r) \<longrightarrow> vq_profile_generation r = pf_generation p) \<and>
        (vq_segments r = [] \<longrightarrow> pf_allow_empty p) \<and> (vq_strictness r = Loose \<longrightarrow> pf_allow_loose p) \<and>
        length (vq_segments r) \<le> unat (pf_max_depth p) \<and>
        (\<forall>s \<in> set (take (scan_bound r) (vq_segments r)).
           allows_kind p (seg_kind s) \<and> length (seg_payload s) \<le> unat (pf_payload_width p)) \<and>
        repeats_permitted (pf_allow_consecutive_repeats p) (pf_allow_nonconsecutive_repeats p)
          (pf_payload_width p) (vq_segments r) (scan_bound r))"

definition policy_admissible :: "ValidationRequest \<Rightarrow> bool" where
  "policy_admissible r \<longleftrightarrow>
     (case vq_policy r of
        None \<Rightarrow> \<not> vq_policy_required r
      | Some p \<Rightarrow> vq_policy_found r \<and> valid (po_generation p) \<and>
          (valid (vq_policy_generation r) \<longrightarrow> vq_policy_generation r = po_generation p) \<and>
          (valid (po_owner_scope p) \<longrightarrow> po_owner_scope p = vq_scope r) \<and>
          (po_allowed_profiles p \<noteq> [] \<longrightarrow> vq_profile_id r \<in> set (po_allowed_profiles p)) \<and>
          (po_max_depth p \<noteq> 0 \<longrightarrow> length (vq_segments r) \<le> unat (po_max_depth p)) \<and>
          (vq_existing r \<noteq> None \<longrightarrow> po_allow_replacement p) \<and>
          (vq_derived r \<longrightarrow> po_allow_derivation p) \<and>
          (po_require_strict p \<longrightarrow> vq_strictness r = Strict) \<and>
          set (po_required_segments p) \<subseteq> seg_id ` set (vq_segments r) \<and>
          set (po_forbidden_segments p) \<inter> seg_id ` set (vq_segments r) = {} \<and>
          (po_allowed_kinds_mask p \<noteq> 0 \<longrightarrow>
             (\<forall>s \<in> set (vq_segments r). seg_kind s = SK_Invalid \<or>
                po_allowed_kinds_mask p AND kind_bit (seg_kind s) \<noteq> 0)))"

text \<open>The segment is one the evidence knows, with the kind and generation it claims.\<close>

definition entity_known :: "FabricEvidence \<Rightarrow> Segment \<Rightarrow> bool" where
  "entity_known e s \<longleftrightarrow>
     (\<exists>x. find_segment e (seg_id s) = Some x \<and> sr_kind x = seg_kind s \<and>
        sr_generation x = seg_generation s) \<and>
     (seg_kind s = SK_Node \<longrightarrow> valid (seg_node s) \<longrightarrow> find_node e (seg_node s) \<noteq> None) \<and>
     (seg_kind s = SK_Endpoint \<longrightarrow> valid (seg_endpoint s) \<longrightarrow>
        find_endpoint e (seg_endpoint s) \<noteq> None) \<and>
     (seg_kind s = SK_Binding \<longrightarrow> valid (seg_binding s) \<longrightarrow> find_binding e (seg_binding s) \<noteq> None)"

text \<open>Exactly the references of the kind are set, and the encoding is unset or the expected one.\<close>

definition segment_shape :: "Segment \<Rightarrow> bool" where
  "segment_shape s \<longleftrightarrow>
     (case seg_kind s of
        SK_Invalid \<Rightarrow> False
      | k \<Rightarrow> (valid (seg_node s) \<longleftrightarrow> k = SK_Node) \<and>
             (valid (seg_adjacency s) \<longleftrightarrow> k = SK_Adjacency) \<and>
             (valid (seg_endpoint s) \<longleftrightarrow> k = SK_Endpoint) \<and>
             (valid (seg_binding s) \<longleftrightarrow> k = SK_Binding) \<and>
             (valid (seg_policy s) \<longleftrightarrow> k = SK_Policy) \<and>
             (valid (seg_policy_generation s) \<longleftrightarrow> k = SK_Policy) \<and>
             (valid (seg_topology s) \<longleftrightarrow> k = SK_Adjacency))"

definition segment_admissible :: "FabricEvidence option \<Rightarrow> Segment \<Rightarrow> bool" where
  "segment_admissible ev s \<longleftrightarrow> segment_shape s \<and> valid (seg_id s) \<and> valid (seg_generation s) \<and>
     seg_encoding s \<in> {SE_Invalid, expected_encoding_for (seg_kind s)} \<and>
     (\<forall>e. ev = Some e \<longrightarrow> entity_known e s)"

definition structural_admissible :: "ValidationRequest \<Rightarrow> bool" where
  "structural_admissible r \<longleftrightarrow>
     (\<forall>s \<in> set (take (scan_bound r) (vq_segments r)). segment_admissible (vq_evidence r) s) \<and>
     (case vq_profile r of
        None \<Rightarrow> repeats_permitted False False 0 (vq_segments r) (scan_bound r)
      | Some p \<Rightarrow>
          repeats_permitted (pf_allow_consecutive_repeats p) (pf_allow_nonconsecutive_repeats p)
            (pf_payload_width p) (vq_segments r) (scan_bound r))"

definition capability_admissible :: "ValidationRequest \<Rightarrow> bool" where
  "capability_admissible r \<longleftrightarrow>
     (\<forall>p. vq_profile r = Some p \<longrightarrow>
        (case vq_evidence r of
           None \<Rightarrow> pf_required_capabilities p = []
         | Some e \<Rightarrow> (valid (vq_capability r) \<longrightarrow> vq_capability r = fe_capability e) \<and>
             (\<forall>k \<in> set (pf_required_capabilities p). valid k \<and>
                (\<exists>x. find_capability e k = Some x \<and> cr_supported x \<and>
                     cr_generation x = fe_capability e))))"

definition topology_admissible :: "ValidationRequest \<Rightarrow> bool" where
  "topology_admissible r \<longleftrightarrow>
     (case vq_evidence r of
        None \<Rightarrow> \<forall>s \<in> set (vq_segments r). seg_kind s \<noteq> SK_Adjacency
      | Some e \<Rightarrow> (valid (vq_topology r) \<longrightarrow> vq_topology r = fe_topology e) \<and>
          (\<forall>s \<in> set (vq_segments r). seg_kind s = SK_Adjacency \<longrightarrow>
             (\<exists>x. find_adjacency e (seg_adjacency s) = Some x \<and> ar_topology x = seg_topology s)))"

definition path_admissible :: "ValidationRequest \<Rightarrow> bool" where
  "path_admissible r \<longleftrightarrow>
     (valid (vq_path r) \<longleftrightarrow> valid (vq_path_authority r)) \<and>
     (\<forall>e. valid (vq_path r) \<longrightarrow> vq_evidence r = Some e \<longrightarrow>
        (\<exists>x. find_path e (vq_path r) = Some x \<and> pr_authority x = vq_path_authority r \<and>
           (valid (pr_scope x) \<longrightarrow> valid (vq_scope r) \<longrightarrow> pr_scope x = vq_scope r)))"

definition route_admissible :: "ValidationRequest \<Rightarrow> bool" where
  "route_admissible r \<longleftrightarrow>
     (valid (vq_route r) \<longrightarrow> valid (vq_route_generation r) \<and>
        (\<forall>e. vq_evidence r = Some e \<longrightarrow>
           (\<exists>x. find_route e (vq_route r) = Some x \<and> rr_generation x = vq_route_generation r \<and>
              (valid (rr_list x) \<longrightarrow> rr_list x = vq_list_id r))))"

definition constraint_admissible :: "ValidationRequest \<Rightarrow> bool" where
  "constraint_admissible r \<longleftrightarrow>
     (valid (vq_constraint r) \<longrightarrow> valid (vq_constraint_generation r) \<and>
        (\<forall>e. vq_evidence r = Some e \<longrightarrow>
           (\<exists>x. find_constraint e (vq_constraint r) = Some x \<and>
              xr_generation x = vq_constraint_generation r)))"

definition limits_admissible :: "ValidationRequest \<Rightarrow> bool" where
  "limits_admissible r \<longleftrightarrow>
     (\<forall>l. vq_limits r = Some l \<longrightarrow>
        length (vq_segments r) \<le> unat (max_segments_per_list l) \<and>
        (\<forall>s \<in> set (vq_segments r). length (seg_payload s) \<le> unat (max_segment_payload_bytes l)))"

definition content_admissible :: "ValidationRequest \<Rightarrow> bool" where
  "content_admissible r \<longleftrightarrow>
     profile_admissible r \<and> policy_admissible r \<and> structural_admissible r \<and>
     capability_admissible r \<and> topology_admissible r \<and> path_admissible r \<and> route_admissible r \<and>
     constraint_admissible r \<and> limits_admissible r"

definition admissible :: "ValidationRequest \<Rightarrow> bool" where
  "admissible r \<longleftrightarrow> caller_admissible r \<and> epoch_admissible r \<and> list_admissible r \<and>
     (vq_full r \<longrightarrow> content_admissible r)"

section \<open>Each check decides its part\<close>

lemma concat_map_empty: "concat (map f xs) = [] \<longleftrightarrow> (\<forall>x \<in> set xs. f x = [])"
  by auto

lemma all_positions: "(\<forall>i \<in> {0..<n}. P (xs ! i)) \<longleftrightarrow> (\<forall>x \<in> set (take n xs). P x)"
  if "n \<le> length xs"
  by (simp flip: nth_image [OF that])

lemma scan_le [simp]: "scan_bound r \<le> length (vq_segments r)"
  by (simp add: scan_bound_def Let_def)

lemma scan_pairs_set: "set (scan_pairs n) = {(j, i). j < i \<and> i < n}"
proof (induction n)
  case (Suc n)
  have "scan_pairs (Suc n) = scan_pairs n @ map (\<lambda>j. (j, n)) [0..<n]"
    by (simp add: scan_pairs_def)
  with Suc show ?case by (auto simp: less_Suc_eq)
qed (simp add: scan_pairs_def)

lemma check_caller_empty: "check_caller_identity r = [] \<longleftrightarrow> caller_admissible r"
  by (auto simp: check_caller_identity_def caller_admissible_def boot_fenced_def split: option.split)

lemma check_epoch_empty: "check_epoch_boot_scope r = [] \<longleftrightarrow> epoch_admissible r"
  by (auto simp: check_epoch_boot_scope_def epoch_admissible_def split: option.split)

lemma check_list_empty: "check_list_lifecycle r = [] \<longleftrightarrow> list_admissible r"
  by (auto simp: check_list_lifecycle_def list_admissible_def denied_transition_def Let_def
      split: option.split)

lemma check_content_empty:
  assumes "profile_admissible r"
  shows "check_list_content_lifecycle r = []"
  using assms by (auto simp: check_list_content_lifecycle_def profile_admissible_def)

lemma allows_kind_encoding: "allows_kind p k \<Longrightarrow> expected_encoding_for k \<noteq> SE_Invalid"
  by (cases k) (simp_all add: allows_kind_def)

lemma profile_segment_empty:
  "profile_segment_reasons p i s = [] \<longleftrightarrow>
     allows_kind p (seg_kind s) \<and> length (seg_payload s) \<le> unat (pf_payload_width p)"
  by (auto simp: profile_segment_reasons_def dest: allows_kind_encoding)

lemma profile_repeats_empty:
  "(\<forall>x \<in> set (scan_pairs n). profile_repeat_reasons p segs x = []) \<longleftrightarrow>
     repeats_permitted (pf_allow_consecutive_repeats p) (pf_allow_nonconsecutive_repeats p)
       (pf_payload_width p) segs n"
  by (auto simp: scan_pairs_set profile_repeat_reasons_def repeats_permitted_def)

lemma repeats_permitted_all [simp]: "repeats_permitted True True w segs n"
  by (simp add: repeats_permitted_def)

lemma duplicates_empty:
  "(\<forall>x \<in> set (scan_pairs n). duplicate_reasons (\<not> c) (\<not> d) w segs x = []) \<longleftrightarrow>
     repeats_permitted c d w segs n"
  by (auto simp: scan_pairs_set duplicate_reasons_def repeats_permitted_def)

lemma check_profile_empty: "check_profile r = [] \<longleftrightarrow> profile_admissible r"
proof (cases "vq_profile r")
  case None
  then show ?thesis by (simp add: check_profile_def profile_admissible_def Let_def)
next
  case (Some p)
  let ?segs = "vq_segments r" and ?n = "scan_bound r"
  have each: "(\<forall>i \<in> {0..<?n}. profile_segment_reasons p i (?segs ! i) = []) \<longleftrightarrow>
      (\<forall>s \<in> set (take ?n ?segs).
         allows_kind p (seg_kind s) \<and> length (seg_payload s) \<le> unat (pf_payload_width p))"
    unfolding profile_segment_empty by (rule all_positions) simp
  show ?thesis
    unfolding check_profile_def Let_def Some option.case profile_admissible_def
    by (simp add: concat_map_empty each profile_repeats_empty not_less del: atLeastLessThan_iff)
       blast
qed

lemma policy_forbidden_empty:
  "policy_forbidden_reasons segs x = [] \<longleftrightarrow> x \<notin> seg_id ` set segs"
proof -
  have "policy_forbidden_reasons segs x = [] \<longleftrightarrow>
      find (\<lambda>i. seg_id (segs ! i) = x) [0..<length segs] = None"
    by (simp add: policy_forbidden_reasons_def split: option.split)
  also have "\<dots> \<longleftrightarrow> x \<notin> seg_id ` set segs"
    by (fastforce simp: find_None_iff in_set_conv_nth)
  finally show ?thesis .
qed

lemma policy_kinds_empty:
  "(\<forall>i \<in> {0..<length segs}. policy_kind_reasons p i (segs ! i) = []) \<longleftrightarrow>
     (\<forall>s \<in> set segs. seg_kind s = SK_Invalid \<or>
        po_allowed_kinds_mask p AND kind_bit (seg_kind s) \<noteq> 0)"
proof -
  have "policy_kind_reasons p i s = [] \<longleftrightarrow> seg_kind s = SK_Invalid \<or>
      po_allowed_kinds_mask p AND kind_bit (seg_kind s) \<noteq> 0" for i s
    by (simp add: policy_kind_reasons_def)
  then show ?thesis using all_positions [of "length segs" segs] by simp
qed

lemma check_policy_empty: "check_policy r = [] \<longleftrightarrow> policy_admissible r"
proof (cases "vq_policy r")
  case None
  then show ?thesis by (simp add: check_policy_def policy_admissible_def Let_def)
next
  case (Some p)
  have req: "(\<forall>x \<in> set (po_required_segments p). policy_required_reasons (vq_segments r) x = []) \<longleftrightarrow>
      set (po_required_segments p) \<subseteq> seg_id ` set (vq_segments r)"
    by (auto simp: policy_required_reasons_def list_ex_iff)
  have forb: "(\<forall>x \<in> set (po_forbidden_segments p). policy_forbidden_reasons (vq_segments r) x = []) \<longleftrightarrow>
      set (po_forbidden_segments p) \<inter> seg_id ` set (vq_segments r) = {}"
    by (auto simp: policy_forbidden_empty)
  show ?thesis
    unfolding check_policy_def Let_def Some option.case policy_admissible_def
    by (simp add: concat_map_empty req forb policy_kinds_empty not_less del: atLeastLessThan_iff)
       auto
qed

lemma entity_reasons_empty: "entity_reasons e i s = [] \<longleftrightarrow> entity_known e s"
  by (cases "seg_kind s") (auto simp: entity_reasons_def entity_known_def split: option.split)

lemma structural_segment_empty:
  "structural_segment_reasons ev i s = [] \<longleftrightarrow> segment_admissible ev s"
  by (cases "seg_kind s")
     (auto simp: structural_segment_reasons_def segment_admissible_def segment_shape_def
       binding_incomplete_def reserved_field_set_def entity_reasons_empty Let_def
       split: option.split)

lemma check_structural_empty:
  "check_structural r (request_payload_width r) = [] \<longleftrightarrow> structural_admissible r"
proof -
  have each: "(\<forall>i \<in> {0..<scan_bound r}.
      structural_segment_reasons (vq_evidence r) i (vq_segments r ! i) = []) \<longleftrightarrow>
      (\<forall>s \<in> set (take (scan_bound r) (vq_segments r)). segment_admissible (vq_evidence r) s)"
    unfolding structural_segment_empty by (rule all_positions) simp
  show ?thesis
    using duplicates_empty [of _ False False 0] duplicates_empty
    by (simp add: check_structural_def structural_admissible_def Let_def concat_map_empty each
        request_payload_width_def del: atLeastLessThan_iff split: option.split)
qed

lemma check_capability_empty: "check_capability r = [] \<longleftrightarrow> capability_admissible r"
proof -
  have "capability_key_reasons e k = [] \<longleftrightarrow> valid k \<and>
      (\<exists>x. find_capability e k = Some x \<and> cr_supported x \<and> cr_generation x = fe_capability e)" for e k
    by (auto simp: capability_key_reasons_def split: option.split)
  then show ?thesis
    by (auto simp: check_capability_def capability_admissible_def concat_map_empty
        split: option.split)
qed

lemma topology_segments_empty:
  "(\<forall>i \<in> {0..<length segs}. topology_segment_reasons e i (segs ! i) = []) \<longleftrightarrow>
     (\<forall>s \<in> set segs. seg_kind s = SK_Adjacency \<longrightarrow>
        (\<exists>x. find_adjacency e (seg_adjacency s) = Some x \<and> ar_topology x = seg_topology s))"
proof -
  have "topology_segment_reasons e i s = [] \<longleftrightarrow> (seg_kind s = SK_Adjacency \<longrightarrow>
      (\<exists>x. find_adjacency e (seg_adjacency s) = Some x \<and> ar_topology x = seg_topology s))" for i s
    by (auto simp: topology_segment_reasons_def split: option.split)
  then show ?thesis using all_positions [of "length segs" segs] by simp
qed

lemma check_topology_empty: "check_topology r = [] \<longleftrightarrow> topology_admissible r"
  by (cases "vq_evidence r")
     (auto simp: check_topology_def topology_admissible_def Let_def list_ex_iff concat_map_empty
       topology_segments_empty simp del: atLeastLessThan_iff)

lemma check_path_empty: "check_path_authority r = [] \<longleftrightarrow> path_admissible r"
  by (auto simp: check_path_authority_def path_admissible_def split: option.split)

lemma check_route_empty: "check_route_binding r = [] \<longleftrightarrow> route_admissible r"
  by (auto simp: check_route_binding_def route_admissible_def split: option.split)

lemma check_constraint_empty: "check_constraint_binding r = [] \<longleftrightarrow> constraint_admissible r"
  by (auto simp: check_constraint_binding_def constraint_admissible_def split: option.split)

lemma check_limits_empty: "check_resource_limits r = [] \<longleftrightarrow> limits_admissible r"
proof (cases "vq_limits r")
  case (Some l)
  then show ?thesis
    using all_positions [of "length (vq_segments r)" "vq_segments r"
        "\<lambda>s. length (seg_payload s) \<le> unat (max_segment_payload_bytes l)"]
    by (simp add: check_resource_limits_def limits_admissible_def Let_def concat_map_empty not_less
        del: atLeastLessThan_iff)
qed (simp add: check_resource_limits_def limits_admissible_def)

lemmas check_empty = check_caller_empty check_epoch_empty check_list_empty check_profile_empty
  check_policy_empty check_structural_empty check_capability_empty check_topology_empty
  check_path_empty check_route_empty check_constraint_empty check_limits_empty

lemma phases_empty: "(\<forall>(p, rs) \<in> set (validation_phases r). rs = []) \<longleftrightarrow> admissible r"
proof (cases "vq_full r")
  case True
  then have "(\<forall>(p, rs) \<in> set (validation_phases r). rs = []) \<longleftrightarrow>
      admissible r \<and> check_list_content_lifecycle r = []"
    by (simp add: validation_phases_def check_empty admissible_def content_admissible_def) blast
  then show ?thesis
    using True check_content_empty [of r] by (auto simp: admissible_def content_admissible_def)
qed (simp add: validation_phases_def check_empty admissible_def)

section \<open>Example requests\<close>

definition caller_example :: CallerIdentity where
  "caller_example = \<lparr>ca_epoch = 1, ca_publisher = 7, ca_boot = 70, ca_scope = 0x100, ca_attempt = 900\<rparr>"

definition publisher_example :: PublisherState where
  "publisher_example = \<lparr>ps_id = 7, ps_boot = 70, ps_scope = 0x100, ps_epoch = 1, ps_alive = True,
     ps_fenced = False\<rparr>"

definition view_example :: AuthorityView where
  "view_example = \<lparr>at_epoch = 1, at_publishers = [publisher_example], at_fenced_boots = [69]\<rparr>"

definition fabric_segment_example :: "u64 \<Rightarrow> Segment" where
  "fabric_segment_example n = \<lparr>seg_kind = SK_Node, seg_encoding = SE_Invalid, seg_id = 0x3000 + n,
     seg_generation = 1, seg_node = 0x2000 + n, seg_adjacency = 0, seg_endpoint = 0,
     seg_binding = 0, seg_policy = 0, seg_policy_generation = 0, seg_topology = 0,
     seg_payload = [7]\<rparr>"

definition request_example :: "Segment list \<Rightarrow> ValidationRequest" where
  "request_example segs = empty_request\<lparr>
     vq_limits := Some default_limits, vq_caller := Some caller_example,
     vq_authority := Some view_example, vq_list_id := 11, vq_scope := 0x100,
     vq_intent := LE_ValidateSucceed, vq_profile_id := 0x10001, vq_profile_generation := 1,
     vq_profile := Some abstract_governance_profile, vq_profile_found := True, vq_capability := 1,
     vq_segments := segs, vq_evidence := Some (snapshot (make_synthetic_fabric 2)),
     vq_require_absent := True\<rparr>"

lemma request_example_ok:
  "vr_ok (validate_request (request_example [fabric_segment_example 1, fabric_segment_example 2]))"
  by code_simp

section \<open>What an admitted request satisfies\<close>

lemma scan_all: "limits_admissible r \<Longrightarrow> scan_bound r = length (vq_segments r)"
  by (auto simp: scan_bound_def limits_admissible_def Let_def split: option.split)

lemma admissible_bounds:
  assumes "content_admissible r"
  obtains p where "vq_profile r = Some p" "length (vq_segments r) \<le> unat (pf_max_depth p)"
    "\<forall>s \<in> set (vq_segments r). allows_kind p (seg_kind s) \<and>
       length (seg_payload s) \<le> unat (pf_payload_width p) \<and> segment_admissible (vq_evidence r) s"
    "repeats_permitted (pf_allow_consecutive_repeats p) (pf_allow_nonconsecutive_repeats p)
       (pf_payload_width p) (vq_segments r) (length (vq_segments r))"
  using assms scan_all [of r]
  by (auto simp: content_admissible_def profile_admissible_def structural_admissible_def)

lemma sequence_request_checks:
  assumes "vq_profile r = Some p" "pf_id p = vq_profile_id r" "content_admissible r"
  defines "q \<equiv> sequence_request \<lparr>sq_limits = vq_limits r, sq_profile = vq_profile r,
    sq_segments = vq_segments r, sq_evidence = vq_evidence r, sq_topology = vq_topology r\<rparr>"
  shows "profile_admissible q" "structural_admissible q" "capability_admissible q"
    "topology_admissible q" "limits_admissible q"
proof -
  have q [simp]: "vq_limits q = vq_limits r" "vq_profile q = vq_profile r" "vq_profile_found q"
    "vq_profile_id q = vq_profile_id r" "vq_segments q = vq_segments r"
    "vq_evidence q = vq_evidence r" "vq_topology q = vq_topology r" "vq_profile_generation q = 0"
    "vq_strictness q = Strict" "vq_capability q = 0" "scan_bound q = scan_bound r"
    using assms(1,2)
    by (simp_all add: q_def sequence_request_def empty_request_def scan_bound_def split: option.split)
  show "profile_admissible q" "structural_admissible q" "capability_admissible q"
    "topology_admissible q" "limits_admissible q"
    using assms(1,3)
    by (auto simp: content_admissible_def profile_admissible_def structural_admissible_def
        capability_admissible_def topology_admissible_def limits_admissible_def split: option.splits)
qed

definition bindings_current ::
  "SegmentList \<Rightarrow> SegmentProfile option \<Rightarrow> SegmentPolicy option \<Rightarrow> EvidenceWatermark \<Rightarrow>
   CoordinatorEpoch \<Rightarrow> bool" where
  "bindings_current l p q w e \<longleftrightarrow>
     (let c = sl_content l; agree = (\<lambda>a b. valid a \<longrightarrow> valid b \<longrightarrow> a = b) in
      agree e (la_epoch (sl_authority l)) \<and>
      map_option pf_generation p = Some (lc_profile_generation c) \<and>
      (valid (lc_policy c) \<longrightarrow> map_option po_generation q = Some (lc_policy_generation c)) \<and>
      agree (lc_capability c) (wm_capability w) \<and> agree (lc_topology c) (wm_topology w) \<and>
      (valid (lc_path c) \<longrightarrow> agree (lc_path_authority c) (wm_path_authority w)) \<and>
      (valid (lc_route c) \<longrightarrow> agree (lc_route_generation c) (wm_route w)) \<and>
      (valid (lc_constraint c) \<longrightarrow> agree (lc_constraint_generation c) (wm_constraint w)))"

section \<open>Properties\<close>

text \<open>
  C17: default deny, exactly. With room for at least one reason, validation of a request succeeds
  if and only if the request is admissible: the caller is a registered, live, unfenced publisher of
  its scope at the current epoch, the list is at the expected generation in a state that permits
  the transition, and (for content-bearing requests) profile, policy, every segment, every
  evidence binding and every resource limit are satisfied.
\<close>

theorem validation_exact:
  assumes "0 < reason_cap (vq_limits r)"
  shows "vr_ok (validate_request r) \<longleftrightarrow> admissible r"
  using request.run_ok [OF assms] phases_empty by simp

theorem validation_exact_witness:
  "admissible (request_example [fabric_segment_example 1, fabric_segment_example 2])"
proof -
  have "0 < reason_cap (vq_limits (request_example [fabric_segment_example 1,
      fabric_segment_example 2]))"
    by (simp add: request_example_def reason_cap_def default_limits_def)
  then show ?thesis using validation_exact request_example_ok by blast
qed

text \<open>
  C27: rejection precedence is fixed. With room for at least two reasons, the phase of the primary
  reason is the first phase, in the documented order, that has a defect (and \<open>Ok\<close> when none has),
  whatever other defects the request has and however many reasons the cap cuts off.
\<close>

theorem rejection_precedence:
  assumes "2 \<le> reason_cap (vq_limits r)"
  shows "primary_phase (validate_request r) = first_failing (validation_phases r)"
  using assms by (rule request.run_primary)

theorem rejection_precedence_witness:
  "primary_phase (validate_request ((request_example [fabric_segment_example 1])
     \<lparr>vq_caller := Some (caller_example\<lparr>ca_epoch := 2\<rparr>), vq_profile_generation := 5,
      vq_list_id := 0\<rparr>)) = Ph_EpochBootScope"
proof -
  let ?r = "(request_example [fabric_segment_example 1])
     \<lparr>vq_caller := Some (caller_example\<lparr>ca_epoch := 2\<rparr>), vq_profile_generation := 5,
      vq_list_id := 0\<rparr>"
  have "2 \<le> reason_cap (vq_limits ?r)"
    by (simp add: request_example_def reason_cap_def default_limits_def)
  moreover have "first_failing (validation_phases ?r) = Ph_EpochBootScope" by code_simp
  ultimately show ?thesis using rejection_precedence by metis
qed

text \<open>
  the reason list is complete, ordered and duplicate-free. Reasons come strictly ordered by
  phase, code, index and detail, never more than the configured maximum, and when the defects
  fit below it the list holds exactly all defects of all phases and is not marked truncated.
\<close>

theorem reason_list_complete:
  "vr_wf (validate_request r) \<and>
   (card (set (all_reasons (validation_phases r))) < reason_cap (vq_limits r) \<longrightarrow>
      set (vr_reasons (validate_request r)) = set (all_reasons (validation_phases r)) \<and>
      \<not> vr_truncated (validate_request r))"
  using request.run_wf request.run_complete by blast

theorem reason_list_complete_witness:
  "vr_reasons (validate_request ((request_example [fabric_segment_example 1])
     \<lparr>vq_list_id := 0, vq_profile_generation := 5\<rparr>)) =
   [reason RC_ListIdInvalid 0 0, reason RC_ProfileGenerationMismatch 0 1] \<and>
   set (vr_reasons (validate_request ((request_example [fabric_segment_example 1])
     \<lparr>vq_list_id := 0, vq_profile_generation := 5\<rparr>))) =
   set (all_reasons (validation_phases ((request_example [fabric_segment_example 1])
     \<lparr>vq_list_id := 0, vq_profile_generation := 5\<rparr>)))"
proof -
  let ?r = "(request_example [fabric_segment_example 1])
     \<lparr>vq_list_id := 0, vq_profile_generation := 5\<rparr>"
  have "all_reasons (validation_phases ?r) =
      [reason RC_ListIdInvalid 0 0, reason RC_ProfileGenerationMismatch 0 1]"
    by code_simp
  moreover have "reason_cap (vq_limits ?r) = 32"
    by (simp add: request_example_def reason_cap_def default_limits_def)
  ultimately have "set (vr_reasons (validate_request ?r)) =
      set (all_reasons (validation_phases ?r))"
    using reason_list_complete [of ?r] by (simp add: card_insert_if)
  moreover have "vr_reasons (validate_request ?r) =
      [reason RC_ListIdInvalid 0 0, reason RC_ProfileGenerationMismatch 0 1]"
    by code_simp
  ultimately show ?thesis by blast
qed

text \<open>
  C28: with a reason budget of zero, validation fails open: every request, whatever its defects,
  is reported as valid.
\<close>

theorem zero_reason_budget_fails_open:
  assumes "vq_limits r = Some l" and "max_reasons l = 0"
  shows "vr_ok (validate_request r)"
  by (rule request.run_fail_open) (simp add: assms reason_cap_def)

theorem zero_reason_budget_fails_open_witness:
  "vr_ok (validate_request (empty_request\<lparr>vq_limits := Some (default_limits\<lparr>max_reasons := 0\<rparr>)\<rparr>)) \<and>
   \<not> vr_ok (validate_request (empty_request\<lparr>vq_limits := Some default_limits\<rparr>))"
proof -
  have "\<not> vr_ok (validate_request (empty_request\<lparr>vq_limits := Some default_limits\<rparr>))"
    by code_simp
  then show ?thesis
    using zero_reason_budget_fails_open
      [of "empty_request\<lparr>vq_limits := Some (default_limits\<lparr>max_reasons := 0\<rparr>)\<rparr>"] by simp
qed

text \<open>
  an admitted sequence has no forbidden repetition. If a content-bearing request validates,
  then at any two positions whose repetition the profile does not permit (adjacent positions:
  consecutive repeats, others: non-consecutive repeats) the canonical encodings of the segments,
  after filling in unset encodings, are different byte strings. The bounded scans miss no pair.
\<close>

theorem no_forbidden_repetition:
  assumes "0 < reason_cap (vq_limits r)" and "vq_full r" and "vr_ok (validate_request r)"
    and "vq_profile r = Some p" and "j < i" and "i < length (vq_segments r)"
    and "\<not> (if Suc j = i then pf_allow_consecutive_repeats p
             else pf_allow_nonconsecutive_repeats p)"
  shows "canonical_segment_bytes (canonicalize_segment (vq_segments r ! j)) (pf_payload_width p) \<noteq>
         canonical_segment_bytes (canonicalize_segment (vq_segments r ! i)) (pf_payload_width p)"
proof -
  have "content_admissible r"
    using request.run_ok [OF assms(1)] phases_empty assms(2,3) by (simp add: admissible_def)
  then obtain
    fits: "\<forall>s \<in> set (vq_segments r). length (seg_payload s) \<le> unat (pf_payload_width p)"
    and rep: "repeats_permitted (pf_allow_consecutive_repeats p) (pf_allow_nonconsecutive_repeats p)
      (pf_payload_width p) (vq_segments r) (length (vq_segments r))"
    by (rule admissible_bounds) (use assms(4) in auto)
  have "\<not> segment_semantic_equal (vq_segments r ! j) (vq_segments r ! i) (pf_payload_width p)"
    using rep assms(5-7) unfolding repeats_permitted_def by blast
  with fits show ?thesis using assms(5,6) by (auto simp: semantic_equal_canonical)
qed

theorem no_forbidden_repetition_witness:
  "canonical_segment_bytes (canonicalize_segment (fabric_segment_example 1)) 4 \<noteq>
   canonical_segment_bytes (canonicalize_segment (fabric_segment_example 2)) 4"
  using no_forbidden_repetition
    [of "request_example [fabric_segment_example 1, fabric_segment_example 2]"
        abstract_governance_profile 0 1] request_example_ok
  by (simp add: request_example_def reason_cap_def default_limits_def empty_request_def
      abstract_governance_profile_def)

text \<open>
  an admitted sequence is within every bound and well shaped. Its depth is at most the
  profile's and the configured maximum, every payload fits the profile width and the
  configured maximum, every kind is allowed by the profile, and every segment carries exactly the
  entity references of its kind and is known to the evidence with the kind and generation claimed.
\<close>

theorem admitted_within_bounds:
  assumes "vq_limits r = Some l" and "0 < max_reasons l" and "vq_full r"
    and "vr_ok (validate_request r)"
  shows "\<exists>p. vq_profile r = Some p \<and>
     length (vq_segments r) \<le> min (unat (pf_max_depth p)) (unat (max_segments_per_list l)) \<and>
     (\<forall>s \<in> set (vq_segments r).
        length (seg_payload s) \<le> min (unat (pf_payload_width p)) (unat (max_segment_payload_bytes l)) \<and>
        allows_kind p (seg_kind s) \<and> segment_shape s \<and>
        (\<forall>e. vq_evidence r = Some e \<longrightarrow> entity_known e s))"
proof -
  have cap: "0 < reason_cap (vq_limits r)"
    using assms(1,2) by (simp add: reason_cap_def word_less_nat_alt)
  have c: "content_admissible r"
    using request.run_ok [OF cap] phases_empty assms(3,4) by (simp add: admissible_def)
  then have "limits_admissible r" by (simp add: content_admissible_def)
  with admissible_bounds [OF c] assms(1) show ?thesis
    by (fastforce simp: limits_admissible_def segment_admissible_def)
qed

theorem admitted_within_bounds_witness:
  "\<exists>p. vq_profile (request_example [fabric_segment_example 1, fabric_segment_example 2]) = Some p \<and>
     length [fabric_segment_example 1, fabric_segment_example 2] \<le>
       min (unat (pf_max_depth p)) (unat (max_segments_per_list default_limits))"
  using admitted_within_bounds
    [of "request_example [fabric_segment_example 1, fabric_segment_example 2]" default_limits]
    request_example_ok
  by (auto simp: request_example_def default_limits_def empty_request_def)

text \<open>
  administrative requests (\<^verbatim>\<open>full = false\<close>: withdraw, revoke, retire) are never blocked by
  content. Two such requests that agree on limits, caller, authority, list identity, existing list,
  expected generation, intent and shape requirements validate identically, whatever their profile,
  policy, segments, bindings and evidence are.
\<close>

theorem administrative_ignores_content:
  assumes "\<not> vq_full r" and "\<not> vq_full r'"
    and "(vq_limits r, vq_caller r, vq_authority r, vq_list_id r, vq_existing r,
          vq_expected_generation r, vq_intent r, vq_require_absent r, vq_require_existing r) =
         (vq_limits r', vq_caller r', vq_authority r', vq_list_id r', vq_existing r',
          vq_expected_generation r', vq_intent r', vq_require_absent r', vq_require_existing r')"
  shows "validate_request r = validate_request r'"
proof -
  have f: "vq_limits r = vq_limits r'" "vq_caller r = vq_caller r'"
    "vq_authority r = vq_authority r'" "vq_list_id r = vq_list_id r'"
    "vq_existing r = vq_existing r'" "vq_expected_generation r = vq_expected_generation r'"
    "vq_intent r = vq_intent r'" "vq_require_absent r = vq_require_absent r'"
    "vq_require_existing r = vq_require_existing r'"
    using assms(3) by simp_all
  have "check_caller_identity r = check_caller_identity r'"
    "check_epoch_boot_scope r = check_epoch_boot_scope r'"
    "check_list_lifecycle r = check_list_lifecycle r'"
    unfolding check_caller_identity_def check_epoch_boot_scope_def check_list_lifecycle_def f
    by (rule refl)+
  with assms show ?thesis by (simp add: validate_request_def)
qed

theorem administrative_ignores_content_witness:
  "validate_request ((request_example [])\<lparr>vq_full := False\<rparr>) =
   validate_request ((request_example [fabric_segment_example 1])
     \<lparr>vq_full := False, vq_profile := None, vq_evidence := None\<rparr>)"
  by (rule administrative_ignores_content) (simp_all add: request_example_def)

text \<open>
  what was admitted re-validates structurally: the ordered sequence of an admitted request
  passes \<^verbatim>\<open>validate_segment_sequence\<close> under the same limits, profile, evidence and topology.
\<close>

theorem admitted_sequence_revalidates:
  assumes "0 < reason_cap (vq_limits r)" and "vq_full r" and "vr_ok (validate_request r)"
  shows "vr_ok (validate_segment_sequence \<lparr>sq_limits = vq_limits r, sq_profile = vq_profile r,
     sq_segments = vq_segments r, sq_evidence = vq_evidence r, sq_topology = vq_topology r\<rparr>)"
proof -
  let ?q = "\<lparr>sq_limits = vq_limits r, sq_profile = vq_profile r,
     sq_segments = vq_segments r, sq_evidence = vq_evidence r, sq_topology = vq_topology r\<rparr>"
  have c: "content_admissible r"
    using request.run_ok [OF assms(1)] phases_empty assms(2,3) by (simp add: admissible_def)
  then obtain p where p: "vq_profile r = Some p" "pf_id p = vq_profile_id r"
    by (auto simp: content_admissible_def profile_admissible_def)
  note checks = sequence_request_checks [OF p c]
  have "\<forall>(p, rs) \<in> set (sequence_phases ?q). rs = []"
    using checks check_content_empty [OF checks(1)]
    by (simp add: sequence_phases_def Let_def check_empty)
  with segment_sequence.run_ok [of ?q] assms(1) show ?thesis by simp
qed

theorem admitted_sequence_revalidates_witness:
  "vr_ok (validate_segment_sequence \<lparr>sq_limits = Some default_limits,
     sq_profile = Some abstract_governance_profile,
     sq_segments = [fabric_segment_example 1, fabric_segment_example 2],
     sq_evidence = Some (snapshot (make_synthetic_fabric 2)), sq_topology = 0\<rparr>)"
  using admitted_sequence_revalidates
    [of "request_example [fabric_segment_example 1, fabric_segment_example 2]"] request_example_ok
  by (simp add: request_example_def reason_cap_def default_limits_def empty_request_def)

text \<open>
  a list is reported current exactly when it is \<^verbatim>\<open>ACTIVE\<close> and everything it is bound to still
  matches: the epoch it was committed under, the profile and (if bound) policy generation, and the
  capability, topology, path-authority, route and constraint generations wherever both the list
  and the watermark carry one.
\<close>

theorem currentness_exact:
  "evaluate_currentness l p q w e = Cu_Current \<longleftrightarrow>
     sl_state l = LS_Active \<and> bindings_current l p q w e"
proof (cases "sl_state l = LS_Active")
  case True
  then show ?thesis
    by (simp add: evaluate_currentness_def bindings_current_def Let_def split: option.split)
next
  case False
  then show ?thesis by (simp add: evaluate_currentness_def Let_def)
qed

end
