(* ===== verification/StoreCore.thy ===== *)
theory StoreCore
  imports Durable Admission "HOL-Library.Multiset"
begin

text \<open>
  The state of the governed segment-list store (\<^verbatim>\<open>store.hpp/.cpp\<close>): drafts, outcomes, the sorted
  index over the list vector, and the write-through to persistence.
\<close>

section \<open>Status codes\<close>

datatype StatusCode =
    St_Ok | St_Rejected | St_Conflict | St_NotFound | St_PersistenceFailed | St_LimitExceeded
  | St_Exhausted | St_Internal

primrec status_code_name :: "StatusCode \<Rightarrow> string" where
  "status_code_name St_Ok = ''Ok''"
| "status_code_name St_Rejected = ''Rejected''"
| "status_code_name St_Conflict = ''Conflict''"
| "status_code_name St_NotFound = ''NotFound''"
| "status_code_name St_PersistenceFailed = ''PersistenceFailed''"
| "status_code_name St_LimitExceeded = ''LimitExceeded''"
| "status_code_name St_Exhausted = ''Exhausted''"
| "status_code_name St_Internal = ''Internal''"

definition status_for :: "ValidationResult \<Rightarrow> StatusCode" where
  "status_for result =
     (if vr_ok result then St_Ok
      else
        (let code = rs_code (primary result) in
         if code \<in> {RC_CommitPersistenceFailure, RC_CommitNotDurable} then St_PersistenceFailed
         else if code \<in> {RC_CommitGenerationExhausted, RC_ListGenerationExhausted, RC_EpochExhausted}
         then St_Exhausted
         else if code \<in> {RC_ListGenerationConflict, RC_CommitConflict, RC_CommitWatermarkChanged}
         then St_Conflict
         else if code \<in> {RC_ListNotFound, RC_ListSupersedesUnknown, RC_CallerUnknownPublisher,
           RC_ProfileUnknown, RC_PolicyUnknown, RC_PathUnknown, RC_RouteBindingUnknown,
           RC_ConstraintBindingUnknown, RC_TopologyAdjacencyUnknown, RC_SegmentEntityUnknown}
         then St_NotFound
         else
           (case primary_phase result of
              Ph_ResourceLimits \<Rightarrow> St_LimitExceeded
            | Ph_Commit \<Rightarrow> St_Conflict
            | _ \<Rightarrow> St_Rejected)))"

lemma status_for_ok [simp]: "status_for result = St_Ok \<longleftrightarrow> vr_ok result"
  by (simp add: status_for_def Let_def del: insert_iff split: ValidationPhase.split)

section \<open>Drafts\<close>

record ListDraft =
  dr_id :: SegmentListId
  dr_scope :: ScopeId
  dr_profile :: SegmentProfileId
  dr_profile_generation :: SegmentProfileGeneration
  dr_policy :: SegmentPolicyId
  dr_policy_generation :: SegmentPolicyGeneration
  dr_strictness :: Strictness
  dr_topology :: TopologyGeneration
  dr_capability :: CapabilityGeneration
  dr_path :: PathId
  dr_path_authority :: PathAuthorityGeneration
  dr_route :: RouteId
  dr_route_generation :: RouteGeneration
  dr_constraint :: ConstraintEvaluationId
  dr_constraint_generation :: ConstraintGeneration
  dr_segments :: "Segment list"
  dr_expected_generation :: SegmentListGeneration
  dr_supersedes :: SegmentListId
  dr_supersedes_generation :: SegmentListGeneration
  dr_derived :: bool

definition empty_draft :: ListDraft where
  "empty_draft = \<lparr>dr_id = 0, dr_scope = 0, dr_profile = 0, dr_profile_generation = 0, dr_policy = 0,
     dr_policy_generation = 0, dr_strictness = Strict, dr_topology = 0, dr_capability = 0,
     dr_path = 0, dr_path_authority = 0, dr_route = 0, dr_route_generation = 0, dr_constraint = 0,
     dr_constraint_generation = 0, dr_segments = [], dr_expected_generation = 0, dr_supersedes = 0,
     dr_supersedes_generation = 0, dr_derived = False\<rparr>"

definition draft_width :: "Segment list \<Rightarrow> u32" where
  "draft_width segs = fold (\<lambda>s w. max w (of_nat (length (seg_payload s)))) segs 0"

definition draft_bytes :: "ListDraft \<Rightarrow> ByteBuffer" where
  "draft_bytes d =
     (let width = draft_width (dr_segments d) in
      le_bytes 2 (0xD101 :: u16) @
      le_bytes 8 (dr_id d) @
      le_bytes 8 (dr_scope d) @
      le_bytes 8 (dr_profile d) @
      le_bytes 8 (dr_profile_generation d) @
      le_bytes 8 (dr_policy d) @
      le_bytes 8 (dr_policy_generation d) @
      le_bytes 1 (strictness_u8 (dr_strictness d)) @
      le_bytes 8 (dr_topology d) @
      le_bytes 8 (dr_capability d) @
      le_bytes 8 (dr_path d) @
      le_bytes 8 (dr_path_authority d) @
      le_bytes 8 (dr_route d) @
      le_bytes 8 (dr_route_generation d) @
      le_bytes 8 (dr_constraint d) @
      le_bytes 8 (dr_constraint_generation d) @
      le_bytes 1 (bool_u8 (dr_derived d)) @
      le_bytes 8 (dr_expected_generation d) @
      le_bytes 8 (dr_supersedes d) @
      le_bytes 8 (dr_supersedes_generation d) @
      le_bytes 4 width @
      le_bytes 4 (of_nat (length (dr_segments d)) :: u32) @
      concat (map (\<lambda>s. canonical_segment_bytes (canonicalize_segment s)
                          (if width = 0 then 1 else width)) (dr_segments d)))"

definition draft_payload_digest :: "ListDraft \<Rightarrow> Digest128" where
  "draft_payload_digest d = digest128 (draft_bytes d)"

text \<open>The identity of a whole mutation attempt.\<close>

definition batch_payload_digest :: "ListDraft list \<Rightarrow> Digest128" where
  "batch_payload_digest drafts =
     digest128 (le_bytes 2 (0xD102 :: u16) @
       concat (map (\<lambda>d. let one = draft_payload_digest d
                        in le_bytes 8 (dg_hi one) @ le_bytes 8 (dg_lo one)) drafts))"

section \<open>Outcomes\<close>

record MutationOutcome =
  mo_status :: StatusCode
  mo_result :: ValidationResult
  mo_list :: SegmentListId
  mo_generation :: SegmentListGeneration
  mo_digest :: Digest128
  mo_snapshot :: SnapshotId
  mo_idempotent_replay :: bool
  mo_durable :: bool

definition fresh_outcome :: "Limits \<Rightarrow> MutationOutcome" where
  "fresh_outcome limits = \<lparr>mo_status = St_Ok, mo_result = set_limits (Some limits) vr_success,
     mo_list = 0, mo_generation = 0, mo_digest = zero_digest, mo_snapshot = 0,
     mo_idempotent_replay = False, mo_durable = False\<rparr>"

definition reject ::
  "StatusCode \<Rightarrow> ReasonCode \<Rightarrow> u64 \<Rightarrow> MutationOutcome \<Rightarrow> MutationOutcome" where
  "reject status code detail out =
     out\<lparr>mo_status := status, mo_result := vr_add code 0 detail (mo_result out)\<rparr>"

text \<open>\<^verbatim>\<open>outcome.result.absorb(r); outcome.status = status_for(outcome.result);\<close>\<close>

definition reject_with :: "ValidationResult \<Rightarrow> MutationOutcome \<Rightarrow> MutationOutcome" where
  "reject_with r out =
     (let res = absorb r (mo_result out) in out\<lparr>mo_result := res, mo_status := status_for res\<rparr>)"

section \<open>The store\<close>

type_synonym ListIndex = "(SegmentListId \<times> nat) list"

record 'p Store =
  st_limits :: Limits
  st_evidence :: "SyntheticEvidence option"
  st_persistence :: "'p option"
  st_authority :: AuthorityTable
  st_registry :: Registry
  st_state :: DurableState
  st_index :: ListIndex
  st_snapshot_counter :: u64

text \<open>
  \<^verbatim>\<open>std::sort\<close> by identifier; identifiers of a well-formed state are distinct, so the order is
  unique.
\<close>

definition build_index :: "SegmentList list \<Rightarrow> ListIndex" where
  "build_index ls = sort_key fst (zip (map sl_id ls) [0..<length ls])"

definition rebuild_index :: "'p Store \<Rightarrow> 'p Store" where
  "rebuild_index s = s\<lparr>st_index := build_index (ds_lists (st_state s))\<rparr>"

definition new_store :: "Limits \<Rightarrow> SyntheticEvidence option \<Rightarrow> 'p option \<Rightarrow> 'p Store" where
  "new_store limits evidence persistence =
     rebuild_index \<lparr>st_limits = limits, st_evidence = evidence, st_persistence = persistence,
       st_authority = snd (restore_epoch initial_generation new_authority),
       st_registry = new_registry, st_state = initial_state, st_index = [],
       st_snapshot_counter = 1\<rparr>"

definition index_consistent :: "ListIndex \<Rightarrow> SegmentList list \<Rightarrow> bool" where
  "index_consistent index ls =
     (if length index \<noteq> length ls then False
      else list_all (\<lambda>i.
        snd (index ! i) < length ls \<and>
        sl_id (ls ! snd (index ! i)) = fst (index ! i) \<and>
        (i > 0 \<longrightarrow> fst (index ! (i - 1)) < fst (index ! i))) [0..<length index])"

text \<open>\<^verbatim>\<open>std::lower_bound\<close>: the first entry that is not below the identifier.\<close>

definition lower_bound :: "ListIndex \<Rightarrow> SegmentListId \<Rightarrow> ListIndex" where
  "lower_bound index i = dropWhile (\<lambda>e. fst e < i) index"

definition find_locked :: "'p Store \<Rightarrow> SegmentListId \<Rightarrow> SegmentList option" where
  "find_locked s i =
     (case lower_bound (st_index s) i of
        [] \<Rightarrow> None
      | e # _ \<Rightarrow> if fst e \<noteq> i then None else Some (ds_lists (st_state s) ! snd e))"

definition find_in_state :: "DurableState \<Rightarrow> SegmentListId \<Rightarrow> SegmentList option" where
  "find_in_state st i = find_key sl_id i (ds_lists st)"

definition authority_view :: "'p Store \<Rightarrow> AuthorityView" where
  "authority_view s = st_authority s"

text \<open>Whether the write succeeded, the result, and the persistence after the call.\<close>

definition persist_locked ::
  "'p IPersistence \<Rightarrow> DurableState \<Rightarrow> ValidationResult \<Rightarrow> 'p Store \<Rightarrow>
   bool \<times> ValidationResult \<times> 'p Store" where
  "persist_locked ip nxt out s =
     (let out = set_limits (Some (st_limits s)) out in
      case st_persistence s of
        None \<Rightarrow> (True, out, s)
      | Some p \<Rightarrow>
          (case ip_save ip nxt (st_limits s) out p of
             (True, out, p) \<Rightarrow> (True, out, s\<lparr>st_persistence := Some p\<rparr>)
           | (False, out, p) \<Rightarrow>
               (False, if vr_ok out then vr_add RC_CommitPersistenceFailure 0 0 out else out,
                s\<lparr>st_persistence := Some p\<rparr>)))"

text \<open>\<^verbatim>\<open>state_ = std::move(next); rebuild_index_locked();\<close>\<close>

definition swap_in :: "DurableState \<Rightarrow> 'p Store \<Rightarrow> 'p Store" where
  "swap_in nxt s = rebuild_index (s\<lparr>st_state := nxt\<rparr>)"

text \<open>The registry and authority tables every committed image carries.\<close>

definition capture_tables :: "'p Store \<Rightarrow> DurableState \<Rightarrow> DurableState" where
  "capture_tables s nxt = nxt\<lparr>
     ds_profiles := rg_profiles (st_registry s),
     ds_policies := rg_policies (st_registry s),
     ds_publishers := at_publishers (st_authority s),
     ds_fenced_boots := at_fenced_boots (st_authority s)\<rparr>"

section \<open>The index answers what a scan would\<close>

definition index_ok :: "'p Store \<Rightarrow> bool" where
  "index_ok s \<longleftrightarrow> st_index s = build_index (ds_lists (st_state s)) \<and>
     distinct (map sl_id (ds_lists (st_state s)))"

lemma index_entries:
  "set (build_index ls) = {(sl_id (ls ! i), i) | i. i < length ls}"
  by (simp add: build_index_def set_zip cong: rev_conj_cong)

lemma index_fst_distinct:
  assumes "distinct (map sl_id ls)"
  shows "distinct (map fst (build_index ls))"
proof -
  have "mset (map fst (build_index ls)) = mset (map sl_id ls)"
  proof -
    have "mset (map fst (build_index ls)) = mset (map fst (zip (map sl_id ls) [0..<length ls]))"
      unfolding build_index_def mset_map mset_sort ..
    then show ?thesis by simp
  qed
  from mset_eq_imp_distinct_iff [OF this] assms show ?thesis by simp
qed

lemma index_sorted: "sorted (map fst (build_index ls))"
  by (simp add: build_index_def)

lemma lower_bound_find:
  assumes "sorted (map fst idx)"
  shows "(case lower_bound idx i of [] \<Rightarrow> None | e # _ \<Rightarrow> if fst e \<noteq> i then None else Some e) =
         find_key fst i idx"
  using assms
proof (induction idx)
  case (Cons e idx)
  show ?case
  proof (cases "fst e < i")
    case True
    with Cons show ?thesis by (auto simp: lower_bound_def)
  next
    case False
    moreover have "find_key fst i idx = None" if "i < fst e"
      using that Cons.prems by (auto simp: find_key_None_iff)
    ultimately show ?thesis by (auto simp: lower_bound_def)
  qed
qed (simp add: lower_bound_def)

lemma find_locked_scan:
  assumes "index_ok s"
  shows "find_locked s i = find_in_state (st_state s) i"
proof -
  let ?ls = "ds_lists (st_state s)"
  have idx: "st_index s = build_index ?ls" and d: "distinct (map sl_id ?ls)"
    using assms by (auto simp: index_ok_def)
  have "find_locked s i = map_option (\<lambda>e. ?ls ! snd e) (find_key fst i (build_index ?ls))"
    unfolding lower_bound_find [OF index_sorted, symmetric]
    by (simp add: find_locked_def idx split: list.split)
  also have "\<dots> = find_key sl_id i ?ls"
  proof (cases "find_key sl_id i ?ls")
    case None
    then have "find_key fst i (build_index ?ls) = None"
      by (auto simp: find_key_None_iff index_entries)
    with None show ?thesis by simp
  next
    case (Some l)
    then obtain n where n: "n < length ?ls" "?ls ! n = l" "sl_id l = i"
      using find_key_SomeD [OF Some] by (auto simp: in_set_conv_nth)
    then have "(i, n) \<in> set (build_index ?ls)" by (auto simp: index_entries)
    then have "find_key fst i (build_index ?ls) = Some (i, n)"
      using find_key_distinct [OF index_fst_distinct [OF d], of "(i, n)"] by simp
    with Some n show ?thesis by simp
  qed
  finally show ?thesis by (simp add: find_in_state_def)
qed

lemma index_consistent_build:
  assumes "distinct (map sl_id ls)"
  shows "index_consistent (build_index ls) ls"
proof -
  let ?idx = "build_index ls"
  have len: "length ?idx = length ls" by (simp add: build_index_def)
  have strict: "sorted_wrt (<) (map fst ?idx)"
    using index_sorted index_fst_distinct [OF assms] by (simp add: strict_sorted_iff)
  have "snd (?idx ! i) < length ls \<and> sl_id (ls ! snd (?idx ! i)) = fst (?idx ! i) \<and>
      (i > 0 \<longrightarrow> fst (?idx ! (i - 1)) < fst (?idx ! i))" if "i < length ?idx" for i
  proof -
    have "?idx ! i \<in> set ?idx" using that by simp
    then have "snd (?idx ! i) < length ls \<and> sl_id (ls ! snd (?idx ! i)) = fst (?idx ! i)"
      by (auto simp: index_entries)
    moreover have "fst (?idx ! (i - 1)) < fst (?idx ! i)" if "i > 0"
      using sorted_wrt_nth_less [OF strict, of "i - 1" i] that \<open>i < length ?idx\<close> by simp
    ultimately show ?thesis by blast
  qed
  then show ?thesis by (simp add: index_consistent_def len list_all_iff)
qed

lemma rebuild_index_ok:
  "distinct (map sl_id (ds_lists (st_state s))) \<Longrightarrow> index_ok (rebuild_index s)"
  by (simp add: index_ok_def rebuild_index_def)

end
