(* ===== verification/StoreMutation.thy ===== *)
theory StoreMutation
  imports StoreCore
begin

text \<open>
  The mutations of the store (\<^verbatim>\<open>store.cpp\<close>): two-phase create, replace, batch and revalidate
  (\<^verbatim>\<open>run_batch\<close>), and the administrative lifecycle transitions (\<^verbatim>\<open>transition\<close>). The points at which
  the source does not hold the store lock are explicit: an \<open>Interference\<close> says what other
  threads (and the precommit hook) do to the store there. Each locked section, and each single
  read of the evidence source, is atomic.
\<close>

section \<open>Interference\<close>

record 'p Interference =
  iv_begin :: "'p Store \<Rightarrow> 'p Store"
  iv_snapshot :: "'p Store \<Rightarrow> 'p Store"
  iv_lock :: "'p Store \<Rightarrow> 'p Store"
  iv_commit :: "'p Store \<Rightarrow> 'p Store"

definition no_interference :: "'p Interference" where
  "no_interference = \<lparr>iv_begin = id, iv_snapshot = id, iv_lock = id, iv_commit = id\<rparr>"

section \<open>Prepared contexts\<close>

record Resolved =
  re_existing :: "SegmentList option"
  re_profile :: "SegmentProfile option"
  re_policy :: "SegmentPolicy option"
  re_superseded :: "SegmentList option"

record PreparedContext =
  pc_limits :: Limits
  pc_authority :: AuthorityView
  pc_epoch :: CoordinatorEpoch
  pc_registry_revision :: u64
  pc_store_revision :: u64
  pc_watermark :: EvidenceWatermark
  pc_evidence :: FabricEvidence

record PreparedMutation =
  pm_id :: SegmentListId
  pm_has_existing :: bool
  pm_existing_generation :: SegmentListGeneration
  pm_has_superseded :: bool
  pm_superseded_id :: SegmentListId
  pm_superseded_generation :: SegmentListGeneration
  pm_list :: SegmentList
  pm_replaces :: bool

definition default_profile :: SegmentProfile where
  "default_profile = \<lparr>pf_id = 0, pf_generation = 0, pf_name = '''', pf_support = AbstractSynthetic,
     pf_allowed_kinds_mask = 0, pf_max_depth = 0, pf_payload_width = 0, pf_allow_empty = False,
     pf_allow_consecutive_repeats = False, pf_allow_nonconsecutive_repeats = False,
     pf_allow_loose = False, pf_required_capabilities = []\<rparr>"

definition empty_content :: SegmentListContent where
  "empty_content = \<lparr>lc_id = 0, lc_scope = 0, lc_profile = 0, lc_profile_generation = 0,
     lc_policy = 0, lc_policy_generation = 0, lc_strictness = Strict, lc_topology = 0,
     lc_capability = 0, lc_path = 0, lc_path_authority = 0, lc_route = 0, lc_route_generation = 0,
     lc_constraint = 0, lc_constraint_generation = 0, lc_segments = []\<rparr>"

definition empty_lineage :: SegmentListLineage where
  "empty_lineage = \<lparr>ln_supersedes = 0, ln_superseded_by = 0, ln_history = 0\<rparr>"

definition empty_list :: SegmentList where
  "empty_list = \<lparr>sl_content = empty_content, sl_generation = 0, sl_lineage = empty_lineage,
     sl_authority = \<lparr>la_publisher = 0, la_boot = 0, la_epoch = 0, la_attempt = 0\<rparr>,
     sl_provenance = \<lparr>pv_source_path = 0, pv_source_path_authority = 0, pv_source_route = 0,
       pv_source_route_generation = 0, pv_source_constraint = 0,
       pv_source_constraint_generation = 0, pv_derivation_policy = 0, pv_observed_topology = 0,
       pv_observed_capability = 0, pv_publisher = 0, pv_boot = 0, pv_epoch = 0\<rparr>,
     sl_state = LS_Invalid, sl_currentness = Cu_Unknown, sl_content_digest = zero_digest,
     sl_sequence_digest = zero_digest, sl_committed_revision = 0\<rparr>"

definition build_request ::
  "CallerIdentity \<Rightarrow> ListDraft \<Rightarrow> LifecycleEvent \<Rightarrow> bool \<Rightarrow> PreparedContext \<Rightarrow> Resolved \<Rightarrow>
   ValidationRequest" where
  "build_request caller draft intent full ctx res = empty_request\<lparr>
     vq_limits := Some (pc_limits ctx),
     vq_caller := Some caller,
     vq_authority := Some (pc_authority ctx),
     vq_list_id := dr_id draft,
     vq_scope := dr_scope draft,
     vq_existing := re_existing res,
     vq_expected_generation := dr_expected_generation draft,
     vq_intent := intent,
     vq_full := full,
     vq_profile_id := dr_profile draft,
     vq_profile_generation := dr_profile_generation draft,
     vq_profile := re_profile res,
     vq_profile_found := re_profile res \<noteq> None,
     vq_policy_id := dr_policy draft,
     vq_policy_generation := dr_policy_generation draft,
     vq_policy := re_policy res,
     vq_policy_found := re_policy res \<noteq> None,
     vq_policy_required := valid (dr_policy draft),
     vq_strictness := dr_strictness draft,
     vq_topology := dr_topology draft,
     vq_capability := dr_capability draft,
     vq_path := dr_path draft,
     vq_path_authority := dr_path_authority draft,
     vq_route := dr_route draft,
     vq_route_generation := dr_route_generation draft,
     vq_constraint := dr_constraint draft,
     vq_constraint_generation := dr_constraint_generation draft,
     vq_segments := dr_segments draft,
     vq_derived := dr_derived draft,
     vq_evidence := Some (pc_evidence ctx)\<rparr>"

definition sequence_has_adjacency :: "Segment list \<Rightarrow> bool" where
  "sequence_has_adjacency segs = list_ex (\<lambda>s. seg_kind s = SK_Adjacency) segs"

definition make_content :: "ListDraft \<Rightarrow> PreparedContext \<Rightarrow> Resolved \<Rightarrow> SegmentListContent" where
  "make_content draft ctx res =
     (let profile = (case re_profile res of Some p \<Rightarrow> p | None \<Rightarrow> default_profile) in
      \<lparr>lc_id = dr_id draft,
       lc_scope = dr_scope draft,
       lc_profile = pf_id profile,
       lc_profile_generation = pf_generation profile,
       lc_policy = dr_policy draft,
       lc_policy_generation = (case re_policy res of Some p \<Rightarrow> po_generation p | None \<Rightarrow> 0),
       lc_strictness = dr_strictness draft,
       lc_topology = (if valid (dr_topology draft) then dr_topology draft
                      else if sequence_has_adjacency (dr_segments draft)
                      then fe_topology (pc_evidence ctx) else 0),
       lc_capability = (if valid (dr_capability draft) then dr_capability draft
                        else if pf_required_capabilities profile \<noteq> []
                        then fe_capability (pc_evidence ctx) else 0),
       lc_path = dr_path draft,
       lc_path_authority = dr_path_authority draft,
       lc_route = dr_route draft,
       lc_route_generation = dr_route_generation draft,
       lc_constraint = dr_constraint draft,
       lc_constraint_generation = dr_constraint_generation draft,
       lc_segments = canonicalize_segments (dr_segments draft)\<rparr>)"

text \<open>The state path of a new revision: \<^verbatim>\<open>DECLARED -> VALIDATING -> ACTIVE\<close>.\<close>

definition new_revision_state :: LifecycleState where
  "new_revision_state =
     (case lifecycle_transition LS_Declared LE_ValidateBegin of
        None \<Rightarrow> LS_Declared
      | Some s \<Rightarrow>
          (case lifecycle_transition s LE_ValidateSucceed of None \<Rightarrow> LS_Declared | Some s \<Rightarrow> s))"

definition make_list ::
  "CallerIdentity \<Rightarrow> ListDraft \<Rightarrow> PreparedContext \<Rightarrow> Resolved \<Rightarrow> SegmentList option \<Rightarrow>
   CoordinatorEpoch \<Rightarrow> u64 \<Rightarrow> SegmentList" where
  "make_list caller draft ctx res previous epoch committed_revision =
     (let profile = (case re_profile res of Some p \<Rightarrow> p | None \<Rightarrow> default_profile);
          content = make_content draft ctx res
      in
      \<lparr>sl_content = content,
       sl_generation = (case previous of Some l \<Rightarrow> sl_generation l + 1 | None \<Rightarrow> initial_generation),
       sl_lineage = empty_lineage\<lparr>ln_supersedes :=
         (case previous of Some l \<Rightarrow> sl_generation l | None \<Rightarrow> 0)\<rparr>,
       sl_authority = \<lparr>la_publisher = ca_publisher caller, la_boot = ca_boot caller,
         la_epoch = epoch, la_attempt = ca_attempt caller\<rparr>,
       sl_provenance = \<lparr>pv_source_path = dr_path draft,
         pv_source_path_authority = dr_path_authority draft,
         pv_source_route = dr_route draft,
         pv_source_route_generation = dr_route_generation draft,
         pv_source_constraint = dr_constraint draft,
         pv_source_constraint_generation = dr_constraint_generation draft,
         pv_derivation_policy = lc_policy_generation content,
         pv_observed_topology = lc_topology content,
         pv_observed_capability = lc_capability content,
         pv_publisher = ca_publisher caller, pv_boot = ca_boot caller, pv_epoch = epoch\<rparr>,
       sl_state = new_revision_state,
       sl_currentness = Cu_Current,
       sl_content_digest = content_digest content (pf_payload_width profile),
       sl_sequence_digest = sequence_digest (lc_segments content) (pf_payload_width profile),
       sl_committed_revision = committed_revision\<rparr>)"

section \<open>Phases A to C: capture and validate\<close>

definition capture_context ::
  "EvidenceWatermark \<Rightarrow> FabricEvidence \<Rightarrow> 'p Store \<Rightarrow> PreparedContext" where
  "capture_context wm ev s = \<lparr>
     pc_limits = st_limits s,
     pc_authority = authority_view s,
     pc_epoch = at_epoch (authority_view s),
     pc_registry_revision = rg_revision (st_registry s),
     pc_store_revision = ds_revision (st_state s),
     pc_watermark = wm,
     pc_evidence = ev\<rparr>"

definition resolve :: "'p Store \<Rightarrow> ListDraft \<Rightarrow> Resolved" where
  "resolve s draft = \<lparr>
     re_existing = find_locked s (dr_id draft),
     re_profile = find_profile (dr_profile draft) (st_registry s),
     re_policy = (if valid (dr_policy draft)
                  then find_policy (dr_policy draft) (st_registry s) else None),
     re_superseded = (if valid (dr_supersedes draft)
                      then find_locked s (dr_supersedes draft) else None)\<rparr>"

definition supersede_reasons :: "ListDraft \<Rightarrow> Resolved \<Rightarrow> Reason list" where
  "supersede_reasons draft res =
     (if \<not> valid (dr_supersedes draft) then []
      else
        (case re_superseded res of
           None \<Rightarrow> [reason RC_ListSupersedesUnknown 0 (dr_supersedes draft)]
         | Some l \<Rightarrow>
             emit (dr_supersedes_generation draft \<noteq> sl_generation l) RC_ListGenerationConflict 0
               (sl_generation l) @
             (if lifecycle_transition (sl_state l) LE_SupersedeBegin = None then
                (if sl_state l = LS_Retired then [reason RC_ListRetired 0 (sl_generation l)]
                 else emit (sl_state l = LS_Revoked) RC_ListRevoked 0 (sl_generation l)) @
                [reason RC_LifecycleTransitionDenied 0 (sl_generation l)]
              else [])))"

definition draft_result ::
  "CallerIdentity \<Rightarrow> LifecycleEvent \<Rightarrow> bool \<Rightarrow> bool \<Rightarrow> PreparedContext \<Rightarrow> ListDraft \<Rightarrow> Resolved \<Rightarrow>
   ValidationResult" where
  "draft_result caller intent require_existing require_absent ctx draft res =
     vr_add_all
       ((case re_existing res of
           None \<Rightarrow> []
         | Some l \<Rightarrow> emit (dr_expected_generation draft \<noteq> sl_generation l) RC_ListGenerationConflict 0
                      (sl_generation l)) @
        supersede_reasons draft res)
       (validate_request ((build_request caller draft intent True ctx res)
          \<lparr>vq_require_existing := require_existing, vq_require_absent := require_absent\<rparr>))"

definition default_mutation :: PreparedMutation where
  "default_mutation = \<lparr>pm_id = 0, pm_has_existing = False, pm_existing_generation = 0,
     pm_has_superseded = False, pm_superseded_id = 0, pm_superseded_generation = 0,
     pm_list = empty_list, pm_replaces = False\<rparr>"

definition prepare_draft ::
  "CallerIdentity \<Rightarrow> LifecycleEvent \<Rightarrow> bool \<Rightarrow> bool \<Rightarrow> PreparedContext \<Rightarrow> ListDraft \<Rightarrow> Resolved \<Rightarrow>
   ValidationResult \<Rightarrow> ValidationResult \<times> PreparedMutation" where
  "prepare_draft caller intent require_existing require_absent ctx draft res combined =
     (let result = draft_result caller intent require_existing require_absent ctx draft res in
      if vr_failed result then (absorb result combined, default_mutation)
      else
        (let pm = \<lparr>pm_id = dr_id draft,
                   pm_has_existing = re_existing res \<noteq> None,
                   pm_existing_generation =
                     (case re_existing res of Some l \<Rightarrow> sl_generation l | None \<Rightarrow> 0),
                   pm_has_superseded = re_superseded res \<noteq> None,
                   pm_superseded_id = dr_supersedes draft,
                   pm_superseded_generation =
                     (case re_superseded res of Some l \<Rightarrow> sl_generation l | None \<Rightarrow> 0),
                   pm_list = empty_list,
                   pm_replaces = re_existing res \<noteq> None\<rparr>;
             list = make_list caller draft ctx res (re_existing res) (pc_epoch ctx)
                      (pc_store_revision ctx + 1)
         in
         case re_existing res of
           Some previous \<Rightarrow>
             if exhausted (sl_generation previous)
             then (absorb_move (vr_failure RC_ListGenerationExhausted 0 (sl_generation previous))
                     combined, pm)
             else (if \<not> valid (sl_generation list)
                   then absorb_move (vr_failure RC_CommitGenerationExhausted 0 0) combined
                   else combined, pm\<lparr>pm_list := list\<rparr>)
         | None \<Rightarrow>
             (if \<not> valid (sl_generation list)
              then absorb_move (vr_failure RC_CommitGenerationExhausted 0 0) combined
              else combined, pm\<lparr>pm_list := list\<rparr>)))"

fun prepare_drafts ::
  "(ListDraft \<Rightarrow> Resolved \<Rightarrow> ValidationResult \<Rightarrow> ValidationResult \<times> PreparedMutation) \<Rightarrow>
   (ListDraft \<times> Resolved) list \<Rightarrow> ValidationResult \<Rightarrow> ValidationResult \<times> PreparedMutation list" where
  "prepare_drafts prep [] combined = (combined, [])"
| "prepare_drafts prep ((draft, res) # tail) combined =
     (let (combined, pm) = prep draft res combined;
          (combined, pms) = prepare_drafts prep tail combined
      in (combined, pm # pms))"

definition initial_outcome :: "Limits \<Rightarrow> ListDraft list \<Rightarrow> MutationOutcome" where
  "initial_outcome limits drafts =
     (fresh_outcome limits)\<lparr>mo_list := (if drafts = [] then 0 else dr_id (hd drafts))\<rparr>"

text \<open>Exact replay: the outcome reports the current generation and digest of the lists.\<close>

definition replay_outcome :: "'p Store \<Rightarrow> ListDraft list \<Rightarrow> MutationOutcome \<Rightarrow> MutationOutcome" where
  "replay_outcome s drafts out =
     (fold (\<lambda>draft out.
        case find_locked s (dr_id draft) of
          None \<Rightarrow> out
        | Some current \<Rightarrow> out\<lparr>mo_list := dr_id draft, mo_generation := sl_generation current,
                              mo_digest := sl_content_digest current\<rparr>)
      drafts (out\<lparr>mo_status := St_Ok, mo_idempotent_replay := True,
                  mo_durable := st_persistence s \<noteq> None\<rparr>))
     \<lparr>mo_snapshot := st_snapshot_counter s\<rparr>"

definition take_snapshot_id :: "'p Store \<Rightarrow> 'p Store" where
  "take_snapshot_id s = s\<lparr>st_snapshot_counter := st_snapshot_counter s + 1\<rparr>"

text \<open>Phase B, one locked section, and phase C, which only reads what B captured.\<close>

definition prepare_locked ::
  "CallerIdentity \<Rightarrow> ListDraft list \<Rightarrow> LifecycleEvent \<Rightarrow> bool \<Rightarrow> bool \<Rightarrow> EvidenceWatermark \<Rightarrow>
   FabricEvidence \<Rightarrow> MutationOutcome \<Rightarrow> 'p Store \<Rightarrow>
   (MutationOutcome + PreparedContext \<times> PreparedMutation list) \<times> 'p Store" where
  "prepare_locked caller drafts intent require_existing require_absent wm ev out s =
     (let limits = st_limits s; attempt = ca_attempt caller in
      case (if valid attempt then find_attempt (st_state s) attempt else None) of
        Some record \<Rightarrow>
          if dar_payload record = batch_payload_digest drafts
          then (Inl (replay_outcome s drafts out), take_snapshot_id s)
          else (Inl (reject St_Conflict RC_CommitReplayPayloadMismatch attempt out), s)
      | None \<Rightarrow>
          if \<not> attempt_table_accepts limits (st_state s) attempt
          then (Inl (reject St_LimitExceeded RC_LimitMaxAttemptRecords
                       (ucast (max_attempt_records limits)) out), s)
          else
            (let ctx = capture_context wm ev s;
                 (combined, prepared) =
                   prepare_drafts
                     (prepare_draft caller intent require_existing require_absent ctx)
                     (map (\<lambda>d. (d, resolve s d)) drafts) (set_limits (Some limits) vr_success)
             in if vr_failed combined then (Inl (reject_with combined out), s)
                else (Inr (ctx, prepared), s)))"

definition prepare_batch ::
  "'p Interference \<Rightarrow> CallerIdentity \<Rightarrow> ListDraft list \<Rightarrow> LifecycleEvent \<Rightarrow> bool \<Rightarrow> bool \<Rightarrow> 'p Store \<Rightarrow>
   (MutationOutcome + PreparedContext \<times> PreparedMutation list) \<times> 'p Store" where
  "prepare_batch env caller drafts intent require_existing require_absent s =
     (let limits = st_limits s; out = initial_outcome limits drafts in
      if drafts = [] then (Inl (reject St_Rejected RC_InvalidArgument 0 out), s)
      else if length drafts > unat (max_batch_size limits)
      then (Inl (reject St_LimitExceeded RC_LimitMaxBatchSize (ucast (max_batch_size limits)) out), s)
      else
        (let wm = (case st_evidence s of Some e \<Rightarrow> watermark e | None \<Rightarrow> empty_watermark);
             s = iv_snapshot env s;
             ev = (case st_evidence s of Some e \<Rightarrow> snapshot e | None \<Rightarrow> empty_evidence)
         in if st_evidence s \<noteq> None \<and> evidence_record_count ev > unat (max_evidence_records limits)
            then (Inl (reject St_LimitExceeded RC_LimitMaxEvidenceRecords
                         (ucast (max_evidence_records limits)) out), s)
            else prepare_locked caller drafts intent require_existing require_absent wm ev out
                   (iv_lock env s)))"

section \<open>Phase E: re-verify and commit\<close>

definition mutation_conflicts :: "'p Store \<Rightarrow> PreparedMutation \<Rightarrow> Reason list" where
  "mutation_conflicts s pm =
     (case find_locked s (pm_id pm) of
        None \<Rightarrow> emit (pm_has_existing pm) RC_ListGenerationConflict 0 (pm_id pm)
      | Some current \<Rightarrow>
          if pm_has_existing pm
          then emit (sl_generation current \<noteq> pm_existing_generation pm) RC_ListGenerationConflict 0
                 (pm_id pm)
          else [reason RC_ListAlreadyExists 0 (pm_id pm)]) @
     (if pm_has_superseded pm then
        emit (case find_locked s (pm_superseded_id pm) of
                None \<Rightarrow> True
              | Some other \<Rightarrow> sl_generation other \<noteq> pm_superseded_generation pm)
          RC_ListGenerationConflict 0 (pm_superseded_id pm)
      else [])"

definition watermark_reasons :: "PreparedContext \<Rightarrow> 'p Store \<Rightarrow> Reason list" where
  "watermark_reasons ctx s =
     (case st_evidence s of
        None \<Rightarrow> []
      | Some e \<Rightarrow> emit (watermark e \<noteq> pc_watermark ctx) RC_CommitWatermarkChanged 0
                   (wm_revision (watermark e)))"

definition verify_reasons :: "PreparedContext \<Rightarrow> PreparedMutation list \<Rightarrow> 'p Store \<Rightarrow> Reason list" where
  "verify_reasons ctx prepared s =
     emit (ds_revision (st_state s) \<noteq> pc_store_revision ctx) RC_CommitWatermarkChanged 0
       (ds_revision (st_state s)) @
     emit (rg_revision (st_registry s) \<noteq> pc_registry_revision ctx) RC_CommitWatermarkChanged 0
       (rg_revision (st_registry s)) @
     emit (at_epoch (st_authority s) \<noteq> pc_epoch ctx) RC_EpochStale 0 (at_epoch (st_authority s)) @
     watermark_reasons ctx s @
     concat (map (mutation_conflicts s) prepared)"

definition supersede_slot ::
  "Limits \<Rightarrow> PreparedMutation \<Rightarrow> DurableState \<Rightarrow> SegmentListId + DurableState" where
  "supersede_slot limits pm nxt =
     (if \<not> pm_has_superseded pm then Inr nxt
      else
        (case find_in_state nxt (pm_superseded_id pm) of
           None \<Rightarrow> Inr nxt
         | Some other \<Rightarrow>
             (case lifecycle_transition (sl_state other) LE_SupersedeBegin of
                None \<Rightarrow> Inl (pm_superseded_id pm)
              | Some st \<Rightarrow>
                  (let other = other\<lparr>sl_state := st,
                         sl_lineage := (sl_lineage other)\<lparr>ln_superseded_by := pm_id pm\<rparr>,
                         sl_currentness := Cu_Unknown,
                         sl_committed_revision := ds_revision nxt\<rparr>
                   in Inr (append_history limits other
                        (nxt\<lparr>ds_lists := update_key sl_id (pm_superseded_id pm) (\<lambda>_. other)
                               (ds_lists nxt)\<rparr>))))))"

definition commit_slot :: "Limits \<Rightarrow> PreparedMutation \<Rightarrow> DurableState \<Rightarrow> DurableState" where
  "commit_slot limits pm nxt =
     (case find_in_state nxt (pm_id pm) of
        Some slot \<Rightarrow>
          (append_history limits (slot\<lparr>sl_state := LS_Superseded, sl_currentness := Cu_Unknown\<rparr>) nxt)
          \<lparr>ds_lists := update_key sl_id (pm_id pm) (\<lambda>_. pm_list pm) (ds_lists nxt)\<rparr>
      | None \<Rightarrow> nxt\<lparr>ds_lists := ds_lists nxt @ [pm_list pm]\<rparr>)"

fun apply_mutations ::
  "Limits \<Rightarrow> MutationAttemptId \<Rightarrow> Digest128 \<Rightarrow> PreparedMutation list \<Rightarrow> DurableState \<Rightarrow>
   SegmentListId + DurableState" where
  "apply_mutations limits attempt payload [] nxt = Inr nxt"
| "apply_mutations limits attempt payload (pm # pms) nxt =
     (case supersede_slot limits pm nxt of
        Inl i \<Rightarrow> Inl i
      | Inr nxt \<Rightarrow>
          apply_mutations limits attempt payload pms
            (record_attempt attempt (pm_id pm) payload (sl_generation (pm_list pm))
              (append_history limits (pm_list pm) (commit_slot limits pm nxt))))"

definition count_segments :: "SegmentList list \<Rightarrow> nat" where
  "count_segments ls = sum_list (map (\<lambda>l. length (lc_segments (sl_content l))) ls)"

definition finish_outcome ::
  "'p Store \<Rightarrow> SegmentListId \<Rightarrow> SnapshotId \<Rightarrow> MutationOutcome \<Rightarrow> MutationOutcome" where
  "finish_outcome s i snap out =
     (let out = out\<lparr>mo_status := St_Ok, mo_durable := st_persistence s \<noteq> None, mo_list := i\<rparr>;
          out = (case find_locked s i of
                   None \<Rightarrow> out
                 | Some l \<Rightarrow> out\<lparr>mo_generation := sl_generation l, mo_digest := sl_content_digest l\<rparr>)
      in out\<lparr>mo_snapshot := snap\<rparr>)"

definition commit_batch ::
  "'p IPersistence \<Rightarrow> CallerIdentity \<Rightarrow> ListDraft list \<Rightarrow> PreparedContext \<Rightarrow> PreparedMutation list \<Rightarrow>
   'p Store \<Rightarrow> MutationOutcome \<times> 'p Store" where
  "commit_batch ip caller drafts ctx prepared s =
     (let limits = st_limits s; out = initial_outcome limits drafts; st = st_state s;
          verify = vr_add_all (verify_reasons ctx prepared s) (set_limits (Some limits) vr_success);
          fresh = filter (\<lambda>pm. \<not> pm_has_existing pm) prepared
      in
      if vr_failed verify then (reject_with verify out, s)
      else if length (ds_lists st) + length fresh > unat (max_lists limits)
      then (reject St_LimitExceeded RC_LimitMaxLists (ucast (max_lists limits)) out, s)
      else if count_segments (ds_lists st) + count_segments (map pm_list fresh) >
              unat (max_total_segments limits)
      then (reject St_LimitExceeded RC_LimitMaxTotalSegments (ucast (max_total_segments limits)) out, s)
      else
        (let snap = st_snapshot_counter s; s = take_snapshot_id s in
         case apply_mutations limits (ca_attempt caller) (batch_payload_digest drafts) prepared
                (st\<lparr>ds_revision := ds_revision st + 1\<rparr>) of
           Inl i \<Rightarrow> (reject St_Rejected RC_LifecycleTransitionDenied i out, s)
         | Inr nxt \<Rightarrow>
             (let nxt = (capture_tables s nxt)\<lparr>ds_epoch := pc_epoch ctx\<rparr> in
              case persist_locked ip nxt verify s of
                (False, verify, s) \<Rightarrow>
                  (out\<lparr>mo_result := absorb verify (mo_result out),
                       mo_status := St_PersistenceFailed\<rparr>, s)
              | (True, verify, s) \<Rightarrow>
                  (let s = swap_in nxt s in
                   if \<not> index_consistent (st_index s) (ds_lists (st_state s))
                   then (reject St_Internal RC_PersistIndexInconsistent 0 out, s)
                   else (finish_outcome s (pm_id (last prepared)) snap out, s)))))"

definition run_batch ::
  "'p IPersistence \<Rightarrow> 'p Interference \<Rightarrow> CallerIdentity \<Rightarrow> ListDraft list \<Rightarrow> LifecycleEvent \<Rightarrow> bool \<Rightarrow>
   bool \<Rightarrow> 'p Store \<Rightarrow> MutationOutcome \<times> 'p Store" where
  "run_batch ip env caller drafts intent require_existing require_absent s =
     (case prepare_batch env caller drafts intent require_existing require_absent s of
        (Inl out, s) \<Rightarrow> (out, s)
      | (Inr (ctx, prepared), s) \<Rightarrow> commit_batch ip caller drafts ctx prepared (iv_commit env s))"

definition create_list ::
  "'p IPersistence \<Rightarrow> 'p Interference \<Rightarrow> CallerIdentity \<Rightarrow> ListDraft \<Rightarrow> 'p Store \<Rightarrow>
   MutationOutcome \<times> 'p Store" where
  "create_list ip env caller draft = run_batch ip env caller [draft] LE_ValidateBegin False True"

definition replace_list ::
  "'p IPersistence \<Rightarrow> 'p Interference \<Rightarrow> CallerIdentity \<Rightarrow> ListDraft \<Rightarrow> 'p Store \<Rightarrow>
   MutationOutcome \<times> 'p Store" where
  "replace_list ip env caller draft = run_batch ip env caller [draft] LE_ReplaceBegin True False"

definition batch ::
  "'p IPersistence \<Rightarrow> 'p Interference \<Rightarrow> CallerIdentity \<Rightarrow> ListDraft list \<Rightarrow> 'p Store \<Rightarrow>
   MutationOutcome \<times> 'p Store" where
  "batch ip env caller drafts = run_batch ip env caller drafts LE_ReplaceBegin False False"

definition revalidation_draft :: "SegmentList \<Rightarrow> SegmentListGeneration \<Rightarrow> ListDraft" where
  "revalidation_draft existing expected =
     (let c = sl_content existing in
      empty_draft\<lparr>dr_id := lc_id c, dr_scope := lc_scope c, dr_profile := lc_profile c,
        dr_policy := lc_policy c, dr_strictness := lc_strictness c, dr_path := lc_path c,
        dr_route := lc_route c, dr_constraint := lc_constraint c, dr_segments := lc_segments c,
        dr_expected_generation :=
          (if valid expected then expected else sl_generation existing),
        dr_derived := valid (pv_source_constraint (sl_provenance existing))\<rparr>)"

definition revalidate ::
  "'p IPersistence \<Rightarrow> 'p Interference \<Rightarrow> CallerIdentity \<Rightarrow> SegmentListId \<Rightarrow> SegmentListGeneration \<Rightarrow>
   'p Store \<Rightarrow> MutationOutcome \<times> 'p Store" where
  "revalidate ip env caller i expected s =
     (case find_locked s i of
        None \<Rightarrow> (reject St_NotFound RC_ListNotFound i (fresh_outcome (st_limits s)), s)
      | Some existing \<Rightarrow>
          run_batch ip env caller [(revalidation_draft existing expected)\<lparr>dr_id := i\<rparr>]
            LE_RevalidateBegin True False (iv_begin env s))"

section \<open>Administrative transitions\<close>

definition transition_draft :: "SegmentList \<Rightarrow> SegmentListId \<Rightarrow> SegmentListGeneration \<Rightarrow> ListDraft" where
  "transition_draft existing i expected =
     empty_draft\<lparr>dr_id := i, dr_scope := lc_scope (sl_content existing),
                  dr_expected_generation := expected\<rparr>"

definition prepare_transition ::
  "'p Interference \<Rightarrow> CallerIdentity \<Rightarrow> SegmentListId \<Rightarrow> SegmentListGeneration \<Rightarrow> LifecycleEvent \<Rightarrow>
   'p Store \<Rightarrow> (MutationOutcome + PreparedContext \<times> ListDraft) \<times> 'p Store" where
  "prepare_transition env caller i expected event s =
     (let out = (fresh_outcome (st_limits s))\<lparr>mo_list := i\<rparr>;
          wm = (case st_evidence s of Some e \<Rightarrow> watermark e | None \<Rightarrow> empty_watermark);
          s = iv_snapshot env s;
          ev = (case st_evidence s of Some e \<Rightarrow> snapshot e | None \<Rightarrow> empty_evidence);
          s = iv_lock env s;
          limits = st_limits s
      in
      if \<not> attempt_table_accepts limits (st_state s) (ca_attempt caller)
      then (Inl (reject St_LimitExceeded RC_LimitMaxAttemptRecords
                   (ucast (max_attempt_records limits)) out), s)
      else
        (case find_locked s i of
           None \<Rightarrow> (Inl (reject St_NotFound RC_ListNotFound i out), s)
         | Some existing \<Rightarrow>
             if \<not> valid expected \<or> expected \<noteq> sl_generation existing
             then (Inl (reject St_Conflict RC_ListGenerationConflict (sl_generation existing) out), s)
             else
               (let ctx = capture_context wm ev s;
                    draft = transition_draft existing i expected;
                    result = validate_request (build_request caller draft event False ctx
                      \<lparr>re_existing = Some existing, re_profile = None, re_policy = None,
                       re_superseded = None\<rparr>)
                in if vr_failed result then (Inl (reject_with result out), s)
                   else (Inr (ctx, draft), s))))"

definition transition_reasons ::
  "PreparedContext \<Rightarrow> SegmentListId \<Rightarrow> SegmentListGeneration \<Rightarrow> 'p Store \<Rightarrow> Reason list" where
  "transition_reasons ctx i expected s =
     emit (ds_revision (st_state s) \<noteq> pc_store_revision ctx) RC_CommitWatermarkChanged 0
       (ds_revision (st_state s)) @
     emit (at_epoch (st_authority s) \<noteq> pc_epoch ctx) RC_EpochStale 0 (at_epoch (st_authority s)) @
     watermark_reasons ctx s @
     emit (case find_locked s i of None \<Rightarrow> True | Some l \<Rightarrow> sl_generation l \<noteq> expected)
       RC_ListGenerationConflict 0 i"

definition transition_image ::
  "CallerIdentity \<Rightarrow> SegmentListId \<Rightarrow> PreparedContext \<Rightarrow> ListDraft \<Rightarrow> SegmentList \<Rightarrow> 'p Store \<Rightarrow>
   DurableState" where
  "transition_image caller i ctx draft target s =
     (let st = st_state s;
          nxt = st\<lparr>ds_lists := update_key sl_id i (\<lambda>_. target) (ds_lists st),
                   ds_revision := ds_revision st + 1\<rparr>;
          nxt = append_history (st_limits s) target nxt;
          nxt = (capture_tables s nxt)\<lparr>ds_epoch := pc_epoch ctx\<rparr>
      in if valid (ca_attempt caller)
         then record_attempt (ca_attempt caller) i (draft_payload_digest draft)
                (sl_generation target) nxt
         else nxt)"

definition commit_transition ::
  "'p IPersistence \<Rightarrow> CallerIdentity \<Rightarrow> SegmentListId \<Rightarrow> SegmentListGeneration \<Rightarrow> LifecycleEvent \<Rightarrow>
   PreparedContext \<Rightarrow> ListDraft \<Rightarrow> 'p Store \<Rightarrow> MutationOutcome \<times> 'p Store" where
  "commit_transition ip caller i expected event ctx draft s =
     (let limits = st_limits s; out = (fresh_outcome limits)\<lparr>mo_list := i\<rparr>;
          verify = vr_add_all (transition_reasons ctx i expected s)
                     (set_limits (Some limits) vr_success)
      in
      if vr_failed verify then (reject_with verify out, s)
      else
        (case find_in_state (st_state s) i of
           None \<Rightarrow> (reject St_NotFound RC_ListNotFound i out, s)
         | Some target \<Rightarrow>
             (case lifecycle_transition (sl_state target) event of
                None \<Rightarrow> (reject St_Rejected RC_LifecycleTransitionDenied i out, s)
              | Some st \<Rightarrow>
                  (let target = target\<lparr>sl_state := st,
                         sl_currentness := (if st = LS_Active then Cu_Current else Cu_Unknown),
                         sl_committed_revision := ds_revision (st_state s) + 1,
                         sl_authority := \<lparr>la_publisher = ca_publisher caller,
                           la_boot = ca_boot caller, la_epoch = pc_epoch ctx,
                           la_attempt = ca_attempt caller\<rparr>\<rparr>;
                       nxt = transition_image caller i ctx draft target s
                   in
                   case persist_locked ip nxt verify s of
                     (False, verify, s) \<Rightarrow>
                       (out\<lparr>mo_result := absorb verify (mo_result out),
                            mo_status := St_PersistenceFailed\<rparr>, s)
                   | (True, verify, s) \<Rightarrow>
                       (let s = swap_in nxt s in
                        (finish_outcome s i (st_snapshot_counter s) out, take_snapshot_id s))))))"

definition transition ::
  "'p IPersistence \<Rightarrow> 'p Interference \<Rightarrow> LifecycleEvent \<Rightarrow> CallerIdentity \<Rightarrow> SegmentListId \<Rightarrow>
   SegmentListGeneration \<Rightarrow> 'p Store \<Rightarrow> MutationOutcome \<times> 'p Store" where
  "transition ip env event caller i expected s =
     (case prepare_transition env caller i expected event s of
        (Inl out, s) \<Rightarrow> (out, s)
      | (Inr (ctx, draft), s) \<Rightarrow>
          commit_transition ip caller i expected event ctx draft (iv_commit env s))"

definition withdraw ::
  "'p IPersistence \<Rightarrow> 'p Interference \<Rightarrow> CallerIdentity \<Rightarrow> SegmentListId \<Rightarrow> SegmentListGeneration \<Rightarrow>
   'p Store \<Rightarrow> MutationOutcome \<times> 'p Store" where
  "withdraw ip env = transition ip env LE_WithdrawBegin"

definition withdraw_commit ::
  "'p IPersistence \<Rightarrow> 'p Interference \<Rightarrow> CallerIdentity \<Rightarrow> SegmentListId \<Rightarrow> SegmentListGeneration \<Rightarrow>
   'p Store \<Rightarrow> MutationOutcome \<times> 'p Store" where
  "withdraw_commit ip env = transition ip env LE_WithdrawCommit"

definition revoke ::
  "'p IPersistence \<Rightarrow> 'p Interference \<Rightarrow> CallerIdentity \<Rightarrow> SegmentListId \<Rightarrow> SegmentListGeneration \<Rightarrow>
   'p Store \<Rightarrow> MutationOutcome \<times> 'p Store" where
  "revoke ip env = transition ip env LE_Revoke"

definition retire ::
  "'p IPersistence \<Rightarrow> 'p Interference \<Rightarrow> CallerIdentity \<Rightarrow> SegmentListId \<Rightarrow> SegmentListGeneration \<Rightarrow>
   'p Store \<Rightarrow> MutationOutcome \<times> 'p Store" where
  "retire ip env = transition ip env LE_Retire"

end
