(* ===== verification/StoreMaintenance.thy ===== *)
theory StoreMaintenance
  imports StoreMutation
begin

text \<open>
  The remaining operations of the store (\<^verbatim>\<open>store.cpp\<close>): registration of profiles and policies,
  refresh of currentness, conservative recovery, and the read-only views.
\<close>

section \<open>Registration\<close>

definition persist_tables :: "'p IPersistence \<Rightarrow> ValidationResult \<Rightarrow> 'p Store \<Rightarrow> ValidationResult \<times> 'p Store" where
  "persist_tables ip result s =
     (let nxt = capture_tables s (st_state s) in
      case persist_locked ip nxt result s of
        (False, result, s) \<Rightarrow> (result, s)
      | (True, result, s) \<Rightarrow> (result, swap_in (nxt\<lparr>ds_revision := ds_revision (st_state s) + 1\<rparr>) s))"

definition store_register_profile ::
  "'p IPersistence \<Rightarrow> SegmentProfile \<Rightarrow> 'p Store \<Rightarrow> ValidationResult \<times> 'p Store" where
  "store_register_profile ip profile s =
     (let (result, registry) = register_profile profile (st_limits s) (st_registry s);
          s = s\<lparr>st_registry := registry\<rparr>
      in if vr_failed result then (result, s) else persist_tables ip result s)"

definition store_register_policy ::
  "'p IPersistence \<Rightarrow> SegmentPolicy \<Rightarrow> 'p Store \<Rightarrow> ValidationResult \<times> 'p Store" where
  "store_register_policy ip policy s =
     (let (result, registry) = register_policy policy (st_limits s) (st_registry s);
          s = s\<lparr>st_registry := registry\<rparr>
      in if vr_failed result then (result, s) else persist_tables ip result s)"

definition persist_now :: "'p IPersistence \<Rightarrow> 'p Store \<Rightarrow> ValidationResult \<times> 'p Store" where
  "persist_now ip s =
     (let result = set_limits (Some (st_limits s)) vr_success in
      if st_persistence s = None then (result, s)
      else
        (let nxt = (capture_tables s (st_state s))\<lparr>ds_epoch := at_epoch (st_authority s),
               ds_revision := ds_revision (st_state s) + 1\<rparr>
         in case persist_locked ip nxt result s of
              (False, result, s) \<Rightarrow> (result, s)
            | (True, result, s) \<Rightarrow> (result, swap_in nxt s)))"

section \<open>Refresh\<close>

record CurrentnessChange =
  cc_list :: SegmentListId
  cc_generation :: SegmentListGeneration
  cc_was :: Currentness
  cc_now :: Currentness

record CurrentnessReport =
  cp_examined :: nat
  cp_invalidated :: nat
  cp_changes :: "CurrentnessChange list"

text \<open>
  The currentness a list has now. Each evidence check runs only while the list is still current;
  the first failing dependency names the result.
\<close>

definition refreshed_currentness ::
  "FabricEvidence option \<Rightarrow> CoordinatorEpoch \<Rightarrow> AuthorityTable \<Rightarrow> Registry \<Rightarrow> SegmentList \<Rightarrow> Currentness" where
  "refreshed_currentness ev epoch authority registry list =
     (let c = sl_content list;
          profile = find_profile (lc_profile c) registry;
          required = (case profile of Some p \<Rightarrow> pf_required_capabilities p | None \<Rightarrow> []);
          policy = (if valid (lc_policy c) then find_policy (lc_policy c) registry else None);
          stale = (\<lambda>check. case ev of None \<Rightarrow> False | Some e \<Rightarrow> check e)
      in
      if is_fenced (la_boot (sl_authority list)) authority then Cu_FencedPublisher
      else if map_option pf_generation profile \<noteq> Some (lc_profile_generation c)
      then Cu_StaleProfile
      else if valid (lc_policy c) \<and> map_option po_generation policy \<noteq> Some (lc_policy_generation c)
      then Cu_StalePolicy
      else if stale (\<lambda>e.
        (valid (lc_capability c) \<and> lc_capability c \<noteq> fe_capability e) \<or>
        list_ex (\<lambda>key. case find_capability e key of
            None \<Rightarrow> True
          | Some r \<Rightarrow> \<not> cr_supported r \<or> cr_generation r \<noteq> fe_capability e) required)
      then Cu_StaleCapability
      else if stale (\<lambda>e.
        (valid (lc_topology c) \<and> lc_topology c \<noteq> fe_topology e) \<or>
        list_ex (\<lambda>s. seg_kind s = SK_Adjacency \<and>
          (case find_adjacency e (seg_adjacency s) of
             None \<Rightarrow> True | Some r \<Rightarrow> ar_topology r \<noteq> seg_topology s)) (lc_segments c))
      then Cu_StaleTopology
      else if stale (\<lambda>e. valid (lc_path c) \<and>
        (case find_path e (lc_path c) of
           None \<Rightarrow> True | Some r \<Rightarrow> pr_authority r \<noteq> lc_path_authority c))
      then Cu_StalePathAuthority
      else if stale (\<lambda>e. valid (lc_route c) \<and>
        (case find_route e (lc_route c) of
           None \<Rightarrow> True | Some r \<Rightarrow> rr_generation r \<noteq> lc_route_generation c))
      then Cu_StaleRouteBinding
      else if stale (\<lambda>e. valid (lc_constraint c) \<and>
        (case find_constraint e (lc_constraint c) of
           None \<Rightarrow> True | Some r \<Rightarrow> xr_generation r \<noteq> lc_constraint_generation c))
      then Cu_StaleConstraintBinding
      else if valid (la_epoch (sl_authority list)) \<and> valid epoch \<and>
              la_epoch (sl_authority list) \<noteq> epoch
      then Cu_StaleEpoch
      else Cu_Current)"

definition refresh_skips :: "SegmentList \<Rightarrow> bool" where
  "refresh_skips list \<longleftrightarrow>
     sl_state list \<in> {LS_Retired, LS_Withdrawn, LS_Superseded, LS_Revoked}"

definition refresh_list :: "(SegmentList \<Rightarrow> Currentness) \<Rightarrow> SegmentList \<Rightarrow> SegmentList" where
  "refresh_list now list =
     (if refresh_skips list then list
      else
        list\<lparr>sl_currentness := now list,
             sl_state := (if now list \<noteq> Cu_Current \<and> sl_state list = LS_Active
                          then LS_RevalidationRequired else sl_state list)\<rparr>)"

definition refresh_report :: "(SegmentList \<Rightarrow> Currentness) \<Rightarrow> SegmentList list \<Rightarrow> CurrentnessReport" where
  "refresh_report now ls =
     (let examined = filter (\<lambda>l. \<not> refresh_skips l) ls in
      \<lparr>cp_examined = length examined,
       cp_invalidated = length (filter (\<lambda>l. sl_state l = LS_Active \<and>
         sl_currentness l = Cu_Current \<and> now l \<noteq> Cu_Current) examined),
       cp_changes = map (\<lambda>l. \<lparr>cc_list = sl_id l, cc_generation = sl_generation l,
           cc_was = sl_currentness l, cc_now = now l\<rparr>)
         (filter (\<lambda>l. now l \<noteq> sl_currentness l) examined)\<rparr>)"

definition refresh_currentness ::
  "'p IPersistence \<Rightarrow> 'p Interference \<Rightarrow> 'p Store \<Rightarrow> CurrentnessReport \<times> 'p Store" where
  "refresh_currentness ip env s =
     (let s = iv_snapshot env s;
          ev = map_option snapshot (st_evidence s);
          epoch = at_epoch (st_authority s);
          s = iv_lock env s;
          now = refreshed_currentness ev epoch (st_authority s) (st_registry s);
          ls = ds_lists (st_state s);
          changed = list_ex (\<lambda>l. \<not> refresh_skips l \<and>
            (now l \<noteq> sl_currentness l \<or> (now l \<noteq> Cu_Current \<and> sl_state l = LS_Active))) ls;
          nxt = (st_state s)\<lparr>ds_lists := map (refresh_list now) ls,
                              ds_revision := ds_revision (st_state s) + 1\<rparr>
      in (refresh_report now ls,
          if changed then
            (case persist_locked ip nxt (set_limits (Some (st_limits s)) vr_success) s of
               (True, _, s) \<Rightarrow> swap_in nxt s
             | (False, _, s) \<Rightarrow> s)
          else s))"

section \<open>Recovery\<close>

definition recover_list :: "SegmentList \<Rightarrow> SegmentList" where
  "recover_list list =
     (let st = (case lifecycle_transition (sl_state list) LE_RecoveryLoad of
                  Some st \<Rightarrow> st | None \<Rightarrow> LS_RevalidationRequired)
      in list\<lparr>sl_state := st,
              sl_currentness := (if st = LS_RevalidationRequired
                                 then Cu_RevalidationRequired else Cu_Unknown)\<rparr>)"

definition recover_authority :: "DurableState \<Rightarrow> AuthorityTable \<Rightarrow> AuthorityTable" where
  "recover_authority st a =
     fold restore_fenced_boot (ds_fenced_boots st) (fold restore_dead_publisher (ds_publishers st) a)"

definition recover_registry :: "DurableState \<Rightarrow> Registry \<Rightarrow> Registry" where
  "recover_registry st g = fold restore_policy (ds_policies st) (fold restore_profile (ds_profiles st) g)"

text \<open>The recovered state once the epoch was raised.\<close>

definition recover_state :: "DurableState \<Rightarrow> 'p Store \<Rightarrow> DurableState" where
  "recover_state st s =
     (capture_tables s st)\<lparr>
       ds_format_version := kPersistenceFormatVersion,
       ds_lists := map recover_list (ds_lists st),
       ds_epoch := at_epoch (st_authority s),
       ds_revision := ds_revision (st_state s) + ds_revision st + 1\<rparr>"

definition recovery_base :: "DurableState \<Rightarrow> AuthorityTable \<Rightarrow> CoordinatorEpoch" where
  "recovery_base st a =
     (let base = (if valid (ds_epoch st) then ds_epoch st else initial_generation)
      in if at_epoch a > base then at_epoch a else base)"

definition load :: "'p IPersistence \<Rightarrow> 'p Store \<Rightarrow> LoadReport \<times> 'p Store" where
  "load ip s =
     (let report = empty_report\<lparr>lr_result := set_limits (Some (st_limits s)) vr_success\<rparr> in
      case st_persistence s of
        None \<Rightarrow> (report\<lparr>lr_empty := True\<rparr>, s)
      | Some p \<Rightarrow>
          (case ip_load ip report (st_limits s) p of
             (ok, report, p) \<Rightarrow>
               (let s = s\<lparr>st_persistence := Some p\<rparr> in
                if \<not> ok then (report, s)
                else if \<not> lr_loaded report then (report\<lparr>lr_empty := True\<rparr>, s)
                else
                  (let st = lr_state report; base = recovery_base st (st_authority s);
                       (ok1, a1) = restore_epoch base (st_authority s);
                       (ok2, a2) = advance_epoch a1
                   in
                   if \<not> ok1
                   then (report\<lparr>lr_result := vr_add RC_EpochStale 0 base (lr_result report),
                                lr_loaded := False\<rparr>, s)
                   else if \<not> ok2
                   then (report\<lparr>lr_result := vr_add RC_EpochExhausted 0 base (lr_result report),
                                lr_loaded := False\<rparr>, s\<lparr>st_authority := a1\<rparr>)
                   else
                     (let s = s\<lparr>st_registry := recover_registry st (st_registry s),
                                 st_authority := recover_authority st a2\<rparr>;
                          nxt = recover_state st s;
                          s = swap_in nxt s;
                          report = report\<lparr>
                            lr_publishers_fenced :=
                              lr_publishers_fenced report + length (ds_publishers st),
                            lr_lists_recovered := length (ds_lists nxt),
                            lr_lists_requiring_revalidation :=
                              length (filter (\<lambda>l. sl_state l = LS_RevalidationRequired)
                                (ds_lists nxt)),
                            lr_history_entries := length (ds_history nxt)\<rparr>
                      in case persist_locked ip nxt (set_limits (Some (st_limits s)) vr_success) s of
                           (True, _, s) \<Rightarrow> (report, s)
                         | (False, res, s) \<Rightarrow>
                             (report\<lparr>lr_result := absorb res (lr_result report)\<rparr>, s))))))"

section \<open>Views\<close>

definition get :: "'p Store \<Rightarrow> SegmentListId \<Rightarrow> SegmentList option" where
  "get s i = find_locked s i"

definition list_count :: "'p Store \<Rightarrow> nat" where
  "list_count s = length (ds_lists (st_state s))"

definition total_segments :: "'p Store \<Rightarrow> nat" where
  "total_segments s = count_segments (ds_lists (st_state s))"

record HistoryReport =
  hr_entries :: "DurableHistoryEntry list"
  hr_retained :: u32
  hr_limit :: u32
  hr_at_capacity :: bool

definition history_report :: "'p Store \<Rightarrow> HistoryReport" where
  "history_report s =
     (let h = ds_history (st_state s); limit = max_history (st_limits s) in
      \<lparr>hr_entries = h, hr_retained = of_nat (length h), hr_limit = limit,
       hr_at_capacity = (length h \<ge> unat limit)\<rparr>)"

record SegmentListSnapshot =
  ss_id :: SnapshotId
  ss_revision :: u64
  ss_epoch :: CoordinatorEpoch
  ss_list :: SegmentList
  ss_digest :: Digest128

definition list_snapshot :: "SegmentListId \<Rightarrow> 'p Store \<Rightarrow> SegmentListSnapshot \<times> 'p Store" where
  "list_snapshot i s =
     (case find_locked s i of
        None \<Rightarrow> (\<lparr>ss_id = 0, ss_revision = 0, ss_epoch = 0, ss_list = empty_list,
                  ss_digest = zero_digest\<rparr>, s)
      | Some l \<Rightarrow>
          (\<lparr>ss_id = st_snapshot_counter s, ss_revision = ds_revision (st_state s),
            ss_epoch = at_epoch (st_authority s), ss_list = l, ss_digest = sl_content_digest l\<rparr>,
           take_snapshot_id s))"

end
