(* ===== verification/StoreSafety.thy ===== *)
theory StoreSafety
  imports StoreMaintenance
begin

text \<open>
  What the mutations of the store guarantee: rejected mutations change nothing, stale ones are
  rejected, acknowledged ones are durable, replays are idempotent.
\<close>

section \<open>Results\<close>

lemma vr_failed_iff [simp]: "vr_failed v \<longleftrightarrow> \<not> vr_ok v"
  by (simp add: vr_failed_def vr_ok_def)

lemma fresh_add_all_ok:
  assumes "0 < max_reasons l" and "\<forall>r \<in> set rs. rs_code r \<noteq> RC_Ok"
  shows "vr_ok (vr_add_all rs (set_limits (Some l) vr_success)) \<longleftrightarrow> rs = []"
proof -
  have "vr_cap (set_limits (Some l) vr_success) > 0"
    using assms(1) by (simp add: reason_cap_def word_less_nat_alt)
  from vr_ok_add_all [OF this, of rs] assms(2) show ?thesis
    by (cases rs) (auto simp: vr_ok_def)
qed

lemma absorb_failed:
  assumes "vr_wf r" and "\<not> vr_ok r" and "vr_cap v > 0"
  shows "\<not> vr_ok (absorb r v)"
proof -
  have "vr_cap (v\<lparr>vr_truncated := vr_truncated v \<or> vr_truncated r\<rparr>) > 0"
    using assms(3) by (simp add: vr_cap_def)
  from vr_ok_add_all [OF this, of "vr_reasons r"] assms(1,2) show ?thesis
    by (cases "vr_reasons r") (auto simp: absorb_def vr_ok_def vr_wf_def)
qed

lemma fresh_outcome_cap [simp]:
  "vr_cap (mo_result (fresh_outcome l)) = unat (max_reasons l)"
  "vr_cap (mo_result (initial_outcome l drafts)) = unat (max_reasons l)"
  by (simp_all add: fresh_outcome_def initial_outcome_def reason_cap_def)

lemma reject_status [simp]: "mo_status (reject st c d out) = st"
  by (simp add: reject_def)

lemma reject_with_status:
  assumes "vr_wf r" and "\<not> vr_ok r" and "vr_cap (mo_result out) > 0"
  shows "mo_status (reject_with r out) \<noteq> St_Ok"
  using absorb_failed [OF assms] by (simp add: reject_with_def Let_def)

section \<open>Persistence\<close>

text \<open>
  A successful write: either the store has no persistence, or \<^verbatim>\<open>save\<close> was called with exactly this
  image and reported success.
\<close>

definition persisted :: "'p IPersistence \<Rightarrow> DurableState \<Rightarrow> 'p Store \<Rightarrow> 'p Store \<Rightarrow> bool" where
  "persisted ip img s s' \<longleftrightarrow>
     (case st_persistence s of
        None \<Rightarrow> st_persistence s' = None
      | Some p \<Rightarrow> \<exists>v v' p'. ip_save ip img (st_limits s) v p = (True, v', p') \<and>
          st_persistence s' = Some p')"

lemma persist_locked_frame:
  "snd (snd (persist_locked ip nxt v s)) =
     s\<lparr>st_persistence := st_persistence (snd (snd (persist_locked ip nxt v s)))\<rparr>"
  by (auto simp: persist_locked_def Let_def split: option.split prod.split bool.split)

lemma persist_locked_keeps:
  assumes "persist_locked ip nxt v s = (b, v', s')"
  shows "st_limits s' = st_limits s" "st_evidence s' = st_evidence s"
    "st_authority s' = st_authority s" "st_registry s' = st_registry s" "st_state s' = st_state s"
    "st_index s' = st_index s" "st_snapshot_counter s' = st_snapshot_counter s"
  using persist_locked_frame [of ip nxt v s] assms by (cases s; cases s'; simp)+

lemma persist_locked_true:
  assumes "persist_locked ip nxt v s = (True, v', s')"
  shows "persisted ip nxt s s'"
  using assms
  by (auto simp: persist_locked_def persisted_def Let_def
      split: option.splits prod.splits bool.splits, blast)

lemma persist_locked_none:
  "st_persistence s = None \<Longrightarrow> fst (persist_locked ip nxt v s)"
  by (simp add: persist_locked_def)

section \<open>Commit\<close>

lemma verify_codes:
  "\<forall>r \<in> set (verify_reasons ctx prepared s). rs_code r \<noteq> RC_Ok"
  by (auto simp: verify_reasons_def watermark_reasons_def mutation_conflicts_def
      split: option.splits if_splits)

lemma transition_codes:
  "\<forall>r \<in> set (transition_reasons ctx i expected s). rs_code r \<noteq> RC_Ok"
  by (auto simp: transition_reasons_def watermark_reasons_def split: option.splits if_splits)

text \<open>The durable and live tables a rejected mutation leaves alone.\<close>

definition same_tables :: "'p Store \<Rightarrow> 'p Store \<Rightarrow> bool" where
  "same_tables s s' \<longleftrightarrow> st_state s' = st_state s \<and> st_index s' = st_index s \<and>
     st_registry s' = st_registry s \<and> st_authority s' = st_authority s \<and>
     st_evidence s' = st_evidence s \<and> st_limits s' = st_limits s"

lemma same_tables_refl [simp]: "same_tables s s"
  by (simp add: same_tables_def)

lemma take_snapshot_id_frame [simp]:
  "st_limits (take_snapshot_id s) = st_limits s" "st_evidence (take_snapshot_id s) = st_evidence s"
  "st_persistence (take_snapshot_id s) = st_persistence s"
  "st_authority (take_snapshot_id s) = st_authority s"
  "st_registry (take_snapshot_id s) = st_registry s" "st_state (take_snapshot_id s) = st_state s"
  "st_index (take_snapshot_id s) = st_index s"
  by (simp_all add: take_snapshot_id_def)

lemma swap_in_frame [simp]:
  "st_limits (swap_in n s) = st_limits s" "st_evidence (swap_in n s) = st_evidence s"
  "st_persistence (swap_in n s) = st_persistence s" "st_authority (swap_in n s) = st_authority s"
  "st_registry (swap_in n s) = st_registry s" "st_state (swap_in n s) = n"
  "st_index (swap_in n s) = build_index (ds_lists n)"
  "st_snapshot_counter (swap_in n s) = st_snapshot_counter s"
  by (simp_all add: swap_in_def rebuild_index_def)

lemma capture_tables_frame [simp]:
  "ds_format_version (capture_tables s n) = ds_format_version n"
  "ds_epoch (capture_tables s n) = ds_epoch n" "ds_revision (capture_tables s n) = ds_revision n"
  "ds_lists (capture_tables s n) = ds_lists n" "ds_history (capture_tables s n) = ds_history n"
  "ds_attempts (capture_tables s n) = ds_attempts n"
  "ds_profiles (capture_tables s n) = rg_profiles (st_registry s)"
  "ds_policies (capture_tables s n) = rg_policies (st_registry s)"
  "ds_publishers (capture_tables s n) = at_publishers (st_authority s)"
  "ds_fenced_boots (capture_tables s n) = at_fenced_boots (st_authority s)"
  by (simp_all add: capture_tables_def)

lemma capture_take_snapshot [simp]: "capture_tables (take_snapshot_id s) n = capture_tables s n"
  by (simp add: capture_tables_def)

text \<open>The image a batch commits.\<close>

definition batch_image ::
  "CallerIdentity \<Rightarrow> ListDraft list \<Rightarrow> PreparedContext \<Rightarrow> PreparedMutation list \<Rightarrow> 'p Store \<Rightarrow>
   SegmentListId + DurableState" where
  "batch_image caller drafts ctx prepared s =
     map_sum id (\<lambda>nxt. (capture_tables s nxt)\<lparr>ds_epoch := pc_epoch ctx\<rparr>)
       (apply_mutations (st_limits s) (ca_attempt caller) (batch_payload_digest drafts) prepared
         ((st_state s)\<lparr>ds_revision := ds_revision (st_state s) + 1\<rparr>))"

lemma status_not_internal [simp]: "status_for r \<noteq> St_Internal"
  by (simp add: status_for_def Let_def del: insert_iff split: ValidationPhase.split)

lemma reject_with_not_internal [simp]: "mo_status (reject_with r out) \<noteq> St_Internal"
  by (simp add: reject_with_def Let_def)

lemma persisted_snapshot [simp]: "persisted ip img (take_snapshot_id s) s' = persisted ip img s s'"
  by (simp add: persisted_def split: option.split)

lemma persisted_swap [simp]: "persisted ip img s (swap_in n s') = persisted ip img s s'"
  by (simp add: persisted_def split: option.split)

text \<open>A commit either leaves every table as it was, or swaps in exactly the persisted image.\<close>

definition committed ::
  "'p IPersistence \<Rightarrow> DurableState \<Rightarrow> 'p Store \<Rightarrow> 'p Store \<Rightarrow> bool" where
  "committed ip img s s' \<longleftrightarrow> st_state s' = img \<and> st_index s' = build_index (ds_lists img) \<and>
     persisted ip img s s' \<and> st_registry s' = st_registry s \<and> st_authority s' = st_authority s \<and>
     st_evidence s' = st_evidence s \<and> st_limits s' = st_limits s"

lemma commit_batch_cases:
  assumes c: "commit_batch ip caller drafts ctx prepared s = (out, s')"
    and cap: "0 < max_reasons (st_limits s)"
  shows "(mo_status out \<noteq> St_Ok \<and> mo_status out \<noteq> St_Internal \<and> same_tables s s') \<or>
    (\<exists>img. verify_reasons ctx prepared s = [] \<and>
       batch_image caller drafts ctx prepared s = Inr img \<and> committed ip img s s' \<and>
       (if index_consistent (st_index s') (ds_lists img)
        then out = finish_outcome s' (pm_id (last prepared)) (st_snapshot_counter s)
               (initial_outcome (st_limits s) drafts)
        else mo_status out = St_Internal))"
proof -
  let ?v = "vr_add_all (verify_reasons ctx prepared s) (set_limits (Some (st_limits s)) vr_success)"
  have v: "vr_ok ?v \<longleftrightarrow> verify_reasons ctx prepared s = []"
    by (rule fresh_add_all_ok [OF cap verify_codes])
  have rej: "mo_status (reject_with ?v (initial_outcome (st_limits s) drafts)) \<noteq> St_Ok"
    if "\<not> vr_ok ?v"
    using that cap by (intro reject_with_status) (simp_all add: vr_wf_add_all word_less_nat_alt)
  show ?thesis
  proof (cases "batch_image caller drafts ctx prepared s")
    case (Inl i)
    with c rej show ?thesis
      by (auto simp: commit_batch_def Let_def batch_image_def same_tables_def
          split: if_splits sum.splits)
  next
    case (Inr img)
    obtain b w t where p: "persist_locked ip img ?v (take_snapshot_id s) = (b, w, t)"
      by (cases "persist_locked ip img ?v (take_snapshot_id s)") auto
    note k = persist_locked_keeps [OF p, simplified]
    have t: "committed ip img s (swap_in img t)" if b
      using k persist_locked_true [of ip img ?v "take_snapshot_id s" w t] p that
      by (simp add: committed_def)
    have same: "same_tables s t" using k by (simp add: same_tables_def)
    show ?thesis
    proof (cases b)
      case True
      with c p rej v t [OF True] Inr show ?thesis
        by (auto simp: commit_batch_def Let_def batch_image_def split: if_splits sum.splits)
    next
      case False
      with c p rej same Inr show ?thesis
        by (auto simp: commit_batch_def Let_def batch_image_def split: if_splits sum.splits)
    qed
  qed
qed

section \<open>Preparation\<close>

definition prepared_mutation ::
  "CallerIdentity \<Rightarrow> PreparedContext \<Rightarrow> ListDraft \<Rightarrow> Resolved \<Rightarrow> PreparedMutation" where
  "prepared_mutation caller ctx draft res = \<lparr>
     pm_id = dr_id draft,
     pm_has_existing = re_existing res \<noteq> None,
     pm_existing_generation = (case re_existing res of Some l \<Rightarrow> sl_generation l | None \<Rightarrow> 0),
     pm_has_superseded = re_superseded res \<noteq> None,
     pm_superseded_id = dr_supersedes draft,
     pm_superseded_generation = (case re_superseded res of Some l \<Rightarrow> sl_generation l | None \<Rightarrow> 0),
     pm_list = make_list caller draft ctx res (re_existing res) (pc_epoch ctx)
       (pc_store_revision ctx + 1),
     pm_replaces = re_existing res \<noteq> None\<rparr>"

lemma add_all_not_ok: "\<not> vr_ok v \<Longrightarrow> \<not> vr_ok (vr_add_all rs v)"
  by (induction rs arbitrary: v) (simp_all add: vr_ok_def vr_add_reason_def vr_add_empty)

lemma vr_truncated_ok [simp]: "vr_ok (v\<lparr>vr_truncated := b\<rparr>) = vr_ok v"
  by (simp add: vr_ok_def)

lemma absorb_not_ok: "\<not> vr_ok v \<Longrightarrow> \<not> vr_ok (absorb r v)"
  by (simp add: absorb_def add_all_not_ok)

lemma absorb_failure_not_ok:
  assumes "c \<noteq> RC_Ok" and "vr_cap v > 0"
  shows "\<not> vr_ok (absorb_move (vr_failure c i d) v)"
proof -
  have f: "vr_reasons (vr_failure c i d) = [reason c i d]"
    using assms(1) by (simp add: vr_failure_def vr_add_def vr_success_def vr_cap_def sort_and_dedup_def)
  have "\<not> vr_ok (vr_add c i d (v\<lparr>vr_truncated := b\<rparr>))" for b
    using assms by (simp add: vr_ok_def vr_add_empty vr_cap_def)
  then show ?thesis
    by (auto simp: absorb_move_def Let_def f vr_add_reason_def vr_ok_def)
qed

lemma draft_result_wf: "vr_wf (draft_result caller intent re ra ctx draft res)"
  by (simp add: draft_result_def vr_wf_add_all request.run_wf)

lemma prepare_draft_ok:
  assumes "prepare_draft caller intent re ra ctx draft res c = (c', pm)"
    and "vr_cap c > 0" and "vr_ok c'"
  shows "c' = c \<and> vr_ok (draft_result caller intent re ra ctx draft res) \<and>
         pm = prepared_mutation caller ctx draft res"
proof -
  have "\<not> vr_ok (absorb (draft_result caller intent re ra ctx draft res) c)"
    if "\<not> vr_ok (draft_result caller intent re ra ctx draft res)"
    using absorb_failed [OF draft_result_wf that assms(2)] .
  moreover have "\<not> vr_ok (absorb_move (vr_failure RC_ListGenerationExhausted i d) c)"
    "\<not> vr_ok (absorb_move (vr_failure RC_CommitGenerationExhausted i d) c)" for i d
    using assms(2) by (simp_all add: absorb_failure_not_ok)
  ultimately show ?thesis
    using assms(1,3)
    by (auto simp: prepare_draft_def prepared_mutation_def Let_def split: if_splits option.splits)
qed

lemma prepare_draft_not_ok:
  assumes "\<not> vr_ok c"
  shows "\<not> vr_ok (fst (prepare_draft caller intent re ra ctx draft res c))"
proof -
  have "\<not> vr_ok (absorb_move r c)" for r
    using assms add_all_not_ok [of "c\<lparr>vr_truncated := b\<rparr>" for b]
    by (simp add: absorb_move_def Let_def) (simp add: vr_ok_def)
  then show ?thesis
    using assms absorb_not_ok by (simp add: prepare_draft_def Let_def split: option.split)
qed

lemma prepare_drafts_not_ok:
  "\<not> vr_ok c \<Longrightarrow> \<not> vr_ok (fst (prepare_drafts (prepare_draft caller intent re ra ctx) ls c))"
proof (induction ls arbitrary: c)
  case (Cons x ls)
  obtain d r where x: "x = (d, r)" by (cases x)
  show ?case
    using Cons.IH [OF prepare_draft_not_ok [OF Cons.prems]] by (simp add: x split: prod.split)
       (metis fst_conv)
qed simp

lemma prepare_drafts_ok:
  assumes "prepare_drafts (prepare_draft caller intent re ra ctx) ls c = (c', pms)"
    and "vr_cap c > 0" and "vr_ok c'"
  shows "(\<forall>(d, r) \<in> set ls. vr_ok (draft_result caller intent re ra ctx d r)) \<and>
         pms = map (\<lambda>(d, r). prepared_mutation caller ctx d r) ls"
  using assms
proof (induction ls arbitrary: c pms)
  case (Cons x ls)
  obtain d r where x: "x = (d, r)" by (cases x)
  obtain c1 pm where p: "prepare_draft caller intent re ra ctx d r c = (c1, pm)"
    by (cases "prepare_draft caller intent re ra ctx d r c")
  obtain c2 pms' where q: "prepare_drafts (prepare_draft caller intent re ra ctx) ls c1 = (c2, pms')"
    by (cases "prepare_drafts (prepare_draft caller intent re ra ctx) ls c1")
  have r: "c2 = c'" "pms = pm # pms'" using Cons.prems(1) x p q by simp_all
  have "vr_ok c1"
    using prepare_drafts_not_ok [of c1 caller intent re ra ctx ls] q r Cons.prems(3) by auto
  from prepare_draft_ok [OF p Cons.prems(2) this] Cons.IH [of c1 pms'] q r x Cons.prems(2,3)
  show ?case by auto
qed simp

text \<open>
  Interference never changes the configuration of the store: its limits, and whether it has an
  evidence source and a persistence object at all.
\<close>

definition config_of :: "'p Store \<Rightarrow> Limits \<times> bool \<times> bool" where
  "config_of s = (st_limits s, st_evidence s = None, st_persistence s = None)"

definition interference_ok :: "'p Interference \<Rightarrow> bool" where
  "interference_ok env \<longleftrightarrow>
     (\<forall>f \<in> {iv_begin env, iv_snapshot env, iv_lock env, iv_commit env}. \<forall>s. config_of (f s) = config_of s)"

lemma no_interference_ok [simp]: "interference_ok no_interference"
  by (simp add: interference_ok_def no_interference_def)

lemma interference_limits:
  assumes "interference_ok env"
  shows "st_limits (iv_begin env s) = st_limits s" "st_limits (iv_snapshot env s) = st_limits s"
    "st_limits (iv_lock env s) = st_limits s" "st_limits (iv_commit env s) = st_limits s"
  using assms by (auto simp: interference_ok_def config_of_def)

text \<open>The store as the interference left it, at the points where a mutation can end.\<close>

definition at_capture :: "'p Interference \<Rightarrow> 'p Store \<Rightarrow> 'p Store" where
  "at_capture env s = iv_lock env (iv_snapshot env s)"

definition at_recheck :: "'p Interference \<Rightarrow> 'p Store \<Rightarrow> 'p Store" where
  "at_recheck env s = iv_commit env (at_capture env s)"

definition left_by_others :: "'p Interference \<Rightarrow> 'p Store \<Rightarrow> 'p Store set" where
  "left_by_others env s = {s, iv_snapshot env s, at_capture env s, at_recheck env s}"

definition captured ::
  "'p Interference \<Rightarrow> 'p Store \<Rightarrow> PreparedContext" where
  "captured env s =
     capture_context (case st_evidence s of Some e \<Rightarrow> watermark e | None \<Rightarrow> empty_watermark)
       (case st_evidence (iv_snapshot env s) of Some e \<Rightarrow> snapshot e | None \<Rightarrow> empty_evidence)
       (at_capture env s)"

definition recorded_attempt :: "'p Store \<Rightarrow> CallerIdentity \<Rightarrow> DurableAttemptRecord option" where
  "recorded_attempt s caller =
     (if valid (ca_attempt caller) then find_attempt (st_state s) (ca_attempt caller) else None)"

lemma absorb_move_wf:
  assumes "vr_wf v" and "vr_wf w"
  shows "vr_wf (absorb_move w v)"
proof -
  have "vr_wf (sort_and_dedup (v\<lparr>vr_truncated := b, vr_reasons := vr_reasons w\<rparr>))"
    if "vr_limits v = vr_limits w" for b
    using assms(2) that
      length_sort_and_dedup [of "v\<lparr>vr_truncated := b, vr_reasons := vr_reasons w\<rparr>"]
    by (simp add: vr_wf_def sort_and_dedup_sorted vr_cap_def)
  with assms(1) show ?thesis by (simp add: absorb_move_def Let_def vr_wf_add_all)
qed

lemma vr_failure_wf [simp]: "vr_wf (vr_failure c i d)"
  by (simp add: vr_failure_def vr_wf_add)

lemma prepare_draft_wf:
  "vr_wf c \<Longrightarrow> vr_wf (fst (prepare_draft caller intent re ra ctx d r c))"
  by (simp add: prepare_draft_def Let_def absorb_move_wf vr_wf_absorb split: option.split)

lemma prepare_drafts_wf:
  "vr_wf c \<Longrightarrow> vr_wf (fst (prepare_drafts (prepare_draft caller intent re ra ctx) ls c))"
proof (induction ls arbitrary: c)
  case (Cons x ls)
  obtain d r where x: "x = (d, r)" by (cases x)
  show ?case
    using Cons.IH [OF prepare_draft_wf [OF Cons.prems]] by (simp add: x split: prod.split)
       (metis fst_conv)
qed simp

lemma prepare_locked_Inl:
  assumes "prepare_locked caller drafts intent re ra wm ev out s = (Inl o', s')"
  shows "same_tables s s'"
  using assms
  by (auto simp: prepare_locked_def Let_def same_tables_def
      split: option.splits if_splits prod.splits)

lemma prepare_locked_ok:
  assumes "prepare_locked caller drafts intent re ra wm ev out s = (Inl o', s')"
    and "mo_status o' = St_Ok" and "0 < max_reasons (st_limits s)" and "vr_cap (mo_result out) > 0"
  shows "\<exists>record. recorded_attempt s caller = Some record \<and>
           dar_payload record = batch_payload_digest drafts \<and> o' = replay_outcome s drafts out \<and>
           s' = take_snapshot_id s"
proof -
  let ?l = "map (\<lambda>d. (d, resolve s d)) drafts"
  obtain c pms where c: "prepare_drafts (prepare_draft caller intent re ra (capture_context wm ev s)) ?l
      (set_limits (Some (st_limits s)) vr_success) = (c, pms)"
    by (cases "prepare_drafts (prepare_draft caller intent re ra (capture_context wm ev s)) ?l
      (set_limits (Some (st_limits s)) vr_success)")
  then have "vr_wf c" using prepare_drafts_wf [of "set_limits (Some (st_limits s)) vr_success"
      caller intent re ra "capture_context wm ev s" ?l] by simp
  from reject_with_status [OF this _ assms(4)] c assms(1,2) show ?thesis
    by (auto simp: prepare_locked_def recorded_attempt_def Let_def split: option.splits if_splits)
qed

lemma prepare_locked_Inr:
  assumes "prepare_locked caller drafts intent re ra wm ev out s = (Inr (ctx, prepared), s')"
    and "0 < max_reasons (st_limits s)"
  shows "s' = s" and "ctx = capture_context wm ev s" and "recorded_attempt s caller = None"
    and "attempt_table_accepts (st_limits s) (st_state s) (ca_attempt caller)"
    and "\<forall>d \<in> set drafts. vr_ok (draft_result caller intent re ra ctx d (resolve s d))"
    and "prepared = map (\<lambda>d. prepared_mutation caller ctx d (resolve s d)) drafts"
proof -
  let ?l = "map (\<lambda>d. (d, resolve s d)) drafts"
  obtain c pms where c: "prepare_drafts (prepare_draft caller intent re ra (capture_context wm ev s)) ?l
      (set_limits (Some (st_limits s)) vr_success) = (c, pms)"
    by (cases "prepare_drafts (prepare_draft caller intent re ra (capture_context wm ev s)) ?l
      (set_limits (Some (st_limits s)) vr_success)")
  have r: "s' = s \<and> ctx = capture_context wm ev s \<and> recorded_attempt s caller = None \<and>
      attempt_table_accepts (st_limits s) (st_state s) (ca_attempt caller) \<and> vr_ok c \<and> prepared = pms"
    using assms(1) c
    by (auto simp: prepare_locked_def recorded_attempt_def Let_def split: option.splits if_splits)
  then show "s' = s" "ctx = capture_context wm ev s" "recorded_attempt s caller = None"
    "attempt_table_accepts (st_limits s) (st_state s) (ca_attempt caller)" by simp_all
  from prepare_drafts_ok [OF c] r assms(2)
  show "\<forall>d \<in> set drafts. vr_ok (draft_result caller intent re ra ctx d (resolve s d))"
    "prepared = map (\<lambda>d. prepared_mutation caller ctx d (resolve s d)) drafts"
    by (auto simp: reason_cap_def word_less_nat_alt)
qed

definition batch_size_ok :: "'p Store \<Rightarrow> ListDraft list \<Rightarrow> bool" where
  "batch_size_ok s drafts \<longleftrightarrow> drafts \<noteq> [] \<and> length drafts \<le> unat (max_batch_size (st_limits s))"

lemma prepare_batch_Inl:
  assumes "prepare_batch env caller drafts intent re ra s = (Inl out, s')"
  shows "\<exists>t \<in> left_by_others env s. same_tables t s'"
  using assms prepare_locked_Inl
  by (fastforce simp: prepare_batch_def left_by_others_def at_capture_def Let_def split: if_splits)

lemma prepare_batch_ok:
  assumes "prepare_batch env caller drafts intent re ra s = (Inl out, s')"
    and "mo_status out = St_Ok" and "interference_ok env" and "0 < max_reasons (st_limits s)"
  shows "\<exists>record. recorded_attempt (at_capture env s) caller = Some record \<and>
           dar_payload record = batch_payload_digest drafts \<and>
           out = replay_outcome (at_capture env s) drafts (initial_outcome (st_limits s) drafts) \<and>
           s' = take_snapshot_id (at_capture env s) \<and> batch_size_ok s drafts"
  using assms
  by (auto simp: prepare_batch_def Let_def at_capture_def interference_limits word_less_nat_alt
      batch_size_ok_def dest!: prepare_locked_ok split: if_splits)

lemma prepare_batch_Inr:
  assumes "prepare_batch env caller drafts intent re ra s = (Inr (ctx, prepared), s')"
    and "interference_ok env" and "0 < max_reasons (st_limits s)"
  shows "s' = at_capture env s \<and> ctx = captured env s \<and> batch_size_ok s drafts \<and>
    recorded_attempt s' caller = None \<and>
    attempt_table_accepts (st_limits s) (st_state s') (ca_attempt caller) \<and>
    (\<forall>d \<in> set drafts. vr_ok (draft_result caller intent re ra ctx d (resolve s' d))) \<and>
    prepared = map (\<lambda>d. prepared_mutation caller ctx d (resolve s' d)) drafts"
proof -
  have "0 < max_reasons (st_limits (at_capture env s))" and lim: "st_limits (at_capture env s) = st_limits s"
    using assms(2,3) by (simp_all add: at_capture_def interference_limits)
  note inr = prepare_locked_Inr [OF _ this(1)]
  have p: "batch_size_ok s drafts \<and> prepare_locked caller drafts intent re ra
      (case st_evidence s of Some e \<Rightarrow> watermark e | None \<Rightarrow> empty_watermark)
      (case st_evidence (iv_snapshot env s) of Some e \<Rightarrow> snapshot e | None \<Rightarrow> empty_evidence)
      (initial_outcome (st_limits s) drafts) (at_capture env s) = (Inr (ctx, prepared), s')"
    using assms(1)
    by (auto simp: prepare_batch_def Let_def at_capture_def batch_size_ok_def split: if_splits)
  from inr [OF conjunct2 [OF p]] p lim show ?thesis by (simp add: captured_def)
qed

end
