(* ===== verification/StoreGuarantees.thy ===== *)
theory StoreGuarantees
  imports StoreSafety
begin

text \<open>
  The contract of the store's content mutations, for every interleaving with other threads.
\<close>

section \<open>How a batch ends\<close>

definition prepared_batch ::
  "'p Interference \<Rightarrow> CallerIdentity \<Rightarrow> ListDraft list \<Rightarrow> 'p Store \<Rightarrow> PreparedMutation list" where
  "prepared_batch env caller drafts s =
     map (\<lambda>d. prepared_mutation caller (captured env s) d (resolve (at_capture env s) d)) drafts"

definition batch_rejected ::
  "'p Interference \<Rightarrow> 'p Store \<Rightarrow> MutationOutcome \<Rightarrow> 'p Store \<Rightarrow> bool" where
  "batch_rejected env s out s' \<longleftrightarrow> mo_status out \<noteq> St_Ok \<and> mo_status out \<noteq> St_Internal \<and>
     (\<exists>t \<in> left_by_others env s. same_tables t s')"

definition batch_replayed ::
  "'p Interference \<Rightarrow> CallerIdentity \<Rightarrow> ListDraft list \<Rightarrow> 'p Store \<Rightarrow> MutationOutcome \<Rightarrow> 'p Store \<Rightarrow> bool" where
  "batch_replayed env caller drafts s out s' \<longleftrightarrow>
     (\<exists>record. recorded_attempt (at_capture env s) caller = Some record \<and>
        dar_payload record = batch_payload_digest drafts) \<and>
     out = replay_outcome (at_capture env s) drafts (initial_outcome (st_limits s) drafts) \<and>
     s' = take_snapshot_id (at_capture env s) \<and> batch_size_ok s drafts"

definition batch_committed ::
  "'p IPersistence \<Rightarrow> 'p Interference \<Rightarrow> CallerIdentity \<Rightarrow> ListDraft list \<Rightarrow> LifecycleEvent \<Rightarrow> bool \<Rightarrow>
   bool \<Rightarrow> 'p Store \<Rightarrow> MutationOutcome \<Rightarrow> 'p Store \<Rightarrow> bool" where
  "batch_committed ip env caller drafts intent re ra s out s' \<longleftrightarrow>
     recorded_attempt (at_capture env s) caller = None \<and>
     attempt_table_accepts (st_limits s) (st_state (at_capture env s)) (ca_attempt caller) \<and>
     (\<forall>d \<in> set drafts. vr_ok (draft_result caller intent re ra (captured env s) d
        (resolve (at_capture env s) d))) \<and> batch_size_ok s drafts \<and>
     verify_reasons (captured env s) (prepared_batch env caller drafts s) (at_recheck env s) = [] \<and>
     batch_image caller drafts (captured env s) (prepared_batch env caller drafts s)
       (at_recheck env s) = Inr (st_state s') \<and>
     committed ip (st_state s') (at_recheck env s) s' \<and>
     (if index_consistent (st_index s') (ds_lists (st_state s'))
      then out = finish_outcome s' (dr_id (last drafts)) (st_snapshot_counter (at_recheck env s))
             (initial_outcome (st_limits s) drafts)
      else mo_status out = St_Internal)"

lemma prepared_batch_last:
  "drafts \<noteq> [] \<Longrightarrow> pm_id (last (prepared_batch env caller drafts s)) = dr_id (last drafts)"
  by (simp add: prepared_batch_def last_map prepared_mutation_def)

lemma fold_frame:
  "(\<And>x y. f (g x y) = f y) \<Longrightarrow> f (fold g xs y) = f y"
  by (induction xs arbitrary: y) simp_all

lemma replay_outcome_flags [simp]:
  "mo_status (replay_outcome s drafts out) = St_Ok"
  "mo_idempotent_replay (replay_outcome s drafts out)"
  "mo_result (replay_outcome s drafts out) = mo_result out"
  "mo_durable (replay_outcome s drafts out) \<longleftrightarrow> st_persistence s \<noteq> None"
  unfolding replay_outcome_def
  by (simp_all add: fold_frame [where f = mo_status] fold_frame [where f = mo_idempotent_replay]
      fold_frame [where f = mo_result] fold_frame [where f = mo_durable] split: option.split)

lemma prepare_status:
  assumes "prepare_batch env caller drafts intent re ra s = (Inl out, s')"
  shows "mo_status out \<noteq> St_Internal"
  using assms
  by (auto simp: prepare_batch_def prepare_locked_def Let_def
      split: if_splits option.splits prod.splits)

lemma run_batch_cases:
  assumes run: "run_batch ip env caller drafts intent re ra s = (out, s')"
    and env: "interference_ok env" and cap: "0 < max_reasons (st_limits s)"
  shows "batch_rejected env s out s' \<or> batch_replayed env caller drafts s out s' \<or>
         batch_committed ip env caller drafts intent re ra s out s'"
proof (cases "prepare_batch env caller drafts intent re ra s")
  case (Pair r t)
  show ?thesis
  proof (cases r)
    case (Inl o1)
    with run Pair have p: "prepare_batch env caller drafts intent re ra s = (Inl out, s')"
      by (simp add: run_batch_def)
    show ?thesis
    proof (cases "mo_status out = St_Ok")
      case True
      then show ?thesis using prepare_batch_ok [OF p True env cap] by (auto simp: batch_replayed_def)
    next
      case False
      then show ?thesis
        using prepare_batch_Inl [OF p] prepare_status [OF p] by (simp add: batch_rejected_def)
    qed
  next
    case (Inr cp)
    obtain ctx prepared where cp: "cp = (ctx, prepared)" by (cases cp)
    note pre = prepare_batch_Inr [OF Pair [unfolded Inr cp] env cap]
    have com: "commit_batch ip caller drafts ctx prepared (at_recheck env s) = (out, s')"
      using run Pair Inr cp pre by (simp add: run_batch_def at_recheck_def)
    have lim: "st_limits (at_recheck env s) = st_limits s"
      using env by (simp add: at_recheck_def at_capture_def interference_limits)
    have pb: "prepared = prepared_batch env caller drafts s" "ctx = captured env s"
      using pre by (auto simp: prepared_batch_def)
    note pl = prepared_batch_last [of drafts env caller s]
    from commit_batch_cases [OF com [unfolded pb], unfolded lim, OF cap] show ?thesis
    proof
      assume "mo_status out \<noteq> St_Ok \<and> mo_status out \<noteq> St_Internal \<and> same_tables (at_recheck env s) s'"
      then show ?thesis by (auto simp: batch_rejected_def left_by_others_def)
    next
      assume "\<exists>img. verify_reasons (captured env s) (prepared_batch env caller drafts s)
          (at_recheck env s) = [] \<and>
        batch_image caller drafts (captured env s) (prepared_batch env caller drafts s)
          (at_recheck env s) = Inr img \<and> committed ip img (at_recheck env s) s' \<and>
        (if index_consistent (st_index s') (ds_lists img)
         then out = finish_outcome s' (pm_id (last (prepared_batch env caller drafts s)))
                (st_snapshot_counter (at_recheck env s)) (initial_outcome (st_limits s) drafts)
         else mo_status out = St_Internal)"
      moreover have "st_state s' = img" if "committed ip img (at_recheck env s) s'" for img
        using that by (simp add: committed_def)
      ultimately show ?thesis
        using pre pl unfolding batch_committed_def pb(2) batch_size_ok_def by metis
    qed
  qed
qed

section \<open>What a commit writes\<close>

lemma supersede_slot_frame:
  assumes "supersede_slot limits pm st = Inr st'"
  shows "ds_revision st' = ds_revision st" "ds_attempts st' = ds_attempts st"
    "map sl_id (ds_lists st') = map sl_id (ds_lists st)"
  using assms
  by (auto simp: supersede_slot_def find_in_state_def Let_def dest: find_key_SomeD
      split: if_splits option.splits)

lemma commit_slot_frame [simp]:
  "ds_revision (commit_slot limits pm st) = ds_revision st"
  "ds_attempts (commit_slot limits pm st) = ds_attempts st"
  by (simp_all add: commit_slot_def split: option.split)

lemma commit_slot_lists:
  assumes "sl_id (pm_list pm) = pm_id pm"
  shows "ds_lists (commit_slot limits pm st) = upsert sl_id (pm_list pm) (ds_lists st)"
  using assms by (simp add: commit_slot_def upsert_def find_in_state_def split: option.split)

lemma supersede_slot_other:
  assumes "supersede_slot limits pm st = Inr st'" and "i \<noteq> pm_superseded_id pm"
  shows "find_in_state st' i = find_in_state st i"
  using assms
  by (auto simp: supersede_slot_def find_in_state_def Let_def find_key_update_key
      dest: find_key_SomeD split: if_splits option.splits)

lemma apply_mutations_frame:
  assumes "apply_mutations limits attempt payload pms st = Inr st'"
    and "\<forall>pm \<in> set pms. sl_id (pm_list pm) = pm_id pm"
  shows "ds_revision st' = ds_revision st \<and>
    (distinct (map sl_id (ds_lists st)) \<longrightarrow> distinct (map sl_id (ds_lists st'))) \<and>
    sl_id ` set (ds_lists st') = sl_id ` set (ds_lists st) \<union> pm_id ` set pms"
  using assms
proof (induction pms arbitrary: st)
  case (Cons pm pms)
  obtain t where t: "supersede_slot limits pm st = Inr t"
    using Cons.prems(1) by (auto split: sum.splits)
  let ?t = "record_attempt attempt (pm_id pm) payload (sl_generation (pm_list pm))
      (append_history limits (pm_list pm) (commit_slot limits pm t))"
  note fr = supersede_slot_frame [OF t]
  have ids: "sl_id (pm_list pm) = pm_id pm" using Cons.prems(2) by simp
  have keys: "sl_id ` set (ds_lists t) = sl_id ` set (ds_lists st)"
    using fr(3) by (metis list.set_map)
  have "apply_mutations limits attempt payload pms ?t = Inr st'" using Cons.prems(1) t by simp
  from Cons.IH [OF this] Cons.prems(2) show ?case
    using fr keys ids distinct_upsert [of sl_id "ds_lists t" "pm_list pm"]
    by (simp add: commit_slot_lists key_set_upsert)
qed simp

lemma apply_mutations_other:
  assumes "apply_mutations limits attempt payload pms st = Inr st'"
    and "\<forall>pm \<in> set pms. sl_id (pm_list pm) = pm_id pm"
    and "\<forall>pm \<in> set pms. i \<noteq> pm_id pm \<and> i \<noteq> pm_superseded_id pm"
  shows "find_in_state st' i = find_in_state st i"
  using assms
proof (induction pms arbitrary: st)
  case (Cons pm pms)
  obtain t where t: "supersede_slot limits pm st = Inr t"
    using Cons.prems(1) by (auto split: sum.splits)
  have "find_in_state (commit_slot limits pm t) i = find_in_state st i"
    using supersede_slot_other [OF t, of i] Cons.prems(2,3)
    by (simp add: find_in_state_def commit_slot_lists find_key_upsert)
  then show ?case using Cons t by (auto simp: find_in_state_def)
qed simp

lemma apply_mutations_attempts:
  assumes "apply_mutations limits attempt payload pms st = Inr st'"
  shows "find_attempt st' b =
    (if b = attempt \<and> pms \<noteq> []
     then Some \<lparr>dar_attempt = attempt, dar_list = pm_id (last pms), dar_payload = payload,
        dar_generation = sl_generation (pm_list (last pms)), dar_committed = True\<rparr>
     else find_attempt st b)"
  using assms
proof (induction pms arbitrary: st)
  case (Cons pm pms)
  obtain t where t: "supersede_slot limits pm st = Inr t"
    using Cons.prems(1) by (auto split: sum.splits)
  have "find_attempt (append_history limits x (commit_slot limits pm t)) b = find_attempt st b" for x b
    using supersede_slot_frame(2) [OF t] by (simp add: find_attempt_def)
  with Cons.IH Cons.prems t show ?case
    by (auto simp: find_attempt_record split: if_splits)
qed simp

lemma prepared_batch_ids: "\<forall>pm \<in> set (prepared_batch env caller drafts s). sl_id (pm_list pm) = pm_id pm"
  by (auto simp: prepared_batch_def prepared_mutation_def make_list_def make_content_def Let_def)

lemma batch_image_Inr:
  assumes "batch_image caller drafts ctx prepared s = Inr img"
  obtains nxt where "apply_mutations (st_limits s) (ca_attempt caller) (batch_payload_digest drafts)
      prepared ((st_state s)\<lparr>ds_revision := ds_revision (st_state s) + 1\<rparr>) = Inr nxt"
    "img = (capture_tables s nxt)\<lparr>ds_epoch := pc_epoch ctx\<rparr>"
  using assms
  by (cases "apply_mutations (st_limits s) (ca_attempt caller) (batch_payload_digest drafts)
      prepared ((st_state s)\<lparr>ds_revision := ds_revision (st_state s) + 1\<rparr>)")
     (auto simp: batch_image_def)

lemma batch_committed_image:
  assumes "batch_committed ip env caller drafts intent re ra s out s'"
  shows "ds_revision (st_state s') = ds_revision (st_state (at_recheck env s)) + 1"
    and "distinct (map sl_id (ds_lists (st_state (at_recheck env s)))) \<Longrightarrow>
         distinct (map sl_id (ds_lists (st_state s')))"
    and "find_attempt (st_state s') b =
      (if b = ca_attempt caller
       then Some \<lparr>dar_attempt = b, dar_list = dr_id (last drafts),
          dar_payload = batch_payload_digest drafts,
          dar_generation = sl_generation (pm_list (last (prepared_batch env caller drafts s))),
          dar_committed = True\<rparr>
       else find_attempt (st_state (at_recheck env s)) b)"
    and "\<forall>d \<in> set drafts. i \<noteq> dr_id d \<and> i \<noteq> dr_supersedes d \<Longrightarrow>
         find_in_state (st_state s') i = find_in_state (st_state (at_recheck env s)) i"
    and "\<forall>d \<in> set drafts. find_in_state (st_state s') (dr_id d) \<noteq> None"
proof -
  let ?r = "at_recheck env s" and ?pb = "prepared_batch env caller drafts s"
  have ne: "drafts \<noteq> []" "?pb \<noteq> []"
    using assms by (auto simp: batch_committed_def prepared_batch_def batch_size_ok_def)
  obtain nxt where a: "apply_mutations (st_limits ?r) (ca_attempt caller)
      (batch_payload_digest drafts) ?pb ((st_state ?r)\<lparr>ds_revision := ds_revision (st_state ?r) + 1\<rparr>) =
      Inr nxt" and img: "st_state s' = (capture_tables ?r nxt)\<lparr>ds_epoch := pc_epoch (captured env s)\<rparr>"
    using assms by (auto simp: batch_committed_def elim: batch_image_Inr)
  note fr = apply_mutations_frame [OF a prepared_batch_ids]
  show "ds_revision (st_state s') = ds_revision (st_state ?r) + 1" using fr img by simp
  show "distinct (map sl_id (ds_lists (st_state ?r))) \<Longrightarrow> distinct (map sl_id (ds_lists (st_state s')))"
    using fr img by simp
  show "find_attempt (st_state s') b =
      (if b = ca_attempt caller
       then Some \<lparr>dar_attempt = b, dar_list = dr_id (last drafts),
          dar_payload = batch_payload_digest drafts,
          dar_generation = sl_generation (pm_list (last ?pb)), dar_committed = True\<rparr>
       else find_attempt (st_state ?r) b)"
    using apply_mutations_attempts [OF a, of b] ne img prepared_batch_last [of drafts env caller s]
    by (simp add: find_attempt_def)
  have "pm_id ` set ?pb = dr_id ` set drafts"
    by (force simp: prepared_batch_def prepared_mutation_def)
  then show "\<forall>d \<in> set drafts. find_in_state (st_state s') (dr_id d) \<noteq> None"
    using fr img by (auto simp: find_in_state_def find_key_None_iff)
  show "find_in_state (st_state s') i = find_in_state (st_state ?r) i"
    if "\<forall>d \<in> set drafts. i \<noteq> dr_id d \<and> i \<noteq> dr_supersedes d"
    using apply_mutations_other [OF a prepared_batch_ids, of i] that img
    by (auto simp: find_in_state_def prepared_batch_def prepared_mutation_def)
qed

lemma finish_outcome_flags [simp]:
  "mo_status (finish_outcome s i snap out) = St_Ok"
  "mo_idempotent_replay (finish_outcome s i snap out) = mo_idempotent_replay out"
  "mo_durable (finish_outcome s i snap out) \<longleftrightarrow> st_persistence s \<noteq> None"
  "mo_list (finish_outcome s i snap out) = i"
  by (simp_all add: finish_outcome_def Let_def split: option.split)

lemma initial_outcome_flags [simp]:
  "\<not> mo_idempotent_replay (initial_outcome l drafts)" "\<not> mo_idempotent_replay (fresh_outcome l)"
  by (simp_all add: initial_outcome_def fresh_outcome_def)

lemma batch_committed_ok:
  assumes "batch_committed ip env caller drafts intent re ra s out s'"
    and "index_ok (at_recheck env s)"
  shows "index_ok s'" and "out = finish_outcome s' (dr_id (last drafts))
    (st_snapshot_counter (at_recheck env s)) (initial_outcome (st_limits s) drafts)"
proof -
  have d: "distinct (map sl_id (ds_lists (st_state s')))"
    using batch_committed_image(2) [OF assms(1)] assms(2) by (simp add: index_ok_def)
  have i: "st_index s' = build_index (ds_lists (st_state s'))"
    using assms(1) by (simp add: batch_committed_def committed_def)
  with d show "index_ok s'" by (simp add: index_ok_def)
  show "out = finish_outcome s' (dr_id (last drafts))
      (st_snapshot_counter (at_recheck env s)) (initial_outcome (st_limits s) drafts)"
    using assms(1) index_consistent_build [OF d] i by (simp add: batch_committed_def)
qed

section \<open>What was validated\<close>

definition draft_request ::
  "CallerIdentity \<Rightarrow> LifecycleEvent \<Rightarrow> bool \<Rightarrow> bool \<Rightarrow> PreparedContext \<Rightarrow> ListDraft \<Rightarrow> Resolved \<Rightarrow>
   ValidationRequest" where
  "draft_request caller intent re ra ctx draft res =
     (build_request caller draft intent True ctx res)
       \<lparr>vq_require_existing := re, vq_require_absent := ra\<rparr>"

lemma draft_request_simps [simp]:
  "vq_limits (draft_request caller intent re ra ctx draft res) = Some (pc_limits ctx)"
  "vq_caller (draft_request caller intent re ra ctx draft res) = Some caller"
  "vq_authority (draft_request caller intent re ra ctx draft res) = Some (pc_authority ctx)"
  "vq_list_id (draft_request caller intent re ra ctx draft res) = dr_id draft"
  "vq_scope (draft_request caller intent re ra ctx draft res) = dr_scope draft"
  "vq_existing (draft_request caller intent re ra ctx draft res) = re_existing res"
  "vq_expected_generation (draft_request caller intent re ra ctx draft res) =
     dr_expected_generation draft"
  "vq_intent (draft_request caller intent re ra ctx draft res) = intent"
  "vq_full (draft_request caller intent re ra ctx draft res)"
  "vq_profile (draft_request caller intent re ra ctx draft res) = re_profile res"
  "vq_profile_id (draft_request caller intent re ra ctx draft res) = dr_profile draft"
  "vq_path (draft_request caller intent re ra ctx draft res) = dr_path draft"
  "vq_path_authority (draft_request caller intent re ra ctx draft res) = dr_path_authority draft"
  "vq_route (draft_request caller intent re ra ctx draft res) = dr_route draft"
  "vq_route_generation (draft_request caller intent re ra ctx draft res) = dr_route_generation draft"
  "vq_constraint (draft_request caller intent re ra ctx draft res) = dr_constraint draft"
  "vq_constraint_generation (draft_request caller intent re ra ctx draft res) =
     dr_constraint_generation draft"
  "vq_segments (draft_request caller intent re ra ctx draft res) = dr_segments draft"
  "vq_evidence (draft_request caller intent re ra ctx draft res) = Some (pc_evidence ctx)"
  "vq_require_existing (draft_request caller intent re ra ctx draft res) = re"
  "vq_require_absent (draft_request caller intent re ra ctx draft res) = ra"
  by (simp_all add: draft_request_def build_request_def)

lemma draft_result_admissible:
  assumes "vr_ok (draft_result caller intent re ra ctx draft res)" and "0 < max_reasons (pc_limits ctx)"
  shows "admissible (draft_request caller intent re ra ctx draft res)"
    and "supersede_reasons draft res = []"
proof -
  let ?r = "draft_request caller intent re ra ctx draft res"
  have cap: "0 < reason_cap (vq_limits ?r)"
    using assms(2) by (simp add: reason_cap_def word_less_nat_alt)
  then have capv: "0 < vr_cap (validate_request ?r)" by (simp add: request.run_cap)
  have ok: "vr_ok (validate_request ?r)"
    "\<forall>x \<in> set (supersede_reasons draft res). rs_code x = RC_Ok"
    using assms(1)
    unfolding draft_result_def draft_request_def [symmetric] vr_ok_add_all [OF capv] by auto
  show "admissible ?r" using request.run_ok [OF cap] phases_empty ok(1) by simp
  have "\<forall>x \<in> set (supersede_reasons draft res). rs_code x \<noteq> RC_Ok"
    by (auto simp: supersede_reasons_def split: option.splits if_splits)
  with ok(2) show "supersede_reasons draft res = []"
    by (cases "supersede_reasons draft res") auto
qed

lemma captured_simps [simp]:
  "pc_limits (captured env s) = st_limits (at_capture env s)"
  "pc_authority (captured env s) = st_authority (at_capture env s)"
  "pc_epoch (captured env s) = at_epoch (st_authority (at_capture env s))"
  "pc_registry_revision (captured env s) = rg_revision (st_registry (at_capture env s))"
  "pc_store_revision (captured env s) = ds_revision (st_state (at_capture env s))"
  "pc_watermark (captured env s) =
     (case st_evidence s of Some e \<Rightarrow> watermark e | None \<Rightarrow> empty_watermark)"
  "pc_evidence (captured env s) =
     (case st_evidence (iv_snapshot env s) of Some e \<Rightarrow> snapshot e | None \<Rightarrow> empty_evidence)"
  by (simp_all add: captured_def capture_context_def authority_view_def)

lemma batch_committed_admissible:
  assumes "batch_committed ip env caller drafts intent re ra s out s'" and "interference_ok env"
    and "0 < max_reasons (st_limits s)" and "d \<in> set drafts"
  shows "admissible (draft_request caller intent re ra (captured env s) d (resolve (at_capture env s) d))"
    and "supersede_reasons d (resolve (at_capture env s) d) = []"
  using assms draft_result_admissible [of caller intent re ra "captured env s" d "resolve (at_capture env s) d"]
  by (simp_all add: batch_committed_def at_capture_def interference_limits)

lemma batch_committed_attempt:
  assumes "batch_committed ip env caller drafts intent re ra s out s'" and "interference_ok env"
    and "0 < max_reasons (st_limits s)"
  shows "valid (ca_attempt caller)"
proof -
  obtain d where "d \<in> set drafts" using assms(1) 
    by (cases drafts) (auto simp: batch_committed_def batch_size_ok_def)
  from batch_committed_admissible(1) [OF assms this] show ?thesis
    by (simp add: admissible_def caller_admissible_def)
qed

section \<open>The three endings, by outcome\<close>

lemma committed_flags:
  assumes "batch_committed ip env caller drafts intent re ra s out s'" and "index_ok (at_recheck env s)"
  shows "mo_status out = St_Ok" "\<not> mo_idempotent_replay out"
    "mo_durable out \<longleftrightarrow> st_persistence s' \<noteq> None"
  by (simp_all add: batch_committed_ok(2) [OF assms])

lemma acknowledged_committed:
  assumes "run_batch ip env caller drafts intent re ra s = (out, s')" and "interference_ok env"
    and "0 < max_reasons (st_limits s)" and "mo_status out = St_Ok" and "\<not> mo_idempotent_replay out"
  shows "batch_committed ip env caller drafts intent re ra s out s'"
  using run_batch_cases [OF assms(1-3)] assms(4,5)
  by (auto simp: batch_rejected_def batch_replayed_def)

lemma unacknowledged_rejected:
  assumes "run_batch ip env caller drafts intent re ra s = (out, s')" and "interference_ok env"
    and "0 < max_reasons (st_limits s)" and "index_ok (at_recheck env s)" and "mo_status out \<noteq> St_Ok"
  shows "batch_rejected env s out s'"
  using run_batch_cases [OF assms(1-3)] committed_flags(1) [of ip env caller drafts intent re ra s out s']
    assms(4,5) by (auto simp: batch_replayed_def)

lemma unrecorded_not_replayed:
  "recorded_attempt (at_capture env s) caller = None \<Longrightarrow>
   \<not> batch_replayed env caller drafts s out s'"
  by (simp add: batch_replayed_def)

section \<open>Replays\<close>

definition evidence_fits :: "'p Store \<Rightarrow> bool" where
  "evidence_fits s \<longleftrightarrow>
     (\<forall>e. st_evidence s = Some e \<longrightarrow>
        evidence_record_count (snapshot e) \<le> unat (max_evidence_records (st_limits s)))"

lemma undisturbed [simp]:
  "at_capture no_interference s = s" "at_recheck no_interference s = s"
  "left_by_others no_interference s = {s}" "iv_begin no_interference s = s"
  "iv_snapshot no_interference s = s" "iv_lock no_interference s = s"
  "iv_commit no_interference s = s"
  by (simp_all add: at_capture_def at_recheck_def left_by_others_def no_interference_def)

text \<open>The report of an outcome: which list, at which generation, with which content digest.\<close>

definition reported :: "MutationOutcome \<Rightarrow> SegmentListId \<times> SegmentListGeneration \<times> Digest128" where
  "reported out = (mo_list out, mo_generation out, mo_digest out)"

lemma find_locked_snapshot [simp]: "find_locked (take_snapshot_id s) i = find_locked s i"
  by (simp add: find_locked_def split: list.split)

lemma replay_reported_last:
  assumes "drafts \<noteq> []" and "find_locked s (dr_id (last drafts)) = Some l"
  shows "reported (replay_outcome s drafts out) =
         (dr_id (last drafts), sl_generation l, sl_content_digest l)"
proof -
  obtain ds d where "drafts = ds @ [d]" using assms(1) by (metis append_butlast_last_id)
  with assms show ?thesis by (simp add: replay_outcome_def reported_def)
qed

lemma finish_reported:
  "find_locked s i = Some l \<Longrightarrow>
   reported (finish_outcome s i snap out) = (i, sl_generation l, sl_content_digest l)"
  by (simp add: finish_outcome_def reported_def Let_def)

lemma replay_reported_snapshot:
  "reported (replay_outcome (take_snapshot_id s) drafts out) = reported (replay_outcome s drafts out)"
  by (simp add: replay_outcome_def reported_def)

lemma replay_run:
  assumes "recorded_attempt s caller = Some record"
    and "dar_payload record = batch_payload_digest drafts"
    and "batch_size_ok s drafts" and "evidence_fits s"
  shows "run_batch ip no_interference caller drafts intent re ra s =
    (replay_outcome s drafts (initial_outcome (st_limits s) drafts), take_snapshot_id s)"
proof -
  have r: "(if valid (ca_attempt caller) then find_attempt (st_state s) (ca_attempt caller)
      else None) = Some record"
    using assms(1) by (simp add: recorded_attempt_def)
  have "prepare_locked caller drafts intent re ra wm ev out s =
      (Inl (replay_outcome s drafts out), take_snapshot_id s)" for wm ev out
    using assms(2) by (simp add: prepare_locked_def Let_def r)
  then show ?thesis
    using assms(3,4)
    by (auto simp: run_batch_def prepare_batch_def Let_def batch_size_ok_def evidence_fits_def not_le
        split: option.splits)
qed

lemma acknowledged_recorded:
  assumes "run_batch ip env caller drafts intent re ra s = (out, s')" and "interference_ok env"
    and "0 < max_reasons (st_limits s)" and "index_ok (at_recheck env s)" and "mo_status out = St_Ok"
  shows "\<exists>record. recorded_attempt s' caller = Some record \<and>
           dar_payload record = batch_payload_digest drafts"
    and "batch_size_ok s' drafts" and "st_limits s' = st_limits s"
    and "reported out = reported (replay_outcome s' drafts (initial_outcome (st_limits s) drafts))"
proof -
  have lim: "st_limits (at_recheck env s) = st_limits s" "st_limits (at_capture env s) = st_limits s"
    using assms(2) by (simp_all add: at_recheck_def at_capture_def interference_limits)
  consider (replay) "batch_replayed env caller drafts s out s'"
    | (commit) "batch_committed ip env caller drafts intent re ra s out s'"
    using run_batch_cases [OF assms(1-3)] assms(5) by (auto simp: batch_rejected_def)
  then have "(\<exists>record. recorded_attempt s' caller = Some record \<and>
      dar_payload record = batch_payload_digest drafts) \<and> batch_size_ok s' drafts \<and>
      st_limits s' = st_limits s \<and>
      reported out = reported (replay_outcome s' drafts (initial_outcome (st_limits s) drafts))"
  proof cases
    case replay
    then show ?thesis
      using lim
      by (auto simp: batch_replayed_def recorded_attempt_def batch_size_ok_def
          replay_reported_snapshot split: if_splits)
  next
    case commit
    note ok = batch_committed_ok [OF commit assms(4)]
    have ne: "drafts \<noteq> []" and sz: "batch_size_ok s drafts"
      and l: "st_limits s' = st_limits s"
      using commit lim by (auto simp: batch_committed_def batch_size_ok_def committed_def)
    obtain l where f: "find_locked s' (dr_id (last drafts)) = Some l"
      using batch_committed_image(5) [OF commit] find_locked_scan [OF ok(1)] ne by fastforce
    have "reported out = reported (replay_outcome s' drafts (initial_outcome (st_limits s) drafts))"
      using finish_reported [OF f] replay_reported_last [OF ne f] ok(2) by simp
    then show ?thesis
      using batch_committed_image(3) [OF commit, of "ca_attempt caller"]
        batch_committed_attempt [OF commit assms(2,3)] sz l
      by (auto simp: recorded_attempt_def batch_size_ok_def)
  qed
  then show "\<exists>record. recorded_attempt s' caller = Some record \<and>
      dar_payload record = batch_payload_digest drafts" "batch_size_ok s' drafts"
    "st_limits s' = st_limits s"
    "reported out = reported (replay_outcome s' drafts (initial_outcome (st_limits s) drafts))"
    by auto
qed

lemma reuse_run:
  assumes "recorded_attempt (at_capture env s) caller = Some record"
    and "dar_payload record \<noteq> batch_payload_digest drafts"
    and "batch_size_ok s drafts" and "evidence_fits (iv_snapshot env s)"
    and "st_limits (iv_snapshot env s) = st_limits s"
  shows "run_batch ip env caller drafts intent re ra s =
    (reject St_Conflict RC_CommitReplayPayloadMismatch (ca_attempt caller)
       (initial_outcome (st_limits s) drafts), at_capture env s)"
proof -
  have r: "(if valid (ca_attempt caller)
      then find_attempt (st_state (at_capture env s)) (ca_attempt caller) else None) = Some record"
    using assms(1) by (simp add: recorded_attempt_def)
  have "prepare_locked caller drafts intent re ra wm ev out (at_capture env s) =
      (Inl (reject St_Conflict RC_CommitReplayPayloadMismatch (ca_attempt caller) out),
       at_capture env s)" for wm ev out
    using assms(2) by (simp add: prepare_locked_def Let_def r)
  then show ?thesis
    using assms(3-5)
    by (auto simp: run_batch_def prepare_batch_def Let_def batch_size_ok_def evidence_fits_def not_le
        at_capture_def split: option.splits)
qed

section \<open>Single drafts\<close>

definition committed_list :: "'p Interference \<Rightarrow> CallerIdentity \<Rightarrow> ListDraft \<Rightarrow> 'p Store \<Rightarrow> SegmentList" where
  "committed_list env caller d s =
     make_list caller d (captured env s) (resolve (at_capture env s) d)
       (find_locked (at_capture env s) (dr_id d)) (at_epoch (st_authority (at_capture env s)))
       (ds_revision (st_state (at_capture env s)) + 1)"

lemma prepared_single:
  "prepared_batch env caller [d] s =
     [prepared_mutation caller (captured env s) d (resolve (at_capture env s) d)]"
  "pm_list (prepared_mutation caller (captured env s) d (resolve (at_capture env s) d)) =
     committed_list env caller d s"
  by (simp_all add: prepared_batch_def prepared_mutation_def committed_list_def resolve_def)

lemma committed_list_id: "sl_id (committed_list env caller d s) = dr_id d"
  by (simp add: committed_list_def make_list_def make_content_def Let_def)

lemma new_revision_active: "new_revision_state = LS_Active"
  by (simp add: new_revision_state_def lifecycle_eval)

lemma supersede_begin_superseded:
  "lifecycle_transition st LE_SupersedeBegin = Some st' \<Longrightarrow> st' = LS_Superseded"
  by (cases st) (auto simp: lifecycle_eval)

lemma single_commit:
  assumes c: "batch_committed ip env caller [d] intent re ra s out s'"
    and ok: "index_ok (at_recheck env s)"
  shows "find_locked s' (dr_id d) = Some (committed_list env caller d s)"
    and "i \<noteq> dr_id d \<Longrightarrow> i \<noteq> dr_supersedes d \<Longrightarrow> find_locked s' i = find_locked (at_recheck env s) i"
    and "valid (dr_supersedes d) \<Longrightarrow> dr_supersedes d \<noteq> dr_id d \<Longrightarrow>
      find_locked (at_capture env s) (dr_supersedes d) \<noteq> None \<Longrightarrow>
      find_locked (at_recheck env s) (dr_supersedes d) = Some l \<Longrightarrow>
      \<exists>l'. find_locked s' (dr_supersedes d) = Some l' \<and> sl_state l' = LS_Superseded \<and>
           ln_superseded_by (sl_lineage l') = dr_id d \<and> sl_content l' = sl_content l \<and>
           sl_generation l' = sl_generation l"
proof -
  let ?r = "at_recheck env s"
  let ?pm = "prepared_mutation caller (captured env s) d (resolve (at_capture env s) d)"
  let ?st = "(st_state ?r)\<lparr>ds_revision := ds_revision (st_state ?r) + 1\<rparr>"
  note scan = find_locked_scan [OF batch_committed_ok(1) [OF c ok]]
  note scan_r = find_locked_scan [OF ok]
  have pm: "pm_id ?pm = dr_id d" "pm_superseded_id ?pm = dr_supersedes d"
    "pm_list ?pm = committed_list env caller d s"
    by (simp_all add: prepared_single) (simp_all add: prepared_mutation_def)
  obtain nxt where a: "apply_mutations (st_limits ?r) (ca_attempt caller) (batch_payload_digest [d])
      [?pm] ?st = Inr nxt" and img: "ds_lists (st_state s') = ds_lists nxt"
    using c by (auto simp: batch_committed_def prepared_single elim!: batch_image_Inr)
  obtain t where t: "supersede_slot (st_limits ?r) ?pm ?st = Inr t"
    using a by (auto split: sum.splits)
  have "ds_lists (commit_slot (st_limits ?r) ?pm t) =
      upsert sl_id (committed_list env caller d s) (ds_lists t)"
    using commit_slot_lists [of ?pm] pm by (simp add: committed_list_id)
  then have lists: "ds_lists (st_state s') = upsert sl_id (committed_list env caller d s) (ds_lists t)"
    using a t img by auto
  show "find_locked s' (dr_id d) = Some (committed_list env caller d s)"
    using lists scan by (simp add: find_in_state_def find_key_upsert committed_list_id)
  show "find_locked s' i = find_locked ?r i" if "i \<noteq> dr_id d" "i \<noteq> dr_supersedes d"
    using supersede_slot_other [OF t, of i] that lists scan scan_r pm
    by (simp add: find_in_state_def find_key_upsert committed_list_id)
  show "\<exists>l'. find_locked s' (dr_supersedes d) = Some l' \<and> sl_state l' = LS_Superseded \<and>
      ln_superseded_by (sl_lineage l') = dr_id d \<and> sl_content l' = sl_content l \<and>
      sl_generation l' = sl_generation l"
    if sup: "valid (dr_supersedes d)" "dr_supersedes d \<noteq> dr_id d"
      "find_locked (at_capture env s) (dr_supersedes d) \<noteq> None"
      "find_locked ?r (dr_supersedes d) = Some l"
  proof -
    have has: "pm_has_superseded ?pm" using sup by (simp add: prepared_mutation_def resolve_def)
    have f: "find_key sl_id (dr_supersedes d) (ds_lists (st_state ?r)) = Some l"
      using sup(4) scan_r by (simp add: find_in_state_def)
    have idl: "sl_id l = dr_supersedes d" using find_key_SomeD [OF f] by simp
    have fl: "find_locked s' (dr_supersedes d) = find_key sl_id (dr_supersedes d) (ds_lists t)"
      using lists sup(2) scan by (simp add: find_in_state_def find_key_upsert committed_list_id)
    obtain x where x: "lifecycle_transition (sl_state l) LE_SupersedeBegin = Some x"
      and lt: "ds_lists t = update_key sl_id (dr_supersedes d)
        (\<lambda>_. l\<lparr>sl_state := x, sl_lineage := (sl_lineage l)\<lparr>ln_superseded_by := dr_id d\<rparr>,
               sl_currentness := Cu_Unknown, sl_committed_revision := ds_revision ?st\<rparr>)
        (ds_lists (st_state ?r))"
      using t has f pm
      by (auto simp: supersede_slot_def find_in_state_def Let_def split: option.splits)
    show ?thesis
      unfolding fl lt
      using supersede_begin_superseded [OF x] f idl by (simp add: find_key_update_key)
  qed
qed

text \<open>A draft that names an existing list whose state denies the intent is never committed.\<close>

lemma denied_not_committed:
  assumes "interference_ok env" and "0 < max_reasons (st_limits s)" and "d \<in> set drafts"
    and "find_locked (at_capture env s) (dr_id d) = Some l"
    and "lifecycle_transition (sl_state l) intent = None"
  shows "\<not> batch_committed ip env caller drafts intent re ra s out s'"
  using batch_committed_admissible(1) [OF _ assms(1-3), of ip caller intent re ra out s'] assms(4,5)
  by (auto simp: admissible_def list_admissible_def resolve_def)

end
