(* ===== verification/StoreProgress.thy ===== *)
theory StoreProgress
  imports StoreGuarantees
begin

text \<open>
  Progress of the store: an undisturbed mutation whose request is admissible and for which there is
  room commits, and what a single committed draft leaves behind.
\<close>

section \<open>Single drafts\<close>

lemma list_generation_valid:
  assumes "admissible (draft_request caller intent re ra ctx d res)"
  shows "valid (sl_generation (make_list caller d ctx res (re_existing res) e r))"
    and "\<And>l. re_existing res = Some l \<Longrightarrow> \<not> exhausted (sl_generation l)"
  using assms
  by (auto simp: admissible_def list_admissible_def make_list_def Let_def valid_succ
      split: option.splits)

lemma prepare_draft_succeeds:
  assumes "vr_ok (draft_result caller intent re ra ctx d res)" and "0 < max_reasons (pc_limits ctx)"
  shows "prepare_draft caller intent re ra ctx d res c = (c, prepared_mutation caller ctx d res)"
  using list_generation_valid [OF draft_result_admissible(1) [OF assms]] assms(1)
  by (auto simp: prepare_draft_def prepared_mutation_def Let_def split: option.split)

text \<open>The room a draft needs in the list table and in the segment total.\<close>

definition room_for :: "ListDraft \<Rightarrow> 'p Store \<Rightarrow> bool" where
  "room_for d s \<longleftrightarrow>
     (let new = find_locked s (dr_id d) = None; ls = ds_lists (st_state s) in
      length ls + (if new then 1 else 0) \<le> unat (max_lists (st_limits s)) \<and>
      count_segments ls + (if new then length (dr_segments d) else 0) \<le>
        unat (max_total_segments (st_limits s)))"

definition ready ::
  "CallerIdentity \<Rightarrow> ListDraft \<Rightarrow> LifecycleEvent \<Rightarrow> bool \<Rightarrow> bool \<Rightarrow> 'p Store \<Rightarrow> bool" where
  "ready caller d intent re ra s \<longleftrightarrow>
     index_ok s \<and> 0 < max_reasons (st_limits s) \<and> 0 < max_batch_size (st_limits s) \<and>
     evidence_fits s \<and> recorded_attempt s caller = None \<and>
     attempt_table_accepts (st_limits s) (st_state s) (ca_attempt caller) \<and>
     vr_ok (draft_result caller intent re ra (captured no_interference s) d (resolve s d)) \<and>
     room_for d s"

definition saves :: "'p IPersistence \<Rightarrow> 'p Store \<Rightarrow> bool" where
  "saves ip s \<longleftrightarrow> (\<forall>img v. fst (persist_locked ip img v s))"

lemma prepare_single:
  assumes "ready caller d intent re ra s"
  shows "prepare_batch no_interference caller [d] intent re ra s =
    (Inr (captured no_interference s,
          [prepared_mutation caller (captured no_interference s) d (resolve s d)]), s)"
proof -
  let ?ctx = "captured no_interference s"
  have ok: "vr_ok (draft_result caller intent re ra ?ctx d (resolve s d))"
    "0 < max_reasons (pc_limits ?ctx)"
    using assms by (simp_all add: ready_def)
  have none: "(if valid (ca_attempt caller) then find_attempt (st_state s) (ca_attempt caller)
      else None) = None"
    using assms by (simp add: ready_def recorded_attempt_def)
  have lock: "prepare_locked caller [d] intent re ra wm ev out s =
      (Inr (?ctx, [prepared_mutation caller ?ctx d (resolve s d)]), s)"
    if "capture_context wm ev s = ?ctx" for wm ev out
    using assms prepare_draft_succeeds [OF ok] that
    by (simp add: prepare_locked_def Let_def none ready_def) (simp add: vr_ok_def)
  have size: "0 < unat (max_batch_size (st_limits s))"
    using assms by (simp add: ready_def word_less_nat_alt)
  have fits: "\<not> (st_evidence s \<noteq> None \<and>
      unat (max_evidence_records (st_limits s)) <
      evidence_record_count (case st_evidence s of Some e \<Rightarrow> snapshot e | None \<Rightarrow> empty_evidence))"
    using assms by (auto simp: ready_def evidence_fits_def)
  have ctx: "capture_context (case st_evidence s of Some e \<Rightarrow> watermark e | None \<Rightarrow> empty_watermark)
      (case st_evidence s of Some e \<Rightarrow> snapshot e | None \<Rightarrow> empty_evidence) s = ?ctx"
    by (simp add: captured_def)
  show ?thesis
    using size fits lock [OF ctx]
    by (simp add: prepare_batch_def Let_def not_less Suc_le_eq split: option.splits)
qed

text \<open>
  The commit phase may see other publishers than the capture: the re-verification compares only the
  epoch of the authority table.
\<close>

lemma find_locked_authority [simp]: "find_locked (s\<lparr>st_authority := a\<rparr>) i = find_locked s i"
  by (simp add: find_locked_def split: list.split)

lemma verify_single:
  assumes "at_epoch a = at_epoch (st_authority s)"
  shows "verify_reasons (captured no_interference s)
     [prepared_mutation caller (captured no_interference s) d (resolve s d)] (s\<lparr>st_authority := a\<rparr>) = []"
proof -
  have "watermark_reasons (captured no_interference s) (s\<lparr>st_authority := a\<rparr>) = []"
    by (simp add: watermark_reasons_def split: option.split)
  moreover have "mutation_conflicts (s\<lparr>st_authority := a\<rparr>)
      (prepared_mutation caller (captured no_interference s) d (resolve s d)) = []"
    by (auto simp: mutation_conflicts_def prepared_mutation_def resolve_def split: option.split)
  ultimately show ?thesis using assms by (simp add: verify_reasons_def)
qed

text \<open>With the lists that were validated, an explicit supersession is permitted at commit.\<close>

lemma supersede_single:
  assumes "index_ok s" and "supersede_reasons d (resolve s d) = []" and "ds_lists st = ds_lists (st_state s)"
  shows "\<exists>t. supersede_slot limits (prepared_mutation caller ctx d (resolve s d)) st = Inr t"
  using assms find_locked_scan [OF assms(1), of "dr_supersedes d"]
  by (auto simp: supersede_slot_def prepared_mutation_def resolve_def supersede_reasons_def
      find_in_state_def Let_def split: option.splits if_splits)

lemma commit_prepared_image:
  assumes "ready caller d intent re ra s"
    and saved: "\<And>img v. batch_image caller [d] (captured no_interference s)
      [prepared_mutation caller (captured no_interference s) d (resolve s d)] t = Inr img \<Longrightarrow>
      vr_ok v \<Longrightarrow> fst (persist_locked ip img v t)"
    and t: "t = s\<lparr>st_authority := a\<rparr>"
    and ep: "at_epoch a = at_epoch (st_authority s)"
  shows "\<exists>out s'. commit_batch ip caller [d] (captured no_interference s)
      [prepared_mutation caller (captured no_interference s) d (resolve s d)] t = (out, s') \<and>
    mo_status out = St_Ok \<and> st_authority s' = a"
proof -
  let ?pm = "prepared_mutation caller (captured no_interference s) d (resolve s d)"
  have ids: "sl_id (pm_list ?pm) = pm_id ?pm"
    by (simp add: prepared_mutation_def make_list_def make_content_def Let_def)
  let ?st = "(st_state s)\<lparr>ds_revision := ds_revision (st_state s) + 1\<rparr>"
  have ix: "index_ok s" and none: "supersede_reasons d (resolve s d) = []"
    using assms(1) draft_result_admissible(2) [of caller intent re ra "captured no_interference s"]
    by (simp_all add: ready_def)
  obtain t0 where t0: "supersede_slot (st_limits s) ?pm ?st = Inr t0"
    using supersede_single [OF ix none, of ?st "st_limits s" caller "captured no_interference s"]
    by auto
  then have dt: "distinct (map sl_id (ds_lists t0))"
    using supersede_slot_frame(3) [OF t0] ix by (simp add: index_ok_def)
  obtain nxt where nxt: "apply_mutations (st_limits s) (ca_attempt caller) (batch_payload_digest [d])
      [?pm] ?st = Inr nxt" "ds_lists nxt = upsert sl_id (pm_list ?pm) (ds_lists t0)"
    using t0 by (simp add: commit_slot_lists [OF ids])
  let ?v = "set_limits (Some (st_limits s)) vr_success"
  let ?img = "(capture_tables t nxt)\<lparr>ds_epoch := at_epoch (st_authority s)\<rparr>"
  have "batch_image caller [d] (captured no_interference s) [?pm] t = Inr ?img"
    using nxt(1) t by (simp add: batch_image_def)
  moreover have "vr_ok ?v" by (simp add: vr_ok_def vr_success_def set_limits_def)
  ultimately have sv: "fst (persist_locked ip ?img ?v (take_snapshot_id t))"
    using saved by (fastforce simp: persist_locked_def Let_def split: option.splits prod.splits bool.splits)
  then obtain w u where p: "persist_locked ip ?img ?v (take_snapshot_id t) = (True, w, u)"
    by (cases "persist_locked ip ?img ?v (take_snapshot_id t)") auto
  have con: "index_consistent (build_index (ds_lists nxt)) (ds_lists nxt)"
    using dt nxt(2) by (simp add: index_consistent_build distinct_upsert)
  have fresh: "filter (\<lambda>pm. \<not> pm_has_existing pm) [?pm] =
      (if find_locked s (dr_id d) = None then [?pm] else [])"
    by (simp add: prepared_mutation_def resolve_def)
  have segs: "count_segments [pm_list ?pm] = length (dr_segments d)"
    by (simp add: count_segments_def prepared_mutation_def make_list_def make_content_def Let_def
        canonicalize_segments_def)
  have room: "length (ds_lists (st_state s)) + length (if find_locked s (dr_id d) = None then [?pm] else [])
        \<le> unat (max_lists (st_limits s))"
    "count_segments (ds_lists (st_state s)) +
       count_segments (map pm_list (if find_locked s (dr_id d) = None then [?pm] else []))
        \<le> unat (max_total_segments (st_limits s))"
    using assms(1) segs by (auto simp: ready_def room_for_def Let_def count_segments_def)
  have tt: "st_limits t = st_limits s" "st_state t = st_state s" "st_authority t = a"
    using t by simp_all
  have u: "st_authority u = a" using persist_locked_keeps(3) [OF p] tt by simp
  show ?thesis
    unfolding commit_batch_def Let_def verify_single [OF ep, folded t] fresh tt
    using room p con nxt(1) u by (simp add: not_less vr_ok_def)
qed

lemma commit_prepared:
  assumes "ready caller d intent re ra s" and "saves ip t" and "t = s\<lparr>st_authority := a\<rparr>"
    and "at_epoch a = at_epoch (st_authority s)"
  shows "\<exists>out s'. commit_batch ip caller [d] (captured no_interference s)
      [prepared_mutation caller (captured no_interference s) d (resolve s d)] t = (out, s') \<and>
    mo_status out = St_Ok \<and> st_authority s' = a"
  using assms(2) by (intro commit_prepared_image [OF assms(1) _ assms(3,4)]) (simp add: saves_def)

lemma commit_single_image:
  assumes "ready caller d intent re ra s"
    and "\<And>img v. batch_image caller [d] (captured no_interference s)
      [prepared_mutation caller (captured no_interference s) d (resolve s d)] s = Inr img \<Longrightarrow>
      vr_ok v \<Longrightarrow> fst (persist_locked ip img v s)"
  shows "\<exists>out s'. run_batch ip no_interference caller [d] intent re ra s = (out, s') \<and>
    mo_status out = St_Ok"
  using commit_prepared_image [OF assms, of "st_authority s"]
  by (auto simp: run_batch_def prepare_single [OF assms(1)])

lemma commit_single:
  assumes "ready caller d intent re ra s" and "saves ip s"
  shows "\<exists>out s'. run_batch ip no_interference caller [d] intent re ra s = (out, s') \<and>
    mo_status out = St_Ok"
  using assms(2) by (intro commit_single_image [OF assms(1)]) (simp add: saves_def)

end
