(* ===== verification/StoreExamples.thy ===== *)
theory StoreExamples
  imports StoreProgress
begin

text \<open>
  Concrete stores: the shipped governance profile, the fabricated fabric, one registered publisher,
  and a persistence object that keeps every image it was asked to write.
\<close>

definition journal :: "DurableState list IPersistence" where
  "journal = \<lparr>
     ip_save = (\<lambda>st limits out p. (True, out, st # p)),
     ip_load = (\<lambda>report limits p.
       case p of
         [] \<Rightarrow> (True, report, p)
       | st # _ \<Rightarrow> (True, report\<lparr>lr_loaded := True, lr_state := st\<rparr>, p))\<rparr>"

text \<open>A persistence object whose writes all fail.\<close>

definition broken_journal :: "DurableState list IPersistence" where
  "broken_journal = journal\<lparr>ip_save := (\<lambda>st limits out p. (False, out, p))\<rparr>"

definition store_example :: "DurableState list Store" where
  "store_example = (new_store default_limits (Some (make_synthetic_fabric 2)) (Some []))
     \<lparr>st_authority := view_example,
      st_registry := \<lparr>rg_profiles = [abstract_governance_profile], rg_policies = [],
                       rg_revision = 1\<rparr>\<rparr>"

definition draft_example :: "SegmentListGeneration \<Rightarrow> u64 \<Rightarrow> ListDraft" where
  "draft_example expected n = empty_draft\<lparr>dr_id := 11, dr_scope := 0x100, dr_profile := 0x10001,
     dr_segments := [fabric_segment_example n], dr_expected_generation := expected\<rparr>"

lemma store_example_config [simp]:
  "st_limits store_example = default_limits" "index_ok store_example"
  "ds_attempts (st_state store_example) = []" "ds_lists (st_state store_example) = []"
  "ds_history (st_state store_example) = []" "find_locked store_example i = None"
  "st_persistence store_example = Some []" "recorded_attempt store_example caller = None"
  "st_authority store_example = view_example"
  by (simp_all add: store_example_def new_store_def rebuild_index_def initial_state_def
      index_ok_def build_index_def find_locked_def lower_bound_def recorded_attempt_def
      find_attempt_def)

lemma journal_saves [simp]: "st_persistence s \<noteq> None \<Longrightarrow> saves journal s"
  by (auto simp: saves_def persist_locked_def journal_def)

lemma draft_example_ok:
  "vr_ok (draft_result caller_example LE_ValidateBegin False True
     (captured no_interference store_example) (draft_example 0 1)
     (resolve store_example (draft_example 0 1)))"
  by code_simp

lemma store_example_ready:
  "ready caller_example (draft_example 0 1) LE_ValidateBegin False True store_example"
proof -
  have "evidence_record_count (snapshot (make_synthetic_fabric 2)) \<le> 8192" by code_simp
  moreover have "st_evidence store_example = Some (make_synthetic_fabric 2)"
    by (simp add: store_example_def new_store_def rebuild_index_def)
  ultimately show ?thesis
    using draft_example_ok
    by (simp add: ready_def evidence_fits_def room_for_def attempt_table_accepts_def
        default_limits_def count_segments_def draft_example_def empty_draft_def)
qed

definition created_example :: "MutationOutcome \<times> DurableState list Store" where
  "created_example =
     create_list journal no_interference caller_example (draft_example 0 1) store_example"

lemma created_example_ok: "mo_status (fst created_example) = St_Ok"
  using commit_single [OF store_example_ready, of journal]
  by (auto simp: created_example_def create_list_def)

lemma created_example_run:
  "run_batch journal no_interference caller_example [draft_example 0 1] LE_ValidateBegin False True
     store_example = (fst created_example, snd created_example)"
  by (simp add: created_example_def create_list_def)

lemma created_example_committed:
  "batch_committed journal no_interference caller_example [draft_example 0 1] LE_ValidateBegin False
     True store_example (fst created_example) (snd created_example)"
  using run_batch_cases [OF created_example_run] created_example_ok
  by (auto simp: batch_rejected_def unrecorded_not_replayed default_limits_def)

lemma created_example_fresh: "\<not> mo_idempotent_replay (fst created_example)"
  using committed_flags(2) [OF created_example_committed] by simp

text \<open>A store that holds list 11 at generation 1 in a given state.\<close>

definition list_example :: "LifecycleState \<Rightarrow> SegmentList" where
  "list_example st = empty_list\<lparr>sl_content := content_example [fabric_segment_example 1],
     sl_generation := 1, sl_state := st, sl_currentness := Cu_Current\<rparr>"

definition stored_example :: "LifecycleState \<Rightarrow> DurableState list Store" where
  "stored_example st = rebuild_index (store_example\<lparr>st_state :=
     (st_state store_example)\<lparr>ds_lists := [list_example st], ds_revision := 1\<rparr>\<rparr>)"

lemma stored_example_config [simp]:
  "st_limits (stored_example st) = default_limits" "index_ok (stored_example st)"
  "ds_attempts (st_state (stored_example st)) = []"
  "ds_lists (st_state (stored_example st)) = [list_example st]"
  "find_locked (stored_example st) 11 = Some (list_example st)"
  "st_persistence (stored_example st) = Some []"
  "recorded_attempt (stored_example st) caller = None"
  "st_evidence (stored_example st) = Some (make_synthetic_fabric 2)"
  by (simp_all add: stored_example_def rebuild_index_def index_ok_def build_index_def find_locked_def
      lower_bound_def recorded_attempt_def find_attempt_def list_example_def content_example_def)
     (simp add: store_example_def new_store_def rebuild_index_def)

lemma example_evidence_count: "evidence_record_count (snapshot (make_synthetic_fabric 2)) \<le> 8192"
  by code_simp

definition superseding_draft_example :: ListDraft where
  "superseding_draft_example = (draft_example 0 2)\<lparr>dr_id := 12, dr_supersedes := 11,
     dr_supersedes_generation := 1\<rparr>"

lemma superseding_ready:
  "ready caller_example superseding_draft_example LE_ValidateBegin False True
     (stored_example LS_Active)"
proof -
  have "vr_ok (draft_result caller_example LE_ValidateBegin False True
      (captured no_interference (stored_example LS_Active)) superseding_draft_example
      (resolve (stored_example LS_Active) superseding_draft_example))"
    by code_simp
  then show ?thesis
    using example_evidence_count
    by (simp add: ready_def evidence_fits_def room_for_def attempt_table_accepts_def
        default_limits_def count_segments_def superseding_draft_example_def draft_example_def
        empty_draft_def list_example_def content_example_def Let_def)
qed

end
