(* ===== verification/StoreContract.thy ===== *)
theory StoreContract
  imports StoreExamples
begin

text \<open>
  The properties of the store's content mutations, over every interleaving with other threads.
\<close>

section \<open>Rejection, durability, staleness\<close>

text \<open>
  C2: a mutation that is not acknowledged changes nothing. Whatever other threads do at the unlocked
  points, if a create, replace, batch or revalidate does not end with status \<open>Ok\<close>, the lists,
  generations, history, attempt records, index, registry, authority and evidence are exactly
  what the other threads left; the mutation itself contributed nothing.
\<close>

theorem rejected_changes_nothing:
  assumes "run_batch ip env caller drafts intent re ra s = (out, s')" and "interference_ok env"
    and "0 < max_reasons (st_limits s)" and "index_ok (at_recheck env s)"
    and "mo_status out \<noteq> St_Ok"
  shows "\<exists>t \<in> left_by_others env s. same_tables t s'"
  using unacknowledged_rejected [OF assms] by (simp add: batch_rejected_def)

theorem rejected_changes_nothing_witness:
  "\<exists>t \<in> left_by_others no_interference store_example.
     same_tables t (snd (run_batch broken_journal no_interference caller_example
       [draft_example 0 1, draft_example 5 1] LE_ReplaceBegin False False store_example))"
proof -
  let ?r = "run_batch broken_journal no_interference caller_example
       [draft_example 0 1, draft_example 5 1] LE_ReplaceBegin False False store_example"
  have "\<not> vr_ok (draft_result caller_example LE_ReplaceBegin False False
      (captured no_interference store_example) (draft_example 5 1)
      (resolve store_example (draft_example 5 1)))"
    by code_simp
  moreover have "draft_example 5 1 \<in> set [draft_example 0 1, draft_example 5 1]" by simp
  ultimately have "mo_status (fst ?r) \<noteq> St_Ok"
    using run_batch_cases [of broken_journal no_interference caller_example
        "[draft_example 0 1, draft_example 5 1]" LE_ReplaceBegin False False store_example
        "fst ?r" "snd ?r"]
    by (auto simp: batch_rejected_def batch_replayed_def batch_committed_def default_limits_def)
  then show ?thesis
    using rejected_changes_nothing [of broken_journal no_interference caller_example
        "[draft_example 0 1, draft_example 5 1]" LE_ReplaceBegin False False store_example
        "fst ?r" "snd ?r"]
    by (simp add: default_limits_def)
qed

text \<open>
  C1: a mutation is never acknowledged before it is durable. If a mutation that is not a replay
  ends with status \<open>Ok\<close>, then \<^verbatim>\<open>save\<close> was called with exactly the state the store now has and
  reported success (or the store was configured without persistence), and the outcome is flagged
  durable exactly when there is persistence.
\<close>

theorem acknowledged_is_durable:
  assumes "run_batch ip env caller drafts intent re ra s = (out, s')" and "interference_ok env"
    and "0 < max_reasons (st_limits s)" and "index_ok (at_recheck env s)"
    and "mo_status out = St_Ok" and "\<not> mo_idempotent_replay out"
  shows "persisted ip (st_state s') (at_recheck env s) s' \<and>
         (mo_durable out \<longleftrightarrow> st_persistence s' \<noteq> None)"
proof -
  note c = acknowledged_committed [OF assms(1-3,5,6)]
  show ?thesis
    using c committed_flags(3) [OF c assms(4)] by (simp add: batch_committed_def committed_def)
qed

theorem acknowledged_is_durable_witness:
  "st_persistence (snd created_example) = Some [st_state (snd created_example)]"
proof -
  have "persisted journal (st_state (snd created_example)) store_example (snd created_example)"
    using acknowledged_is_durable [of journal no_interference caller_example "[draft_example 0 1]"
        LE_ValidateBegin False True store_example "fst created_example" "snd created_example"]
      created_example_ok created_example_fresh
    by (simp add: created_example_def create_list_def default_limits_def)
  then show ?thesis by (auto simp: persisted_def journal_def)
qed

text \<open>
  C4: a stale completion never becomes current. If between capture and commit the store revision,
  the registry revision or the coordinator epoch moved, or the evidence watermark differs from the
  one read before validation, then a fresh mutation is rejected and leaves no trace.
\<close>

theorem stale_completion_rejected:
  assumes "run_batch ip env caller drafts intent re ra s = (out, s')" and "interference_ok env"
    and "0 < max_reasons (st_limits s)"
    and "recorded_attempt (at_capture env s) caller = None"
    and "ds_revision (st_state (at_recheck env s)) \<noteq> ds_revision (st_state (at_capture env s)) \<or>
         rg_revision (st_registry (at_recheck env s)) \<noteq> rg_revision (st_registry (at_capture env s)) \<or>
         at_epoch (st_authority (at_recheck env s)) \<noteq> at_epoch (st_authority (at_capture env s)) \<or>
         (\<exists>e e'. st_evidence s = Some e \<and> st_evidence (at_recheck env s) = Some e' \<and>
                 watermark e' \<noteq> watermark e)"
  shows "mo_status out \<noteq> St_Ok \<and> (\<exists>t \<in> left_by_others env s. same_tables t s')"
proof -
  have "verify_reasons (captured env s) (prepared_batch env caller drafts s) (at_recheck env s) \<noteq> []"
    using assms(5) by (auto simp: verify_reasons_def watermark_reasons_def)
  with run_batch_cases [OF assms(1-3)] assms(4) show ?thesis
    by (auto simp: batch_rejected_def batch_replayed_def batch_committed_def)
qed

definition epoch_race :: "DurableState list Interference" where
  "epoch_race = no_interference\<lparr>iv_commit :=
     (\<lambda>s. s\<lparr>st_authority := snd (advance_epoch (st_authority s))\<rparr>)\<rparr>"

lemma epoch_race_simps [simp]:
  "at_capture epoch_race s = s" "iv_snapshot epoch_race s = s"
  "at_recheck epoch_race s = s\<lparr>st_authority := snd (advance_epoch (st_authority s))\<rparr>"
  "interference_ok epoch_race"
  by (simp_all add: epoch_race_def at_capture_def at_recheck_def no_interference_def
      interference_ok_def config_of_def)

theorem stale_completion_rejected_witness:
  "mo_status (fst (create_list journal epoch_race caller_example (draft_example 0 1) store_example))
     \<noteq> St_Ok"
proof -
  have "at_epoch (snd (advance_epoch view_example)) \<noteq> at_epoch view_example" by code_simp
  then show ?thesis
    using stale_completion_rejected [of journal epoch_race caller_example "[draft_example 0 1]"
        LE_ValidateBegin False True store_example]
    by (simp add: create_list_def prod_eq_iff default_limits_def)
qed

text \<open>
  C3: what is committed is valid against the evidence that is current at commit. When the evidence
  only changes by fabrication operations, fewer than \<open>2^64\<close> of them counted between the first read
  and the commit, every draft of an acknowledged fresh mutation is admissible with respect to the
  evidence snapshot, the epoch, the registry revision and the store revision at the commit.
\<close>

theorem committed_against_current_evidence:
  assumes "run_batch ip env caller drafts intent re ra s = (out, s')" and "interference_ok env"
    and "0 < max_reasons (st_limits s)" and "index_ok (at_recheck env s)"
    and "mo_status out = St_Ok" and "\<not> mo_idempotent_replay out"
    and "st_evidence s = Some e" and "st_evidence (iv_snapshot env s) = Some (run_ops evidence_step before e)"
    and "st_evidence (at_recheck env s) = Some e'" and "e' = run_ops evidence_step (before @ after) e"
    and "counted evidence_step step_revisions (before @ after) e < 2 ^ 64" and "d \<in> set drafts"
  shows "admissible (draft_request caller intent re ra
           ((captured env s)\<lparr>pc_evidence := snapshot e'\<rparr>) d (resolve (at_capture env s) d)) \<and>
         at_epoch (st_authority (at_recheck env s)) = at_epoch (st_authority (at_capture env s)) \<and>
         rg_revision (st_registry (at_recheck env s)) = rg_revision (st_registry (at_capture env s)) \<and>
         ds_revision (st_state (at_recheck env s)) = ds_revision (st_state (at_capture env s))"
proof -
  note c = acknowledged_committed [OF assms(1-3,5,6)]
  then have v: "verify_reasons (captured env s) (prepared_batch env caller drafts s)
      (at_recheck env s) = []" by (simp add: batch_committed_def)
  then have "watermark e' = watermark e"
    using assms(7,9) by (simp add: verify_reasons_def watermark_reasons_def)
  then have "snapshot (run_ops evidence_step before e) = snapshot e'"
    using synthetic.same_watermark_split [OF assms(11)] assms(10) by simp
  then have "(captured env s)\<lparr>pc_evidence := snapshot e'\<rparr> = captured env s"
    using assms(8) by (simp add: captured_def capture_context_def)
  with batch_committed_admissible(1) [OF c assms(2,3,12)] v show ?thesis
    by (simp add: verify_reasons_def)
qed

theorem committed_against_current_evidence_witness:
  "admissible (draft_request caller_example LE_ValidateBegin False True
     ((captured no_interference store_example)\<lparr>pc_evidence := snapshot (make_synthetic_fabric 2)\<rparr>)
     (draft_example 0 1) (resolve store_example (draft_example 0 1)))"
proof -
  have ev: "st_evidence store_example = Some (make_synthetic_fabric 2)"
    by (simp add: store_example_def new_store_def rebuild_index_def)
  show ?thesis
    using committed_against_current_evidence [OF created_example_run _ _ _ created_example_ok
        created_example_fresh ev, of "[]" "make_synthetic_fabric 2" "[]" "draft_example 0 1"]
    by (simp add: ev default_limits_def)
qed

section \<open>Replay\<close>

text \<open>
  C16: exact replay is idempotent. After an acknowledged mutation, sending the same drafts with the same
  attempt identifier again (while the evidence is within its bound) is acknowledged as a replay
  that reports the same list, generation and digest, and the only change of the store is the
  snapshot counter: no list, no history, no attempt record, no durable write.
\<close>

theorem exact_replay_idempotent:
  assumes "run_batch ip env caller drafts intent re ra s = (out, s')" and "interference_ok env"
    and "0 < max_reasons (st_limits s)" and "index_ok (at_recheck env s)"
    and "mo_status out = St_Ok" and "evidence_fits s'"
    and "run_batch ip' no_interference caller drafts intent' re' ra' s' = (out2, s2)"
  shows "mo_status out2 = St_Ok \<and> mo_idempotent_replay out2 \<and> s2 = take_snapshot_id s' \<and>
    (mo_list out2, mo_generation out2, mo_digest out2) = (mo_list out, mo_generation out, mo_digest out)"
proof -
  note a = acknowledged_recorded [OF assms(1-5)]
  from a(1) obtain rec where "recorded_attempt s' caller = Some rec"
    "dar_payload rec = batch_payload_digest drafts" by blast
  from replay_run [OF this a(2) assms(6), of ip' intent' re' ra'] assms(7) a(3,4) show ?thesis
    by (auto simp: reported_def)
qed

theorem exact_replay_idempotent_witness:
  "mo_idempotent_replay (fst (create_list journal no_interference caller_example (draft_example 0 1)
     (snd created_example))) \<and>
   st_state (snd (create_list journal no_interference caller_example (draft_example 0 1)
     (snd created_example))) = st_state (snd created_example)"
proof -
  have "st_evidence (snd created_example) = Some (make_synthetic_fabric 2)"
    "st_limits (snd created_example) = default_limits"
    using created_example_committed
    by (simp_all add: batch_committed_def committed_def store_example_def new_store_def
        rebuild_index_def)
  moreover note example_evidence_count
  ultimately have "evidence_fits (snd created_example)"
    by (simp add: evidence_fits_def default_limits_def)
  then show ?thesis
    using exact_replay_idempotent [OF created_example_run _ _ _ created_example_ok, of journal
        LE_ValidateBegin False True]
    by (simp add: create_list_def default_limits_def prod_eq_iff)
qed


text \<open>A store that remembers attempt 900 with a payload other than that of the example draft.\<close>

definition recorded_store_example :: "DurableState list Store" where
  "recorded_store_example =
     (let d = batch_payload_digest [draft_example 0 1] in
      store_example\<lparr>st_state := (st_state store_example)
        \<lparr>ds_attempts := [\<lparr>dar_attempt = 900, dar_list = 11, dar_payload = d\<lparr>dg_hi := dg_hi d + 1\<rparr>,
           dar_generation = 1, dar_committed = True\<rparr>]\<rparr>\<rparr>)"

lemma digest_bump: "(d :: Digest128)\<lparr>dg_hi := dg_hi d + 1\<rparr> \<noteq> d"
  by (cases d) simp


section \<open>Effect\<close>



text \<open>
  C22: supersession is atomic with the create that asks for it. When an acknowledged draft names
  another existing lineage to supersede, that lineage is \<^verbatim>\<open>SUPERSEDED\<close> and points to the new list
  in the same committed state; its content and generation are kept.
\<close>

theorem supersession_atomic:
  assumes "run_batch ip env caller [d] intent re ra s = (out, s')" and "interference_ok env"
    and "0 < max_reasons (st_limits s)" and "index_ok (at_recheck env s)"
    and "mo_status out = St_Ok" and "\<not> mo_idempotent_replay out"
    and "valid (dr_supersedes d)" and "dr_supersedes d \<noteq> dr_id d"
  shows "\<exists>l l'. find_locked (at_recheck env s) (dr_supersedes d) = Some l \<and>
    find_locked s' (dr_supersedes d) = Some l' \<and> sl_state l' = LS_Superseded \<and>
    ln_superseded_by (sl_lineage l') = dr_id d \<and> sl_content l' = sl_content l \<and>
    sl_generation l' = sl_generation l \<and> sl_generation l = dr_supersedes_generation d"
proof -
  note c = acknowledged_committed [OF assms(1-3,5,6)]
  have none: "supersede_reasons d (resolve (at_capture env s) d) = []"
    using batch_committed_admissible(2) [OF c assms(2,3)] by simp
  then obtain old where old: "find_locked (at_capture env s) (dr_supersedes d) = Some old"
    "dr_supersedes_generation d = sl_generation old"
    using assms(7) by (auto simp: supersede_reasons_def resolve_def split: option.splits)
  have "mutation_conflicts (at_recheck env s)
      (prepared_mutation caller (captured env s) d (resolve (at_capture env s) d)) = []"
    using c by (simp add: batch_committed_def verify_reasons_def prepared_single)
  then obtain l where l: "find_locked (at_recheck env s) (dr_supersedes d) = Some l"
    "sl_generation l = sl_generation old"
    using old assms(7)
    by (auto simp: mutation_conflicts_def prepared_mutation_def resolve_def split: option.splits)
  from single_commit(3) [OF c assms(4,7,8) _ l(1)] old l show ?thesis by auto
qed

theorem supersession_atomic_witness:
  "\<exists>out s'. create_list journal no_interference caller_example superseding_draft_example
       (stored_example LS_Active) = (out, s') \<and>
     (\<exists>l'. find_locked s' 11 = Some l' \<and> sl_state l' = LS_Superseded \<and>
           ln_superseded_by (sl_lineage l') = 12)"
proof -
  obtain out s' where r: "run_batch journal no_interference caller_example
      [superseding_draft_example] LE_ValidateBegin False True (stored_example LS_Active) = (out, s')"
    and ok: "mo_status out = St_Ok"
    using commit_single [OF superseding_ready, of journal] by auto
  have "\<not> mo_idempotent_replay out"
    using run_batch_cases [OF r] committed_flags(2) [of journal no_interference] ok
    by (auto simp: batch_rejected_def unrecorded_not_replayed default_limits_def)
  from supersession_atomic [OF r _ _ _ ok this] r show ?thesis
    by (auto simp: default_limits_def superseding_draft_example_def valid_def create_list_def)
qed

text \<open>
  C23: no content mutation revives a closed lineage. If any draft of the mutation names a list that
  is \<^verbatim>\<open>WITHDRAWN\<close>, \<^verbatim>\<open>SUPERSEDED\<close>, \<^verbatim>\<open>REVOKED\<close>, \<^verbatim>\<open>RETIRED\<close> or \<^verbatim>\<open>WITHDRAWING\<close> when the mutation
  captures it, then no create, replace, batch or revalidate of a fresh attempt is acknowledged.
\<close>

theorem closed_lineage_not_revived:
  assumes "run_batch ip env caller drafts intent re ra s = (out, s')" and "interference_ok env"
    and "0 < max_reasons (st_limits s)"
    and "intent \<in> {LE_ValidateBegin, LE_ReplaceBegin, LE_RevalidateBegin}"
    and "d \<in> set drafts" and "find_locked (at_capture env s) (dr_id d) = Some l"
    and "lifecycle_is_terminal_for_activation (sl_state l) \<or> sl_state l = LS_Withdrawing"
    and "recorded_attempt (at_capture env s) caller = None"
  shows "mo_status out \<noteq> St_Ok \<and> (\<exists>t \<in> left_by_others env s. same_tables t s')"
proof -
  have "lifecycle_transition (sl_state l) intent = None"
    using assms(4,7)
    by (cases "sl_state l") (auto simp: lifecycle_is_terminal_for_activation_def lifecycle_eval)
  from denied_not_committed [OF assms(2,3,5,6) this] run_batch_cases [OF assms(1-3)] assms(8)
  show ?thesis by (auto simp: batch_rejected_def batch_replayed_def)
qed

theorem closed_lineage_not_revived_witness:
  "mo_status (fst (replace_list journal no_interference caller_example (draft_example 1 2)
     (stored_example LS_Retired))) \<noteq> St_Ok"
  using closed_lineage_not_revived [of journal no_interference caller_example "[draft_example 1 2]"
      LE_ReplaceBegin True False "stored_example LS_Retired" _ _ "draft_example 1 2"]
  by (auto simp: replace_list_def prod_eq_iff default_limits_def draft_example_def list_example_def
      lifecycle_is_terminal_for_activation_def)

text \<open>
  C24: an admissible mutation commits. Undisturbed, with an unrecorded attempt for which the replay
  table has room, a draft that validates and for which the list and segment bounds have room, and a
  persistence object whose writes succeed, the mutation is acknowledged and its list is stored.
\<close>

theorem admissible_draft_commits:
  assumes "ready caller d intent re ra s" and "saves ip s"
  shows "\<exists>out s'. run_batch ip no_interference caller [d] intent re ra s = (out, s') \<and>
    mo_status out = St_Ok \<and> find_locked s' (dr_id d) = Some (committed_list no_interference caller d s)"
proof -
  obtain out s' where r: "run_batch ip no_interference caller [d] intent re ra s = (out, s')"
    and ok: "mo_status out = St_Ok"
    using commit_single [OF assms] by blast
  have cap: "0 < max_reasons (st_limits s)" and ix: "index_ok s"
    and un: "recorded_attempt s caller = None" using assms(1) by (auto simp: ready_def)
  then have "batch_committed ip no_interference caller [d] intent re ra s out s'"
    using run_batch_cases [OF r _ cap] ok by (auto simp: batch_rejected_def unrecorded_not_replayed)
  from single_commit(1) [OF this] ix r ok show ?thesis by simp
qed

theorem admissible_draft_commits_witness:
  "\<exists>out s'. create_list journal no_interference caller_example (draft_example 0 1) store_example =
     (out, s') \<and> mo_status out = St_Ok"
  using admissible_draft_commits [OF store_example_ready, of journal]
  by (auto simp: create_list_def)

text \<open>
  the sorted index is exact. Whenever the index was rebuilt from a list vector with distinct
  identifiers, the binary search of \<^verbatim>\<open>find_locked\<close> returns what a linear scan of the list vector
  returns, for every identifier, present or not.
\<close>

theorem index_lookup_exact:
  assumes "index_ok s"
  shows "find_locked s i = find_in_state (st_state s) i"
  using assms by (rule find_locked_scan)

theorem index_lookup_exact_witness:
  "find_locked (stored_example LS_Active) 11 = find_in_state (st_state (stored_example LS_Active)) 11"
  by (rule index_lookup_exact) simp

end
