(* ===== verification/StoreTransitions.thy ===== *)
theory StoreTransitions
  imports StoreExamples
begin

text \<open>
  The administrative transitions of the store (withdraw, withdraw commit, revoke, retire): how a
  transition ends, and what an acknowledged one writes.
\<close>

section \<open>How a transition ends\<close>

definition transitioned ::
  "CallerIdentity \<Rightarrow> CoordinatorEpoch \<Rightarrow> u64 \<Rightarrow> LifecycleState \<Rightarrow> SegmentList \<Rightarrow> SegmentList" where
  "transitioned caller epoch revision st l =
     l\<lparr>sl_state := st, sl_currentness := (if st = LS_Active then Cu_Current else Cu_Unknown),
       sl_committed_revision := revision,
       sl_authority := \<lparr>la_publisher = ca_publisher caller, la_boot = ca_boot caller,
         la_epoch = epoch, la_attempt = ca_attempt caller\<rparr>\<rparr>"

definition transition_committed ::
  "'p IPersistence \<Rightarrow> 'p Interference \<Rightarrow> LifecycleEvent \<Rightarrow> CallerIdentity \<Rightarrow> SegmentListId \<Rightarrow>
   SegmentListGeneration \<Rightarrow> 'p Store \<Rightarrow> MutationOutcome \<Rightarrow> 'p Store \<Rightarrow> bool" where
  "transition_committed ip env event caller i expected s out s' \<longleftrightarrow>
     (\<exists>existing l st.
        find_locked (at_capture env s) i = Some existing \<and> sl_generation existing = expected \<and>
        valid expected \<and>
        attempt_table_accepts (st_limits s) (st_state (at_capture env s)) (ca_attempt caller) \<and>
        vr_ok (validate_request (build_request caller (transition_draft existing i expected) event
          False (captured env s) \<lparr>re_existing = Some existing, re_profile = None, re_policy = None,
            re_superseded = None\<rparr>)) \<and>
        transition_reasons (captured env s) i expected (at_recheck env s) = [] \<and>
        find_in_state (st_state (at_recheck env s)) i = Some l \<and>
        lifecycle_transition (sl_state l) event = Some st \<and>
        st_state s' = transition_image caller i (captured env s)
          (transition_draft existing i expected)
          (transitioned caller (pc_epoch (captured env s))
             (ds_revision (st_state (at_recheck env s)) + 1) st l) (at_recheck env s) \<and>
        committed ip (st_state s') (at_recheck env s) s' \<and>
        out = finish_outcome s' i (st_snapshot_counter (at_recheck env s))
                ((fresh_outcome (st_limits s))\<lparr>mo_list := i\<rparr>))"

lemma prepare_transition_Inl:
  assumes "prepare_transition env caller i expected event s = (Inl out, s')"
    and "interference_ok env" and "0 < max_reasons (st_limits s)"
  shows "batch_rejected env s out s'"
proof -
  have s': "s' = at_capture env s"
    using assms(1)
    by (auto simp: prepare_transition_def at_capture_def Let_def split: if_splits option.splits)
  have "mo_status (reject_with (validate_request r) ((fresh_outcome (st_limits s))\<lparr>mo_list := i\<rparr>)) \<noteq> St_Ok"
    if "\<not> vr_ok (validate_request r)" for r
    using reject_with_status [OF request.run_wf that] assms(3)
    by (simp add: word_less_nat_alt)
  then have "mo_status out \<noteq> St_Ok \<and> mo_status out \<noteq> St_Internal"
    using assms(1)
    by (auto simp: prepare_transition_def Let_def split: if_splits option.splits)
  with s' show ?thesis by (auto simp: batch_rejected_def left_by_others_def)
qed

lemma prepare_transition_Inr:
  assumes "prepare_transition env caller i expected event s = (Inr (ctx, draft), s')"
    and "interference_ok env"
  obtains existing where "s' = at_capture env s" "ctx = captured env s"
    "find_locked (at_capture env s) i = Some existing" "sl_generation existing = expected"
    "valid expected" "draft = transition_draft existing i expected"
    "attempt_table_accepts (st_limits s) (st_state (at_capture env s)) (ca_attempt caller)"
    "vr_ok (validate_request (build_request caller draft event False ctx
       \<lparr>re_existing = Some existing, re_profile = None, re_policy = None, re_superseded = None\<rparr>))"
  using assms
  by (auto simp: prepare_transition_def at_capture_def captured_def Let_def interference_limits
      split: if_splits option.splits)

lemma commit_transition_cases:
  assumes c: "commit_transition ip caller i expected event ctx draft s = (out, s')"
    and cap: "0 < max_reasons (st_limits s)"
  shows "(mo_status out \<noteq> St_Ok \<and> mo_status out \<noteq> St_Internal \<and> same_tables s s') \<or>
    (\<exists>l st. transition_reasons ctx i expected s = [] \<and> find_in_state (st_state s) i = Some l \<and>
       lifecycle_transition (sl_state l) event = Some st \<and>
       st_state s' = transition_image caller i ctx draft
         (transitioned caller (pc_epoch ctx) (ds_revision (st_state s) + 1) st l) s \<and>
       committed ip (st_state s') s s' \<and>
       out = finish_outcome s' i (st_snapshot_counter s)
               ((fresh_outcome (st_limits s))\<lparr>mo_list := i\<rparr>))"
proof -
  let ?v = "vr_add_all (transition_reasons ctx i expected s) (set_limits (Some (st_limits s)) vr_success)"
  let ?o = "(fresh_outcome (st_limits s))\<lparr>mo_list := i\<rparr>"
  have v: "vr_ok ?v \<longleftrightarrow> transition_reasons ctx i expected s = []"
    by (rule fresh_add_all_ok [OF cap transition_codes])
  have rej: "mo_status (reject_with ?v ?o) \<noteq> St_Ok" if "\<not> vr_ok ?v"
    using that cap by (intro reject_with_status) (simp_all add: vr_wf_add_all word_less_nat_alt)
  show ?thesis
  proof (cases "vr_ok ?v \<and> find_in_state (st_state s) i \<noteq> None \<and>
      (\<exists>l st. find_in_state (st_state s) i = Some l \<and> lifecycle_transition (sl_state l) event = Some st)")
    case False
    with c rej show ?thesis
      by (auto simp: commit_transition_def Let_def split: if_splits option.splits)
  next
    case True
    then obtain l st where l: "find_in_state (st_state s) i = Some l"
      "lifecycle_transition (sl_state l) event = Some st" by auto
    let ?img = "transition_image caller i ctx draft
         (transitioned caller (pc_epoch ctx) (ds_revision (st_state s) + 1) st l) s"
    obtain b w t where p: "persist_locked ip ?img ?v s = (b, w, t)"
      by (cases "persist_locked ip ?img ?v s") auto
    note k = persist_locked_keeps [OF p]
    show ?thesis
    proof (cases b)
      case False
      have "mo_status out = St_PersistenceFailed" "s' = t"
        using c p False True l by (auto simp: commit_transition_def transitioned_def Let_def)
      with k show ?thesis by (simp add: same_tables_def)
    next
      case b: True
      have "committed ip ?img s (take_snapshot_id (swap_in ?img t))"
        using k persist_locked_true [of ip ?img ?v s w t] p b
        by (simp add: committed_def persisted_def split: option.splits)
      moreover have "s' = take_snapshot_id (swap_in ?img t)"
        and "out = finish_outcome (swap_in ?img t) i (st_snapshot_counter s) ?o"
        using c p b True l k
        by (simp_all add: commit_transition_def transitioned_def Let_def)
      moreover have "finish_outcome (take_snapshot_id x) = finish_outcome x" for x :: "'a Store"
        by (intro ext) (simp add: finish_outcome_def find_locked_snapshot)
      ultimately show ?thesis using True l v by auto
    qed
  qed
qed

lemma transition_cases:
  assumes run: "transition ip env event caller i expected s = (out, s')"
    and env: "interference_ok env" and cap: "0 < max_reasons (st_limits s)"
  shows "batch_rejected env s out s' \<or> transition_committed ip env event caller i expected s out s'"
proof (cases "prepare_transition env caller i expected event s")
  case (Pair r t)
  show ?thesis
  proof (cases r)
    case (Inl o1)
    with run Pair prepare_transition_Inl [of env caller i expected event s o1 t] env cap
    show ?thesis by (simp add: transition_def)
  next
    case (Inr cp)
    obtain ctx draft where cp: "cp = (ctx, draft)" by (cases cp)
    obtain existing where e: "t = at_capture env s" "ctx = captured env s"
      "find_locked (at_capture env s) i = Some existing" "sl_generation existing = expected"
      "valid expected" "draft = transition_draft existing i expected"
      "attempt_table_accepts (st_limits s) (st_state (at_capture env s)) (ca_attempt caller)"
      "vr_ok (validate_request (build_request caller draft event False ctx
         \<lparr>re_existing = Some existing, re_profile = None, re_policy = None, re_superseded = None\<rparr>))"
      using prepare_transition_Inr [OF Pair [unfolded Inr cp] env] by metis
    have lim: "st_limits (at_recheck env s) = st_limits s"
      using env by (simp add: at_recheck_def at_capture_def interference_limits)
    have "commit_transition ip caller i expected event ctx draft (at_recheck env s) = (out, s')"
      using run Pair Inr cp e by (simp add: transition_def at_recheck_def)
    from commit_transition_cases [OF this, unfolded lim, OF cap] show ?thesis
    proof
      assume "mo_status out \<noteq> St_Ok \<and> mo_status out \<noteq> St_Internal \<and> same_tables (at_recheck env s) s'"
      then show ?thesis by (auto simp: batch_rejected_def left_by_others_def)
    qed (use e in \<open>auto simp: transition_committed_def\<close>)
  qed
qed

section \<open>What an acknowledged transition writes\<close>

lemma transition_image_frame [simp]:
  "ds_lists (transition_image caller i ctx draft l s) =
     update_key sl_id i (\<lambda>_. l) (ds_lists (st_state s))"
  "ds_revision (transition_image caller i ctx draft l s) = ds_revision (st_state s) + 1"
  by (simp_all add: transition_image_def Let_def)

lemma transition_image_attempts:
  "find_attempt (transition_image caller i ctx draft l s) a =
     (if valid (ca_attempt caller) \<and> a = ca_attempt caller
      then Some \<lparr>dar_attempt = a, dar_list = i, dar_payload = draft_payload_digest draft,
                 dar_generation = sl_generation l, dar_committed = True\<rparr>
      else find_attempt (st_state s) a)"
  by (simp add: transition_image_def Let_def find_attempt_record) (simp add: find_attempt_def)

lemma transitioned_simps [simp]:
  "sl_content (transitioned caller e r st l) = sl_content l"
  "sl_generation (transitioned caller e r st l) = sl_generation l"
  "sl_lineage (transitioned caller e r st l) = sl_lineage l"
  "sl_provenance (transitioned caller e r st l) = sl_provenance l"
  "sl_content_digest (transitioned caller e r st l) = sl_content_digest l"
  "sl_sequence_digest (transitioned caller e r st l) = sl_sequence_digest l"
  "sl_state (transitioned caller e r st l) = st"
  by (simp_all add: transitioned_def)

lemma transition_committed_ok:
  assumes "transition_committed ip env event caller i expected s out s'"
    and "index_ok (at_recheck env s)"
  shows "index_ok s'" and "mo_status out = St_Ok" and "\<not> mo_idempotent_replay out"
    and "mo_list out = i" and "mo_durable out \<longleftrightarrow> st_persistence s' \<noteq> None"
proof -
  obtain l st draft where l: "find_in_state (st_state (at_recheck env s)) i = Some l"
    and st: "st_state s' = transition_image caller i (captured env s) draft
          (transitioned caller (pc_epoch (captured env s))
             (ds_revision (st_state (at_recheck env s)) + 1) st l) (at_recheck env s)"
    and c: "committed ip (st_state s') (at_recheck env s) s'"
    and out: "out = finish_outcome s' i (st_snapshot_counter (at_recheck env s))
                ((fresh_outcome (st_limits s))\<lparr>mo_list := i\<rparr>)"
    using assms(1) by (auto simp: transition_committed_def)
  have "sl_id l = i" using l by (auto simp: find_in_state_def dest: find_key_SomeD)
  then have "map sl_id (ds_lists (st_state s')) = map sl_id (ds_lists (st_state (at_recheck env s)))"
    using st by simp
  then show "index_ok s'" using assms(2) c by (simp add: index_ok_def committed_def)
  show "mo_status out = St_Ok" "\<not> mo_idempotent_replay out" "mo_list out = i"
    "mo_durable out \<longleftrightarrow> st_persistence s' \<noteq> None"
    using out by simp_all
qed

lemma transition_committed_effect:
  assumes "transition_committed ip env event caller i expected s out s'"
    and ok: "index_ok (at_recheck env s)"
  shows "\<exists>l st. find_locked (at_recheck env s) i = Some l \<and> sl_generation l = expected \<and>
           lifecycle_transition (sl_state l) event = Some st \<and>
           find_locked s' i = Some (transitioned caller (at_epoch (st_authority (at_recheck env s)))
             (ds_revision (st_state s')) st l)"
    and "j \<noteq> i \<Longrightarrow> find_locked s' j = find_locked (at_recheck env s) j"
proof -
  let ?r = "at_recheck env s"
  obtain l st draft where l: "find_in_state (st_state ?r) i = Some l"
      "lifecycle_transition (sl_state l) event = Some st"
    and st: "st_state s' = transition_image caller i (captured env s) draft
          (transitioned caller (pc_epoch (captured env s)) (ds_revision (st_state ?r) + 1) st l) ?r"
    and v: "transition_reasons (captured env s) i expected ?r = []"
    using assms(1) by (auto simp: transition_committed_def)
  note scan = find_locked_scan [OF transition_committed_ok(1) [OF assms]] find_locked_scan [OF ok]
  have "sl_id l = i" using l by (auto simp: find_in_state_def dest: find_key_SomeD)
  then have f: "find_locked s' j = (if j = i then Some (transitioned caller (pc_epoch (captured env s))
      (ds_revision (st_state ?r) + 1) st l) else find_locked ?r j)" for j
    using st l scan by (simp add: find_in_state_def find_key_update_key)
  have "sl_generation l = expected" "pc_epoch (captured env s) = at_epoch (st_authority ?r)"
    using v l scan by (auto simp: transition_reasons_def)
  with f l st scan show "\<exists>l st. find_locked ?r i = Some l \<and> sl_generation l = expected \<and>
      lifecycle_transition (sl_state l) event = Some st \<and>
      find_locked s' i = Some (transitioned caller (at_epoch (st_authority ?r))
        (ds_revision (st_state s')) st l)"
    by auto
  show "j \<noteq> i \<Longrightarrow> find_locked s' j = find_locked ?r j" using f by simp
qed

end
