(* ===== verification/StoreRecovery.thy ===== *)
theory StoreRecovery
  imports StoreTransitions
begin

text \<open>
  Recovery and refresh: what \<^verbatim>\<open>SegmentListStore::load\<close> makes of a durable image, and what
  \<^verbatim>\<open>refresh_currentness\<close> may change.
\<close>

section \<open>Recovery of the authority table\<close>

lemma recover_authority_run: "authority_step\<^sup>*\<^sup>* a (recover_authority st a)"
proof -
  have p: "authority_step\<^sup>*\<^sup>* a (fold restore_dead_publisher ps a)" for ps a
    by (induction ps arbitrary: a)
       (auto intro: converse_rtranclp_into_rtranclp authority_step.restore_dead)
  have b: "authority_step\<^sup>*\<^sup>* a (fold restore_fenced_boot bs a)" for bs a
    by (induction bs arbitrary: a)
       (auto intro: converse_rtranclp_into_rtranclp authority_step.restore_boot)
  show ?thesis using p b by (simp add: recover_authority_def) (meson rtranclp_trans)
qed

lemma recover_epoch [simp]: "at_epoch (recover_authority st a) = at_epoch a"
  by (simp add: recover_authority_def fold_frame [where f = at_epoch] authority_defs)

lemma fold_restore_boots:
  "set (at_fenced_boots (fold restore_fenced_boot bs a)) = set bs \<union> set (at_fenced_boots a)"
  by (induction bs arbitrary: a) (auto simp: restore_fenced_boot_def)

lemma fold_restore_boots_frame [simp]:
  "at_publishers (fold restore_fenced_boot bs a) = at_publishers a"
  by (rule fold_frame) (simp add: restore_fenced_boot_def)

lemma dead_restore:
  "dead_publisher pid (restore_dead_publisher p a) \<longleftrightarrow> pid = ps_id p \<or> dead_publisher pid a"
  by (auto simp: dead_publisher_def find_publisher_def authority_defs find_key_upsert)

lemma dead_fold_restore:
  "dead_publisher pid (fold restore_dead_publisher ps a) \<longleftrightarrow>
     pid \<in> ps_id ` set ps \<or> dead_publisher pid a"
  by (induction ps arbitrary: a) (auto simp: dead_restore)

lemma boots_fold_restore:
  "set (at_fenced_boots (fold restore_dead_publisher ps a)) =
     {b \<in> ps_boot ` set ps. valid b} \<union> set (at_fenced_boots a)"
  by (induction ps arbitrary: a) (auto simp: authority_defs)

lemma recover_authority_dead:
  "p \<in> set (ds_publishers st) \<Longrightarrow> dead_publisher (ps_id p) (recover_authority st a)"
  using dead_fold_restore [of "ps_id p" "ds_publishers st" a]
  by (simp add: recover_authority_def dead_publisher_def find_publisher_def)

lemma recover_authority_fenced:
  "set (at_fenced_boots (recover_authority st a)) =
     {b \<in> ps_boot ` set (ds_publishers st). valid b} \<union> set (ds_fenced_boots st) \<union>
     set (at_fenced_boots a)"
  by (auto simp: recover_authority_def fold_restore_boots boots_fold_restore)

section \<open>Recovery of a list\<close>

lemma recover_list_frame [simp]:
  "sl_content (recover_list l) = sl_content l" "sl_generation (recover_list l) = sl_generation l"
  "sl_lineage (recover_list l) = sl_lineage l" "sl_authority (recover_list l) = sl_authority l"
  "sl_provenance (recover_list l) = sl_provenance l"
  "sl_content_digest (recover_list l) = sl_content_digest l"
  "sl_sequence_digest (recover_list l) = sl_sequence_digest l"
  "sl_committed_revision (recover_list l) = sl_committed_revision l"
  by (simp_all add: recover_list_def Let_def)

lemma recover_list_state:
  "sl_state (recover_list l) =
     (case sl_state l of
        LS_Declared \<Rightarrow> LS_Declared | LS_Validating \<Rightarrow> LS_Declared
      | LS_Withdrawing \<Rightarrow> LS_Withdrawn | LS_Withdrawn \<Rightarrow> LS_Withdrawn
      | LS_Superseded \<Rightarrow> LS_Superseded | LS_Revoked \<Rightarrow> LS_Revoked | LS_Retired \<Rightarrow> LS_Retired
      | _ \<Rightarrow> LS_RevalidationRequired)"
  by (cases "sl_state l") (simp_all add: recover_list_def Let_def lifecycle_eval)

lemma recover_list_unusable: "\<not> currentness_is_usable (sl_currentness (recover_list l))"
  by (simp add: recover_list_def Let_def currentness_is_usable_def)

section \<open>How load ends\<close>

definition recovered ::
  "DurableState \<Rightarrow> 'p Store \<Rightarrow> 'p Store \<Rightarrow> bool" where
  "recovered st s s' \<longleftrightarrow>
     (\<exists>e. next_generation (recovery_base st (st_authority s)) = Some e \<and>
        st_authority s' = recover_authority st ((st_authority s)\<lparr>at_epoch := e\<rparr>) \<and>
        st_registry s' = recover_registry st (st_registry s) \<and>
        st_state s' = (capture_tables s' st)\<lparr>
          ds_format_version := kPersistenceFormatVersion,
          ds_lists := map recover_list (ds_lists st), ds_epoch := e,
          ds_revision := ds_revision (st_state s) + ds_revision st + 1\<rparr> \<and>
        st_index s' = build_index (ds_lists (st_state s')) \<and>
        st_limits s' = st_limits s \<and> st_evidence s' = st_evidence s)"

text \<open>A persistence object that reports failure does not claim to have loaded anything.\<close>

definition load_honest :: "'p IPersistence \<Rightarrow> bool" where
  "load_honest ip \<longleftrightarrow>
     (\<forall>rep lim p r p'. ip_load ip rep lim p = (False, r, p') \<longrightarrow> \<not> lr_loaded rep \<longrightarrow> \<not> lr_loaded r)"

lemma load_loaded:
  assumes "load ip s = (report, s')" and "lr_loaded report" and "load_honest ip"
  shows "recovered (lr_state report) s s'"
    and "\<exists>p r p'. st_persistence s = Some p \<and> ip_load ip
        (empty_report\<lparr>lr_result := set_limits (Some (st_limits s)) vr_success\<rparr>) (st_limits s) p =
        (True, r, p') \<and> lr_loaded r \<and> lr_state r = lr_state report"
proof -
  obtain p where p: "st_persistence s = Some p"
    using assms by (cases "st_persistence s") (auto simp: load_def empty_report_def)
  let ?rep = "empty_report\<lparr>lr_result := set_limits (Some (st_limits s)) vr_success\<rparr>"
  obtain ok r p' where l: "ip_load ip ?rep (st_limits s) p = (ok, r, p')"
    by (cases "ip_load ip ?rep (st_limits s) p") auto
  let ?b = "recovery_base (lr_state r) (st_authority s)"
  have b: "valid ?b" "\<not> ?b < at_epoch (st_authority s)"
    by (auto simp: recovery_base_def Let_def initial_generation_def valid_def)
  have re: "restore_epoch ?b (st_authority s) = (True, (st_authority s)\<lparr>at_epoch := ?b\<rparr>)"
    using b by (simp add: restore_epoch_def)
  have "\<not> lr_loaded ?rep" by (simp add: empty_report_def)
  then have "ok \<or> \<not> lr_loaded r" using assms(3) l unfolding load_honest_def by (metis (full_types))
  then have ok: "ok" "lr_loaded r"
    using assms(1,2) p l by (auto simp: load_def Let_def split: if_splits)
  obtain e where e: "next_generation ?b = Some e"
    using assms p l ok re
    by (cases "next_generation ?b") (auto simp: load_def Let_def advance_epoch_def)
  have a: "advance_epoch ((st_authority s)\<lparr>at_epoch := ?b\<rparr>) =
      (True, (st_authority s)\<lparr>at_epoch := e\<rparr>)"
    using e by (simp add: advance_epoch_def)
  let ?s = "s\<lparr>st_persistence := Some p',
      st_registry := recover_registry (lr_state r) (st_registry s),
      st_authority := recover_authority (lr_state r) ((st_authority s)\<lparr>at_epoch := e\<rparr>)\<rparr>"
  let ?n = "recover_state (lr_state r) ?s"
  obtain c w t where c: "persist_locked ip ?n
      (set_limits (Some (st_limits s)) vr_success) (swap_in ?n ?s) = (c, w, t)"
    by (cases "persist_locked ip ?n (set_limits (Some (st_limits s)) vr_success) (swap_in ?n ?s)")
       auto
  note k = persist_locked_keeps [OF c]
  have r': "lr_state report = lr_state r" and s': "s' = t"
    using assms(1) p l ok re a c by (auto simp: load_def Let_def split: bool.splits)
  show "recovered (lr_state report) s s'"
    unfolding recovered_def r' s'
    using e k by (intro exI [of _ e]) (simp add: recover_state_def capture_tables_def)
  show "\<exists>p r p'. st_persistence s = Some p \<and> ip_load ip ?rep (st_limits s) p = (True, r, p') \<and>
      lr_loaded r \<and> lr_state r = lr_state report"
    using p l ok r' by auto
qed

lemma load_not_loaded:
  assumes "load ip s = (report, s')" and "\<not> lr_loaded report"
  shows "st_state s' = st_state s \<and> st_index s' = st_index s \<and> st_registry s' = st_registry s \<and>
    st_limits s' = st_limits s \<and> st_evidence s' = st_evidence s \<and>
    authority_step\<^sup>*\<^sup>* (st_authority s) (st_authority s')"
proof (cases "st_persistence s")
  case None
  with assms show ?thesis by (auto simp: load_def)
next
  case (Some p)
  let ?rep = "empty_report\<lparr>lr_result := set_limits (Some (st_limits s)) vr_success\<rparr>"
  obtain ok r p' where l: "ip_load ip ?rep (st_limits s) p = (ok, r, p')"
    by (cases "ip_load ip ?rep (st_limits s) p") auto
  obtain o1 a1 o2 a2 where a:
    "restore_epoch (recovery_base (lr_state r) (st_authority s)) (st_authority s) = (o1, a1)"
    "advance_epoch a1 = (o2, a2)" by fastforce
  have "authority_step (st_authority s) a1"
    using authority_step.restore [of "st_authority s"] a(1) by (metis snd_conv)
  then have "authority_step\<^sup>*\<^sup>* (st_authority s) a1" by simp
  with assms Some l a show ?thesis
    by (auto simp: load_def Let_def split: if_splits prod.splits bool.splits)
qed

section \<open>Refresh\<close>

lemma refresh_list_frame [simp]:
  "sl_content (refresh_list now l) = sl_content l" "sl_generation (refresh_list now l) = sl_generation l"
  "sl_lineage (refresh_list now l) = sl_lineage l" "sl_authority (refresh_list now l) = sl_authority l"
  "sl_provenance (refresh_list now l) = sl_provenance l"
  "sl_content_digest (refresh_list now l) = sl_content_digest l"
  "sl_sequence_digest (refresh_list now l) = sl_sequence_digest l"
  "sl_committed_revision (refresh_list now l) = sl_committed_revision l"
  by (simp_all add: refresh_list_def)

lemma refresh_list_state:
  "sl_state (refresh_list now l) =
     (if sl_state l = LS_Active \<and> now l \<noteq> Cu_Current then LS_RevalidationRequired else sl_state l)"
  by (auto simp: refresh_list_def refresh_skips_def)

definition refresh_image :: "'p Interference \<Rightarrow> 'p Store \<Rightarrow> DurableState" where
  "refresh_image env s =
     (let t = at_capture env s;
          now = refreshed_currentness (map_option snapshot (st_evidence (iv_snapshot env s)))
            (at_epoch (st_authority (iv_snapshot env s))) (st_authority t) (st_registry t)
      in (st_state t)\<lparr>ds_lists := map (refresh_list now) (ds_lists (st_state t)),
                       ds_revision := ds_revision (st_state t) + 1\<rparr>)"

lemma refresh_cases:
  assumes "refresh_currentness ip env s = (report, s')"
  shows "same_tables (at_capture env s) s' \<or> committed ip (refresh_image env s) (at_capture env s) s'"
proof -
  let ?t = "at_capture env s" and ?n = "refresh_image env s"
  obtain b w t where p: "persist_locked ip ?n (set_limits (Some (st_limits ?t)) vr_success) ?t = (b, w, t)"
    by (cases "persist_locked ip ?n (set_limits (Some (st_limits ?t)) vr_success) ?t") auto
  note k = persist_locked_keeps [OF p]
  have "s' = ?t \<or> s' = t \<or> b \<and> s' = swap_in ?n t"
    using assms p
    by (auto simp: refresh_currentness_def refresh_image_def at_capture_def Let_def
        split: if_splits bool.splits)
  moreover have "same_tables ?t t" using k by (simp add: same_tables_def)
  moreover have "committed ip ?n ?t (swap_in ?n t)" if b
    using k persist_locked_true [of ip ?n _ ?t w t] p that by (simp add: committed_def)
  ultimately show ?thesis by auto
qed

end
