(* ===== verification/StoreRuns.thy ===== *)
theory StoreRuns
  imports StoreRecovery
begin

text \<open>
  Runs of the store: every operation of its interface, of the authority table, of the registry and
  of the evidence source, with other runs interleaved at every point where the store does not hold
  its lock. The invariant of the store is proved once for every persistence object that keeps
  the contract of the locale \<open>durable_medium\<close>.
\<close>

section \<open>The contract of a durable medium\<close>

definition durable_wf :: "Limits \<Rightarrow> DurableState \<Rightarrow> bool" where
  "durable_wf limits st \<longleftrightarrow>
     distinct (map sl_id (ds_lists st)) \<and> length (ds_history st) \<le> unat (max_history limits) \<and>
     (\<forall>p \<in> set (ds_profiles st). profile_entry_wf p) \<and> (\<forall>q \<in> set (ds_policies st). policy_entry_wf q)"

locale durable_medium =
  fixes ip :: "'p IPersistence"
  assumes honest: "load_honest ip"
    and loads_wf: "ip_load ip report limits p = (True, r, p') \<Longrightarrow> lr_loaded r \<Longrightarrow>
      durable_wf limits (lr_state r)"

section \<open>Runs\<close>

inductive store_run :: "'p IPersistence \<Rightarrow> 'p Store \<Rightarrow> 'p Store \<Rightarrow> bool" for ip where
  idle: "store_run ip s s"
| mutation: "store_run ip s0 s \<Longrightarrow> interference_ok env \<Longrightarrow> store_run ip s (iv_snapshot env s) \<Longrightarrow>
    store_run ip (iv_snapshot env s) (at_capture env s) \<Longrightarrow>
    store_run ip (at_capture env s) (at_recheck env s) \<Longrightarrow>
    run_batch ip env caller drafts intent re ra s = (out, s') \<Longrightarrow> store_run ip s0 s'"
| administration: "store_run ip s0 s \<Longrightarrow> interference_ok env \<Longrightarrow>
    store_run ip s (iv_snapshot env s) \<Longrightarrow>
    store_run ip (iv_snapshot env s) (at_capture env s) \<Longrightarrow>
    store_run ip (at_capture env s) (at_recheck env s) \<Longrightarrow>
    transition ip env event caller i expected s = (out, s') \<Longrightarrow> store_run ip s0 s'"
| refresh: "store_run ip s0 s \<Longrightarrow> interference_ok env \<Longrightarrow> store_run ip s (iv_snapshot env s) \<Longrightarrow>
    store_run ip (iv_snapshot env s) (at_capture env s) \<Longrightarrow>
    refresh_currentness ip env s = (report, s') \<Longrightarrow> store_run ip s0 s'"
| recovery: "store_run ip s0 s \<Longrightarrow> load ip s = (lreport, s') \<Longrightarrow> store_run ip s0 s'"
| profile: "store_run ip s0 s \<Longrightarrow> store_register_profile ip p s = (res, s') \<Longrightarrow> store_run ip s0 s'"
| policy: "store_run ip s0 s \<Longrightarrow> store_register_policy ip q s = (res, s') \<Longrightarrow> store_run ip s0 s'"
| persist: "store_run ip s0 s \<Longrightarrow> persist_now ip s = (res, s') \<Longrightarrow> store_run ip s0 s'"
| view: "store_run ip s0 s \<Longrightarrow> list_snapshot i s = (snap, s') \<Longrightarrow> store_run ip s0 s'"
| authority: "store_run ip s0 s \<Longrightarrow> authority_step (st_authority s) a \<Longrightarrow>
    store_run ip s0 (s\<lparr>st_authority := a\<rparr>)"
| registry: "store_run ip s0 s \<Longrightarrow> registry_step (st_limits s) (st_registry s) g \<Longrightarrow>
    store_run ip s0 (s\<lparr>st_registry := g\<rparr>)"
| evidence: "store_run ip s0 s \<Longrightarrow> st_evidence s = Some e \<Longrightarrow>
    store_run ip s0 (s\<lparr>st_evidence := Some (evidence_step op e)\<rparr>)"

section \<open>The invariant\<close>

definition store_ok :: "Limits \<Rightarrow> 'p Store \<Rightarrow> bool" where
  "store_ok limits s \<longleftrightarrow> st_limits s = limits \<and> index_ok s \<and>
     registry_wf (st_registry s) \<and> authority_wf (st_authority s) \<and>
     length (ds_history (st_state s)) \<le> unat (max_history limits)"

definition bounds_positive :: "Limits \<Rightarrow> bool" where
  "bounds_positive l \<longleftrightarrow> 0 < max_reasons l \<and> 0 < max_history l"

lemma store_ok_same: "same_tables s s' \<Longrightarrow> store_ok l s \<Longrightarrow> store_ok l s'"
  by (simp add: same_tables_def store_ok_def index_ok_def)

lemma store_ok_snapshot [simp]: "store_ok l (take_snapshot_id s) = store_ok l s"
  by (simp add: store_ok_def index_ok_def)

lemma store_ok_committed:
  assumes "committed ip img s s'" and "store_ok l s" and "distinct (map sl_id (ds_lists img))"
    and "length (ds_history img) \<le> unat (max_history (st_limits s))"
  shows "store_ok l s'"
  using assms by (simp add: store_ok_def committed_def index_ok_def)

lemma supersede_slot_history:
  assumes "supersede_slot l pm st = Inr st'" and "length (ds_history st) \<le> unat (max_history l)"
    and "0 < max_history l"
  shows "length (ds_history st') \<le> unat (max_history l)"
  using assms
  by (auto simp: supersede_slot_def Let_def history_bounded split: if_splits option.splits)

lemma commit_slot_history:
  assumes "length (ds_history st) \<le> unat (max_history l)" and "0 < max_history l"
  shows "length (ds_history (commit_slot l pm st)) \<le> unat (max_history l)"
  using assms by (simp add: commit_slot_def history_bounded split: option.split)

lemma apply_mutations_history:
  assumes "apply_mutations l a p pms st = Inr st'" and "length (ds_history st) \<le> unat (max_history l)"
    and "0 < max_history l"
  shows "length (ds_history st') \<le> unat (max_history l)"
  using assms
proof (induction pms arbitrary: st)
  case (Cons pm pms)
  obtain t where t: "supersede_slot l pm st = Inr t"
    using Cons.prems(1) by (auto split: sum.splits)
  from supersede_slot_history [OF t Cons.prems(2,3)] Cons t show ?case
    by (simp add: history_bounded commit_slot_history)
qed simp

lemma batch_committed_history:
  assumes "batch_committed ip env caller drafts intent re ra s out s'"
    and "length (ds_history (st_state (at_recheck env s))) \<le> unat (max_history (st_limits (at_recheck env s)))"
    and "0 < max_history (st_limits (at_recheck env s))"
  shows "length (ds_history (st_state s')) \<le> unat (max_history (st_limits (at_recheck env s)))"
proof -
  obtain nxt where "apply_mutations (st_limits (at_recheck env s)) (ca_attempt caller)
      (batch_payload_digest drafts) (prepared_batch env caller drafts s)
      ((st_state (at_recheck env s))\<lparr>ds_revision := ds_revision (st_state (at_recheck env s)) + 1\<rparr>) =
      Inr nxt" "st_state s' = (capture_tables (at_recheck env s) nxt)\<lparr>ds_epoch := pc_epoch (captured env s)\<rparr>"
    using assms(1) by (auto simp: batch_committed_def elim: batch_image_Inr)
  with apply_mutations_history [OF this(1)] assms(2,3) show ?thesis by simp
qed

lemma store_ok_left:
  "t \<in> left_by_others env s \<Longrightarrow> store_ok l s \<Longrightarrow> store_ok l (iv_snapshot env s) \<Longrightarrow>
   store_ok l (at_capture env s) \<Longrightarrow> store_ok l (at_recheck env s) \<Longrightarrow> store_ok l t"
  by (auto simp: left_by_others_def)

lemma recheck_limits:
  "interference_ok env \<Longrightarrow> st_limits (at_recheck env s) = st_limits s"
  "interference_ok env \<Longrightarrow> st_limits (at_capture env s) = st_limits s"
  by (simp_all add: at_recheck_def at_capture_def interference_limits)

lemma store_ok_mutation:
  assumes "run_batch ip env caller drafts intent re ra s = (out, s')" and "interference_ok env"
    and "bounds_positive l" and "store_ok l s" and "store_ok l (iv_snapshot env s)"
    and "store_ok l (at_capture env s)" and "store_ok l (at_recheck env s)"
  shows "store_ok l s'"
proof -
  have cap: "0 < max_reasons (st_limits s)" "0 < max_history (st_limits s)"
    using assms(3,4) by (simp_all add: bounds_positive_def store_ok_def)
  from run_batch_cases [OF assms(1,2) cap(1)] consider
    "batch_rejected env s out s'" | "batch_replayed env caller drafts s out s'"
    | "batch_committed ip env caller drafts intent re ra s out s'" by blast
  then show ?thesis
  proof cases
    case 1
    then show ?thesis
      using store_ok_same store_ok_left [OF _ assms(4-7)] by (auto simp: batch_rejected_def)
  next
    case 2
    then show ?thesis using assms(6) by (simp add: batch_replayed_def)
  next
    case 3
    have "distinct (map sl_id (ds_lists (st_state s')))"
      using batch_committed_image(2) [OF 3] assms(7) by (simp add: store_ok_def index_ok_def)
    moreover have "committed ip (st_state s') (at_recheck env s) s'"
      using 3 by (simp add: batch_committed_def)
    ultimately show ?thesis
      using store_ok_committed [of ip "st_state s'" "at_recheck env s" s'] assms(7)
        batch_committed_history [OF 3] recheck_limits [OF assms(2), of s] cap
      by (simp add: store_ok_def)
  qed
qed

lemma transition_image_history:
  assumes "length (ds_history (st_state s)) \<le> unat (max_history (st_limits s))"
    and "0 < max_history (st_limits s)"
  shows "length (ds_history (transition_image caller i ctx draft l s)) \<le> unat (max_history (st_limits s))"
  using assms by (simp add: transition_image_def Let_def history_bounded)

lemma store_ok_transition:
  assumes "transition ip env event caller i expected s = (out, s')" and "interference_ok env"
    and "bounds_positive l" and "store_ok l s" and "store_ok l (iv_snapshot env s)"
    and "store_ok l (at_capture env s)" and "store_ok l (at_recheck env s)"
  shows "store_ok l s'"
proof -
  have cap: "0 < max_reasons (st_limits s)" "0 < max_history (st_limits s)"
    using assms(3,4) by (simp_all add: bounds_positive_def store_ok_def)
  from transition_cases [OF assms(1,2) cap(1)] show ?thesis
  proof
    assume "batch_rejected env s out s'"
    then show ?thesis
      using store_ok_same store_ok_left [OF _ assms(4-7)] by (auto simp: batch_rejected_def)
  next
    assume c: "transition_committed ip env event caller i expected s out s'"
    have "index_ok s'" using transition_committed_ok(1) [OF c] assms(7) by (simp add: store_ok_def)
    then have "distinct (map sl_id (ds_lists (st_state s')))" by (simp add: index_ok_def)
    with c show ?thesis
      using store_ok_committed [of ip "st_state s'" "at_recheck env s" s'] assms(7)
        transition_image_history [of "at_recheck env s"] recheck_limits [OF assms(2), of s] cap
      by (auto simp: transition_committed_def store_ok_def)
  qed
qed

lemma store_ok_refresh:
  assumes "refresh_currentness ip env s = (report, s')" and "store_ok l (at_capture env s)"
  shows "store_ok l s'"
proof -
  have "map sl_id (ds_lists (refresh_image env s)) = map sl_id (ds_lists (st_state (at_capture env s)))"
    and "ds_history (refresh_image env s) = ds_history (st_state (at_capture env s))"
    by (simp_all add: refresh_image_def Let_def comp_def)
  with refresh_cases [OF assms(1)] assms(2) show ?thesis
    using store_ok_same store_ok_committed [of ip "refresh_image env s" "at_capture env s" s']
    by (auto simp: store_ok_def index_ok_def)
qed

lemma store_ok_persist_tables:
  assumes "persist_tables ip r s = (r', s')" and "store_ok l s"
  shows "store_ok l s'"
proof -
  obtain b w t where p: "persist_locked ip (capture_tables s (st_state s)) r s = (b, w, t)"
    by (cases "persist_locked ip (capture_tables s (st_state s)) r s") auto
  note k = persist_locked_keeps [OF p]
  have "s' = t \<or> s' = swap_in ((capture_tables s (st_state s))
      \<lparr>ds_revision := ds_revision (st_state t) + 1\<rparr>) t"
    using assms(1) p by (auto simp: persist_tables_def Let_def split: bool.splits)
  with k assms(2) show ?thesis by (auto simp: store_ok_def index_ok_def)
qed

lemma store_ok_register:
  assumes "store_ok l s"
  shows "store_register_profile ip p s = (res, s') \<Longrightarrow> store_ok l s'"
    and "store_register_policy ip q s = (res, s') \<Longrightarrow> store_ok l s'"
proof -
  have "store_ok l (s\<lparr>st_registry := snd (register_profile p (st_limits s) (st_registry s))\<rparr>)"
    "store_ok l (s\<lparr>st_registry := snd (register_policy q (st_limits s) (st_registry s))\<rparr>)"
    using assms by (auto simp: store_ok_def index_ok_def intro: srf_inv)
  then show "store_register_profile ip p s = (res, s') \<Longrightarrow> store_ok l s'"
    "store_register_policy ip q s = (res, s') \<Longrightarrow> store_ok l s'"
    by (auto simp: store_register_profile_def store_register_policy_def Let_def
        split: prod.splits if_splits intro: store_ok_persist_tables)
qed

lemma store_ok_persist_now:
  assumes "persist_now ip s = (res, s')" and "store_ok l s"
  shows "store_ok l s'"
proof -
  let ?n = "(capture_tables s (st_state s))\<lparr>ds_epoch := at_epoch (st_authority s),
      ds_revision := ds_revision (st_state s) + 1\<rparr>"
  obtain b w t where p: "persist_locked ip ?n (set_limits (Some (st_limits s)) vr_success) s = (b, w, t)"
    by (cases "persist_locked ip ?n (set_limits (Some (st_limits s)) vr_success) s") auto
  note k = persist_locked_keeps [OF p]
  have "s' = s \<or> s' = t \<or> s' = swap_in ?n t"
    using assms(1) p by (auto simp: persist_now_def Let_def split: bool.splits if_splits)
  with k assms(2) show ?thesis by (auto simp: store_ok_def index_ok_def)
qed

lemma ball_upsert:
  "\<forall>y \<in> set xs. P y \<Longrightarrow> P x \<Longrightarrow> \<forall>y \<in> set (upsert key x xs). P y"
  by (cases "find_key key (key x) xs")
     (auto simp: upsert_new upsert_old dest!: subsetD [OF set_update_key_subset])

lemma recover_registry_wf:
  assumes "registry_wf g" and "\<forall>p \<in> set (ds_profiles st). profile_entry_wf p"
    and "\<forall>q \<in> set (ds_policies st). policy_entry_wf q"
  shows "registry_wf (recover_registry st g)"
proof -
  have one: "registry_wf (restore_profile p g)" if "registry_wf g" "profile_entry_wf p" for p g
    using that ball_upsert [of "rg_profiles g" profile_entry_wf p pf_id]
    by (simp add: registry_wf_def restore_profile_def distinct_upsert)
  have two: "registry_wf (restore_policy p g)" if "registry_wf g" "policy_entry_wf p" for p g
    using that ball_upsert [of "rg_policies g" policy_entry_wf p po_id]
    by (simp add: registry_wf_def restore_policy_def distinct_upsert)
  have "registry_wf (fold restore_profile ps g)" if "registry_wf g" "\<forall>p \<in> set ps. profile_entry_wf p" for ps g
    using that by (induction ps arbitrary: g) (auto intro: one)
  moreover have "registry_wf (fold restore_policy ps g)"
    if "registry_wf g" "\<forall>p \<in> set ps. policy_entry_wf p" for ps g
    using that by (induction ps arbitrary: g) (auto intro: two)
  ultimately show ?thesis using assms by (simp add: recover_registry_def)
qed

lemma store_ok_recovered:
  assumes "recovered st s s'" and "store_ok l s" and "durable_wf (st_limits s) st"
  shows "store_ok l s'"
proof -
  obtain e where e: "next_generation (recovery_base st (st_authority s)) = Some e"
    and a: "st_authority s' = recover_authority st ((st_authority s)\<lparr>at_epoch := e\<rparr>)"
    and r: "st_registry s' = recover_registry st (st_registry s)"
    and d: "ds_lists (st_state s') = map recover_list (ds_lists st)"
      "ds_history (st_state s') = ds_history st"
    and i: "st_index s' = build_index (ds_lists (st_state s'))" "st_limits s' = st_limits s"
    using assms(1) by (auto simp: recovered_def capture_tables_def)
  have "authority_wf ((st_authority s)\<lparr>at_epoch := e\<rparr>)"
    using assms(2) generation_next_valid [OF e]
    by (auto simp: store_ok_def authority_wf_def publisher_wf_def)
  then have "authority_wf (st_authority s')"
    unfolding a using authority_run [OF recover_authority_run] by blast
  moreover have "distinct (map (sl_id \<circ> recover_list) (ds_lists st))"
    using assms(3) by (simp add: durable_wf_def comp_def)
  ultimately show ?thesis
    using assms(2,3) i d r recover_registry_wf [of "st_registry s" st]
    by (simp add: store_ok_def index_ok_def durable_wf_def)
qed

context durable_medium
begin

lemma store_ok_load:
  assumes "load ip s = (report, s')" and "store_ok l s"
  shows "store_ok l s'"
proof (cases "lr_loaded report")
  case True
  obtain p r p' where "ip_load ip
      (empty_report\<lparr>lr_result := set_limits (Some (st_limits s)) vr_success\<rparr>) (st_limits s) p =
      (True, r, p')" "lr_loaded r" "lr_state r = lr_state report"
    using load_loaded(2) [OF assms(1) True honest] by auto
  then show ?thesis
    using store_ok_recovered [OF load_loaded(1) [OF assms(1) True honest] assms(2)] loads_wf by metis
next
  case False
  have "authority_wf (st_authority s')"
    using load_not_loaded [OF assms(1) False] authority_run assms(2) by (auto simp: store_ok_def)
  then show ?thesis
    using load_not_loaded [OF assms(1) False] assms(2) by (simp add: store_ok_def index_ok_def)
qed

lemma run_ok:
  assumes "store_run ip s s'" and "bounds_positive l" and "store_ok l s"
  shows "store_ok l s'"
  using assms(1,3)
proof (induction rule: store_run.induct)
  case (mutation s0 s env caller drafts intent re ra out s')
  then show ?case using store_ok_mutation [OF mutation(6,2) assms(2)] by simp
next
  case (administration s0 s env event caller i expected out s')
  then show ?case using store_ok_transition [OF administration(6,2) assms(2)] by simp
next
  case (refresh s0 s env report s')
  then show ?case using store_ok_refresh [OF refresh(5)] by simp
next
  case (recovery s0 s report s')
  then show ?case using store_ok_load [OF recovery(2)] by simp
next
  case (view s0 s i snap s')
  then show ?case by (auto simp: list_snapshot_def split: option.splits)
next
  case (authority s0 s a)
  then show ?case
    using authority_step_wf [OF authority(2)] by (simp add: store_ok_def index_ok_def)
next
  case (registry s0 s g)
  then show ?case
    using registry_step_wf [OF registry(2)] by (simp add: store_ok_def index_ok_def)
next
  case (evidence s0 s e op)
  then show ?case by (simp add: store_ok_def index_ok_def)
next
  case (profile s0 s p res s')
  then show ?case using store_ok_register(1) by blast
next
  case (policy s0 s q res s')
  then show ?case using store_ok_register(2) by blast
next
  case (persist s0 s res s')
  then show ?case using store_ok_persist_now by blast
qed simp

end

end
