(* ===== verification/StoreAdministration.thy ===== *)
theory StoreAdministration
  imports StoreRuns
begin

text \<open>
  Properties of administration, recovery and refresh, and two properties of revalidation and of
  the re-verification before a commit that show where the code is narrower than its description.
\<close>

section \<open>Progress of transitions\<close>

definition administrable ::
  "CallerIdentity \<Rightarrow> SegmentListId \<Rightarrow> SegmentListGeneration \<Rightarrow> LifecycleEvent \<Rightarrow> 'p Store \<Rightarrow> bool" where
  "administrable caller i expected event s \<longleftrightarrow>
     index_ok s \<and> 0 < max_reasons (st_limits s) \<and>
     attempt_table_accepts (st_limits s) (st_state s) (ca_attempt caller) \<and> valid expected \<and>
     (\<exists>l. find_locked s i = Some l \<and> sl_generation l = expected \<and>
        vr_ok (validate_request (build_request caller (transition_draft l i expected) event False
          (captured no_interference s) \<lparr>re_existing = Some l, re_profile = None, re_policy = None,
            re_superseded = None\<rparr>)))"

lemma no_interference_simps [simp]:
  "iv_begin no_interference s = s" "iv_snapshot no_interference s = s"
  "iv_lock no_interference s = s" "iv_commit no_interference s = s"
  by (simp_all add: no_interference_def)

lemma admin_request_permitted:
  assumes "vr_ok (validate_request (build_request caller draft event False ctx res))"
    and "0 < max_reasons (pc_limits ctx)" and "re_existing res = Some l"
  shows "\<exists>st. lifecycle_transition (sl_state l) event = Some st"
proof -
  let ?r = "build_request caller draft event False ctx res"
  have "0 < reason_cap (vq_limits ?r)"
    using assms(2) by (simp add: build_request_def reason_cap_def word_less_nat_alt)
  from request.run_ok [OF this] phases_empty [of ?r] assms(1) have "admissible ?r" by simp
  then show ?thesis
    using assms(3) by (auto simp: admissible_def list_admissible_def build_request_def)
qed

lemma transition_succeeds:
  assumes adm: "administrable caller i expected event s" and sv: "saves ip s"
  shows "\<exists>out s'. transition ip no_interference event caller i expected s = (out, s') \<and>
    mo_status out = St_Ok"
proof -
  let ?n = no_interference
  obtain l where l: "find_locked s i = Some l" "sl_generation l = expected"
    and ok: "vr_ok (validate_request (build_request caller (transition_draft l i expected) event False
          (captured ?n s) \<lparr>re_existing = Some l, re_profile = None, re_policy = None,
            re_superseded = None\<rparr>))"
    using adm by (auto simp: administrable_def)
  obtain st where st: "lifecycle_transition (sl_state l) event = Some st"
    using admin_request_permitted [OF ok] adm by (auto simp: administrable_def)
  have pre: "prepare_transition ?n caller i expected event s =
      (Inr (captured ?n s, transition_draft l i expected), s)"
    using adm l ok by (simp add: prepare_transition_def Let_def administrable_def captured_def)
  have none: "transition_reasons (captured ?n s) i expected s = []"
    using l by (auto simp: transition_reasons_def watermark_reasons_def split: option.split)
  have f: "find_in_state (st_state s) i = Some l"
    using l find_locked_scan [of s i] adm by (simp add: administrable_def)
  let ?v = "set_limits (Some (st_limits s)) vr_success"
  let ?img = "transition_image caller i (captured ?n s) (transition_draft l i expected)
      (transitioned caller (pc_epoch (captured ?n s)) (ds_revision (st_state s) + 1) st l) s"
  have "fst (persist_locked ip ?img ?v s)" using sv by (simp add: saves_def)
  then obtain w t where p: "persist_locked ip ?img ?v s = (True, w, t)"
    by (cases "persist_locked ip ?img ?v s") auto
  show ?thesis
    using pre f st p
    by (simp add: transition_def commit_transition_def Let_def none transitioned_def vr_ok_def)
qed

text \<open>The example store, with a record of an earlier mutation under the caller's attempt.\<close>

definition attempted_example :: "DurableState list Store" where
  "attempted_example = (stored_example LS_Active)\<lparr>st_state := (st_state (stored_example LS_Active))
     \<lparr>ds_attempts := [\<lparr>dar_attempt = 900, dar_list = 11, dar_payload = zero_digest,
        dar_generation = 1, dar_committed = True\<rparr>]\<rparr>\<rparr>"

lemma attempted_example_config [simp]:
  "st_limits attempted_example = default_limits" "index_ok attempted_example"
  "find_locked attempted_example 11 = Some (list_example LS_Active)"
  "st_persistence attempted_example = Some []"
proof -
  show ix: "index_ok attempted_example"
    using stored_example_config(2) [of LS_Active] by (simp add: attempted_example_def index_ok_def)
  have "find_in_state (st_state attempted_example) 11 = Some (list_example LS_Active)"
    by (simp add: attempted_example_def find_in_state_def) (simp add: list_example_def content_example_def)
  then show "find_locked attempted_example 11 = Some (list_example LS_Active)"
    by (simp add: find_locked_scan [OF ix])
qed (simp_all add: attempted_example_def)

lemma administrable_examples:
  "administrable caller_example 11 1 LE_Revoke (stored_example LS_Active)"
  "administrable caller_example 11 1 LE_Revoke attempted_example"
proof -
  let ?v = "\<lambda>s. vr_ok (validate_request (build_request caller_example
      (transition_draft (list_example LS_Active) 11 1) LE_Revoke False
      (captured no_interference s) \<lparr>re_existing = Some (list_example LS_Active), re_profile = None,
        re_policy = None, re_superseded = None\<rparr>))"
  have "?v (stored_example LS_Active)" "?v attempted_example" by code_simp+
  moreover have "sl_generation (list_example LS_Active) = 1" by (simp add: list_example_def)
  ultimately show "administrable caller_example 11 1 LE_Revoke (stored_example LS_Active)"
    "administrable caller_example 11 1 LE_Revoke attempted_example"
    by (simp_all add: administrable_def attempt_table_accepts_def default_limits_def valid_def)
       (simp add: attempted_example_def caller_example_def)
qed

section \<open>Transitions\<close>



text \<open>
  an administrative transition does not check its attempt identifier against the recorded ones.
  Whatever was recorded for the attempt of an acknowledged transition, by an earlier create or
  replace for instance, is overwritten with the record of the transition: the replay of that
  earlier mutation is afterwards refused as a reuse instead of being answered idempotently.
\<close>

theorem transition_overwrites_attempt:
  assumes "transition ip env event caller i expected s = (out, s')" and "interference_ok env"
    and "0 < max_reasons (st_limits s)" and "index_ok (at_recheck env s)"
    and "mo_status out = St_Ok" and "valid (ca_attempt caller)"
  shows "\<exists>l. find_locked (at_capture env s) i = Some l \<and>
    recorded_attempt s' caller = Some \<lparr>dar_attempt = ca_attempt caller, dar_list = i,
      dar_payload = draft_payload_digest (transition_draft l i expected), dar_generation = expected,
      dar_committed = True\<rparr>"
proof -
  have c: "transition_committed ip env event caller i expected s out s'"
    using transition_cases [OF assms(1-3)] assms(5) by (auto simp: batch_rejected_def)
  then obtain existing l st where e: "find_locked (at_capture env s) i = Some existing"
    "find_in_state (st_state (at_recheck env s)) i = Some l"
    "st_state s' = transition_image caller i (captured env s) (transition_draft existing i expected)
      (transitioned caller (pc_epoch (captured env s))
         (ds_revision (st_state (at_recheck env s)) + 1) st l) (at_recheck env s)"
    by (auto simp: transition_committed_def)
  have "sl_generation l = expected"
    using transition_committed_effect(1) [OF c assms(4)] find_locked_scan [OF assms(4)] e(2) by auto
  with e assms(6) show ?thesis by (simp add: recorded_attempt_def transition_image_attempts)
qed

theorem transition_overwrites_attempt_witness:
  "\<exists>out s' r. revoke journal no_interference caller_example 11 1 attempted_example = (out, s') \<and>
     recorded_attempt attempted_example caller_example \<noteq> None \<and>
     recorded_attempt s' caller_example = Some r \<and>
     dar_payload r = draft_payload_digest (transition_draft (list_example LS_Active) 11 1)"
proof -
  obtain out s' where r: "transition journal no_interference LE_Revoke caller_example 11 1
      attempted_example = (out, s')" and ok: "mo_status out = St_Ok"
    using transition_succeeds [OF administrable_examples(2), of journal] by auto
  have "valid (ca_attempt caller_example)" by (simp add: caller_example_def valid_def)
  moreover from this have "recorded_attempt attempted_example caller_example \<noteq> None"
    by (simp add: recorded_attempt_def attempted_example_def find_attempt_def caller_example_def)
  ultimately show ?thesis
    using transition_overwrites_attempt [OF r _ _ _ ok] r by (auto simp: default_limits_def revoke_def)
qed

section \<open>Revalidation\<close>

text \<open>
  a list that is bound to a path, a route or a constraint evaluation can never be revalidated.
  \<^verbatim>\<open>revalidate\<close> copies the path, route and constraint identifiers into its draft but not their
  generations, and validation requires a valid generation with each; so it is rejected and changes
  nothing, whatever the evidence is, although a fresh attempt was made.
\<close>

theorem bound_list_never_revalidated:
  assumes "revalidate ip env caller i expected s = (out, s')" and "interference_ok env"
    and "0 < max_reasons (st_limits s)" and "find_locked s i = Some l"
    and "valid (lc_path (sl_content l)) \<or> valid (lc_route (sl_content l)) \<or>
      valid (lc_constraint (sl_content l))"
    and "recorded_attempt (at_capture env (iv_begin env s)) caller = None"
  shows "mo_status out \<noteq> St_Ok \<and> (\<exists>t \<in> left_by_others env (iv_begin env s). same_tables t s')"
proof -
  let ?s = "iv_begin env s" and ?d = "(revalidation_draft l expected)\<lparr>dr_id := i\<rparr>"
  have run: "run_batch ip env caller [?d] LE_RevalidateBegin True False ?s = (out, s')"
    using assms(1,4) by (simp add: revalidate_def)
  have cap: "0 < max_reasons (st_limits ?s)" using assms(2,3) by (simp add: interference_limits)
  have "\<not> admissible (draft_request caller LE_RevalidateBegin True False ctx ?d res)" for ctx res
    using assms(5)
    by (auto simp: admissible_def content_admissible_def path_admissible_def route_admissible_def
        constraint_admissible_def revalidation_draft_def empty_draft_def Let_def)
  then have "\<not> batch_committed ip env caller [?d] LE_RevalidateBegin True False ?s out s'"
    using batch_committed_admissible(1) [OF _ assms(2) cap list.set_intros(1)] by blast
  with run_batch_cases [OF run assms(2) cap] assms(6) show ?thesis
    by (auto simp: batch_rejected_def batch_replayed_def)
qed

definition routed_example :: "DurableState list Store" where
  "routed_example = rebuild_index (store_example\<lparr>st_state := (st_state store_example)
     \<lparr>ds_lists := [(list_example LS_RevalidationRequired)\<lparr>sl_content :=
        (content_example [fabric_segment_example 1])\<lparr>lc_route := 5, lc_route_generation := 1\<rparr>\<rparr>]\<rparr>\<rparr>)"

theorem bound_list_never_revalidated_witness:
  "mo_status (fst (revalidate journal no_interference caller_example 11 1 routed_example)) \<noteq> St_Ok"
proof -
  obtain l where l: "find_locked routed_example 11 = Some l" "valid (lc_route (sl_content l))"
    by (simp add: routed_example_def rebuild_index_def find_locked_def build_index_def lower_bound_def
        content_example_def valid_def)
  have "recorded_attempt routed_example caller_example = None" "st_limits routed_example = default_limits"
    by (simp_all add: routed_example_def rebuild_index_def recorded_attempt_def find_attempt_def)
  then show ?thesis
    using bound_list_never_revalidated [of journal no_interference caller_example 11 1 routed_example
        _ _ l] l by (auto simp: prod_eq_iff default_limits_def)
qed

section \<open>The commit window\<close>

text \<open>Another thread marks a publisher dead while the mutation is between validation and commit.\<close>

definition death_race :: "PublisherId \<Rightarrow> 'p Interference" where
  "death_race pid = no_interference\<lparr>iv_commit :=
     (\<lambda>s. s\<lparr>st_authority := snd (mark_dead pid (st_authority s))\<rparr>)\<rparr>"

lemma mark_dead_epoch [simp]: "at_epoch (snd (mark_dead pid a)) = at_epoch a"
  by (simp add: mark_dead_def split: option.split)

lemma death_race_simps [simp]:
  "iv_snapshot (death_race pid) s = s" "iv_lock (death_race pid) s = s"
  "iv_commit (death_race pid) s = s\<lparr>st_authority := snd (mark_dead pid (st_authority s))\<rparr>"
  by (simp_all add: death_race_def)

lemma prepare_batch_death:
  "prepare_batch (death_race pid) caller drafts intent re ra s =
     prepare_batch no_interference caller drafts intent re ra s"
  by (simp add: prepare_batch_def Let_def)

text \<open>
  C30: the re-verification before a commit covers the epoch but not the liveness of the caller. If
  the caller's publisher is marked dead, and its boot thereby fenced, after its mutation validated
  and before it commits, the mutation is still acknowledged and stored: a fenced writer's
  completion becomes current.
\<close>

theorem fenced_completion_commits:
  assumes "ready caller d intent re ra s" and "\<And>a. saves ip (s\<lparr>st_authority := a\<rparr>)"
    and "find_publisher (ca_publisher caller) (st_authority s) = Some p"
  shows "\<exists>out s'. run_batch ip (death_race (ca_publisher caller)) caller [d] intent re ra s = (out, s') \<and>
    mo_status out = St_Ok \<and> \<not> is_alive (ca_publisher caller) (st_authority s') \<and>
    is_fenced (ps_boot p) (st_authority s')"
proof -
  let ?a = "snd (mark_dead (ca_publisher caller) (st_authority s))"
  obtain out s' where c: "commit_batch ip caller [d] (captured no_interference s)
      [prepared_mutation caller (captured no_interference s) d (resolve s d)]
      (s\<lparr>st_authority := ?a\<rparr>) = (out, s')" "mo_status out = St_Ok" "st_authority s' = ?a"
    using commit_prepared [OF assms(1,2) refl, of ?a] by auto
  have "\<not> is_alive (ca_publisher caller) ?a" "is_fenced (ps_boot p) ?a"
    using assms(3)
    by (auto simp: mark_dead_def find_publisher_def is_alive_def is_fenced_def find_key_update_key)
  with c show ?thesis
    by (auto simp: run_batch_def prepare_batch_death prepare_single [OF assms(1)])
qed

theorem fenced_completion_commits_witness:
  "\<exists>out s'. create_list journal (death_race 7) caller_example (draft_example 0 1) store_example =
     (out, s') \<and> mo_status out = St_Ok \<and> is_fenced 70 (st_authority s')"
proof -
  have p: "find_publisher (ca_publisher caller_example) (st_authority store_example) =
      Some publisher_example" "ca_publisher caller_example = 7" "ps_boot publisher_example = 70"
    by (simp_all add: find_publisher_def view_example_def caller_example_def publisher_example_def)
  have "saves journal (store_example\<lparr>st_authority := a\<rparr>)" for a by simp
  from fenced_completion_commits [OF store_example_ready this p(1)] p show ?thesis
    by (auto simp: create_list_def)
qed

section \<open>Recovery and refresh\<close>

text \<open>
  C26: recovery is conservative. After a load that reports an image, the epoch is strictly above both
  the epoch the image was written under and the epoch the store had; every publisher of the image is
  dead, its boot and every boot fenced in the image are fenced; the lists are those of the image
  with content, generation, lineage and digests untouched, none of them is \<^verbatim>\<open>ACTIVE\<close> or reported
  current, and a terminal state is kept.
\<close>

theorem recovery_conservative:
  assumes "load ip s = (report, s')" and "lr_loaded report" and "load_honest ip"
  shows "ds_epoch (lr_state report) < at_epoch (st_authority s') \<and>
    at_epoch (st_authority s) < at_epoch (st_authority s') \<and>
    (\<forall>p \<in> set (ds_publishers (lr_state report)). \<not> is_alive (ps_id p) (st_authority s') \<and>
       (valid (ps_boot p) \<longrightarrow> is_fenced (ps_boot p) (st_authority s'))) \<and>
    (\<forall>b \<in> set (ds_fenced_boots (lr_state report)). is_fenced b (st_authority s')) \<and>
    list_all2 (\<lambda>l l'. sl_content l' = sl_content l \<and> sl_generation l' = sl_generation l \<and>
        sl_lineage l' = sl_lineage l \<and> sl_content_digest l' = sl_content_digest l \<and>
        sl_state l' \<noteq> LS_Active \<and> \<not> currentness_is_usable (sl_currentness l') \<and>
        (lifecycle_is_terminal_for_activation (sl_state l) \<longrightarrow> sl_state l' = sl_state l))
      (ds_lists (lr_state report)) (ds_lists (st_state s'))"
proof -
  let ?st = "lr_state report"
  obtain e where e: "next_generation (recovery_base ?st (st_authority s)) = Some e"
    and a: "st_authority s' = recover_authority ?st ((st_authority s)\<lparr>at_epoch := e\<rparr>)"
    and d: "ds_lists (st_state s') = map recover_list (ds_lists ?st)"
    using load_loaded(1) [OF assms] by (auto simp: recovered_def)
  have "recovery_base ?st (st_authority s) < e" using generation_next_valid [OF e] by simp
  moreover have "ds_epoch ?st \<le> recovery_base ?st (st_authority s)"
    "at_epoch (st_authority s) \<le> recovery_base ?st (st_authority s)"
    by (auto simp: recovery_base_def Let_def valid_def)
  ultimately have "ds_epoch ?st < at_epoch (st_authority s') \<and>
      at_epoch (st_authority s) < at_epoch (st_authority s')"
    unfolding a by (auto intro: le_less_trans)
  moreover have "list_all2 (\<lambda>l l'. sl_content l' = sl_content l \<and> sl_generation l' = sl_generation l \<and>
        sl_lineage l' = sl_lineage l \<and> sl_content_digest l' = sl_content_digest l \<and>
        sl_state l' \<noteq> LS_Active \<and> \<not> currentness_is_usable (sl_currentness l') \<and>
        (lifecycle_is_terminal_for_activation (sl_state l) \<longrightarrow> sl_state l' = sl_state l))
      (ds_lists ?st) (ds_lists (st_state s'))"
    unfolding d
    by (auto simp: list_all2_conv_all_nth recover_list_unusable recover_list_state
        lifecycle_is_terminal_for_activation_def split: LifecycleState.splits)
  ultimately show ?thesis
    using recover_authority_dead [of _ ?st] dead_publisher_not_alive recover_authority_fenced [of ?st]
    unfolding a is_fenced_def by auto
qed

theorem recovery_conservative_witness:
  "\<exists>report s'. load journal (store_example\<lparr>st_persistence :=
       Some [(st_state (stored_example LS_Active))\<lparr>ds_epoch := 4, ds_publishers := [publisher_example]\<rparr>]\<rparr>) =
     (report, s') \<and> 4 < at_epoch (st_authority s') \<and> is_fenced 70 (st_authority s') \<and>
     map sl_state (ds_lists (st_state s')) = [LS_RevalidationRequired]"
proof -
  let ?img = "(st_state (stored_example LS_Active))\<lparr>ds_epoch := 4, ds_publishers := [publisher_example]\<rparr>"
  let ?s = "store_example\<lparr>st_persistence := Some [?img]\<rparr>"
  obtain report s' where l: "load journal ?s = (report, s')" by fastforce
  have base: "recovery_base ?img view_example = 4"
    by (simp add: recovery_base_def view_example_def valid_def)
  have "fst (load journal ?s) = report" using l by simp
  then have r: "lr_loaded report" "lr_state report = ?img"
    using base
    by (auto simp: load_def Let_def journal_def restore_epoch_def advance_epoch_def next_generation_def
        persist_locked_def view_example_def valid_def max_value_def empty_report_def)
  have "load_honest journal" by (auto simp: load_honest_def journal_def split: list.splits)
  from recovery_conservative [OF l r(1) this] r(2) l
  have c: "4 < at_epoch (st_authority s')" "is_fenced 70 (st_authority s')"
    by (auto simp: publisher_example_def valid_def)
  have "ds_lists (st_state s') = map recover_list [list_example LS_Active]"
    using load_loaded(1) [OF l r(1) \<open>load_honest journal\<close>] r(2) by (auto simp: recovered_def)
  then have "map sl_state (ds_lists (st_state s')) = [LS_RevalidationRequired]"
    by (simp add: recover_list_state list_example_def)
  with c l show ?thesis by (intro exI [of _ report] exI [of _ s']) (simp only: simp_thms)
qed

text \<open>
  a refresh only degrades. It never changes which lists there are, nor their content, generation,
  lineage, authority or digests; the only state change it makes is from \<^verbatim>\<open>ACTIVE\<close> to
  \<^verbatim>\<open>REVALIDATION_REQUIRED\<close>; and when its write fails, nothing changes.
\<close>

theorem refresh_only_degrades:
  assumes "refresh_currentness ip env s = (report, s')"
  shows "list_all2 (\<lambda>l l'. sl_content l' = sl_content l \<and> sl_generation l' = sl_generation l \<and>
        sl_lineage l' = sl_lineage l \<and> sl_authority l' = sl_authority l \<and>
        sl_content_digest l' = sl_content_digest l \<and>
        (sl_state l' = sl_state l \<or> sl_state l = LS_Active \<and> sl_state l' = LS_RevalidationRequired))
      (ds_lists (st_state (at_capture env s))) (ds_lists (st_state s')) \<and>
    ds_attempts (st_state s') = ds_attempts (st_state (at_capture env s)) \<and>
    ds_history (st_state s') = ds_history (st_state (at_capture env s))"
  using refresh_cases [OF assms]
proof
  assume "same_tables (at_capture env s) s'"
  then show ?thesis by (simp add: same_tables_def list_all2_same)
next
  assume "committed ip (refresh_image env s) (at_capture env s) s'"
  then have "st_state s' = refresh_image env s" by (simp add: committed_def)
  then show ?thesis
    by (auto simp: refresh_image_def Let_def list_all2_conv_all_nth refresh_list_state)
qed

theorem refresh_only_degrades_witness:
  "map lc_id (map sl_content (ds_lists (st_state (snd (refresh_currentness journal no_interference
     (stored_example LS_Active)))))) = [11]"
proof -
  obtain report s' where r: "refresh_currentness journal no_interference (stored_example LS_Active) =
      (report, s')" by fastforce
  from refresh_only_degrades [OF r] show ?thesis
    by (auto simp: r list_all2_Cons1 list_example_def content_example_def)
qed

end
