(* ===== verification/Decode.thy ===== *)
theory Decode
  imports Reason
begin

text \<open>
  Decoding with early exit, as \<^verbatim>\<open>persistence.cpp\<close> and \<^verbatim>\<open>wire.cpp\<close> write it: a bounds-checked
  \<^verbatim>\<open>ByteReader\<close> and a \<^verbatim>\<open>ValidationResult\<close> are threaded through the reads of a record, and the first read
  or check that fails adds its reason and returns false. A decoder takes and returns that pair;
  \<open>None\<close> is the early return.
\<close>

section \<open>Decoders\<close>

record Decoder =
  dc_reader :: ByteReader
  dc_result :: ValidationResult

type_synonym 'a decoder = "Decoder \<Rightarrow> 'a option \<times> Decoder"

definition d_return :: "'a \<Rightarrow> 'a decoder" where
  "d_return x d = (Some x, d)"

definition d_bind :: "'a decoder \<Rightarrow> ('a \<Rightarrow> 'b decoder) \<Rightarrow> 'b decoder" where
  "d_bind m f d = (case m d of (None, d) \<Rightarrow> (None, d) | (Some x, d) \<Rightarrow> f x d)"

definition d_fail :: "ReasonCode \<Rightarrow> u32 \<Rightarrow> u64 \<Rightarrow> 'a decoder" where
  "d_fail code index detail d =
     (None, d\<lparr>dc_result := vr_add code index detail (dc_result d)\<rparr>)"

definition d_require :: "bool \<Rightarrow> ReasonCode \<Rightarrow> u32 \<Rightarrow> u64 \<Rightarrow> 'a decoder \<Rightarrow> 'a decoder" where
  "d_require b code index detail m = (if b then m else d_fail code index detail)"

text \<open>A primitive read of the reader; a failed read adds the given reason.\<close>

definition d_read ::
  "(ByteReader \<Rightarrow> 'a option \<times> ByteReader) \<Rightarrow> ReasonCode \<Rightarrow> u32 \<Rightarrow> 'a decoder" where
  "d_read rd code index d =
     (case rd (dc_reader d) of
        (Some x, r) \<Rightarrow> (Some x, d\<lparr>dc_reader := r\<rparr>)
      | (None, r) \<Rightarrow> d_fail code index 0 (d\<lparr>dc_reader := r\<rparr>))"

text \<open>The trailing-bytes check: every byte must have been consumed.\<close>

definition d_end :: "ReasonCode \<Rightarrow> u32 \<Rightarrow> unit decoder" where
  "d_end code index d =
     (if at_end (dc_reader d) then (Some (), d)
      else d_fail code index (of_nat (remaining (dc_reader d))) d)"

primrec d_many :: "nat \<Rightarrow> 'a decoder \<Rightarrow> 'a list decoder" where
  "d_many 0 m = d_return []"
| "d_many (Suc n) m = d_bind m (\<lambda>x. d_bind (d_many n m) (\<lambda>xs. d_return (x # xs)))"

text \<open>
  A length-prefixed blob: the length is compared with the unread bytes first (the reason of that
  check carries the length), then exactly that many bytes are read.
\<close>

definition d_blob :: "nat \<Rightarrow> ReasonCode \<Rightarrow> u32 \<Rightarrow> u64 \<Rightarrow> u8 list decoder" where
  "d_blob n code index detail d =
     (if remaining (dc_reader d) < n then d_fail code index detail d
      else if n = 0 then (Some [], d)
      else d_read (r_bytes n) code index d)"

section \<open>Completeness: a decoder reads what an encoder wrote\<close>

definition good :: "Decoder \<Rightarrow> bool" where
  "good d \<longleftrightarrow> br_ok (dc_reader d) \<and> reader_ok (dc_reader d)"

definition unread :: "Decoder \<Rightarrow> u8 list" where
  "unread d = rest (dc_reader d)"

text \<open>
  \<open>parses m bs x\<close>: whenever the unread bytes start with \<open>bs\<close>, the decoder returns \<open>x\<close>, leaves
  exactly what follows \<open>bs\<close> and adds no reason. \<open>parses_all\<close> is the same for a decoder that
  insists on consuming everything.
\<close>

definition parses :: "'a decoder \<Rightarrow> u8 list \<Rightarrow> 'a \<Rightarrow> bool" where
  "parses m bs x \<longleftrightarrow>
     (\<forall>d ts. good d \<longrightarrow> unread d = bs @ ts \<longrightarrow>
        (\<exists>d'. m d = (Some x, d') \<and> good d' \<and> unread d' = ts \<and> dc_result d' = dc_result d))"

definition parses_all :: "'a decoder \<Rightarrow> u8 list \<Rightarrow> 'a \<Rightarrow> bool" where
  "parses_all m bs x \<longleftrightarrow>
     (\<forall>d. good d \<longrightarrow> unread d = bs \<longrightarrow>
        (\<exists>d'. m d = (Some x, d') \<and> dc_result d' = dc_result d))"

lemma parsesD:
  "parses m bs x \<Longrightarrow> good d \<Longrightarrow> unread d = bs @ ts \<Longrightarrow>
     \<exists>d'. m d = (Some x, d') \<and> good d' \<and> unread d' = ts \<and> dc_result d' = dc_result d"
  by (simp add: parses_def)

lemma parses_return: "parses (d_return x) [] x"
  by (simp add: parses_def d_return_def)

lemma parses_bind:
  assumes "parses m bs x" and "parses (f x) cs y"
  shows "parses (d_bind m f) (bs @ cs) y"
  unfolding parses_def
proof (intro allI impI)
  fix d ts assume d: "good d" "unread d = (bs @ cs) @ ts"
  then obtain d1 where d1: "m d = (Some x, d1)" "good d1" "unread d1 = cs @ ts"
    "dc_result d1 = dc_result d"
    using parsesD [OF assms(1), of d "cs @ ts"] by auto
  then obtain d2 where "f x d1 = (Some y, d2)" "good d2" "unread d2 = ts"
    "dc_result d2 = dc_result d1"
    using parsesD [OF assms(2), of d1 ts] by auto
  with d1 show "\<exists>d'. d_bind m f d = (Some y, d') \<and> good d' \<and> unread d' = ts \<and>
      dc_result d' = dc_result d"
    by (simp add: d_bind_def)
qed

lemma parses_bind_all:
  assumes "parses m bs x" and "parses_all (f x) cs y"
  shows "parses_all (d_bind m f) (bs @ cs) y"
  unfolding parses_all_def
proof (intro allI impI)
  fix d assume d: "good d" "unread d = bs @ cs"
  then obtain d1 where d1: "m d = (Some x, d1)" "good d1" "unread d1 = cs"
    "dc_result d1 = dc_result d"
    using parsesD [OF assms(1), of d cs] by auto
  with assms(2) show "\<exists>d'. d_bind m f d = (Some y, d') \<and> dc_result d' = dc_result d"
    by (auto simp: parses_all_def d_bind_def)
qed

lemma parses_bind_last: "parses m bs x \<Longrightarrow> parses_all (f x) [] y \<Longrightarrow> parses_all (d_bind m f) bs y"
  using parses_bind_all [of m bs x f "[]" y] by simp

lemma parses_bind_nil: "parses m bs x \<Longrightarrow> parses (f x) [] y \<Longrightarrow> parses (d_bind m f) bs y"
  using parses_bind [of m bs x f "[]" y] by simp

lemma parses_require: "b \<Longrightarrow> parses m bs x \<Longrightarrow> parses (d_require b code i e m) bs x"
  by (simp add: d_require_def)

lemma parses_require_all: "b \<Longrightarrow> parses_all m bs x \<Longrightarrow> parses_all (d_require b code i e m) bs x"
  by (simp add: d_require_def)

lemma parses_return_all: "parses_all (d_return x) [] x"
  by (simp add: parses_all_def d_return_def)

lemma parses_end:
  assumes "parses_all (f ()) [] x"
  shows "parses_all (d_bind (d_end code i) f) [] x"
  using assms by (auto simp: parses_all_def d_bind_def d_end_def good_def unread_def at_end_iff_rest)

context field_codec
begin

lemma parses_read:
  assumes "wf v"
  shows "parses (d_read dec code i) (enc v) v"
  unfolding parses_def
proof (intro allI impI)
  fix d ts assume "good d" "unread d = enc v @ ts"
  then obtain r where "dec (dc_reader d) = (Some v, r)" "br_ok r" "reader_ok r" "rest r = ts"
    using round_trip [OF assms, of "dc_reader d" ts] by (auto simp: good_def unread_def)
  then show "\<exists>d'. d_read dec code i d = (Some v, d') \<and> good d' \<and> unread d' = ts \<and>
      dc_result d' = dc_result d"
    by (simp add: d_read_def good_def unread_def)
qed

end

lemma parses_many:
  assumes "\<forall>x \<in> set xs. parses m (enc x) x"
  shows "parses (d_many (length xs) m) (concat (map enc xs)) xs"
  using assms
proof (induction xs)
  case (Cons x xs)
  then have "parses (d_bind (d_many (length xs) m) (\<lambda>xs. d_return (x # xs))) (concat (map enc xs)) (x # xs)"
    by (intro parses_bind_nil) (auto intro: parses_return)
  with Cons.prems show ?case by (auto intro: parses_bind)
qed (simp add: parses_return)

lemma parses_blob: "length bs = n \<Longrightarrow> parses (d_blob n code i e) bs bs"
  unfolding parses_def
proof (intro allI impI)
  fix d ts assume n: "length bs = n" and d: "good d" "unread d = bs @ ts"
  then have rem: "\<not> remaining (dc_reader d) < n"
    by (metis append_take_drop_id length_append length_drop linorder_not_less le_add1 remaining_def
        rest_def unread_def)
  note r = r_raw_rest [of "dc_reader d" bs ts n]
  show "\<exists>d'. d_blob n code i e d = (Some bs, d') \<and> good d' \<and> unread d' = ts \<and> dc_result d' = dc_result d"
  proof (cases "n = 0")
    case True
    with n d rem show ?thesis by (simp add: d_blob_def)
  next
    case False
    with n d rem r show ?thesis
      by (cases "r_raw n (dc_reader d)")
         (auto simp: d_blob_def d_read_def good_def unread_def r_bytes_def)
  qed
qed

section \<open>Soundness: what a successful decode establishes\<close>

definition yields :: "'a decoder \<Rightarrow> ('a \<Rightarrow> bool) \<Rightarrow> bool" where
  "yields m P \<longleftrightarrow> (\<forall>d x d'. m d = (Some x, d') \<longrightarrow> P x)"

lemma yields_return: "P x \<Longrightarrow> yields (d_return x) P"
  by (simp add: yields_def d_return_def)

lemma yields_bind:
  "yields m P \<Longrightarrow> (\<And>x. P x \<Longrightarrow> yields (f x) Q) \<Longrightarrow> yields (d_bind m f) Q"
  by (fastforce simp: yields_def d_bind_def split: prod.splits option.splits)

lemma yields_any: "yields m (\<lambda>_. True)"
  by (simp add: yields_def)

lemma yields_bind_any: "(\<And>x. yields (f x) Q) \<Longrightarrow> yields (d_bind m f) Q"
  by (rule yields_bind [OF yields_any])

lemma yields_require: "(b \<Longrightarrow> yields m P) \<Longrightarrow> yields (d_require b code i e m) P"
  by (simp add: d_require_def yields_def d_fail_def)

lemma yields_mono: "yields m P \<Longrightarrow> (\<And>x. P x \<Longrightarrow> Q x) \<Longrightarrow> yields m Q"
  by (auto simp: yields_def)

lemma yields_many: "yields m P \<Longrightarrow> yields (d_many n m) (\<lambda>xs. length xs = n \<and> (\<forall>x \<in> set xs. P x))"
proof (induction n)
  case (Suc n)
  show ?case
    by (simp, rule yields_bind [OF Suc.prems], rule yields_bind [OF Suc.IH [OF Suc.prems]])
       (auto intro!: yields_return)
qed (auto intro: yields_return)

lemma r_raw_length: "r_raw n r = (Some bs, r') \<Longrightarrow> length bs = n"
  by (auto simp: r_raw_def remaining_def split: if_splits)

lemma yields_blob: "yields (d_blob n code i e) (\<lambda>bs. length bs = n)"
  by (auto simp: yields_def d_blob_def d_read_def d_fail_def r_bytes_def dest: r_raw_length
      split: if_splits prod.splits option.splits)

section \<open>Failures are reported\<close>

text \<open>
  \<open>explains m\<close>: a decoder that fails has added at least one reason, provided the result has room.
\<close>

definition explains :: "'a decoder \<Rightarrow> bool" where
  "explains m \<longleftrightarrow>
     (\<forall>d d'. m d = (None, d') \<longrightarrow> 0 < vr_cap (dc_result d) \<longrightarrow> \<not> vr_ok (dc_result d')) \<and>
     (\<forall>d x d'. m d = (x, d') \<longrightarrow> vr_limits (dc_result d') = vr_limits (dc_result d))"

lemma vr_add_not_ok: "code \<noteq> RC_Ok \<Longrightarrow> 0 < vr_cap v \<Longrightarrow> \<not> vr_ok (vr_add code i e v)"
  by (simp add: vr_ok_def vr_add_empty)

lemma explains_return: "explains (d_return x)"
  by (simp add: explains_def d_return_def)

lemma explains_fail: "code \<noteq> RC_Ok \<Longrightarrow> explains (d_fail code i e)"
  by (auto simp: explains_def d_fail_def vr_add_not_ok)

lemma explains_require: "code \<noteq> RC_Ok \<Longrightarrow> explains m \<Longrightarrow> explains (d_require b code i e m)"
  by (simp add: d_require_def explains_fail)

lemma explains_read: "code \<noteq> RC_Ok \<Longrightarrow> explains (d_read rd code i)"
  by (auto simp: explains_def d_read_def d_fail_def vr_add_not_ok split: prod.splits option.splits)

lemma explains_end: "code \<noteq> RC_Ok \<Longrightarrow> explains (d_end code i)"
  by (auto simp: explains_def d_end_def d_fail_def vr_add_not_ok split: if_splits)

lemma explains_blob: "code \<noteq> RC_Ok \<Longrightarrow> explains (d_blob n code i e)"
  using explains_read [of code] explains_fail [of code]
  by (fastforce simp: explains_def d_blob_def split: if_splits)

lemma explains_bind:
  assumes "explains m" and "\<And>x. explains (f x)"
  shows "explains (d_bind m f)"
proof -
  have lim: "vr_cap (dc_result d') = vr_cap (dc_result d)" if "m d = (x, d')" for d x d'
    using assms(1) that by (simp add: explains_def vr_cap_def)
  show ?thesis
    using assms lim
    by (fastforce simp: explains_def d_bind_def split: prod.splits option.splits)
qed

lemma explains_many: "explains m \<Longrightarrow> explains (d_many n m)"
  by (induction n) (auto intro: explains_bind explains_return)

end
