(* ===== verification/PersistCodec.thy ===== *)
theory PersistCodec
  imports Durable Decode
begin

text \<open>
  The durable image (\<^verbatim>\<open>persistence.cpp\<close>): the record-structured encoding of a \<^verbatim>\<open>DurableState\<close> and its
  decoder. The image is a header with a checksum, a sequence of typed, length-prefixed records and
  a checksum over the records.
\<close>

section \<open>Encoding\<close>

datatype RecordType =
  RT_Invalid | RT_Meta | RT_Profile | RT_Policy | RT_List | RT_History | RT_Attempt | RT_Publisher
  | RT_FencedBoot

primrec record_type_value :: "RecordType \<Rightarrow> nat" where
  "record_type_value RT_Invalid = 0"
| "record_type_value RT_Meta = 1"
| "record_type_value RT_Profile = 2"
| "record_type_value RT_Policy = 3"
| "record_type_value RT_List = 4"
| "record_type_value RT_History = 5"
| "record_type_value RT_Attempt = 6"
| "record_type_value RT_Publisher = 7"
| "record_type_value RT_FencedBoot = 8"

definition kMagic :: "u8 list" where "kMagic = string_bytes ''SRFL''"
definition kHeaderBytes :: nat where "kHeaderBytes = 24"
definition kTrailerBytes :: nat where "kTrailerBytes = 4"

record Encoder =
  en_records :: ByteBuffer
  en_count :: u32
  en_result :: ValidationResult
  en_failed :: bool

definition record_bytes :: "RecordType \<Rightarrow> ByteBuffer \<Rightarrow> ByteBuffer" where
  "record_bytes type body =
     le_bytes 2 (of_nat (record_type_value type) :: u16) @
     le_bytes 4 (of_nat (length body) :: u32) @ body"

definition emit_record :: "Limits \<Rightarrow> RecordType \<Rightarrow> ByteBuffer \<Rightarrow> Encoder \<Rightarrow> Encoder" where
  "emit_record limits type body enc =
     (if en_failed enc then enc
      else if length body > unat (max_persistence_record_bytes limits)
      then enc\<lparr>en_result := vr_add RC_LimitMaxPersistenceRecordBytes (en_count enc)
                  (ucast (max_persistence_record_bytes limits)) (en_result enc),
               en_failed := True\<rparr>
      else enc\<lparr>en_records := en_records enc @ record_bytes type body,
               en_count := en_count enc + 1\<rparr>)"

definition durable_segment_bytes :: "Segment \<Rightarrow> ByteBuffer" where
  "durable_segment_bytes s =
     le_bytes 2 (kind_u16 (seg_kind s)) @
     le_bytes 2 (encoding_u16 (seg_encoding s)) @
     le_bytes 8 (seg_id s) @
     le_bytes 8 (seg_generation s) @
     le_bytes 8 (seg_node s) @
     le_bytes 8 (seg_adjacency s) @
     le_bytes 8 (seg_endpoint s) @
     le_bytes 8 (seg_binding s) @
     le_bytes 8 (seg_policy s) @
     le_bytes 8 (seg_policy_generation s) @
     le_bytes 8 (seg_topology s) @
     le_bytes 2 (of_nat (length (seg_payload s)) :: u16) @
     seg_payload s"

definition bound_payload_width :: "DurableState \<Rightarrow> SegmentProfileId \<Rightarrow> u32" where
  "bound_payload_width st i =
     (case find_key pf_id i (ds_profiles st) of
        Some p \<Rightarrow> if pf_payload_width p = 0 then 1 else pf_payload_width p
      | None \<Rightarrow> 0)"

definition meta_body :: "DurableState \<Rightarrow> ByteBuffer" where
  "meta_body st = le_bytes 8 (ds_epoch st) @ le_bytes 8 (ds_revision st)"

definition profile_body :: "SegmentProfile \<Rightarrow> ByteBuffer" where
  "profile_body p =
     le_bytes 8 (pf_id p) @
     le_bytes 8 (pf_generation p) @
     le_bytes 1 (of_nat (support_value AbstractSynthetic) :: u8) @
     le_bytes 2 (pf_allowed_kinds_mask p) @
     le_bytes 4 (pf_max_depth p) @
     le_bytes 4 (pf_payload_width p) @
     le_bytes 1 (bool_u8 (pf_allow_empty p)) @
     le_bytes 1 (bool_u8 (pf_allow_consecutive_repeats p)) @
     le_bytes 1 (bool_u8 (pf_allow_nonconsecutive_repeats p)) @
     le_bytes 1 (bool_u8 (pf_allow_loose p)) @
     le_bytes 2 (of_nat (length (pf_name p)) :: u16) @
     string_bytes (pf_name p) @
     le_bytes 2 (of_nat (length (pf_required_capabilities p)) :: u16) @
     concat (map (le_bytes 8) (pf_required_capabilities p))"

definition policy_body :: "SegmentPolicy \<Rightarrow> ByteBuffer" where
  "policy_body p =
     le_bytes 8 (po_id p) @
     le_bytes 8 (po_generation p) @
     le_bytes 8 (po_owner_scope p) @
     le_bytes 4 (of_nat (length (po_allowed_profiles p)) :: u32) @
     concat (map (le_bytes 8) (po_allowed_profiles p)) @
     le_bytes 2 (po_allowed_kinds_mask p) @
     le_bytes 4 (po_max_depth p) @
     le_bytes 4 (of_nat (length (po_required_segments p)) :: u32) @
     concat (map (le_bytes 8) (po_required_segments p)) @
     le_bytes 4 (of_nat (length (po_forbidden_segments p)) :: u32) @
     concat (map (le_bytes 8) (po_forbidden_segments p)) @
     le_bytes 1 (bool_u8 (po_allow_replacement p)) @
     le_bytes 1 (bool_u8 (po_allow_derivation p)) @
     le_bytes 1 (bool_u8 (po_require_strict p))"

text \<open>
  The payload width written with a list: the width of its profile as the image has it, else the
  longest payload, else 1; a width that does not fit 16 bits is replaced by 1.
\<close>

definition list_width :: "DurableState \<Rightarrow> SegmentListContent \<Rightarrow> u32" where
  "list_width st c =
     (let bound = bound_payload_width st (lc_profile c);
          width = (if bound \<noteq> 0 then bound
                   else (let w = fold (\<lambda>s w. max w (of_nat (length (seg_payload s)))) (lc_segments c) 0
                         in if w = 0 then 1 else w))
      in if width > 0xFFFF then 1 else width)"

definition list_body :: "u32 \<Rightarrow> SegmentList \<Rightarrow> ByteBuffer" where
  "list_body width l =
     (let c = sl_content l; a = sl_authority l; v = sl_provenance l in
      concat (map (le_bytes 8) [lc_id c, lc_scope c, lc_profile c, lc_profile_generation c,
        lc_policy c, lc_policy_generation c]) @
      le_bytes 1 (strictness_u8 (lc_strictness c)) @
      le_bytes 2 (ucast width :: u16) @
      concat (map (le_bytes 8) [lc_topology c, lc_capability c, lc_path c, lc_path_authority c,
        lc_route c, lc_route_generation c, lc_constraint c, lc_constraint_generation c,
        sl_generation l,
        ln_supersedes (sl_lineage l), ln_superseded_by (sl_lineage l), ln_history (sl_lineage l),
        la_publisher a, la_boot a, la_epoch a, la_attempt a,
        pv_source_path v, pv_source_path_authority v, pv_source_route v,
        pv_source_route_generation v, pv_source_constraint v, pv_source_constraint_generation v,
        pv_derivation_policy v, pv_observed_topology v, pv_observed_capability v,
        pv_publisher v, pv_boot v, pv_epoch v]) @
      le_bytes 1 (of_nat (state_value (sl_state l)) :: u8) @
      le_bytes 1 (of_nat (currentness_value (sl_currentness l)) :: u8) @
      concat (map (le_bytes 8) [dg_hi (sl_content_digest l), dg_lo (sl_content_digest l),
        dg_hi (sl_sequence_digest l), dg_lo (sl_sequence_digest l), sl_committed_revision l]) @
      le_bytes 4 (of_nat (length (lc_segments c)) :: u32) @
      concat (map durable_segment_bytes (lc_segments c)))"

definition history_body :: "DurableHistoryEntry \<Rightarrow> ByteBuffer" where
  "history_body e =
     le_bytes 8 (dhe_id e) @ le_bytes 8 (dhe_list e) @ le_bytes 8 (dhe_generation e) @
     le_bytes 1 (of_nat (state_value (dhe_state e)) :: u8) @
     le_bytes 1 (of_nat (currentness_value (dhe_currentness e)) :: u8) @
     le_bytes 8 (dg_hi (dhe_digest e)) @ le_bytes 8 (dg_lo (dhe_digest e)) @
     le_bytes 8 (dhe_revision e)"

definition attempt_body :: "DurableAttemptRecord \<Rightarrow> ByteBuffer" where
  "attempt_body r =
     le_bytes 8 (dar_attempt r) @ le_bytes 8 (dar_list r) @
     le_bytes 8 (dg_hi (dar_payload r)) @ le_bytes 8 (dg_lo (dar_payload r)) @
     le_bytes 8 (dar_generation r) @ le_bytes 1 (bool_u8 (dar_committed r))"

definition publisher_body :: "PublisherState \<Rightarrow> ByteBuffer" where
  "publisher_body p =
     le_bytes 8 (ps_id p) @ le_bytes 8 (ps_boot p) @ le_bytes 8 (ps_scope p) @ le_bytes 8 (ps_epoch p) @
     le_bytes 1 (bool_u8 (ps_alive p)) @ le_bytes 1 (bool_u8 (ps_fenced p))"

text \<open>The records of an image, in the order in which the encoder emits them.\<close>

definition state_records :: "DurableState \<Rightarrow> (RecordType \<times> ByteBuffer) list" where
  "state_records st =
     [(RT_Meta, meta_body st)] @
     map (\<lambda>p. (RT_Profile, profile_body p)) (ds_profiles st) @
     map (\<lambda>p. (RT_Policy, policy_body p)) (ds_policies st) @
     map (\<lambda>l. (RT_List, list_body (list_width st (sl_content l)) l)) (ds_lists st) @
     map (\<lambda>e. (RT_History, history_body e)) (ds_history st) @
     map (\<lambda>r. (RT_Attempt, attempt_body r)) (ds_attempts st) @
     map (\<lambda>p. (RT_Publisher, publisher_body p)) (ds_publishers st) @
     map (\<lambda>b. (RT_FencedBoot, le_bytes 8 b)) (ds_fenced_boots st)"

definition image_header :: "nat \<Rightarrow> u32 \<Rightarrow> ByteBuffer" where
  "image_header payload count =
     (let head = kMagic @ le_bytes 2 kPersistenceFormatVersion @ le_bytes 2 (0 :: u16) @
        le_bytes 8 (of_nat payload :: u64) @ le_bytes 4 count
      in head @ le_bytes 4 (crc32c head))"

definition encode_durable_state ::
  "DurableState \<Rightarrow> Limits \<Rightarrow> ValidationResult \<Rightarrow> ByteBuffer \<times> ValidationResult" where
  "encode_durable_state st limits result =
     (let enc = fold (\<lambda>(t, body). emit_record limits t body) (state_records st)
            \<lparr>en_records = [], en_count = 0, en_result = set_limits (Some limits) result,
             en_failed = False\<rparr>
      in if en_failed enc then ([], en_result enc)
         else (image_header (length (en_records enc)) (en_count enc) @ en_records enc @
                 le_bytes 4 (crc32c (en_records enc)),
               en_result enc))"

section \<open>Decoding records\<close>

text \<open>\<^verbatim>\<open>static_cast\<close> of a checked raw value back to its enumeration.\<close>

definition cast_enum :: "('e \<Rightarrow> 'v) \<Rightarrow> 'e list \<Rightarrow> 'e \<Rightarrow> 'v \<Rightarrow> 'e" where
  "cast_enum val es dflt v = (case find (\<lambda>e. val e = v) es of Some e \<Rightarrow> e | None \<Rightarrow> dflt)"

definition kind_of :: "u16 \<Rightarrow> SegmentKind" where
  "kind_of = cast_enum kind_u16 [SK_Node, SK_Adjacency, SK_Endpoint, SK_Binding, SK_Policy] SK_Invalid"

definition encoding_of :: "u16 \<Rightarrow> SegmentEncodingId" where
  "encoding_of = cast_enum encoding_u16 [SE_AbstractNodeV1, SE_AbstractAdjacencyV1,
     SE_AbstractEndpointV1, SE_AbstractBindingV1, SE_AbstractPolicyV1] SE_Invalid"

definition state_of :: "u8 \<Rightarrow> LifecycleState" where
  "state_of = cast_enum (\<lambda>s. of_nat (state_value s)) all_states LS_Invalid"

definition all_currentness :: "Currentness list" where
  "all_currentness = [Cu_Unknown, Cu_Current, Cu_RevalidationRequired, Cu_StaleProfile,
     Cu_StalePolicy, Cu_StaleTopology, Cu_StaleCapability, Cu_StalePathAuthority,
     Cu_StaleRouteBinding, Cu_StaleConstraintBinding, Cu_StaleEpoch, Cu_FencedPublisher]"

definition currentness_of :: "u8 \<Rightarrow> Currentness" where
  "currentness_of = cast_enum (\<lambda>c. of_nat (currentness_value c)) all_currentness Cu_Unknown"

definition strictness_of :: "u8 \<Rightarrow> Strictness" where
  "strictness_of v = (if v = strictness_u8 Loose then Loose else Strict)"

text \<open>The reads of the class \<^verbatim>\<open>Decoder\<close>; \<open>i\<close> is the index of the record.\<close>

definition p_u8 :: "u32 \<Rightarrow> u8 decoder" where "p_u8 i = d_read r_u8 RC_PersistTruncated i"
definition p_u16 :: "u32 \<Rightarrow> u16 decoder" where "p_u16 i = d_read r_u16 RC_PersistTruncated i"
definition p_u32 :: "u32 \<Rightarrow> u32 decoder" where "p_u32 i = d_read r_u32 RC_PersistTruncated i"
definition p_u64 :: "u32 \<Rightarrow> u64 decoder" where "p_u64 i = d_read r_u64 RC_PersistTruncated i"
definition p_u64s :: "u32 \<Rightarrow> nat \<Rightarrow> u64 list decoder" where "p_u64s i n = d_many n (p_u64 i)"

definition p_flag :: "u32 \<Rightarrow> bool decoder" where
  "p_flag i = d_bind (p_u8 i) (\<lambda>raw. d_require (\<not> raw > 1) RC_PersistCorrupt i (ucast raw)
     (d_return (raw \<noteq> 0)))"

definition p_blob :: "u32 \<Rightarrow> nat \<Rightarrow> u8 list decoder" where
  "p_blob i n = d_blob n RC_PersistTruncated i (of_nat n)"

definition p_done :: "u32 \<Rightarrow> unit decoder" where
  "p_done i = d_end RC_PersistTrailingBytes i"

definition decode_segment :: "u32 \<Rightarrow> Limits \<Rightarrow> Segment decoder" where
  "decode_segment i limits =
     d_bind (p_u16 i) (\<lambda>kind. d_bind (p_u16 i) (\<lambda>encoding.
     d_require (\<not> (kind = 0 \<or> kind > kind_u16 SK_Policy)) RC_PersistKindInvalid i (ucast kind) (
     d_require (\<not> (encoding = 0 \<or> encoding > encoding_u16 SE_AbstractPolicyV1))
       RC_PersistEncodingInvalid i (ucast encoding) (
     d_bind (p_u64s i 9) (\<lambda>v. d_bind (p_u16 i) (\<lambda>len.
     d_require (\<not> unat len > unat (max_segment_payload_bytes limits)) RC_PersistAbsurdCount i (ucast len) (
     d_bind (p_blob i (unat len)) (\<lambda>payload.
     d_return \<lparr>seg_kind = kind_of kind, seg_encoding = encoding_of encoding, seg_id = v ! 0,
       seg_generation = v ! 1, seg_node = v ! 2, seg_adjacency = v ! 3, seg_endpoint = v ! 4,
       seg_binding = v ! 5, seg_policy = v ! 6, seg_policy_generation = v ! 7,
       seg_topology = v ! 8, seg_payload = payload\<rparr>))))))))"

definition bytes_string :: "u8 list \<Rightarrow> string" where
  "bytes_string bs = map (\<lambda>b. char_of (unat b)) bs"

definition decode_profile :: "u32 \<Rightarrow> SegmentProfile decoder" where
  "decode_profile i =
     d_bind (p_u64s i 2) (\<lambda>v. d_bind (p_u8 i) (\<lambda>support. d_bind (p_u16 i) (\<lambda>mask.
     d_bind (p_u32 i) (\<lambda>depth. d_bind (p_u32 i) (\<lambda>width.
     d_bind (p_flag i) (\<lambda>empty. d_bind (p_flag i) (\<lambda>consecutive.
     d_bind (p_flag i) (\<lambda>nonconsecutive. d_bind (p_flag i) (\<lambda>loose.
     d_bind (p_u16 i) (\<lambda>name_length.
     d_require (support = of_nat (support_value AbstractSynthetic)) RC_PersistProfileInvalid i (ucast support) (
     d_require (\<not> name_length > 256) RC_PersistAbsurdCount i (ucast name_length) (
     d_bind (p_blob i (unat name_length)) (\<lambda>name.
     d_bind (p_u16 i) (\<lambda>capability_count.
     d_require (\<not> capability_count > 64) RC_PersistAbsurdCount i (ucast capability_count) (
     d_bind (p_u64s i (unat capability_count)) (\<lambda>capabilities.
     d_require (\<not> (\<not> valid (v ! 0) \<or> \<not> valid (v ! 1) \<or> width = 0 \<or> depth = 0))
       RC_PersistProfileInvalid i (v ! 0) (
     d_bind (p_done i) (\<lambda>_.
     d_return \<lparr>pf_id = v ! 0, pf_generation = v ! 1, pf_name = bytes_string name,
       pf_support = AbstractSynthetic, pf_allowed_kinds_mask = mask, pf_max_depth = depth,
       pf_payload_width = width, pf_allow_empty = empty,
       pf_allow_consecutive_repeats = consecutive,
       pf_allow_nonconsecutive_repeats = nonconsecutive, pf_allow_loose = loose,
       pf_required_capabilities = capabilities\<rparr>))))))))))))))))))"

definition decode_policy :: "u32 \<Rightarrow> SegmentPolicy decoder" where
  "decode_policy i =
     d_bind (p_u64s i 3) (\<lambda>v. d_bind (p_u32 i) (\<lambda>count.
     d_require (\<not> count > 64) RC_PersistAbsurdCount i (ucast count) (
     d_bind (p_u64s i (unat count)) (\<lambda>profiles.
     d_bind (p_u16 i) (\<lambda>mask. d_bind (p_u32 i) (\<lambda>depth. d_bind (p_u32 i) (\<lambda>count.
     d_require (\<not> count > 256) RC_PersistAbsurdCount i (ucast count) (
     d_bind (p_u64s i (unat count)) (\<lambda>required. d_bind (p_u32 i) (\<lambda>count.
     d_require (\<not> count > 256) RC_PersistAbsurdCount i (ucast count) (
     d_bind (p_u64s i (unat count)) (\<lambda>forbidden.
     d_bind (p_flag i) (\<lambda>replacement. d_bind (p_flag i) (\<lambda>derivation. d_bind (p_flag i) (\<lambda>strict.
     d_require (\<not> (\<not> valid (v ! 0) \<or> \<not> valid (v ! 1))) RC_PersistProfileInvalid i (v ! 0) (
     d_bind (p_done i) (\<lambda>_.
     d_return \<lparr>po_id = v ! 0, po_generation = v ! 1, po_owner_scope = v ! 2,
       po_allowed_profiles = profiles, po_allowed_kinds_mask = mask, po_max_depth = depth,
       po_required_segments = required, po_forbidden_segments = forbidden,
       po_allow_replacement = replacement, po_allow_derivation = derivation,
       po_require_strict = strict\<rparr>)))))))))))))))))"

definition decode_list :: "u32 \<Rightarrow> Limits \<Rightarrow> SegmentProfile list \<Rightarrow> SegmentList decoder" where
  "decode_list i limits profiles =
     d_bind (p_u64s i 6) (\<lambda>v. d_bind (p_u8 i) (\<lambda>strictness. d_bind (p_u16 i) (\<lambda>width.
     d_require (\<not> (strictness \<noteq> strictness_u8 Strict \<and> strictness \<noteq> strictness_u8 Loose))
       RC_PersistCorrupt i (ucast strictness) (
     d_require (\<not> (width = 0 \<or> unat width > unat (max_segment_payload_bytes limits)))
       RC_PersistProfileInvalid i (ucast width) (
     d_bind (p_u64s i 28) (\<lambda>w.
     d_bind (p_u8 i) (\<lambda>state. d_bind (p_u8 i) (\<lambda>currentness.
     d_require (\<not> (state = 0 \<or> state > of_nat (state_value LS_Retired))) RC_PersistCorrupt i (ucast state) (
     d_require (\<not> currentness > of_nat (currentness_value Cu_FencedPublisher)) RC_PersistCorrupt i
       (ucast currentness) (
     d_bind (p_u64s i 5) (\<lambda>g. d_bind (p_u32 i) (\<lambda>segment_count.
     d_require (\<not> segment_count > max_segments_per_list limits) RC_PersistDepthInvalid i (ucast segment_count) (
     d_require (valid (w ! 8)) RC_PersistImpossibleGeneration i (w ! 8) (
     d_bind (d_many (unat segment_count) (decode_segment i limits)) (\<lambda>segments.
     d_bind (p_done i) (\<lambda>_.
     let content = \<lparr>lc_id = v ! 0, lc_scope = v ! 1, lc_profile = v ! 2,
           lc_profile_generation = v ! 3, lc_policy = v ! 4, lc_policy_generation = v ! 5,
           lc_strictness = strictness_of strictness, lc_topology = w ! 0, lc_capability = w ! 1,
           lc_path = w ! 2, lc_path_authority = w ! 3, lc_route = w ! 4,
           lc_route_generation = w ! 5, lc_constraint = w ! 6, lc_constraint_generation = w ! 7,
           lc_segments = segments\<rparr>;
         list = \<lparr>sl_content = content, sl_generation = w ! 8,
           sl_lineage = \<lparr>ln_supersedes = w ! 9, ln_superseded_by = w ! 10, ln_history = w ! 11\<rparr>,
           sl_authority = \<lparr>la_publisher = w ! 12, la_boot = w ! 13, la_epoch = w ! 14,
             la_attempt = w ! 15\<rparr>,
           sl_provenance = \<lparr>pv_source_path = w ! 16, pv_source_path_authority = w ! 17,
             pv_source_route = w ! 18, pv_source_route_generation = w ! 19,
             pv_source_constraint = w ! 20, pv_source_constraint_generation = w ! 21,
             pv_derivation_policy = w ! 22, pv_observed_topology = w ! 23,
             pv_observed_capability = w ! 24, pv_publisher = w ! 25, pv_boot = w ! 26,
             pv_epoch = w ! 27\<rparr>,
           sl_state = state_of state, sl_currentness = currentness_of currentness,
           sl_content_digest = \<lparr>dg_hi = g ! 0, dg_lo = g ! 1\<rparr>,
           sl_sequence_digest = \<lparr>dg_hi = g ! 2, dg_lo = g ! 3\<rparr>,
           sl_committed_revision = g ! 4\<rparr>
     in
     d_require (\<not> (valid (lc_profile content) \<and> lc_profile content \<notin> pf_id ` set profiles))
       RC_PersistDanglingReference i (lc_profile content) (
     d_require (\<not> (sequence_digest segments (ucast width) \<noteq> sl_sequence_digest list \<or>
                  content_digest content (ucast width) \<noteq> sl_content_digest list))
       RC_PersistDigestMismatch i (sl_generation list) (
     d_return list))))))))))))))))))"

definition decode_history :: "u32 \<Rightarrow> DurableHistoryEntry decoder" where
  "decode_history i =
     d_bind (p_u64s i 3) (\<lambda>v. d_bind (p_u8 i) (\<lambda>state. d_bind (p_u8 i) (\<lambda>currentness.
     d_bind (p_u64s i 3) (\<lambda>w.
     d_require (\<not> (state = 0 \<or> state > of_nat (state_value LS_Retired))) RC_PersistCorrupt i (ucast state) (
     d_require (\<not> currentness > of_nat (currentness_value Cu_FencedPublisher)) RC_PersistCorrupt i
       (ucast currentness) (
     d_require (\<not> (\<not> valid (v ! 0) \<or> \<not> valid (v ! 2))) RC_PersistImpossibleGeneration i (v ! 2) (
     d_bind (p_done i) (\<lambda>_.
     d_return \<lparr>dhe_id = v ! 0, dhe_list = v ! 1, dhe_generation = v ! 2, dhe_state = state_of state,
       dhe_currentness = currentness_of currentness, dhe_digest = \<lparr>dg_hi = w ! 0, dg_lo = w ! 1\<rparr>,
       dhe_revision = w ! 2\<rparr>))))))))"

definition decode_attempt :: "u32 \<Rightarrow> DurableAttemptRecord decoder" where
  "decode_attempt i =
     d_bind (p_u64s i 5) (\<lambda>v. d_bind (p_flag i) (\<lambda>committed.
     d_require (valid (v ! 0)) RC_PersistImpossibleGeneration i (v ! 0) (
     d_bind (p_done i) (\<lambda>_.
     d_return \<lparr>dar_attempt = v ! 0, dar_list = v ! 1, dar_payload = \<lparr>dg_hi = v ! 2, dg_lo = v ! 3\<rparr>,
       dar_generation = v ! 4, dar_committed = committed\<rparr>))))"

definition decode_publisher :: "u32 \<Rightarrow> PublisherState decoder" where
  "decode_publisher i =
     d_bind (p_u64s i 4) (\<lambda>v. d_bind (p_flag i) (\<lambda>alive. d_bind (p_flag i) (\<lambda>fenced.
     d_require (\<not> (\<not> valid (v ! 0) \<or> \<not> valid (v ! 1))) RC_PersistImpossibleGeneration i (v ! 0) (
     d_bind (p_done i) (\<lambda>_.
     d_return \<lparr>ps_id = v ! 0, ps_boot = v ! 1, ps_scope = v ! 2, ps_epoch = v ! 3,
       ps_alive = alive, ps_fenced = fenced\<rparr>)))))"

definition decode_meta :: "u32 \<Rightarrow> (u64 \<times> u64) decoder" where
  "decode_meta i =
     d_bind (p_u64s i 2) (\<lambda>v. d_bind (p_done i) (\<lambda>_. d_return (v ! 0, v ! 1)))"

definition decode_boot :: "u32 \<Rightarrow> WorkerBootId decoder" where
  "decode_boot i = d_bind (p_u64 i) (\<lambda>boot. d_bind (p_done i) (\<lambda>_. d_return boot))"

section \<open>Decoding an image\<close>

text \<open>
  One record: the body is decoded by its type, a failure that left no reason adds
  \<^verbatim>\<open>PersistBadRecord\<close>, an identity that is already there is a duplicate.
\<close>

definition run_record :: "'a decoder \<Rightarrow> u32 \<Rightarrow> u8 list \<Rightarrow> ValidationResult \<Rightarrow> 'a option \<times> ValidationResult" where
  "run_record m i body result =
     (case m \<lparr>dc_reader = byte_reader body, dc_result = result\<rparr> of
        (Some x, d) \<Rightarrow> (Some x, dc_result d)
      | (None, d) \<Rightarrow> (None, if vr_ok (dc_result d) then vr_add RC_PersistBadRecord i 0 (dc_result d)
                             else dc_result d))"

definition add_record ::
  "('a \<Rightarrow> DurableState \<Rightarrow> bool) \<Rightarrow> ('a \<Rightarrow> u64) \<Rightarrow> ReasonCode \<Rightarrow> ('a \<Rightarrow> DurableState \<Rightarrow> DurableState) \<Rightarrow>
   u32 \<Rightarrow> DurableState \<Rightarrow> 'a option \<times> ValidationResult \<Rightarrow> DurableState option \<times> ValidationResult" where
  "add_record bad detail code add i st r =
     (case r of
        (None, result) \<Rightarrow> (None, result)
      | (Some x, result) \<Rightarrow>
          if bad x st then (None, vr_add code i (detail x) result)
          else (Some (add x st), result))"

definition decode_record ::
  "Limits \<Rightarrow> u32 \<Rightarrow> u16 \<Rightarrow> u8 list \<Rightarrow> DurableState \<Rightarrow> ValidationResult \<Rightarrow>
   DurableState option \<times> ValidationResult" where
  "decode_record limits i raw body st result =
     (let type = unat raw in
      if type = 1 then
        add_record (\<lambda>_ _. False) (\<lambda>_. 0) RC_Ok (\<lambda>(epoch, revision) st. st\<lparr>ds_epoch := epoch, ds_revision := revision\<rparr>)
          i st (run_record (decode_meta i) i body result)
      else if type = 2 then
        add_record (\<lambda>p st. pf_id p \<in> pf_id ` set (ds_profiles st)) pf_id RC_PersistDuplicateIdentity
          (\<lambda>p st. st\<lparr>ds_profiles := ds_profiles st @ [p]\<rparr>) i st
          (run_record (decode_profile i) i body result)
      else if type = 3 then
        add_record (\<lambda>p st. po_id p \<in> po_id ` set (ds_policies st)) po_id RC_PersistDuplicateIdentity
          (\<lambda>p st. st\<lparr>ds_policies := ds_policies st @ [p]\<rparr>) i st
          (run_record (decode_policy i) i body result)
      else if type = 4 then
        add_record (\<lambda>l st. sl_id l \<in> sl_id ` set (ds_lists st)) sl_id RC_PersistDuplicateIdentity
          (\<lambda>l st. st\<lparr>ds_lists := ds_lists st @ [l]\<rparr>) i st
          (run_record (decode_list i limits (ds_profiles st)) i body result)
      else if type = 5 then
        add_record (\<lambda>_ _. False) (\<lambda>_. 0) RC_Ok (\<lambda>e st. st\<lparr>ds_history := ds_history st @ [e]\<rparr>) i st
          (run_record (decode_history i) i body result)
      else if type = 6 then
        add_record (\<lambda>_ _. False) (\<lambda>_. 0) RC_Ok (\<lambda>e st. st\<lparr>ds_attempts := ds_attempts st @ [e]\<rparr>) i st
          (run_record (decode_attempt i) i body result)
      else if type = 7 then
        add_record (\<lambda>_ _. False) (\<lambda>_. 0) RC_Ok (\<lambda>p st. st\<lparr>ds_publishers := ds_publishers st @ [p]\<rparr>) i st
          (run_record (decode_publisher i) i body result)
      else if type = 8 then
        add_record (\<lambda>b _. \<not> valid b) id RC_PersistImpossibleGeneration
          (\<lambda>b st. st\<lparr>ds_fenced_boots := ds_fenced_boots st @ [b]\<rparr>) i st
          (run_record (decode_boot i) i body result)
      else (None, vr_add RC_PersistBadRecord i (ucast raw) result))"

text \<open>The type, the length and the body of the next record, and the bytes behind it.\<close>

definition next_record ::
  "Limits \<Rightarrow> u32 \<Rightarrow> u8 list \<Rightarrow> ValidationResult \<Rightarrow> (u16 \<times> u8 list \<times> u8 list) option \<times> ValidationResult" where
  "next_record limits i bytes result =
     (case r_u16 (byte_reader bytes) of
        (None, _) \<Rightarrow> (None, vr_add RC_PersistTruncated i 0 result)
      | (Some raw, r) \<Rightarrow>
          (case r_u32 r of
             (None, _) \<Rightarrow> (None, vr_add RC_PersistTruncated i 0 result)
           | (Some len, r) \<Rightarrow>
               if raw < 1 \<or> raw > 8 then (None, vr_add RC_PersistBadRecord i (ucast raw) result)
               else if len > max_persistence_record_bytes limits
               then (None, vr_add RC_PersistAbsurdCount i (ucast len) result)
               else if remaining r < unat len then (None, vr_add RC_PersistTruncated i 0 result)
               else (Some (raw, take (unat len) (rest r), drop (unat len) (rest r)), result)))"

lemma next_record_shrinks:
  assumes "next_record limits i bytes result = (Some (raw, body, others), result')"
  shows "length others < length bytes"
  using assms
  by (auto simp: next_record_def reader_defs split: prod.splits option.splits if_splits)

function decode_records ::
  "Limits \<Rightarrow> u32 \<Rightarrow> u8 list \<Rightarrow> DurableState \<Rightarrow> ValidationResult \<Rightarrow>
   (u32 \<times> DurableState) option \<times> ValidationResult" where
  "decode_records limits i bytes st result =
     (if bytes = [] then (Some (i, st), result)
      else
        (case next_record limits i bytes result of
           (None, result) \<Rightarrow> (None, result)
         | (Some (raw, body, others), result) \<Rightarrow>
             (case decode_record limits i raw body st result of
                (None, result) \<Rightarrow> (None, result)
              | (Some st, result) \<Rightarrow> decode_records limits (i + 1) others st result)))"
  by pat_completeness auto
termination
  by (relation "measure (\<lambda>(limits, i, bytes, st, result). length bytes)")
     (auto dest: next_record_shrinks [OF sym])

declare decode_records.simps [simp del]

definition plausible_records :: "Limits \<Rightarrow> nat" where
  "plausible_records limits = unat (max_lists limits) + unat (max_profiles limits) +
     unat (max_policies limits) + unat (max_history limits) + unat (max_attempt_records limits) +
     unat (max_publishers limits) + 1"

definition check_counts :: "Limits \<Rightarrow> DurableState \<Rightarrow> ValidationResult \<Rightarrow> DurableState option \<times> ValidationResult" where
  "check_counts limits st result =
     (let absurd = (\<lambda>n. (None, vr_add RC_PersistAbsurdCount 0 (of_nat n) result)) in
      if length (ds_history st) > unat (max_history limits) then absurd (length (ds_history st))
      else if length (ds_attempts st) > unat (max_attempt_records limits)
      then absurd (length (ds_attempts st))
      else if length (ds_lists st) > unat (max_lists limits) then absurd (length (ds_lists st))
      else if length (ds_profiles st) > unat (max_profiles limits)
      then absurd (length (ds_profiles st))
      else if length (ds_policies st) > unat (max_policies limits)
      then absurd (length (ds_policies st))
      else if length (ds_publishers st) > unat (max_publishers limits)
      then absurd (length (ds_publishers st))
      else (Some st, result))"

text \<open>The state a decode starts from: \<^verbatim>\<open>DurableState decoded{}\<close> with the version of the header.\<close>

definition blank_state :: "u16 \<Rightarrow> DurableState" where
  "blank_state version = initial_state\<lparr>ds_format_version := version, ds_epoch := 0\<rparr>"

definition decode_header :: "u8 list \<Rightarrow> (u16 \<times> u16 \<times> u64 \<times> u32 \<times> u32) option" where
  "decode_header bytes =
     (case r_skip 4 (byte_reader (take kHeaderBytes bytes)) of
        (False, _) \<Rightarrow> None
      | (True, r) \<Rightarrow>
        (case r_u16 r of (None, _) \<Rightarrow> None | (Some version, r) \<Rightarrow>
        (case r_u16 r of (None, _) \<Rightarrow> None | (Some flags, r) \<Rightarrow>
        (case r_u64 r of (None, _) \<Rightarrow> None | (Some len, r) \<Rightarrow>
        (case r_u32 r of (None, _) \<Rightarrow> None | (Some count, r) \<Rightarrow>
        (case r_u32 r of (None, _) \<Rightarrow> None | (Some crc, r) \<Rightarrow>
           Some (version, flags, len, count, crc)))))))"

definition decode_durable_state ::
  "u8 list \<Rightarrow> Limits \<Rightarrow> ValidationResult \<Rightarrow> DurableState option \<times> ValidationResult" where
  "decode_durable_state bytes limits result =
     (let result = set_limits (Some limits) result;
          fail = (\<lambda>code detail. (None, vr_add code 0 detail result)) in
      if bytes = [] then fail RC_PersistEmpty 0
      else if length bytes < kHeaderBytes + kTrailerBytes
      then fail RC_PersistTruncated (of_nat (length bytes))
      else if take 4 bytes \<noteq> kMagic then fail RC_PersistBadMagic 0
      else
        (case decode_header bytes of
           None \<Rightarrow> fail RC_PersistTruncated 0
         | Some (version, flags, len, count, crc) \<Rightarrow>
             if crc \<noteq> crc32c (take (kHeaderBytes - 4) bytes) then fail RC_PersistBadIntegrity 0
             else if version \<noteq> kPersistenceFormatVersion \<or> flags \<noteq> 0
             then fail RC_PersistBadVersion (ucast version)
             else if unat len > length bytes then fail RC_PersistOverflow len
             else if kHeaderBytes + unat len + kTrailerBytes > length bytes
             then fail RC_PersistTruncated (of_nat (length bytes))
             else if kHeaderBytes + unat len + kTrailerBytes < length bytes
             then fail RC_PersistTrailingBytes
                    (of_nat (length bytes - (kHeaderBytes + unat len + kTrailerBytes)))
             else
               (let records = take (unat len) (drop kHeaderBytes bytes) in
                case r_u32 (byte_reader (take kTrailerBytes (drop (kHeaderBytes + unat len) bytes))) of
                  (None, _) \<Rightarrow> fail RC_PersistTruncated 0
                | (Some payload_crc, _) \<Rightarrow>
                    if payload_crc \<noteq> crc32c records then fail RC_PersistBadIntegrity 0
                    else if unat count > plausible_records limits
                    then fail RC_PersistAbsurdCount (ucast count)
                    else
                      (case decode_records limits 0 records (blank_state version) result of
                         (None, result) \<Rightarrow> (None, result)
                       | (Some (parsed, st), result) \<Rightarrow>
                           if parsed \<noteq> count
                           then (None, vr_add RC_PersistCountMismatch 0 (ucast count) result)
                           else check_counts limits st result))))"

end
