(* ===== verification/PersistRoundtrip.thy ===== *)
theory PersistRoundtrip
  imports PersistCodec
begin

text \<open>
  The durable image round trip: what the encoder writes for a storable state, the decoder reads
  back as the same state. The record bodies are treated first, one lemma per body, then the
  sequence of records, then the framed image.
\<close>

section \<open>Field decoders\<close>

lemma parses_u8: "parses (p_u8 i) (le_bytes 1 v) v"
  unfolding p_u8_def by (rule c8.parses_read) simp

lemma parses_u16: "parses (p_u16 i) (le_bytes 2 v) v"
  unfolding p_u16_def by (rule c16.parses_read) simp

lemma parses_u32: "parses (p_u32 i) (le_bytes 4 v) v"
  unfolding p_u32_def by (rule c32.parses_read) simp

lemma parses_u64: "parses (p_u64 i) (le_bytes 8 v) v"
  unfolding p_u64_def by (rule c64.parses_read) simp

lemma parses_u64s: "length vs = n \<Longrightarrow> parses (p_u64s i n) (concat (map (le_bytes 8) vs)) vs"
  unfolding p_u64s_def by (auto intro: parses_many parses_u64)

lemma parses_flag: "parses (p_flag i) (le_bytes 1 (bool_u8 b)) b"
  unfolding p_flag_def
  by (rule parses_bind_nil [OF parses_u8])
     (cases b; simp add: d_require_def bool_u8_def parses_return)

lemma parses_pblob: "length bs = n \<Longrightarrow> parses (p_blob i n) bs bs"
  unfolding p_blob_def by (rule parses_blob)

lemma parses_done: "parses_all (f ()) [] x \<Longrightarrow> parses_all (d_bind (p_done i) f) [] x"
  unfolding p_done_def by (rule parses_end)

lemma parses_return_eq: "x = y \<Longrightarrow> parses_all (d_return x) [] y"
  by (simp add: parses_return_all)

lemma parses_return_some: "x = y \<Longrightarrow> parses (d_return x) [] y"
  by (simp add: parses_return)

lemmas parses_fields = parses_u8 parses_u16 parses_u32 parses_u64 parses_u64s parses_flag
  parses_pblob

lemmas parses_body = parses_fields [THEN parses_bind_all] parses_require_all parses_done
  parses_return_eq

lemma bytes_string_bytes [simp]: "bytes_string (string_bytes s) = s"
  by (simp add: bytes_string_def string_bytes_def comp_def unat_of_nat take_bit_nat_eq_self)

lemma length_string_bytes [simp]: "length (string_bytes s) = length s"
  by (simp add: string_bytes_def)

lemma kind_of_value [simp]: "kind_of (kind_u16 k) = k"
  by (cases k) (simp_all add: kind_of_def cast_enum_def kind_u16_def)

lemma encoding_of_value [simp]: "encoding_of (encoding_u16 e) = e"
  by (cases e) (simp_all add: encoding_of_def cast_enum_def encoding_u16_def)

lemma strictness_of_value [simp]: "strictness_of (strictness_u8 s) = s"
  by (cases s) (simp_all add: strictness_of_def)

lemma state_of_value [simp]: "state_of (of_nat (state_value s)) = s"
  by (cases s) (simp_all add: state_of_def cast_enum_def all_states_def)

lemma currentness_of_value [simp]: "currentness_of (of_nat (currentness_value c)) = c"
  by (cases c) (simp_all add: currentness_of_def cast_enum_def all_currentness_def)

lemma unat_of_nat_u16: "n < 65536 \<Longrightarrow> unat (of_nat n :: u16) = n"
  by (simp add: unat_of_nat take_bit_nat_eq_self)

lemma unat_of_nat_u32: "n < 4294967296 \<Longrightarrow> unat (of_nat n :: u32) = n"
  by (simp add: unat_of_nat take_bit_nat_eq_self)

lemma unat_of_nat_u64: "n < 18446744073709551616 \<Longrightarrow> unat (of_nat n :: u64) = n"
  by (simp add: unat_of_nat take_bit_nat_eq_self)

lemma unat_ucast_width:
  assumes "width \<le> (0xFFFF :: u32)"
  shows "unat (ucast width :: u16) = unat width"
proof -
  have "unat width < 65536" using assms by (simp add: word_le_nat_alt)
  then show ?thesis by (simp add: unsigned_ucast_eq take_bit_nat_eq_self)
qed

section \<open>Storable entries\<close>

definition storable_profile :: "SegmentProfile \<Rightarrow> bool" where
  "storable_profile p \<longleftrightarrow> profile_entry_wf p \<and> pf_support p = AbstractSynthetic \<and>
     length (pf_name p) \<le> 256 \<and> length (pf_required_capabilities p) \<le> 64"

definition storable_policy :: "SegmentPolicy \<Rightarrow> bool" where
  "storable_policy p \<longleftrightarrow> policy_entry_wf p \<and> length (po_allowed_profiles p) \<le> 64 \<and>
     length (po_required_segments p) \<le> 256 \<and> length (po_forbidden_segments p) \<le> 256"

definition storable_segment :: "Limits \<Rightarrow> Segment \<Rightarrow> bool" where
  "storable_segment limits s \<longleftrightarrow> seg_kind s \<noteq> SK_Invalid \<and> seg_encoding s \<noteq> SE_Invalid \<and>
     length (seg_payload s) \<le> unat (max_segment_payload_bytes limits) \<and>
     length (seg_payload s) \<le> 0xFFFF"

definition storable_list :: "Limits \<Rightarrow> SegmentProfile list \<Rightarrow> u32 \<Rightarrow> SegmentList \<Rightarrow> bool" where
  "storable_list limits profiles width l \<longleftrightarrow>
     (let c = sl_content l in
      width \<noteq> 0 \<and> width \<le> 0xFFFF \<and> width \<le> max_segment_payload_bytes limits \<and>
      sl_state l \<noteq> LS_Invalid \<and> valid (sl_generation l) \<and>
      length (lc_segments c) \<le> unat (max_segments_per_list limits) \<and>
      list_all (storable_segment limits) (lc_segments c) \<and>
      (valid (lc_profile c) \<longrightarrow> lc_profile c \<in> pf_id ` set profiles) \<and>
      sl_sequence_digest l = sequence_digest (lc_segments c) width \<and>
      sl_content_digest l = content_digest c width)"

definition storable_history :: "DurableHistoryEntry \<Rightarrow> bool" where
  "storable_history e \<longleftrightarrow> valid (dhe_id e) \<and> valid (dhe_generation e) \<and> dhe_state e \<noteq> LS_Invalid"

definition storable_publisher :: "PublisherState \<Rightarrow> bool" where
  "storable_publisher p \<longleftrightarrow> valid (ps_id p) \<and> valid (ps_boot p)"

section \<open>Record bodies\<close>

lemma profile_roundtrip:
  assumes "storable_profile p"
  shows "parses_all (decode_profile i) (profile_body p) p"
proof -
  have b: "profile_body p = concat (map (le_bytes 8) [pf_id p, pf_generation p]) @
     le_bytes 1 (of_nat (support_value AbstractSynthetic) :: u8) @
     le_bytes 2 (pf_allowed_kinds_mask p) @
     le_bytes 4 (pf_max_depth p) @ le_bytes 4 (pf_payload_width p) @
     le_bytes 1 (bool_u8 (pf_allow_empty p)) @
     le_bytes 1 (bool_u8 (pf_allow_consecutive_repeats p)) @
     le_bytes 1 (bool_u8 (pf_allow_nonconsecutive_repeats p)) @
     le_bytes 1 (bool_u8 (pf_allow_loose p)) @
     le_bytes 2 (of_nat (length (pf_name p)) :: u16) @ string_bytes (pf_name p) @
     le_bytes 2 (of_nat (length (pf_required_capabilities p)) :: u16) @
     concat (map (le_bytes 8) (pf_required_capabilities p)) @ []"
    by (simp add: profile_body_def)
  show ?thesis
    unfolding b decode_profile_def
    by (intro parses_body)
       (use assms in \<open>auto simp: storable_profile_def profile_entry_wf_def unat_of_nat_u16
         word_less_nat_alt\<close>)
qed

lemma policy_roundtrip:
  assumes "storable_policy p"
  shows "parses_all (decode_policy i) (policy_body p) p"
proof -
  have b: "policy_body p =
     concat (map (le_bytes 8) [po_id p, po_generation p, po_owner_scope p]) @
     le_bytes 4 (of_nat (length (po_allowed_profiles p)) :: u32) @
     concat (map (le_bytes 8) (po_allowed_profiles p)) @
     le_bytes 2 (po_allowed_kinds_mask p) @ le_bytes 4 (po_max_depth p) @
     le_bytes 4 (of_nat (length (po_required_segments p)) :: u32) @
     concat (map (le_bytes 8) (po_required_segments p)) @
     le_bytes 4 (of_nat (length (po_forbidden_segments p)) :: u32) @
     concat (map (le_bytes 8) (po_forbidden_segments p)) @
     le_bytes 1 (bool_u8 (po_allow_replacement p)) @
     le_bytes 1 (bool_u8 (po_allow_derivation p)) @
     le_bytes 1 (bool_u8 (po_require_strict p)) @ []"
    by (simp add: policy_body_def)
  show ?thesis
    unfolding b decode_policy_def
    by (intro parses_body)
       (use assms in \<open>auto simp: storable_policy_def policy_entry_wf_def unat_of_nat_u32
         word_less_nat_alt\<close>)
qed

lemma history_roundtrip:
  assumes "storable_history e"
  shows "parses_all (decode_history i) (history_body e) e"
proof -
  have b: "history_body e = concat (map (le_bytes 8) [dhe_id e, dhe_list e, dhe_generation e]) @
     le_bytes 1 (of_nat (state_value (dhe_state e)) :: u8) @
     le_bytes 1 (of_nat (currentness_value (dhe_currentness e)) :: u8) @
     concat (map (le_bytes 8) [dg_hi (dhe_digest e), dg_lo (dhe_digest e), dhe_revision e]) @ []"
    by (simp add: history_body_def)
  have "\<not> (of_nat (state_value (dhe_state e)) = (0 :: u8) \<or>
      of_nat (state_value (dhe_state e)) > (of_nat (state_value LS_Retired) :: u8))"
    using assms by (cases "dhe_state e") (simp_all add: storable_history_def)
  moreover have "\<not> of_nat (currentness_value (dhe_currentness e)) >
      (of_nat (currentness_value Cu_FencedPublisher) :: u8)"
    by (cases "dhe_currentness e") simp_all
  ultimately show ?thesis
    unfolding b decode_history_def
    by (intro parses_body) (use assms in \<open>auto simp: storable_history_def\<close>)
qed

lemma attempt_roundtrip:
  assumes "valid (dar_attempt r)"
  shows "parses_all (decode_attempt i) (attempt_body r) r"
proof -
  have b: "attempt_body r = concat (map (le_bytes 8) [dar_attempt r, dar_list r,
      dg_hi (dar_payload r), dg_lo (dar_payload r), dar_generation r]) @
      le_bytes 1 (bool_u8 (dar_committed r)) @ []"
    by (simp add: attempt_body_def)
  show ?thesis
    unfolding b decode_attempt_def by (intro parses_body) (use assms in auto)
qed

lemma publisher_roundtrip:
  assumes "storable_publisher p"
  shows "parses_all (decode_publisher i) (publisher_body p) p"
proof -
  have b: "publisher_body p =
      concat (map (le_bytes 8) [ps_id p, ps_boot p, ps_scope p, ps_epoch p]) @
      le_bytes 1 (bool_u8 (ps_alive p)) @ le_bytes 1 (bool_u8 (ps_fenced p)) @ []"
    by (simp add: publisher_body_def)
  show ?thesis
    unfolding b decode_publisher_def
    by (intro parses_body) (use assms in \<open>auto simp: storable_publisher_def\<close>)
qed

lemma meta_roundtrip: "parses_all (decode_meta i) (meta_body st) (ds_epoch st, ds_revision st)"
proof -
  have b: "meta_body st = concat (map (le_bytes 8) [ds_epoch st, ds_revision st]) @ []"
    by (simp add: meta_body_def)
  show ?thesis
    unfolding b decode_meta_def by (intro parses_body) auto
qed

lemma boot_roundtrip: "parses_all (decode_boot i) (le_bytes 8 b) b"
  unfolding decode_boot_def
  by (rule parses_bind_last [OF parses_u64]) (intro parses_body refl)


lemma segment_roundtrip:
  assumes "storable_segment limits s"
  shows "parses (decode_segment i limits) (durable_segment_bytes s) s"
proof -
  have b: "durable_segment_bytes s =
     le_bytes 2 (kind_u16 (seg_kind s)) @ le_bytes 2 (encoding_u16 (seg_encoding s)) @
     concat (map (le_bytes 8) [seg_id s, seg_generation s, seg_node s, seg_adjacency s,
       seg_endpoint s, seg_binding s, seg_policy s, seg_policy_generation s, seg_topology s]) @
     le_bytes 2 (of_nat (length (seg_payload s)) :: u16) @ seg_payload s @ []"
    by (simp add: durable_segment_bytes_def)
  have "\<not> (kind_u16 (seg_kind s) = 0 \<or> kind_u16 (seg_kind s) > kind_u16 SK_Policy)"
    using assms by (cases "seg_kind s") (simp_all add: storable_segment_def kind_u16_def)
  moreover have "\<not> (encoding_u16 (seg_encoding s) = 0 \<or>
      encoding_u16 (seg_encoding s) > encoding_u16 SE_AbstractPolicyV1)"
    using assms by (cases "seg_encoding s") (simp_all add: storable_segment_def encoding_u16_def)
  ultimately show ?thesis
    unfolding b decode_segment_def
    by (intro parses_fields [THEN parses_bind] parses_require parses_return_some)
       (use assms in \<open>auto simp: storable_segment_def unat_of_nat_u16\<close>)
qed

lemma parses_segments:
  assumes "list_all (storable_segment limits) ss" and "length ss = n"
  shows "parses (d_many n (decode_segment i limits)) (concat (map durable_segment_bytes ss)) ss"
  using assms parses_many [of ss "decode_segment i limits" durable_segment_bytes] segment_roundtrip
  by (auto simp: list_all_iff)

lemma ucast_width: "width \<le> 0xFFFF \<Longrightarrow> ucast (ucast width :: u16) = (width :: u32)"
  using unat_ucast_width [of width] unsigned_less [of "ucast width :: u16", where ?'a = nat]
  by (intro word_unat_eq_iff [THEN iffD2]) (simp add: unsigned_ucast_eq unsigned_take_bit_eq take_bit_nat_eq_self)

lemma list_roundtrip:
  assumes "storable_list limits profiles width l"
  shows "parses_all (decode_list i limits profiles) (list_body width l) l"
proof -
  let ?c = "sl_content l" and ?a = "sl_authority l" and ?v = "sl_provenance l"
  have b: "list_body width l =
      concat (map (le_bytes 8) [lc_id ?c, lc_scope ?c, lc_profile ?c, lc_profile_generation ?c,
        lc_policy ?c, lc_policy_generation ?c]) @
      le_bytes 1 (strictness_u8 (lc_strictness ?c)) @
      le_bytes 2 (ucast width :: u16) @
      concat (map (le_bytes 8) [lc_topology ?c, lc_capability ?c, lc_path ?c, lc_path_authority ?c,
        lc_route ?c, lc_route_generation ?c, lc_constraint ?c, lc_constraint_generation ?c,
        sl_generation l,
        ln_supersedes (sl_lineage l), ln_superseded_by (sl_lineage l), ln_history (sl_lineage l),
        la_publisher ?a, la_boot ?a, la_epoch ?a, la_attempt ?a,
        pv_source_path ?v, pv_source_path_authority ?v, pv_source_route ?v,
        pv_source_route_generation ?v, pv_source_constraint ?v, pv_source_constraint_generation ?v,
        pv_derivation_policy ?v, pv_observed_topology ?v, pv_observed_capability ?v,
        pv_publisher ?v, pv_boot ?v, pv_epoch ?v]) @
      le_bytes 1 (of_nat (state_value (sl_state l)) :: u8) @
      le_bytes 1 (of_nat (currentness_value (sl_currentness l)) :: u8) @
      concat (map (le_bytes 8) [dg_hi (sl_content_digest l), dg_lo (sl_content_digest l),
        dg_hi (sl_sequence_digest l), dg_lo (sl_sequence_digest l), sl_committed_revision l]) @
      le_bytes 4 (of_nat (length (lc_segments ?c)) :: u32) @
      concat (map durable_segment_bytes (lc_segments ?c)) @ []"
    by (simp add: list_body_def Let_def)
  have n: "unat (of_nat (length (lc_segments ?c)) :: u32) = length (lc_segments ?c)"
    using assms unsigned_less [of "max_segments_per_list limits", where ?'a = nat]
    by (intro unat_of_nat_u32) (auto simp: storable_list_def Let_def)
  have w: "ucast (ucast width :: u16) = width" "ucast width \<noteq> (0 :: u16)"
    "unat (ucast width :: u16) = unat width"
    using assms ucast_width [of width] unat_ucast_width [of width]
    by (auto simp: storable_list_def Let_def)
  have st: "\<not> (of_nat (state_value (sl_state l)) = (0 :: u8) \<or>
      of_nat (state_value (sl_state l)) > (of_nat (state_value LS_Retired) :: u8))"
    using assms by (cases "sl_state l") (simp_all add: storable_list_def Let_def)
  have cu: "\<not> of_nat (currentness_value (sl_currentness l)) >
      (of_nat (currentness_value Cu_FencedPublisher) :: u8)"
    by (cases "sl_currentness l") simp_all
  have str: "\<not> (strictness_u8 (lc_strictness ?c) \<noteq> strictness_u8 Strict \<and>
      strictness_u8 (lc_strictness ?c) \<noteq> strictness_u8 Loose)"
    by (cases "lc_strictness ?c") simp_all
  have content: "\<lparr>lc_id = lc_id ?c, lc_scope = lc_scope ?c, lc_profile = lc_profile ?c,
     lc_profile_generation = lc_profile_generation ?c, lc_policy = lc_policy ?c,
     lc_policy_generation = lc_policy_generation ?c, lc_strictness = lc_strictness ?c,
     lc_topology = lc_topology ?c, lc_capability = lc_capability ?c, lc_path = lc_path ?c,
     lc_path_authority = lc_path_authority ?c, lc_route = lc_route ?c,
     lc_route_generation = lc_route_generation ?c, lc_constraint = lc_constraint ?c,
     lc_constraint_generation = lc_constraint_generation ?c, lc_segments = lc_segments ?c\<rparr> = ?c"
    by simp
  show ?thesis
    unfolding b decode_list_def Let_def
    by (intro parses_body parses_segments [THEN parses_bind_all] st cu str)
       (use assms in \<open>auto simp: storable_list_def Let_def n w content word_le_nat_alt word_less_nat_alt\<close>)
qed

section \<open>Sequences of records\<close>

lemma run_record_parsed: "parses_all m body x \<Longrightarrow> run_record m i body result = (Some x, result)"
proof -
  assume "parses_all m body x"
  moreover have "good \<lparr>dc_reader = byte_reader body, dc_result = result\<rparr>"
    "unread \<lparr>dc_reader = byte_reader body, dc_result = result\<rparr> = body"
    by (simp_all add: good_def unread_def reader_defs)
  ultimately obtain d where "m \<lparr>dc_reader = byte_reader body, dc_result = result\<rparr> = (Some x, d)"
    "dc_result d = result"
    unfolding parses_all_def by fastforce
  then show ?thesis by (simp add: run_record_def)
qed

lemma next_record_bytes:
  assumes "t \<noteq> RT_Invalid" and "length body \<le> unat (max_persistence_record_bytes limits)"
  shows "next_record limits i (record_bytes t body @ bs) result =
    (Some (of_nat (record_type_value t), body, bs), result)"
proof -
  let ?t = "of_nat (record_type_value t) :: u16" and ?n = "of_nat (length body) :: u32"
  let ?bs = "record_bytes t body @ bs"
  have n: "unat ?n = length body"
    using assms(2) unsigned_less [of "max_persistence_record_bytes limits", where ?'a = nat]
    by (intro unat_of_nat_u32) simp
  obtain r where r: "r_u16 (byte_reader ?bs) = (Some ?t, r)" "br_ok r" "reader_ok r"
      "rest r = le_bytes 4 ?n @ body @ bs"
    using c16.round_trip [where v = ?t and r = "byte_reader ?bs"] by (auto simp: record_bytes_def reader_defs)
  obtain r' where r': "r_u32 r = (Some ?n, r')" "rest r' = body @ bs"
    using c32.round_trip [where v = ?n, OF _ r(2-4)] by auto
  moreover have "\<not> (?t < 1 \<or> ?t > 8)" using assms(1) by (cases t) simp_all
  moreover have "remaining r' \<ge> length body"
    using r'(2) by (metis length_append length_drop le_add1 remaining_def rest_def)
  ultimately show ?thesis
    using r(1) n assms(2) by (simp add: next_record_def word_less_nat_alt not_less)
qed

lemma decode_records_Nil: "decode_records limits i [] st result = (Some (i, st), result)"
  by (simp add: decode_records.simps)

lemma decode_records_Cons:
  assumes "t \<noteq> RT_Invalid" and "length body \<le> unat (max_persistence_record_bytes limits)"
    and "decode_record limits i (of_nat (record_type_value t)) body st result = (Some st', result)"
  shows "decode_records limits i (record_bytes t body @ bs) st result =
    decode_records limits (i + 1) bs st' result"
  using assms(3) next_record_bytes [OF assms(1,2)]
  by (subst decode_records.simps) (simp add: record_bytes_def le_bytes_def)

lemma run_bodies:
  "storable_profile p \<Longrightarrow> run_record (decode_profile i) i (profile_body p) result = (Some p, result)"
  "storable_policy q \<Longrightarrow> run_record (decode_policy i) i (policy_body q) result = (Some q, result)"
  "storable_list limits profiles width l \<Longrightarrow>
     run_record (decode_list i limits profiles) i (list_body width l) result = (Some l, result)"
  "storable_history e \<Longrightarrow> run_record (decode_history i) i (history_body e) result = (Some e, result)"
  "valid (dar_attempt r) \<Longrightarrow> run_record (decode_attempt i) i (attempt_body r) result = (Some r, result)"
  "storable_publisher u \<Longrightarrow>
     run_record (decode_publisher i) i (publisher_body u) result = (Some u, result)"
  "run_record (decode_meta i) i (meta_body st) result = (Some (ds_epoch st, ds_revision st), result)"
  "run_record (decode_boot i) i (le_bytes 8 b) result = (Some b, result)"
  by (simp_all add: run_record_parsed profile_roundtrip policy_roundtrip list_roundtrip
      history_roundtrip attempt_roundtrip publisher_roundtrip meta_roundtrip boot_roundtrip)

definition records_bytes :: "(RecordType \<times> ByteBuffer) list \<Rightarrow> ByteBuffer" where
  "records_bytes rs = concat (map (\<lambda>(t, b). record_bytes t b) rs)"

lemma records_bytes_append [simp]: "records_bytes (rs @ ss) = records_bytes rs @ records_bytes ss"
  by (simp add: records_bytes_def)

text \<open>Each element satisfies a condition that may depend on the elements before it.\<close>

definition each_after :: "('a list \<Rightarrow> 'a \<Rightarrow> bool) \<Rightarrow> 'a list \<Rightarrow> bool" where
  "each_after P xs \<longleftrightarrow> (\<forall>us x vs. xs = us @ x # vs \<longrightarrow> P us x)"

lemma each_afterD: "each_after P xs \<Longrightarrow> xs = us @ x # vs \<Longrightarrow> P us x"
  by (simp add: each_after_def)

lemma each_after_all [simp]: "each_after (\<lambda>_. P) xs \<longleftrightarrow> list_all P xs"
  by (fastforce simp: each_after_def list_all_iff dest: split_list)

lemma each_after_fresh [simp]:
  "each_after (\<lambda>us x. P x \<and> k x \<notin> k ` set us) xs \<longleftrightarrow> list_all P xs \<and> distinct (map k xs)"
proof (induction xs rule: rev_induct)
  case (snoc y ys)
  have "each_after Q (ys @ [y]) \<longleftrightarrow> each_after Q ys \<and> Q ys y" for Q
    unfolding each_after_def
    by (metis append.assoc append_Cons append_Nil append_butlast_last_id butlast_append
        butlast_snoc last_snoc last_appendR list.distinct(1))
  with snoc show ?case by auto
qed (simp add: each_after_def)

text \<open>
  A table of the image: its records have one type, each extends the table by the entry that was
  written, and whether an entry is accepted may depend on the entries before it.
\<close>

locale record_table =
  fixes t :: RecordType
    and body :: "'a \<Rightarrow> ByteBuffer"
    and put :: "'a list \<Rightarrow> DurableState \<Rightarrow> DurableState"
    and fine :: "Limits \<Rightarrow> DurableState \<Rightarrow> 'a list \<Rightarrow> 'a \<Rightarrow> bool"
  assumes typed: "t \<noteq> RT_Invalid"
    and accepts: "fine limits st pre x \<Longrightarrow>
      decode_record limits i (of_nat (record_type_value t)) (body x) (put pre st) result =
      (Some (put (pre @ [x]) st), result)"
begin

lemma decode_extend:
  assumes "\<forall>x \<in> set xs. length (body x) \<le> unat (max_persistence_record_bytes limits)"
    and "\<And>us x vs. xs = us @ x # vs \<Longrightarrow> fine limits st (pre @ us) x"
  shows "decode_records limits i (records_bytes (map (\<lambda>x. (t, body x)) xs) @ bs) (put pre st) result =
    decode_records limits (i + of_nat (length xs)) bs (put (pre @ xs) st) result"
  using assms
proof (induction xs arbitrary: i pre)
  case (Cons x xs)
  have "fine limits st pre x" using Cons.prems(2) [of "[]" x xs] by simp
  note here = decode_records_Cons [OF typed _ accepts [OF this]]
  have "fine limits st ((pre @ [x]) @ us) y" if "xs = us @ y # vs" for us y vs
    using Cons.prems(2) [of "x # us" y vs] that by simp
  with Cons.IH [of "pre @ [x]" "i + 1"] here [of i _ result] Cons.prems(1) show ?case
    by (simp add: records_bytes_def algebra_simps)
qed (simp add: records_bytes_def)

lemma decode_table:
  assumes "\<forall>x \<in> set xs. length (body x) \<le> unat (max_persistence_record_bytes limits)"
    and "each_after (fine limits st) xs" and "put [] st = st"
  shows "decode_records limits i (records_bytes (map (\<lambda>x. (t, body x)) xs) @ bs) st result =
    decode_records limits (i + of_nat (length xs)) bs (put xs st) result"
  using decode_extend [of xs limits st "[]" i bs result] assms by (auto dest: each_afterD)

end

interpretation profiles: record_table RT_Profile profile_body "\<lambda>xs st. st\<lparr>ds_profiles := xs\<rparr>"
  "\<lambda>limits st pre p. storable_profile p \<and> pf_id p \<notin> pf_id ` set pre"
  by unfold_locales (auto simp: decode_record_def add_record_def run_bodies)

interpretation policies: record_table RT_Policy policy_body "\<lambda>xs st. st\<lparr>ds_policies := xs\<rparr>"
  "\<lambda>limits st pre p. storable_policy p \<and> po_id p \<notin> po_id ` set pre"
  by unfold_locales (auto simp: decode_record_def add_record_def run_bodies)

interpretation lists: record_table RT_List "\<lambda>l. list_body (width l) l" "\<lambda>xs st. st\<lparr>ds_lists := xs\<rparr>"
  "\<lambda>limits st pre l. storable_list limits (ds_profiles st) (width l) l \<and> sl_id l \<notin> sl_id ` set pre"
  for width
  by unfold_locales (auto simp: decode_record_def add_record_def run_bodies)

interpretation history: record_table RT_History history_body "\<lambda>xs st. st\<lparr>ds_history := xs\<rparr>"
  "\<lambda>limits st pre e. storable_history e"
  by unfold_locales (auto simp: decode_record_def add_record_def run_bodies)

interpretation attempts: record_table RT_Attempt attempt_body "\<lambda>xs st. st\<lparr>ds_attempts := xs\<rparr>"
  "\<lambda>limits st pre r. valid (dar_attempt r)"
  by unfold_locales (auto simp: decode_record_def add_record_def run_bodies)

interpretation publishers: record_table RT_Publisher publisher_body
  "\<lambda>xs st. st\<lparr>ds_publishers := xs\<rparr>" "\<lambda>limits st pre p. storable_publisher p"
  by unfold_locales (auto simp: decode_record_def add_record_def run_bodies)

interpretation boots: record_table RT_FencedBoot "le_bytes 8" "\<lambda>xs st. st\<lparr>ds_fenced_boots := xs\<rparr>"
  "\<lambda>limits st pre b. valid b"
  by unfold_locales (auto simp: decode_record_def add_record_def run_bodies)

section \<open>Storable states\<close>

definition fits_record :: "Limits \<Rightarrow> RecordType \<times> ByteBuffer \<Rightarrow> bool" where
  "fits_record limits r \<longleftrightarrow> length (snd r) \<le> unat (max_persistence_record_bytes limits)"

definition within_counts :: "Limits \<Rightarrow> DurableState \<Rightarrow> bool" where
  "within_counts limits st \<longleftrightarrow>
     length (ds_history st) \<le> unat (max_history limits) \<and>
     length (ds_attempts st) \<le> unat (max_attempt_records limits) \<and>
     length (ds_lists st) \<le> unat (max_lists limits) \<and>
     length (ds_profiles st) \<le> unat (max_profiles limits) \<and>
     length (ds_policies st) \<le> unat (max_policies limits) \<and>
     length (ds_publishers st) \<le> unat (max_publishers limits)"

definition storable :: "Limits \<Rightarrow> DurableState \<Rightarrow> bool" where
  "storable limits st \<longleftrightarrow>
     ds_format_version st = kPersistenceFormatVersion \<and> within_counts limits st \<and>
     distinct (map pf_id (ds_profiles st)) \<and> distinct (map po_id (ds_policies st)) \<and>
     distinct (map sl_id (ds_lists st)) \<and>
     list_all storable_profile (ds_profiles st) \<and> list_all storable_policy (ds_policies st) \<and>
     list_all (\<lambda>l. storable_list limits (ds_profiles st) (list_width st (sl_content l)) l) (ds_lists st) \<and>
     list_all storable_history (ds_history st) \<and>
     list_all (\<lambda>r. valid (dar_attempt r)) (ds_attempts st) \<and>
     list_all storable_publisher (ds_publishers st) \<and> list_all valid (ds_fenced_boots st) \<and>
     list_all (fits_record limits) (state_records st) \<and>
     length (state_records st) \<le> plausible_records limits \<and>
     length (state_records st) < 4294967296 \<and>
     length (records_bytes (state_records st)) < 18446744073709551616"


lemma storable_fits:
  assumes "storable limits st" and "(t, b) \<in> set (state_records st)"
  shows "length b \<le> unat (max_persistence_record_bytes limits)"
  using assms by (auto simp: storable_def list_all_iff fits_record_def)

lemmas decode_tables = profiles.decode_table policies.decode_table lists.decode_table
  history.decode_table attempts.decode_table publishers.decode_table
  boots.decode_table [where bs = "[]", simplified append_Nil2]

lemma decode_state_records:
  assumes "storable limits st"
  shows "decode_records limits 0 (records_bytes (state_records st))
      (blank_state kPersistenceFormatVersion) result =
    (Some (of_nat (length (state_records st)), st), result)"
proof -
  let ?b = "blank_state kPersistenceFormatVersion"
  have meta: "decode_records limits 0 (records_bytes [(RT_Meta, meta_body st)] @ bs) ?b result =
      decode_records limits 1 bs (?b\<lparr>ds_epoch := ds_epoch st, ds_revision := ds_revision st\<rparr>) result" for bs
    using decode_records_Cons [of RT_Meta "meta_body st" limits 0 ?b result _ bs]
      storable_fits [OF assms, of RT_Meta "meta_body st"]
    by (simp add: records_bytes_def state_records_def decode_record_def add_record_def run_bodies)
  have conj_fits: "list_all (fits_record limits) (state_records st)"
    using assms by (simp add: storable_def)
  have fits: "\<forall>p \<in> set (ds_profiles st). length (profile_body p) \<le> unat (max_persistence_record_bytes limits)"
    "\<forall>q \<in> set (ds_policies st). length (policy_body q) \<le> unat (max_persistence_record_bytes limits)"
    "\<forall>l \<in> set (ds_lists st). length (list_body (list_width st (sl_content l)) l) \<le>
       unat (max_persistence_record_bytes limits)"
    "\<forall>e \<in> set (ds_history st). length (history_body e) \<le> unat (max_persistence_record_bytes limits)"
    "\<forall>r \<in> set (ds_attempts st). length (attempt_body r) \<le> unat (max_persistence_record_bytes limits)"
    "\<forall>p \<in> set (ds_publishers st). length (publisher_body p) \<le> unat (max_persistence_record_bytes limits)"
    "\<forall>b \<in> set (ds_fenced_boots st). 8 \<le> unat (max_persistence_record_bytes limits)"
    using conj_fits by (simp_all add: state_records_def list_all_iff fits_record_def ball_Un)
  note ok = assms [unfolded storable_def]
  have tables: "list_all storable_profile (ds_profiles st)" "distinct (map pf_id (ds_profiles st))"
    "list_all storable_policy (ds_policies st)" "distinct (map po_id (ds_policies st))"
    "list_all (\<lambda>l. storable_list limits (ds_profiles st) (list_width st (sl_content l)) l) (ds_lists st)"
    "distinct (map sl_id (ds_lists st))" "list_all storable_history (ds_history st)"
    "list_all (\<lambda>r. valid (dar_attempt r)) (ds_attempts st)"
    "list_all storable_publisher (ds_publishers st)" "list_all valid (ds_fenced_boots st)"
    "ds_format_version st = kPersistenceFormatVersion"
    using ok by blast+
  show ?thesis
    unfolding state_records_def records_bytes_append meta
    using fits(7) by (simp add: decode_tables fits(1-6) tables blank_state_def initial_state_def decode_records_Nil)
qed

section \<open>The framed image\<close>

definition image_head :: "nat \<Rightarrow> u32 \<Rightarrow> ByteBuffer" where
  "image_head payload count = kMagic @ le_bytes 2 kPersistenceFormatVersion @ le_bytes 2 (0 :: u16) @
     le_bytes 8 (of_nat payload :: u64) @ le_bytes 4 count"

lemma image_header_eq:
  "image_header payload count = image_head payload count @ le_bytes 4 (crc32c (image_head payload count))"
  by (simp add: image_header_def image_head_def Let_def)

lemma length_kMagic [simp]: "length kMagic = 4"
  by (simp add: kMagic_def)

lemma length_image_head [simp]: "length (image_head payload count) = 20"
  by (simp add: image_head_def)

lemma length_image_header [simp]: "length (image_header payload count) = 24"
  by (simp add: image_header_eq)

lemma image_header_nonempty [simp]: "image_header payload count \<noteq> []"
  using length_image_header [of payload count] by (metis length_0_conv zero_neq_numeral)

lemma decode_header_image:
  "decode_header (image_header payload count @ bs) =
    Some (kPersistenceFormatVersion, 0, of_nat payload, count, crc32c (image_head payload count))"
proof -
  let ?crc = "crc32c (image_head payload count)"
  let ?r = "byte_reader (image_header payload count)"
  obtain r0 where r0: "r_skip 4 ?r = (True, r0)" "br_ok r0" "reader_ok r0"
    "rest r0 = le_bytes 2 kPersistenceFormatVersion @ le_bytes 2 (0 :: u16) @
       le_bytes 8 (of_nat payload :: u64) @ le_bytes 4 count @ le_bytes 4 ?crc"
    by (simp add: reader_defs image_header_eq image_head_def)
  obtain r1 where r1: "r_u16 r0 = (Some kPersistenceFormatVersion, r1)" "br_ok r1" "reader_ok r1"
    "rest r1 = le_bytes 2 (0 :: u16) @ le_bytes 8 (of_nat payload :: u64) @ le_bytes 4 count @ le_bytes 4 ?crc"
    using c16.round_trip [OF _ r0(2-4)] by auto
  obtain r2 where r2: "r_u16 r1 = (Some 0, r2)" "br_ok r2" "reader_ok r2"
    "rest r2 = le_bytes 8 (of_nat payload :: u64) @ le_bytes 4 count @ le_bytes 4 ?crc"
    using c16.round_trip [OF _ r1(2-4)] by auto
  obtain r3 where r3: "r_u64 r2 = (Some (of_nat payload), r3)" "br_ok r3" "reader_ok r3"
    "rest r3 = le_bytes 4 count @ le_bytes 4 ?crc"
    using c64.round_trip [OF _ r2(2-4)] by auto
  obtain r4 where r4: "r_u32 r3 = (Some count, r4)" "br_ok r4" "reader_ok r4" "rest r4 = le_bytes 4 ?crc @ []"
    using c32.round_trip [OF _ r3(2-4)] by auto
  obtain r5 where "r_u32 r4 = (Some ?crc, r5)"
    using c32.round_trip [OF _ r4(2-4)] by auto
  with r0(1) r1(1) r2(1) r3(1) r4(1) show ?thesis by (simp add: decode_header_def kHeaderBytes_def)
qed

lemma emit_records:
  assumes "list_all (fits_record limits) rs" and "\<not> en_failed enc"
  shows "fold (\<lambda>(t, body). emit_record limits t body) rs enc =
    enc\<lparr>en_records := en_records enc @ records_bytes rs, en_count := en_count enc + of_nat (length rs)\<rparr>"
  using assms
proof (induction rs arbitrary: enc)
  case (Cons r rs)
  obtain t body where r: "r = (t, body)" by fastforce
  with Cons show ?case by (simp add: emit_record_def fits_record_def records_bytes_def algebra_simps)
qed (simp add: records_bytes_def)

definition durable_image :: "DurableState \<Rightarrow> ByteBuffer" where
  "durable_image st =
     (let rs = records_bytes (state_records st) in
      image_header (length rs) (of_nat (length (state_records st))) @ rs @ le_bytes 4 (crc32c rs))"

lemma encode_fitting:
  assumes "list_all (fits_record limits) (state_records st)"
  shows "encode_durable_state st limits result = (durable_image st, set_limits (Some limits) result)"
  using emit_records [OF assms]
  by (simp add: encode_durable_state_def durable_image_def Let_def)

lemma check_counts_within: "within_counts limits st \<Longrightarrow> check_counts limits st result = (Some st, result)"
  by (simp add: check_counts_def within_counts_def Let_def not_less)

lemma decode_framed:
  assumes "length rs < 18446744073709551616"
  shows "decode_durable_state (image_header (length rs) count @ rs @ le_bytes 4 (crc32c rs)) limits result =
    (let result = set_limits (Some limits) result in
     if unat count > plausible_records limits
     then (None, vr_add RC_PersistAbsurdCount 0 (ucast count) result)
     else
       (case decode_records limits 0 rs (blank_state kPersistenceFormatVersion) result of
          (None, result) \<Rightarrow> (None, result)
        | (Some (parsed, st), result) \<Rightarrow>
            if parsed \<noteq> count then (None, vr_add RC_PersistCountMismatch 0 (ucast count) result)
            else check_counts limits st result))"
proof -
  let ?bytes = "image_header (length rs) count @ rs @ le_bytes 4 (crc32c rs)"
  have magic: "take 4 ?bytes = kMagic" by (simp add: image_header_eq image_head_def)
  have head: "take 20 ?bytes = image_head (length rs) count" by (simp add: image_header_eq)
  have n: "unat (of_nat (length rs) :: u64) = length rs" by (rule unat_of_nat_u64) (rule assms)
  have crc: "fst (r_u32 (byte_reader (le_bytes 4 v))) = Some v" for v
    using c32.round_trip [where v = v and r = "byte_reader (le_bytes 4 v)" and ts = "[]"]
    by (auto simp: reader_defs)
  show ?thesis
    using magic head n crc [of "crc32c rs"] decode_header_image [of "length rs" count "rs @ le_bytes 4 (crc32c rs)"]
    by (cases "r_u32 (byte_reader (le_bytes 4 (crc32c rs)))")
       (simp add: decode_durable_state_def Let_def kHeaderBytes_def kTrailerBytes_def)
qed

lemma decode_durable_image:
  assumes "storable limits st"
  shows "decode_durable_state (durable_image st) limits result = (Some st, set_limits (Some limits) result)"
proof -
  have ok: "length (records_bytes (state_records st)) < 18446744073709551616"
    "unat (of_nat (length (state_records st)) :: u32) = length (state_records st)"
    "length (state_records st) \<le> plausible_records limits" "within_counts limits st"
    using assms by (simp_all add: storable_def unat_of_nat_u32)
  then show ?thesis
    using decode_state_records [OF assms]
    by (simp add: durable_image_def Let_def decode_framed check_counts_within)
qed

end
