(* ===== verification/Framing.thy ===== *)
theory Framing
  imports Decode
begin

text \<open>
  Sealed blocks: a byte sequence followed by its CRC-32C, as both the durable image and the wire frame
  use it for their headers and their payloads. Two sealed blocks of one length never differ in exactly
  one byte.
\<close>

section \<open>Reading back raw integers\<close>

lemma le_word_bit:
  "length bs = n \<Longrightarrow> bit (le_word bs :: 'a::len word) k \<longleftrightarrow>
     k < LENGTH('a) \<and> k div 8 < n \<and> bit (bs ! (k div 8)) (k mod 8)"
proof (induction bs arbitrary: n k)
  case (Cons b bs)
  show ?case
  proof (cases "k < 8")
    case True
    then show ?thesis using Cons.prems by (auto simp: bit_or_iff bit_push_bit_iff bit_ucast_iff)
  next
    case False
    then obtain j where "k = j + 8" by (metis add.commute le_add_diff_inverse not_less)
    moreover from this have "k div 8 = Suc (j div 8)" by simp
    ultimately show ?thesis using Cons.IH [of "length bs" j] Cons.prems
      by (auto simp: bit_or_iff bit_push_bit_iff bit_ucast_iff dest: bit_imp_le_length)
  qed
qed simp

lemma le_bytes_le_word:
  assumes "length bs = n" and "LENGTH('a) = 8 * n"
  shows "le_bytes n (le_word bs :: 'a::len word) = bs"
proof (rule nth_equalityI)
  fix i assume "i < length (le_bytes n (le_word bs :: 'a word))"
  then have i: "i < n" by simp
  show "le_bytes n (le_word bs :: 'a word) ! i = bs ! i"
  proof (rule bit_word_eqI)
    fix k assume k: "k < LENGTH(8)"
    then have "8 * i + k < 8 * n" "(8 * i + k) div 8 = i" "(8 * i + k) mod 8 = k" using i by auto
    with i k assms show "bit (le_bytes n (le_word bs :: 'a word) ! i) k = bit (bs ! i) k"
      by (simp add: le_bytes_def bit_ucast_iff bit_drop_bit_eq le_word_bit)
  qed
qed (simp add: assms)

section \<open>Sealed blocks\<close>

definition sealed :: "u8 list \<Rightarrow> u8 list" where
  "sealed xs = xs @ le_bytes 4 (crc32c xs)"

lemma length_sealed [simp]: "length (sealed xs) = length xs + 4"
  by (simp add: sealed_def)

lemma crc32c_update:
  assumes "i < length xs" and "crc32c (xs[i := b]) = crc32c xs"
  shows "b = xs ! i"
proof -
  have "NOT u = NOT v \<longleftrightarrow> u = v" for u v :: u32 by (metis bit.double_compl)
  with assms crc.fold_one_byte [of "take i xs" b "drop (Suc i) xs" "NOT 0" "xs ! i"] show ?thesis
    by (simp add: crc32c_def crc32c_extend_def upd_conv_take_nth_drop id_take_nth_drop [symmetric])
qed

lemma sealed_update:
  assumes "(sealed xs)[i := b] = sealed ys" and "length ys = length xs" and "i < length (sealed xs)"
  shows "b = sealed xs ! i"
proof (cases "i < length xs")
  case True
  then have "xs[i := b] @ le_bytes 4 (crc32c xs) = ys @ le_bytes 4 (crc32c ys)"
    using assms(1) by (simp add: sealed_def list_update_append)
  then have "xs[i := b] = ys" "crc32c xs = crc32c ys" using assms(2) by simp_all
  with crc32c_update [OF True, of b] True show ?thesis by (simp add: sealed_def nth_append)
next
  case False
  then have "xs = ys" "(le_bytes 4 (crc32c xs))[i - length xs := b] = le_bytes 4 (crc32c ys)"
    using assms(1,2) by (auto simp: sealed_def list_update_append)
  with False assms(3) show ?thesis
    by (simp add: sealed_def nth_append) (metis less_diff_conv2 length_le_bytes linorder_not_le
        nth_list_update_eq add.commute)
qed

end
