(* ===== verification/PersistSafety.thy ===== *)
theory PersistSafety
  imports PersistRoundtrip Framing
begin

text \<open>
  What the image decoder guarantees about the bytes it accepts and about the ones it refuses: an
  accepted image is framed and checksummed as written, its content is well formed, no image with
  one changed byte is accepted beside it, and a refusal is explained by a reason.
\<close>

section \<open>Accepted images are framed\<close>

lemma image_header_sealed: "image_header payload count = sealed (image_head payload count)"
  by (simp add: image_header_eq sealed_def)

lemma decode_header_fields:
  assumes "24 \<le> length bytes"
  shows "decode_header bytes =
    Some (le_word (take 2 (drop 4 bytes)), le_word (take 2 (drop 6 bytes)),
      le_word (take 8 (drop 8 bytes)), le_word (take 4 (drop 16 bytes)), le_word (take 4 (drop 20 bytes)))"
  using assms
  by (simp add: decode_header_def reader_defs kHeaderBytes_def drop_take min_def)

lemma split_head:
  "take 20 bytes = take 4 bytes @ take 2 (drop 4 bytes) @ take 2 (drop 6 bytes) @
    take 8 (drop 8 bytes) @ take 4 (drop 16 bytes)"
  using take_add [of 4 16 bytes] take_add [of 2 14 "drop 4 bytes"]
    take_add [of 2 12 "drop 6 bytes"] take_add [of 8 4 "drop 8 bytes"]
  by simp

lemma accepted_checks:
  assumes "decode_durable_state bytes limits result = (Some st, result')"
    and "decode_header bytes = Some (version, flags, len, count, crc)"
  shows "take 4 bytes = kMagic" "crc = crc32c (take 20 bytes)" "version = kPersistenceFormatVersion"
    "flags = 0" "length bytes = 28 + unat len"
    "fst (r_u32 (byte_reader (take 4 (drop (24 + unat len) bytes)))) =
       Some (crc32c (take (unat len) (drop 24 bytes)))"
    "unat count \<le> plausible_records limits"
    "decode_records limits 0 (take (unat len) (drop 24 bytes)) (blank_state kPersistenceFormatVersion)
       (set_limits (Some limits) result) = (Some (count, st), result')"
    "within_counts limits st"
proof -
  note d = assms(1) [unfolded decode_durable_state_def Let_def assms(2), simplified]
  show 1: "take 4 bytes = kMagic" "crc = crc32c (take 20 bytes)" "version = kPersistenceFormatVersion"
    "flags = 0" "length bytes = 28 + unat len"
    using d by (simp_all add: kHeaderBytes_def kTrailerBytes_def split: if_splits)
  obtain pcrc r where t: "r_u32 (byte_reader (take 4 (drop (24 + unat len) bytes))) = (pcrc, r)"
    by fastforce
  show 2: "fst (r_u32 (byte_reader (take 4 (drop (24 + unat len) bytes)))) =
      Some (crc32c (take (unat len) (drop 24 bytes)))" "unat count \<le> plausible_records limits"
    using d 1 t
    by (simp_all add: kHeaderBytes_def kTrailerBytes_def split: if_splits option.splits)
  have "(case decode_records limits 0 (take (unat len) (drop 24 bytes)) (blank_state kPersistenceFormatVersion)
        (set_limits (Some limits) result) of
      (None, result) \<Rightarrow> (None, result)
    | (Some (parsed, st), result) \<Rightarrow>
        if parsed \<noteq> count then (None, vr_add RC_PersistCountMismatch 0 (ucast count) result)
        else check_counts limits st result) = (Some st, result')"
    using d 1 2 t
    by (simp add: kHeaderBytes_def kTrailerBytes_def split: if_splits option.splits)
  then show "decode_records limits 0 (take (unat len) (drop 24 bytes)) (blank_state kPersistenceFormatVersion)
       (set_limits (Some limits) result) = (Some (count, st), result')" "within_counts limits st"
    by (auto simp: check_counts_def within_counts_def Let_def split: prod.splits option.splits if_splits)
qed

lemma accepted_framed:
  assumes "decode_durable_state bytes limits result = (Some st, result')"
  obtains rs count where "bytes = sealed (image_head (length rs) count) @ sealed rs"
    "length rs < 18446744073709551616" "unat count \<le> plausible_records limits"
    "decode_records limits 0 rs (blank_state kPersistenceFormatVersion) (set_limits (Some limits) result) =
       (Some (count, st), result')"
    "within_counts limits st"
proof -
  define len where "len = (le_word (take 8 (drop 8 bytes)) :: u64)"
  define count where "count = (le_word (take 4 (drop 16 bytes)) :: u32)"
  let ?rs = "take (unat len) (drop 24 bytes)"
  have n: "24 \<le> length bytes"
    using assms by (auto simp: decode_durable_state_def Let_def kHeaderBytes_def split: if_splits)
  note c = accepted_checks [OF assms decode_header_fields [OF n, folded len_def count_def]]
  have rs: "length ?rs = unat len" using c(5) by simp
  have pcrc: "le_word (drop (24 + unat len) bytes) = crc32c ?rs"
    using c(5,6) by (simp add: reader_defs)
  have le_bytes_len: "le_bytes 8 len = take 8 (drop 8 bytes)"
    and le_bytes_count: "le_bytes 4 count = take 4 (drop 16 bytes)"
    unfolding len_def count_def using n by (simp_all add: le_bytes_le_word)
  have le: "le_bytes 2 (le_word (take 2 (drop 4 bytes)) :: u16) = take 2 (drop 4 bytes)"
    "le_bytes 2 (le_word (take 2 (drop 6 bytes)) :: u16) = take 2 (drop 6 bytes)"
    "le_bytes 4 (le_word (take 4 (drop 20 bytes)) :: u32) = take 4 (drop 20 bytes)"
    "le_bytes 4 (le_word (drop (24 + unat len) bytes) :: u32) = drop (24 + unat len) bytes"
    using n c(5) by (simp_all add: le_bytes_le_word)
  have head: "take 20 bytes = image_head (length ?rs) count"
    using split_head [of bytes] c(1,3,4) le(1,2) le_bytes_len le_bytes_count rs by (simp add: image_head_def)
  have "take 24 bytes = sealed (image_head (length ?rs) count)"
    using take_add [of 20 4 bytes] le(3) c(2) head by (simp add: sealed_def)
  moreover have "drop 24 bytes = sealed ?rs"
    using append_take_drop_id [of "unat len" "drop 24 bytes"] le(4) pcrc
    by (simp add: sealed_def add.commute)
  ultimately have "bytes = sealed (image_head (length ?rs) count) @ sealed ?rs"
    using append_take_drop_id [of 24 bytes] by simp
  moreover have "length ?rs < 18446744073709551616"
    using rs unsigned_less [of len, where ?'a = nat] by simp
  ultimately show thesis using that c(7-9) by blast
qed

section \<open>One changed byte\<close>

lemma corrupted_refused:
  assumes "decode_durable_state bytes limits result = (Some st, result')"
    and "i < length bytes" and "b \<noteq> bytes ! i"
  shows "fst (decode_durable_state (bytes[i := b]) limits' result'') = None"
proof (rule ccontr)
  assume "fst (decode_durable_state (bytes[i := b]) limits' result'') \<noteq> None"
  then obtain st' r where acc: "decode_durable_state (bytes[i := b]) limits' result'' = (Some st', r)"
    by (metis option.exhaust prod.exhaust_sel)
  obtain rs count where f: "bytes = sealed (image_head (length rs) count) @ sealed rs"
    using accepted_framed [OF assms(1)] by metis
  obtain rs' count' where g: "bytes[i := b] = sealed (image_head (length rs') count') @ sealed rs'"
    using accepted_framed [OF acc] by metis
  have len: "length rs' = length rs"
    using arg_cong [OF f, of length] arg_cong [OF g, of length] by simp
  let ?h = "sealed (image_head (length rs) count)"
  show False
  proof (cases "i < length ?h")
    case True
    then have "?h[i := b] = sealed (image_head (length rs) count')"
      using f g len by (simp add: list_update_append)
    from sealed_update [OF this _ True] True assms(3) f show False by (simp add: nth_append)
  next
    case False
    then have "(sealed rs)[i - 24 := b] = sealed rs'"
      using f g len by (simp add: list_update_append)
    from sealed_update [OF this len] False assms(2,3) f show False by (simp add: nth_append)
  qed
qed

section \<open>Accepted content is well formed\<close>

lemma kind_of_valid: "\<not> (k = 0 \<or> k > kind_u16 SK_Policy) \<Longrightarrow> kind_of k \<noteq> SK_Invalid"
  by (simp add: kind_of_def cast_enum_def kind_u16_def word_unat_eq_iff word_less_nat_alt)

lemma encoding_of_valid:
  "\<not> (e = 0 \<or> e > encoding_u16 SE_AbstractPolicyV1) \<Longrightarrow> encoding_of e \<noteq> SE_Invalid"
  by (simp add: encoding_of_def cast_enum_def encoding_u16_def word_unat_eq_iff word_less_nat_alt)

lemma state_of_valid: "\<not> (s = 0 \<or> s > of_nat (state_value LS_Retired)) \<Longrightarrow> state_of s \<noteq> LS_Invalid"
  by (simp add: state_of_def cast_enum_def all_states_def word_unat_eq_iff word_less_nat_alt)

lemma yields_u64s: "yields (p_u64s i n) (\<lambda>vs. length vs = n)"
  unfolding p_u64s_def by (rule yields_mono [OF yields_many [OF yields_any]]) simp

lemma yields_pblob: "yields (p_blob i n) (\<lambda>bs. length bs = n)"
  unfolding p_blob_def by (rule yields_blob)

lemmas yields_body = yields_u64s [THEN yields_bind] yields_pblob [THEN yields_bind]
  yields_bind_any [where m = "p_u8 i" for i] yields_bind_any [where m = "p_u16 i" for i]
  yields_bind_any [where m = "p_u32 i" for i] yields_bind_any [where m = "p_u64 i" for i]
  yields_bind_any [where m = "p_flag i" for i] yields_bind_any [where m = "p_done i" for i]
  yields_require yields_return

lemma yields_profile: "yields (decode_profile i) storable_profile"
  unfolding decode_profile_def
  by (intro yields_body)
     (auto simp: storable_profile_def profile_entry_wf_def bytes_string_def word_less_nat_alt)

lemma yields_policy: "yields (decode_policy i) storable_policy"
  unfolding decode_policy_def
  by (intro yields_body) (auto simp: storable_policy_def policy_entry_wf_def word_less_nat_alt)

lemma yields_history: "yields (decode_history i) storable_history"
  unfolding decode_history_def
  by (intro yields_body) (use state_of_valid in \<open>auto simp: storable_history_def\<close>)

lemma yields_attempt: "yields (decode_attempt i) (\<lambda>r. valid (dar_attempt r))"
  unfolding decode_attempt_def by (intro yields_body) auto

lemma yields_publisher: "yields (decode_publisher i) storable_publisher"
  unfolding decode_publisher_def by (intro yields_body) (auto simp: storable_publisher_def)

lemma yields_segment: "yields (decode_segment i limits) (storable_segment limits)"
  unfolding decode_segment_def
  by (intro yields_body)
     (use kind_of_valid encoding_of_valid unsigned_less [where ?'a = nat and 'b = 16] in
       \<open>auto simp: storable_segment_def not_less less_Suc_eq_le [symmetric]\<close>)

lemma ucast_u16_width:
  fixes w :: u16
  shows "unat (ucast w :: u32) = unat w" and "(ucast w :: u32) = 0 \<longleftrightarrow> w = 0" and "unat w \<le> 65535"
proof -
  have w: "unat w < 65536" using unsigned_less [of w, where ?'a = nat] by simp
  then show u: "unat (ucast w :: u32) = unat w" by (simp add: unsigned_ucast_eq take_bit_nat_eq_self)
  show "(ucast w :: u32) = 0 \<longleftrightarrow> w = 0" using u by (simp add: word_unat_eq_iff)
  show "unat w \<le> 65535" using w by simp
qed

lemma yields_list:
  "yields (decode_list i limits profiles) (\<lambda>l. \<exists>width. storable_list limits profiles width l)"
  unfolding decode_list_def Let_def
  apply (intro yields_body yields_many [OF yields_segment, THEN yields_bind])
  subgoal for ids strictness width refs state currentness marks count segments
    using state_of_valid [of state] ucast_u16_width [of width]
    by (intro exI [of _ "ucast width"])
       (auto simp: storable_list_def Let_def list_all_iff word_less_nat_alt word_le_nat_alt not_less)
  done

definition decoded_ok :: "Limits \<Rightarrow> DurableState \<Rightarrow> bool" where
  "decoded_ok limits st \<longleftrightarrow>
     distinct (map pf_id (ds_profiles st)) \<and> distinct (map po_id (ds_policies st)) \<and>
     distinct (map sl_id (ds_lists st)) \<and>
     (\<forall>p \<in> set (ds_profiles st). storable_profile p) \<and> (\<forall>q \<in> set (ds_policies st). storable_policy q) \<and>
     (\<forall>l \<in> set (ds_lists st). \<exists>width. storable_list limits (ds_profiles st) width l) \<and>
     (\<forall>e \<in> set (ds_history st). storable_history e) \<and>
     (\<forall>r \<in> set (ds_attempts st). valid (dar_attempt r)) \<and>
     (\<forall>p \<in> set (ds_publishers st). storable_publisher p) \<and>
     (\<forall>b \<in> set (ds_fenced_boots st). valid b)"

lemma run_record_yields:
  "run_record m i body result = (Some x, result') \<Longrightarrow> yields m P \<Longrightarrow> P x"
  by (auto simp: run_record_def yields_def split: prod.splits option.splits if_splits)

lemma storable_list_more:
  "storable_list limits profiles width l \<Longrightarrow> set profiles \<subseteq> set profiles' \<Longrightarrow>
     storable_list limits profiles' width l"
  by (auto simp: storable_list_def Let_def)

lemma decoded_ok_extend:
  assumes "decoded_ok limits st"
  shows "decoded_ok limits (st\<lparr>ds_epoch := e, ds_revision := v\<rparr>)"
    and "storable_profile p \<Longrightarrow> pf_id p \<notin> pf_id ` set (ds_profiles st) \<Longrightarrow>
      decoded_ok limits (st\<lparr>ds_profiles := ds_profiles st @ [p]\<rparr>)"
    and "storable_policy q \<Longrightarrow> po_id q \<notin> po_id ` set (ds_policies st) \<Longrightarrow>
      decoded_ok limits (st\<lparr>ds_policies := ds_policies st @ [q]\<rparr>)"
    and "\<exists>width. storable_list limits (ds_profiles st) width l \<Longrightarrow> sl_id l \<notin> sl_id ` set (ds_lists st) \<Longrightarrow>
      decoded_ok limits (st\<lparr>ds_lists := ds_lists st @ [l]\<rparr>)"
    and "storable_history h \<Longrightarrow> decoded_ok limits (st\<lparr>ds_history := ds_history st @ [h]\<rparr>)"
    and "valid (dar_attempt r) \<Longrightarrow> decoded_ok limits (st\<lparr>ds_attempts := ds_attempts st @ [r]\<rparr>)"
    and "storable_publisher u \<Longrightarrow> decoded_ok limits (st\<lparr>ds_publishers := ds_publishers st @ [u]\<rparr>)"
    and "valid b \<Longrightarrow> decoded_ok limits (st\<lparr>ds_fenced_boots := ds_fenced_boots st @ [b]\<rparr>)"
proof -
  show "decoded_ok limits (st\<lparr>ds_profiles := ds_profiles st @ [p]\<rparr>)"
    if "storable_profile p" "pf_id p \<notin> pf_id ` set (ds_profiles st)"
    using assms that storable_list_more [of limits "ds_profiles st" _ _ "ds_profiles st @ [p]"]
    by (simp add: decoded_ok_def) blast
qed (use assms in \<open>simp_all add: decoded_ok_def\<close>)

lemma decode_record_ok:
  assumes "decode_record limits i raw body st result = (Some st', result')" and "decoded_ok limits st"
  shows "decoded_ok limits st'"
  using assms(1)
  by (auto simp: decode_record_def add_record_def Let_def
      intro!: decoded_ok_extend [OF assms(2)]
      dest: run_record_yields [OF _ yields_profile] run_record_yields [OF _ yields_policy]
        run_record_yields [OF _ yields_list] run_record_yields [OF _ yields_history]
        run_record_yields [OF _ yields_attempt] run_record_yields [OF _ yields_publisher]
      split: if_splits prod.splits option.splits)

lemma decode_records_ok:
  assumes "decode_records limits i bytes st result = (Some (n, st'), result')" and "decoded_ok limits st"
  shows "decoded_ok limits st'"
  using assms
proof (induction limits i bytes st result rule: decode_records.induct)
  case (1 limits i bytes st result)
  show ?case
  proof (cases "bytes = []")
    case True
    then show ?thesis using "1.prems" by (simp add: decode_records_Nil)
  next
    case False
    from "1.prems"(1) False obtain raw body others r1 st1 r2 where
      n: "next_record limits i bytes result = (Some (raw, body, others), r1)" and
      d: "decode_record limits i raw body st r1 = (Some st1, r2)" and
      t: "decode_records limits (i + 1) others st1 r2 = (Some (n, st'), result')"
      by (subst (asm) decode_records.simps) (auto split: prod.splits option.splits)
    show ?thesis
      using "1.IH" [OF False n [symmetric] refl refl refl d [symmetric] refl t]
        decode_record_ok [OF d "1.prems"(2)] by simp
  qed
qed

lemma decoded_ok_blank: "decoded_ok limits (blank_state v)"
  by (simp add: decoded_ok_def blank_state_def initial_state_def)

lemma accepted_ok:
  assumes "decode_durable_state bytes limits result = (Some st, result')"
  shows "decoded_ok limits st" and "within_counts limits st"
proof -
  obtain rs count where "decode_records limits 0 rs (blank_state kPersistenceFormatVersion)
      (set_limits (Some limits) result) = (Some (count, st), result')" "within_counts limits st"
    using accepted_framed [OF assms] by metis
  then show "decoded_ok limits st" "within_counts limits st"
    using decode_records_ok decoded_ok_blank by blast+
qed

section \<open>Refusals are explained\<close>

lemma explains_fields:
  "explains (p_u8 i)" "explains (p_u16 i)" "explains (p_u32 i)" "explains (p_u64 i)"
  "explains (p_u64s i n)" "explains (p_blob i n)" "explains (p_done i)" "explains (p_flag i)"
  by (simp_all add: p_u8_def p_u16_def p_u32_def p_u64_def p_u64s_def p_blob_def p_done_def p_flag_def
      explains_read explains_blob explains_end explains_many explains_bind explains_require explains_return)

lemmas explains_body = explains_bind explains_require explains_return explains_fields explains_many

lemma explains_segment: "explains (decode_segment i limits)"
  unfolding decode_segment_def by (intro explains_body) simp_all

lemma explains_records:
  "explains (decode_profile i)" "explains (decode_policy i)" "explains (decode_list i limits profiles)"
  "explains (decode_history i)" "explains (decode_attempt i)" "explains (decode_publisher i)"
  "explains (decode_meta i)" "explains (decode_boot i)"
  unfolding decode_profile_def decode_policy_def decode_list_def decode_history_def
    decode_attempt_def decode_publisher_def decode_meta_def decode_boot_def Let_def
  by (intro explains_body explains_segment; simp)+

text \<open>A step on a result keeps its bound and, when it fails, leaves a reason.\<close>

definition accounts :: "('a option \<times> ValidationResult) \<Rightarrow> ValidationResult \<Rightarrow> bool" where
  "accounts out result \<longleftrightarrow> vr_limits (snd out) = vr_limits result \<and>
     (fst out = None \<longrightarrow> 0 < vr_cap result \<longrightarrow> \<not> vr_ok (snd out))"

lemma same_cap: "vr_limits v = vr_limits w \<Longrightarrow> vr_cap v = vr_cap w"
  by (simp add: vr_cap_def)

lemma accounts_fail: "code \<noteq> RC_Ok \<Longrightarrow> accounts (None, vr_add code i e result) result"
  by (simp add: accounts_def vr_add_not_ok)

lemma accounts_run: "explains m \<Longrightarrow> accounts (run_record m i body result) result"
proof -
  assume e: "explains m"
  obtain x d where m: "m \<lparr>dc_reader = byte_reader body, dc_result = result\<rparr> = (x, d)" by fastforce
  with e have "vr_limits (dc_result d) = vr_limits result"
    "x = None \<longrightarrow> 0 < vr_cap result \<longrightarrow> \<not> vr_ok (dc_result d)"
    by (fastforce simp: explains_def)+
  with m show ?thesis by (cases x) (auto simp: accounts_def run_record_def)
qed

lemma accounts_add:
  "accounts r result \<Longrightarrow> (\<exists>x st. bad x st) \<longrightarrow> code \<noteq> RC_Ok \<Longrightarrow>
     accounts (add_record bad detail code add i st r) result"
  by (cases r; cases "fst r") (auto simp: accounts_def add_record_def vr_add_not_ok dest: same_cap)

lemma accounts_record: "accounts (decode_record limits i raw body st result) result"
  unfolding decode_record_def Let_def
  by (auto intro!: accounts_add accounts_run explains_records accounts_fail)

lemma accounts_next: "accounts (next_record limits i bytes result) result"
  by (auto simp: next_record_def accounts_def vr_add_not_ok split: prod.splits option.splits)

lemma accounts_counts: "accounts (check_counts limits st result) result"
  by (auto simp: check_counts_def Let_def accounts_def vr_add_not_ok)

lemma accounts_records: "accounts (decode_records limits i bytes st result) result"
proof (induction limits i bytes st result rule: decode_records.induct)
  case (1 limits i bytes st result)
  have n: "accounts (next_record limits i bytes result) result" by (rule accounts_next)
  show ?case
  proof (cases "bytes = []")
    case True
    then show ?thesis by (simp add: decode_records_Nil accounts_def)
  next
    case False
    show ?thesis
    proof (cases "next_record limits i bytes result")
      case nr: (Pair nx r1)
      show ?thesis
      proof (cases nx)
        case None
        with nr n False show ?thesis by (subst decode_records.simps) (simp add: accounts_def)
      next
        case (Some q)
        then obtain raw body others where q: "nx = Some (raw, body, others)" by (cases q) auto
        obtain x r2 where d: "decode_record limits i raw body st r1 = (x, r2)" by fastforce
        have a: "accounts (x, r2) r1" using accounts_record [of limits i raw body st r1] d by simp
        show ?thesis
        proof (cases x)
          case None
          with nr n q d a False show ?thesis
            by (subst decode_records.simps) (simp add: accounts_def vr_cap_def)
        next
          case (Some st1)
          note IH = "1.IH" [OF False nr [symmetric] q refl refl d [symmetric] Some]
          with nr n q d a False Some show ?thesis
            by (subst decode_records.simps) (simp add: accounts_def vr_cap_def)
        qed
      qed
    qed
  qed
qed

lemma accounts_decode: "accounts (decode_durable_state bytes limits result) (set_limits (Some limits) result)"
proof -
  let ?r = "set_limits (Some limits) result"
  have rec: "accounts (case decode_records limits 0 rs st ?r of
        (None, result) \<Rightarrow> (None, result)
      | (Some (parsed, st), result) \<Rightarrow>
          if parsed \<noteq> count then (None, vr_add RC_PersistCountMismatch 0 (ucast count) result)
          else check_counts limits st result) ?r" for rs st count
    using accounts_records [of limits 0 rs st ?r] accounts_counts
    by (auto simp: accounts_def vr_add_not_ok dest: same_cap split: prod.splits option.splits)
  have trailer: "accounts (case x of (None, q) \<Rightarrow> (None, vr_add RC_PersistTruncated 0 0 ?r)
      | (Some crc, q) \<Rightarrow> f crc) ?r" if "\<And>crc. accounts (f crc) ?r"
    for x :: "u32 option \<times> ByteReader" and f :: "u32 \<Rightarrow> DurableState option \<times> ValidationResult"
    using that by (cases x; cases "fst x") (auto intro: accounts_fail)
  have branch: "accounts (if b then x else y) ?r"
    if "accounts x ?r" "accounts y ?r" for b and x y :: "DurableState option \<times> ValidationResult"
    using that by simp
  show ?thesis
    unfolding decode_durable_state_def Let_def
    by (cases "decode_header bytes")
       (simp_all only: option.case split_paired_all prod.case,
        (intro branch trailer rec accounts_fail; simp)+)
qed

end
