(* ===== verification/PersistBackends.thy ===== *)
theory PersistBackends
  imports PersistSafety StoreRuns
begin

text \<open>
  The two implementations of \<^verbatim>\<open>IPersistence\<close> in \<^verbatim>\<open>persistence.cpp\<close>. \<^verbatim>\<open>MemoryPersistence\<close> keeps the encoded
  image with fault injection. \<^verbatim>\<open>FilePersistence\<close> writes a temporary file and renames it; the outcomes
  of the operating-system calls it makes are inputs of the model, and its effect on the disk is a
  sequence of elementary steps so that an interruption between any two of them can be stated. Both
  satisfy the contract the store relies on.
\<close>

section \<open>Memory\<close>

record MemoryPersistence =
  mp_bytes :: ByteBuffer
  mp_save_count :: u64
  mp_fail_next :: bool

definition new_memory :: MemoryPersistence where
  "new_memory = \<lparr>mp_bytes = [], mp_save_count = 0, mp_fail_next = False\<rparr>"

definition memory_save ::
  "DurableState \<Rightarrow> Limits \<Rightarrow> ValidationResult \<Rightarrow> MemoryPersistence \<Rightarrow>
   bool \<times> ValidationResult \<times> MemoryPersistence" where
  "memory_save st limits out m =
     (let out = set_limits (Some limits) out; m = m\<lparr>mp_save_count := mp_save_count m + 1\<rparr> in
      if mp_fail_next m
      then (False, vr_add RC_CommitPersistenceFailure 0 0 out, m\<lparr>mp_fail_next := False\<rparr>)
      else
        (let (bytes, out) = encode_durable_state st limits out in
         if vr_failed out \<or> bytes = []
         then (False, if vr_ok out then vr_add RC_PersistBadRecord 0 0 out else out, m)
         else (True, out, m\<lparr>mp_bytes := bytes\<rparr>)))"

text \<open>The common end of both \<^verbatim>\<open>load\<close> methods: decode the bytes and fill the report.\<close>

definition load_bytes :: "ByteBuffer \<Rightarrow> LoadReport \<Rightarrow> Limits \<Rightarrow> bool \<times> LoadReport" where
  "load_bytes bytes report limits =
     (case decode_durable_state bytes limits (lr_result report) of
        (None, res) \<Rightarrow> (False, report\<lparr>lr_result := res, lr_loaded := False\<rparr>)
      | (Some st, res) \<Rightarrow>
          (True, report\<lparr>lr_result := res, lr_loaded := True, lr_empty := False, lr_state := st,
             lr_lists_recovered := length (ds_lists st), lr_history_entries := length (ds_history st)\<rparr>))"

definition memory_load ::
  "LoadReport \<Rightarrow> Limits \<Rightarrow> MemoryPersistence \<Rightarrow> bool \<times> LoadReport \<times> MemoryPersistence" where
  "memory_load report limits m =
     (let report = report\<lparr>lr_result := set_limits (Some limits) (lr_result report)\<rparr> in
      if mp_bytes m = [] then (True, report\<lparr>lr_empty := True, lr_loaded := False\<rparr>, m)
      else (let (ok, report) = load_bytes (mp_bytes m) report limits in (ok, report, m)))"

definition memory_erase :: "MemoryPersistence \<Rightarrow> bool \<times> MemoryPersistence" where
  "memory_erase m = (True, m\<lparr>mp_bytes := []\<rparr>)"

definition fail_next_save :: "MemoryPersistence \<Rightarrow> MemoryPersistence" where
  "fail_next_save m = m\<lparr>mp_fail_next := True\<rparr>"

definition corrupt_byte :: "nat \<Rightarrow> u8 \<Rightarrow> MemoryPersistence \<Rightarrow> bool \<times> MemoryPersistence" where
  "corrupt_byte offset xor_mask m =
     (if offset \<ge> length (mp_bytes m) then (False, m)
      else (True, m\<lparr>mp_bytes := (mp_bytes m)[offset := mp_bytes m ! offset XOR xor_mask]\<rparr>))"

definition set_bytes :: "ByteBuffer \<Rightarrow> MemoryPersistence \<Rightarrow> MemoryPersistence" where
  "set_bytes bytes m = m\<lparr>mp_bytes := bytes\<rparr>"

definition memory_persistence :: "MemoryPersistence IPersistence" where
  "memory_persistence = \<lparr>ip_save = memory_save, ip_load = memory_load\<rparr>"

section \<open>Files\<close>

text \<open>
  The outcomes of the library calls of one \<^verbatim>\<open>save\<close>, \<^verbatim>\<open>load\<close> or \<^verbatim>\<open>erase\<close>: an error code (zero when there
  is none), or whether the call failed. A failed write may have put any prefix of the data in the
  file. \<^verbatim>\<open>std::filesystem::exists\<close> answers false when it cannot tell.
\<close>

record FileOutcome =
  fo_create_directories :: u64
  fo_open_temp :: bool
  fo_write :: "nat option"
  fo_rename :: u64
  fo_remove :: bool
  fo_exists :: bool
  fo_open :: bool
  fo_tell :: bool
  fo_read :: bool

definition no_fault :: FileOutcome where
  "no_fault = \<lparr>fo_create_directories = 0, fo_open_temp = True, fo_write = None, fo_rename = 0,
     fo_remove = True, fo_exists = True, fo_open = True, fo_tell = True, fo_read = True\<rparr>"

text \<open>The object: whether the path has a parent, the two files, and the outcomes still to come.\<close>

record FilePersistence =
  fp_parent :: bool
  fp_file :: "ByteBuffer option"
  fp_temp :: "ByteBuffer option"
  fp_outcomes :: "FileOutcome list"

definition next_outcome :: "FilePersistence \<Rightarrow> FileOutcome \<times> FilePersistence" where
  "next_outcome f =
     (case fp_outcomes f of
        [] \<Rightarrow> (no_fault, f)
      | o' # os \<Rightarrow> (o', f\<lparr>fp_outcomes := os\<rparr>))"

datatype DiskStep = CreateTemp | AppendTemp u8 | RenameTemp | RemoveTemp | RemoveFile

primrec disk_step :: "DiskStep \<Rightarrow> FilePersistence \<Rightarrow> FilePersistence" where
  "disk_step CreateTemp f = f\<lparr>fp_temp := Some []\<rparr>"
| "disk_step (AppendTemp b) f = f\<lparr>fp_temp := map_option (\<lambda>bs. bs @ [b]) (fp_temp f)\<rparr>"
| "disk_step RenameTemp f = f\<lparr>fp_file := fp_temp f, fp_temp := None\<rparr>"
| "disk_step RemoveTemp f = f\<lparr>fp_temp := None\<rparr>"
| "disk_step RemoveFile f = f\<lparr>fp_file := None\<rparr>"

text \<open>
  What a \<^verbatim>\<open>save\<close> of these bytes does to the disk, and the detail of the I/O error it reports, if
  any.
\<close>

definition save_steps :: "bool \<Rightarrow> FileOutcome \<Rightarrow> ByteBuffer \<Rightarrow> DiskStep list \<times> u64 option" where
  "save_steps parent oc bytes =
     (let cleanup = (if fo_remove oc then [RemoveTemp] else []) in
      if parent \<and> fo_create_directories oc \<noteq> 0 then ([], Some (fo_create_directories oc))
      else if \<not> fo_open_temp oc then ([], Some 0)
      else
        (case fo_write oc of
           Some n \<Rightarrow> (CreateTemp # map AppendTemp (take n bytes) @ cleanup, Some 0)
         | None \<Rightarrow>
             if fo_rename oc \<noteq> 0
             then (CreateTemp # map AppendTemp bytes @ cleanup, Some (fo_rename oc))
             else (CreateTemp # map AppendTemp bytes @ [RenameTemp], None)))"

definition file_save ::
  "DurableState \<Rightarrow> Limits \<Rightarrow> ValidationResult \<Rightarrow> FilePersistence \<Rightarrow>
   bool \<times> ValidationResult \<times> FilePersistence" where
  "file_save st limits out f =
     (let out = set_limits (Some limits) out; (bytes, out) = encode_durable_state st limits out in
      if vr_failed out \<or> bytes = []
      then (False, if vr_ok out then vr_add RC_PersistBadRecord 0 0 out else out, f)
      else
        (let (oc, f) = next_outcome f; (steps, err) = save_steps (fp_parent f) oc bytes;
             f = fold disk_step steps f
         in case err of
              None \<Rightarrow> (True, out, f)
            | Some detail \<Rightarrow> (False, vr_add RC_PersistIoError 0 detail out, f)))"

definition file_load ::
  "LoadReport \<Rightarrow> Limits \<Rightarrow> FilePersistence \<Rightarrow> bool \<times> LoadReport \<times> FilePersistence" where
  "file_load report limits f =
     (let report = report\<lparr>lr_result := set_limits (Some limits) (lr_result report)\<rparr>;
          (oc, f) = next_outcome f;
          io_error = (False, report\<lparr>lr_result := vr_add RC_PersistIoError 0 0 (lr_result report)\<rparr>, f)
      in
      case (if fo_exists oc then fp_file f else None) of
        None \<Rightarrow> (True, report\<lparr>lr_empty := True, lr_loaded := False\<rparr>, f)
      | Some bytes \<Rightarrow>
          if \<not> fo_open oc then io_error
          else if \<not> fo_tell oc then io_error
          else if bytes \<noteq> [] \<and> \<not> fo_read oc then io_error
          else (let (ok, report) = load_bytes bytes report limits in (ok, report, f)))"

text \<open>\<^verbatim>\<open>std::filesystem::remove\<close> of a file that is not there is not an error.\<close>

definition file_erase :: "FilePersistence \<Rightarrow> bool \<times> FilePersistence" where
  "file_erase f =
     (let (oc, f) = next_outcome f in
      if fo_remove oc then (True, disk_step RemoveFile f) else (False, f))"

definition file_persistence :: "FilePersistence IPersistence" where
  "file_persistence = \<lparr>ip_save = file_save, ip_load = file_load\<rparr>"

section \<open>What the backends store\<close>

lemma emit_failed: "en_failed enc \<Longrightarrow> fold (\<lambda>(t, body). emit_record limits t body) rs enc = enc"
  by (induction rs) (auto simp: emit_record_def)

lemma emit_oversized:
  "\<not> list_all (fits_record limits) rs \<Longrightarrow>
     en_failed (fold (\<lambda>(t, body). emit_record limits t body) rs enc)"
proof (induction rs arbitrary: enc)
  case (Cons r rs)
  obtain t body where r: "r = (t, body)" by fastforce
  show ?case
  proof (cases "fits_record limits r")
    case True
    with Cons show ?thesis by simp
  next
    case False
    then have "en_failed (emit_record limits t body enc)"
      using r by (auto simp: emit_record_def fits_record_def)
    then show ?thesis using r by (simp add: emit_failed)
  qed
qed simp

lemma encode_oversized:
  "\<not> list_all (fits_record limits) (state_records st) \<Longrightarrow> fst (encode_durable_state st limits r) = []"
  using emit_oversized by (fastforce simp: encode_durable_state_def Let_def)

lemma durable_image_nonempty [simp]: "durable_image st \<noteq> []"
  by (simp add: durable_image_def Let_def)

lemma encode_nonempty:
  assumes "encode_durable_state st limits r = (bytes, r')" and "bytes \<noteq> []"
  shows "bytes = durable_image st \<and> r' = set_limits (Some limits) r"
proof (cases "list_all (fits_record limits) (state_records st)")
  case True
  then show ?thesis using assms by (simp add: encode_fitting)
next
  case False
  then show ?thesis using assms encode_oversized [of limits st r] by simp
qed

lemma memory_saved:
  "memory_save st limits out m = (True, out', m') \<Longrightarrow> mp_bytes m' = durable_image st"
  by (auto simp: memory_save_def Let_def dest: encode_nonempty split: if_splits prod.splits)

lemma append_steps:
  "fp_temp f = Some bs \<Longrightarrow> fold disk_step (map AppendTemp cs) f = f\<lparr>fp_temp := Some (bs @ cs)\<rparr>"
  by (induction cs arbitrary: f bs) simp_all

lemma file_saved:
  assumes "file_save st limits out f = (True, out', f')"
  shows "fp_file f' = Some (durable_image st)" and "fp_temp f' = None"
  using assms
  by (auto simp: file_save_def save_steps_def Let_def append_steps dest: encode_nonempty
      split: if_splits prod.splits option.splits)

lemma load_bytes_image:
  "storable limits st \<Longrightarrow> load_bytes (durable_image st) report limits =
     (True, report\<lparr>lr_result := set_limits (Some limits) (lr_result report), lr_loaded := True,
        lr_empty := False, lr_state := st, lr_lists_recovered := length (ds_lists st),
        lr_history_entries := length (ds_history st)\<rparr>)"
  by (simp add: load_bytes_def decode_durable_image)

section \<open>Both keep the store's contract\<close>

lemma accepted_durable_wf:
  "decode_durable_state bytes limits result = (Some st, result') \<Longrightarrow> durable_wf limits st"
  using accepted_ok [of bytes limits result st result']
  by (auto simp: durable_wf_def decoded_ok_def within_counts_def storable_profile_def storable_policy_def)

lemma load_bytes_wf:
  "load_bytes bytes report limits = (True, r) \<Longrightarrow> durable_wf limits (lr_state r)"
  by (auto simp: load_bytes_def dest: accepted_durable_wf split: prod.splits option.splits)

lemma load_bytes_failed: "load_bytes bytes report limits = (False, r) \<Longrightarrow> \<not> lr_loaded r"
  by (auto simp: load_bytes_def split: prod.splits option.splits)

interpretation memory_medium: durable_medium memory_persistence
proof
  show "load_honest memory_persistence"
    by (auto simp: load_honest_def memory_persistence_def memory_load_def Let_def
        dest: load_bytes_failed split: if_splits prod.splits)
  show "durable_wf limits (lr_state r)"
    if "ip_load memory_persistence report limits p = (True, r, p')" "lr_loaded r" for report limits p r p'
    using that by (auto simp: memory_persistence_def memory_load_def Let_def
        dest: load_bytes_wf split: if_splits prod.splits)
qed

interpretation file_medium: durable_medium file_persistence
proof
  show "load_honest file_persistence"
    by (auto simp: load_honest_def file_persistence_def file_load_def Let_def
        dest: load_bytes_failed split: if_splits prod.splits option.splits)
  show "durable_wf limits (lr_state r)"
    if "ip_load file_persistence report limits p = (True, r, p')" "lr_loaded r" for report limits p r p'
    using that by (auto simp: file_persistence_def file_load_def Let_def
        dest: load_bytes_wf split: if_splits prod.splits option.splits)
qed

end
