(* ===== verification/PersistGuarantees.thy ===== *)
theory PersistGuarantees
  imports PersistBackends StoreExamples
begin

text \<open>
  The properties of persistence: the round trip and the integrity of the durable image, the
  atomicity of a file replacement, what a restart recovers, and the invariant of a store on either
  backend.
\<close>

section \<open>An example image\<close>

definition file_store_example :: "FilePersistence Store" where
  "file_store_example = (new_store default_limits (Some (make_synthetic_fabric 2))
     (Some \<lparr>fp_parent = True, fp_file = None, fp_temp = None, fp_outcomes = []\<rparr>))
     \<lparr>st_authority := view_example,
      st_registry := \<lparr>rg_profiles = [abstract_governance_profile], rg_policies = [],
                       rg_revision = 1\<rparr>\<rparr>"

lemma file_store_config [simp]:
  "st_limits file_store_example = default_limits" "index_ok file_store_example"
  "ds_attempts (st_state file_store_example) = []" "ds_lists (st_state file_store_example) = []"
  "ds_history (st_state file_store_example) = []" "find_locked file_store_example i = None"
  "st_persistence file_store_example =
     Some \<lparr>fp_parent = True, fp_file = None, fp_temp = None, fp_outcomes = []\<rparr>"
  "recorded_attempt file_store_example caller = None"
  "st_authority file_store_example = view_example"
  "st_evidence file_store_example = Some (make_synthetic_fabric 2)"
  "st_state file_store_example = initial_state"
  "st_registry file_store_example =
     \<lparr>rg_profiles = [abstract_governance_profile], rg_policies = [], rg_revision = 1\<rparr>"
  by (simp_all add: file_store_example_def new_store_def rebuild_index_def initial_state_def
      index_ok_def build_index_def find_locked_def lower_bound_def recorded_attempt_def
      find_attempt_def)

lemma file_store_ready:
  "ready caller_example (draft_example 0 1) LE_ValidateBegin False True file_store_example"
proof -
  have "vr_ok (draft_result caller_example LE_ValidateBegin False True
     (captured no_interference file_store_example) (draft_example 0 1)
     (resolve file_store_example (draft_example 0 1)))"
    by code_simp
  then show ?thesis
    using example_evidence_count
    by (simp add: ready_def evidence_fits_def room_for_def attempt_table_accepts_def
        default_limits_def count_segments_def draft_example_def empty_draft_def initial_state_def)
qed

definition restart_list :: SegmentList where
  "restart_list = committed_list no_interference caller_example (draft_example 0 1) file_store_example"

lemma restart_list_fields:
  "lc_id (sl_content restart_list) = 11" "lc_profile (sl_content restart_list) = 65537"
  "lc_segments (sl_content restart_list) = [(fabric_segment_example 1)\<lparr>seg_encoding := SE_AbstractNodeV1\<rparr>]"
  "sl_state restart_list = LS_Active" "sl_generation restart_list = 1" "sl_currentness restart_list = Cu_Current"
  "sl_sequence_digest restart_list = sequence_digest (lc_segments (sl_content restart_list)) 4"
  "sl_content_digest restart_list = content_digest (sl_content restart_list) 4"
  by (simp_all add: restart_list_def committed_list_def make_list_def make_content_def Let_def
      draft_example_def empty_draft_def resolve_def canonicalize_segments_def canonicalize_segment_def
      find_profile_def abstract_governance_profile_def new_revision_active initial_generation_def
      fabric_segment_example_def)

definition restart_image :: DurableState where
  "restart_image = \<lparr>ds_format_version = kPersistenceFormatVersion, ds_epoch = 1, ds_revision = 1,
     ds_profiles = [abstract_governance_profile], ds_policies = [], ds_lists = [restart_list],
     ds_history = [\<lparr>dhe_id = 1, dhe_list = 11, dhe_generation = 1, dhe_state = LS_Active,
       dhe_currentness = Cu_Current, dhe_digest = sl_content_digest restart_list, dhe_revision = 2\<rparr>],
     ds_attempts = [\<lparr>dar_attempt = 900, dar_list = 11,
       dar_payload = batch_payload_digest [draft_example 0 1], dar_generation = 1,
       dar_committed = True\<rparr>],
     ds_publishers = [publisher_example], ds_fenced_boots = [69]\<rparr>"

lemma restart_batch_image:
  "batch_image caller_example [draft_example 0 1] (captured no_interference file_store_example)
     [prepared_mutation caller_example (captured no_interference file_store_example) (draft_example 0 1)
       (resolve file_store_example (draft_example 0 1))] file_store_example = Inr restart_image"
proof -
  have pm: "pm_list (prepared_mutation caller_example (captured no_interference file_store_example)
      (draft_example 0 1) (resolve file_store_example (draft_example 0 1))) = restart_list"
    using prepared_single(2) [of caller_example no_interference file_store_example "draft_example 0 1"]
    by (simp add: restart_list_def)
  have flags: "\<not> pm_has_superseded (prepared_mutation caller_example (captured no_interference file_store_example)
      (draft_example 0 1) (resolve file_store_example (draft_example 0 1)))"
    "pm_id (prepared_mutation caller_example (captured no_interference file_store_example)
      (draft_example 0 1) (resolve file_store_example (draft_example 0 1))) = 11"
    by (simp_all add: prepared_mutation_def resolve_def draft_example_def empty_draft_def)
  show ?thesis
    using pm flags
    by (simp add: batch_image_def supersede_slot_def commit_slot_def find_in_state_def
        append_history_def next_history_id_def record_attempt_def capture_tables_def Let_def
        initial_state_def restart_image_def caller_example_def view_example_def valid_def
        restart_list_fields default_limits_def)
qed

lemma restart_width: "list_width restart_image (sl_content restart_list) = 4"
  by (simp add: list_width_def bound_payload_width_def restart_image_def restart_list_fields
      abstract_governance_profile_def)

lemma restart_image_fields:
  "ds_format_version restart_image = kPersistenceFormatVersion"
  "ds_profiles restart_image = [abstract_governance_profile]" "ds_policies restart_image = []"
  "ds_lists restart_image = [restart_list]" "ds_publishers restart_image = [publisher_example]"
  "ds_fenced_boots restart_image = [69]" "length (ds_history restart_image) = 1"
  "length (ds_attempts restart_image) = 1" "list_all storable_history (ds_history restart_image)"
  "list_all (\<lambda>r. valid (dar_attempt r)) (ds_attempts restart_image)" "ds_epoch restart_image = 1"
  by (simp_all add: restart_image_def storable_history_def valid_def)

lemma restart_list_storable: "storable_list default_limits [abstract_governance_profile] 4 restart_list"
  by (simp add: storable_list_def Let_def restart_list_fields default_limits_def storable_segment_def
      fabric_segment_example_def valid_def abstract_governance_profile_def)

lemma restart_records:
  "map (\<lambda>(t, b). (t, length b)) (state_records restart_image) =
     [(RT_Meta, 16), (RT_Profile, 73), (RT_List, 400), (RT_History, 50), (RT_Attempt, 41),
      (RT_Publisher, 34), (RT_FencedBoot, 8)]"
  unfolding state_records_def restart_width restart_image_fields
  by (simp add: restart_image_def meta_body_def profile_body_def list_body_def history_body_def
      attempt_body_def publisher_body_def abstract_governance_profile_def Let_def restart_list_fields
      durable_segment_bytes_def fabric_segment_example_def publisher_example_def restart_width)

lemma restart_storable: "storable default_limits restart_image"
proof -
  have n: "length (state_records restart_image) = 7"
    using arg_cong [OF restart_records, of length] by simp
  have sizes: "map (length \<circ> snd) (state_records restart_image) = [16, 73, 400, 50, 41, 34, 8]"
    using arg_cong [OF restart_records, of "map snd"] by (simp add: comp_def case_prod_unfold)
  have "\<forall>r \<in> set (state_records restart_image).
      length (snd r) \<in> set (map (length \<circ> snd) (state_records restart_image))"
    by simp
  then have small: "list_all (fits_record default_limits) (state_records restart_image)"
    unfolding sizes by (auto simp: list_all_iff fits_record_def default_limits_def)
  have "length (records_bytes (state_records restart_image)) =
      sum_list (map (\<lambda>r. 6 + (length \<circ> snd) r) (state_records restart_image))"
    by (simp add: records_bytes_def length_concat comp_def case_prod_unfold record_bytes_def)
  also have "\<dots> = sum_list (map ((+) 6) (map (length \<circ> snd) (state_records restart_image)))"
    by (simp add: comp_def)
  also have "\<dots> = 664" unfolding sizes by simp
  finally have len: "length (records_bytes (state_records restart_image)) = 664" .
  have "storable_profile abstract_governance_profile"
    by (simp add: storable_profile_def profile_entry_wf_def abstract_governance_profile_def valid_def)
  moreover have "storable_publisher publisher_example"
    by (simp add: storable_publisher_def publisher_example_def valid_def)
  moreover have "within_counts default_limits restart_image"
    by (simp add: within_counts_def restart_image_fields default_limits_def)
  moreover have "valid (69 :: u64)" "plausible_records default_limits = 8801"
    by (simp_all add: valid_def plausible_records_def default_limits_def)
  ultimately show ?thesis
    using restart_list_storable n small len
    by (simp add: storable_def restart_image_fields restart_width)
qed

section \<open>The image\<close>

text \<open>
  C7: the durable image round trip. A state whose entries are within the bounds of the format is
  encoded without a reason, and decoding the bytes returns exactly that state: every field of every
  profile, policy, list, history entry, attempt, publisher and fenced boot, in the same order.
\<close>

theorem durable_image_roundtrip:
  assumes "storable limits st"
  shows "\<exists>bytes. encode_durable_state st limits result = (bytes, set_limits (Some limits) result) \<and>
    decode_durable_state bytes limits result' = (Some st, set_limits (Some limits) result')"
proof -
  have "list_all (fits_record limits) (state_records st)" using assms by (simp add: storable_def)
  then show ?thesis using encode_fitting decode_durable_image [OF assms] by blast
qed

theorem durable_image_roundtrip_witness:
  "\<exists>bytes. encode_durable_state restart_image default_limits vr_success =
      (bytes, set_limits (Some default_limits) vr_success) \<and>
    decode_durable_state bytes default_limits vr_success =
      (Some restart_image, set_limits (Some default_limits) vr_success)"
  by (rule durable_image_roundtrip) (rule restart_storable)

text \<open>
  C8: corruption of one byte never loads. When an image loads, flipping any bits of any one of its
  bytes (\<^verbatim>\<open>corrupt_byte\<close> with a non-zero mask) makes every later load of it fail, whatever limits and
  report it is loaded with, and the failure carries a reason.
\<close>

theorem corruption_never_loads:
  assumes "memory_load report limits m = (True, r, m')" and "lr_loaded r"
    and "corrupt_byte offset flips m = (True, c)" and "flips \<noteq> 0" and "0 < max_reasons limits'"
  shows "\<exists>r' c'. memory_load report' limits' c = (False, r', c') \<and> \<not> lr_loaded r' \<and> \<not> vr_ok (lr_result r')"
proof -
  let ?b = "mp_bytes m ! offset XOR flips"
  have c: "offset < length (mp_bytes m)" "mp_bytes c = (mp_bytes m)[offset := ?b]"
    using assms(3) by (auto simp: corrupt_byte_def split: if_splits)
  obtain st res where "decode_durable_state (mp_bytes m) limits
      (set_limits (Some limits) (lr_result report)) = (Some st, res)"
    using assms(1,2) c(1)
    by (auto simp: memory_load_def load_bytes_def Let_def split: if_splits prod.splits option.splits)
  moreover have "?b \<noteq> mp_bytes m ! offset"
    using assms(4) by (metis xor_left_cancel xor.right_neutral)
  ultimately have none: "fst (decode_durable_state (mp_bytes c) limits' v) = None" for v
    using corrupted_refused c by metis
  let ?v = "set_limits (Some limits') (lr_result report')"
  obtain v' where v': "decode_durable_state (mp_bytes c) limits' ?v = (None, v')"
    using none [of ?v] by (metis prod.collapse)
  then have "\<not> vr_ok v'"
    using accounts_decode [of "mp_bytes c" limits' ?v] assms(5)
    by (simp add: accounts_def vr_cap_def set_limits_def word_less_nat_alt)
  with v' c show ?thesis by (auto simp: memory_load_def load_bytes_def Let_def)
qed

theorem corruption_never_loads_witness:
  "\<exists>r' c'. memory_load empty_report default_limits
       (snd (corrupt_byte 100 1 (set_bytes (durable_image restart_image) new_memory))) = (False, r', c') \<and>
     \<not> vr_ok (lr_result r')"
proof -
  let ?m = "set_bytes (durable_image restart_image) new_memory"
  obtain r m' where l: "memory_load empty_report default_limits ?m = (True, r, m')" "lr_loaded r"
    by (simp add: memory_load_def load_bytes_image [OF restart_storable] set_bytes_def Let_def)
  have "100 < length (durable_image restart_image)"
    using arg_cong [OF restart_records, of "sum_list \<circ> map snd"]
    by (simp add: durable_image_def Let_def records_bytes_def length_concat comp_def case_prod_unfold
        record_bytes_def sum_list_addf)
  then have "corrupt_byte 100 1 ?m = (True, snd (corrupt_byte 100 1 ?m))"
    by (simp add: corrupt_byte_def set_bytes_def)
  from corruption_never_loads [OF l this, of default_limits empty_report] show ?thesis
    by (auto simp: default_limits_def)
qed

text \<open>
  C9: whatever bytes are accepted, the state they decode to is well formed: profile, policy and list
  identities are unique, every entry is one the format allows, every list refers only to a profile of
  the image, has a known state, a valid generation, valid segments within the configured depth and
  payload bounds, and carries exactly the digests of its own content; and no table is larger than
  its configured bound.
\<close>

theorem accepted_image_well_formed:
  assumes "decode_durable_state bytes limits result = (Some st, result')"
  shows "decoded_ok limits st \<and> within_counts limits st"
  using accepted_ok [OF assms] by simp

theorem accepted_image_well_formed_witness:
  "decoded_ok default_limits restart_image \<and> within_counts default_limits restart_image"
  by (rule accepted_image_well_formed [of "durable_image restart_image" default_limits vr_success])
     (rule decode_durable_image [OF restart_storable])

text \<open>a refused image is never silent: with room for one reason, the result has a reason.\<close>

theorem refused_image_explained:
  assumes "decode_durable_state bytes limits result = (None, result')" and "0 < max_reasons limits"
  shows "\<not> vr_ok result'"
  using accounts_decode [of bytes limits result] assms
  by (simp add: accounts_def vr_cap_def set_limits_def word_less_nat_alt)

theorem refused_image_explained_witness:
  "\<exists>r. decode_durable_state [1, 2, 3] default_limits vr_success = (None, r) \<and> \<not> vr_ok r"
proof -
  have "fst (decode_durable_state [1, 2, 3] default_limits vr_success) = None"
    by (simp add: decode_durable_state_def Let_def kHeaderBytes_def)
  then obtain r where "decode_durable_state [1, 2, 3] default_limits vr_success = (None, r)"
    by (metis prod.collapse)
  with refused_image_explained [OF this] show ?thesis by (simp add: default_limits_def)
qed

section \<open>Files\<close>

text \<open>The disk when a \<^verbatim>\<open>save\<close> stops after \<open>n\<close> of its elementary steps.\<close>

definition interrupted_save ::
  "DurableState \<Rightarrow> Limits \<Rightarrow> ValidationResult \<Rightarrow> nat \<Rightarrow> FilePersistence \<Rightarrow> FilePersistence" where
  "interrupted_save st limits out n f =
     (let (bytes, out) = encode_durable_state st limits (set_limits (Some limits) out) in
      if vr_failed out \<or> bytes = [] then f
      else
        (let (oc, f) = next_outcome f in
         fold disk_step (take n (fst (save_steps (fp_parent f) oc bytes))) f))"

lemma emit_record_limits: "vr_limits (en_result (emit_record limits t body enc)) = vr_limits (en_result enc)"
  by (simp add: emit_record_def)

lemma encode_limits:
  assumes "encode_durable_state st limits r = (bytes, v)"
  shows "vr_limits v = Some limits"
proof -
  have "vr_limits (en_result (fold (\<lambda>(t, body). emit_record limits t body) rs enc)) =
      vr_limits (en_result enc)" for rs enc
    by (induction rs arbitrary: enc) (auto simp: emit_record_limits)
  with assms show ?thesis
    by (auto simp: encode_durable_state_def Let_def set_limits_def split: if_splits)
qed

lemma append_steps_file: "fp_file (fold disk_step (map AppendTemp cs) f) = fp_file f"
  by (induction cs arbitrary: f) simp_all

lemma cleanup_steps_file: "fp_file (fold disk_step (take n (if b then [RemoveTemp] else [])) f) = fp_file f"
  by (cases n) auto

lemma save_steps_file:
  assumes "save_steps parent oc bytes = (steps, err)"
  shows "fp_file (fold disk_step (take n steps) f) =
    (if err = None \<and> length steps \<le> n then Some bytes else fp_file f)"
proof (cases n)
  case (Suc k)
  have pre: "fp_file (fold disk_step (take j (map AppendTemp cs)) g) = fp_file g" for j cs g
    by (simp add: take_map append_steps_file)
  have full: "fp_temp (fold disk_step (map AppendTemp bytes) (f\<lparr>fp_temp := Some []\<rparr>)) = Some bytes"
    by (simp add: append_steps)
  show ?thesis
    using assms full Suc
    by (auto simp: save_steps_def Let_def pre append_steps_file cleanup_steps_file take_Cons'
        split: if_splits option.splits)
qed (use assms in \<open>auto simp: save_steps_def Let_def split: if_splits option.splits\<close>)

text \<open>
  C10: replacement of the image file is atomic. Interrupted after any number of disk steps, a save
  leaves the old file or the complete new image, never a mixture; a save that reports success has
  installed the complete new image, and one that reports failure (of the encoding, the directory,
  the temporary file, the write or the rename) has left the old file in place with a reason.
\<close>

theorem file_replacement_atomic:
  assumes "file_save st limits out f = (ok, out', f')" and "0 < max_reasons limits" and "vr_ok out"
  shows "fp_file (interrupted_save st limits out n f) \<in> {fp_file f, Some (durable_image st)} \<and>
    (if ok then fp_file f' = Some (durable_image st) \<and> vr_ok out'
     else fp_file f' = fp_file f \<and> \<not> vr_ok out')"
proof -
  obtain bytes v where e: "encode_durable_state st limits (set_limits (Some limits) out) = (bytes, v)"
    by fastforce
  obtain oc g where o: "next_outcome f = (oc, g)" by fastforce
  then have g: "fp_file g = fp_file f" by (auto simp: next_outcome_def split: list.splits)
  obtain steps err where st: "save_steps (fp_parent g) oc bytes = (steps, err)" by fastforce
  have cap: "vr_cap w = unat (max_reasons limits)" if "vr_limits w = Some limits" for w
    using that by (simp add: vr_cap_def)
  note lim = encode_limits [OF e]
  show ?thesis
  proof (cases "vr_failed v \<or> bytes = []")
    case True
    then show ?thesis
      using assms e lim by (auto simp: file_save_def interrupted_save_def Let_def vr_failed_def vr_ok_def
          vr_add_not_ok [unfolded vr_ok_def] cap word_less_nat_alt split: if_splits)
  next
    case False
    with e have b: "bytes = durable_image st" "vr_ok v"
      using encode_nonempty [OF e] assms(3) by (auto simp: vr_ok_def vr_failed_def)
    note w = save_steps_file [OF st]
    show ?thesis
      using assms e o st b False g w [of n g] w [of "length steps" g] lim
      by (auto simp: file_save_def interrupted_save_def Let_def vr_add_not_ok cap word_less_nat_alt
          split: option.splits if_splits)
  qed
qed

theorem file_replacement_atomic_witness:
  "\<exists>f out. file_save restart_image default_limits vr_success
       \<lparr>fp_parent = False, fp_file = Some [1], fp_temp = None, fp_outcomes = [no_fault\<lparr>fo_write := Some 5\<rparr>]\<rparr> =
     (False, out, f) \<and> fp_file f = Some [1] \<and> \<not> vr_ok out"
proof -
  let ?f = "\<lparr>fp_parent = False, fp_file = Some [1], fp_temp = None,
    fp_outcomes = [no_fault\<lparr>fo_write := Some 5\<rparr>]\<rparr>"
  have fits: "list_all (fits_record default_limits) (state_records restart_image)"
    using restart_storable by (simp add: storable_def)
  obtain ok out f where s: "file_save restart_image default_limits vr_success ?f = (ok, out, f)"
    by (metis prod_cases3)
  then have "\<not> ok"
    by (auto simp: file_save_def encode_fitting [OF fits] next_outcome_def save_steps_def Let_def
        no_fault_def vr_failed_def set_limits_def vr_success_def split: if_splits)
  with file_replacement_atomic [OF s] s show ?thesis
    by (auto simp: default_limits_def vr_ok_def vr_success_def)
qed

section \<open>Restart\<close>

definition readable :: "FilePersistence \<Rightarrow> bool" where
  "readable f \<longleftrightarrow>
     (let oc = fst (next_outcome f) in fo_exists oc \<and> fo_open oc \<and> fo_tell oc \<and> fo_read oc)"

lemma file_load_image:
  assumes "fp_file f = Some (durable_image st)" and "readable f" and "storable limits st"
  shows "\<exists>r f'. file_load report limits f = (True, r, f') \<and> lr_loaded r \<and> lr_state r = st"
proof -
  obtain oc g where n: "next_outcome f = (oc, g)" by fastforce
  then have "fp_file g = fp_file f" by (auto simp: next_outcome_def split: list.splits)
  with n assms show ?thesis
    by (simp add: file_load_def readable_def Let_def load_bytes_image)
qed

lemma load_succeeds:
  assumes "st_persistence s = Some p"
    and "ip_load ip (empty_report\<lparr>lr_result := set_limits (Some (st_limits s)) vr_success\<rparr>) (st_limits s) p =
      (True, r, p')" and "lr_loaded r"
    and "next_generation (recovery_base (lr_state r) (st_authority s)) \<noteq> None"
    and "load ip s = (report, s')"
  shows "lr_loaded report \<and> lr_state report = lr_state r"
proof -
  let ?b = "recovery_base (lr_state r) (st_authority s)"
  have "valid ?b" "\<not> ?b < at_epoch (st_authority s)"
    by (auto simp: recovery_base_def Let_def initial_generation_def valid_def)
  then have "restore_epoch ?b (st_authority s) = (True, (st_authority s)\<lparr>at_epoch := ?b\<rparr>)"
    by (simp add: restore_epoch_def)
  with assms show ?thesis
    by (auto simp: load_def Let_def advance_epoch_def split: option.splits prod.splits bool.splits if_splits)
qed


definition file_created_example :: "MutationOutcome \<times> FilePersistence Store" where
  "file_created_example =
     create_list file_persistence no_interference caller_example (draft_example 0 1) file_store_example"

lemma restart_saved:
  assumes "vr_ok v"
  shows "fst (persist_locked file_persistence restart_image v file_store_example)"
proof -
  have "list_all (fits_record default_limits) (state_records restart_image)"
    using restart_storable by (simp add: storable_def)
  with assms show ?thesis
    by (simp add: persist_locked_def file_persistence_def file_save_def encode_fitting next_outcome_def
        save_steps_def no_fault_def append_steps vr_failed_def vr_ok_def set_limits_def Let_def)
qed

lemma disk_steps_outcomes: "fp_outcomes (fold disk_step steps f) = fp_outcomes f"
proof (induction steps arbitrary: f)
  case (Cons d steps)
  have "fp_outcomes (disk_step d f) = fp_outcomes f" by (cases d) simp_all
  with Cons show ?case by simp
qed simp

lemma file_save_outcomes:
  "file_save st limits out f = (ok, out', f') \<Longrightarrow> fp_outcomes f = [] \<Longrightarrow> fp_outcomes f' = []"
  by (auto simp: file_save_def next_outcome_def Let_def disk_steps_outcomes
      split: prod.splits if_splits option.splits)

lemma file_created:
  "mo_status (fst file_created_example) = St_Ok" "\<not> mo_idempotent_replay (fst file_created_example)"
  "st_state (snd file_created_example) = restart_image"
  "\<exists>f. st_persistence (snd file_created_example) = Some f \<and> fp_outcomes f = []"
proof -
  have run: "run_batch file_persistence no_interference caller_example [draft_example 0 1] LE_ValidateBegin
      False True file_store_example = (fst file_created_example, snd file_created_example)"
    by (simp add: file_created_example_def create_list_def)
  show ok: "mo_status (fst file_created_example) = St_Ok"
    using commit_single_image [OF file_store_ready, of file_persistence]
    by (auto simp: restart_batch_image restart_saved file_created_example_def create_list_def)
  have c: "batch_committed file_persistence no_interference caller_example [draft_example 0 1]
      LE_ValidateBegin False True file_store_example (fst file_created_example) (snd file_created_example)"
    using run_batch_cases [OF run] ok
    by (auto simp: batch_rejected_def unrecorded_not_replayed default_limits_def)
  show "\<not> mo_idempotent_replay (fst file_created_example)" using committed_flags(2) [OF c] by simp
  show st: "st_state (snd file_created_example) = restart_image"
    using c restart_batch_image by (auto simp: batch_committed_def prepared_single(1))
  have "persisted file_persistence restart_image file_store_example (snd file_created_example)"
    using c st by (simp add: batch_committed_def committed_def)
  then show "\<exists>f. st_persistence (snd file_created_example) = Some f \<and> fp_outcomes f = []"
    by (auto simp: persisted_def file_persistence_def dest: file_save_outcomes)
qed


text \<open>
  C6: the invariant of the store. On either backend, from any state that satisfies it, every run of
  the store's operations, interleaved at every point where the store does not hold its lock, keeps
  the store consistent: the index is exactly the index of the list table, list identities are
  unique, the registry and the authority table are well formed, and the history stays within its
  window.
\<close>

theorem store_invariant:
  assumes "bounds_positive l"
  shows "(\<forall>s s'. store_run memory_persistence s s' \<longrightarrow> store_ok l s \<longrightarrow> store_ok l s') \<and>
         (\<forall>s s'. store_run file_persistence s s' \<longrightarrow> store_ok l s \<longrightarrow> store_ok l s')"
  using memory_medium.run_ok file_medium.run_ok assms by blast

theorem store_invariant_witness:
  "store_ok default_limits (snd file_created_example)"
proof -
  have "store_ok default_limits file_store_example"
    by (simp add: store_ok_def registry_wf_def authority_wf_def profile_entry_wf_def initial_state_def
        abstract_governance_profile_def view_example_def publisher_wf_def publisher_example_def valid_def)
  moreover have run: "run_batch file_persistence no_interference caller_example [draft_example 0 1]
      LE_ValidateBegin False True file_store_example = (fst file_created_example, snd file_created_example)"
    by (simp add: file_created_example_def create_list_def)
  have "store_run file_persistence file_store_example (snd file_created_example)"
    by (rule store_run.mutation [OF store_run.idle no_interference_ok _ _ _ run])
       (simp_all add: no_interference_def at_capture_def at_recheck_def store_run.idle)
  ultimately show ?thesis
    using store_invariant [of default_limits] by (simp add: bounds_positive_def default_limits_def)
qed

text \<open>
  a file that cannot be examined reads as no file. When \<^verbatim>\<open>std::filesystem::exists\<close> answers false
  because the path cannot be examined, recovery reports an empty image without any reason and leaves
  the store as it was, although an image is there: the error code of the call is dropped.
\<close>

theorem unexaminable_file_reads_empty:
  assumes "st_persistence s = Some f" and "\<not> fo_exists (fst (next_outcome f))"
    and "load file_persistence s = (report, s')"
  shows "lr_empty report \<and> \<not> lr_loaded report \<and> vr_ok (lr_result report) \<and>
    st_state s' = st_state s \<and> st_authority s' = st_authority s \<and> st_registry s' = st_registry s"
  using assms
  by (auto simp: load_def file_persistence_def file_load_def Let_def empty_report_def vr_ok_def
      vr_success_def set_limits_def split: prod.splits)

theorem unexaminable_file_reads_empty_witness:
  "lr_empty (fst (load file_persistence (file_store_example\<lparr>st_persistence :=
     Some \<lparr>fp_parent = True, fp_file = Some (durable_image restart_image), fp_temp = None,
       fp_outcomes = [no_fault\<lparr>fo_exists := False\<rparr>]\<rparr>\<rparr>)))"
proof -
  let ?f = "\<lparr>fp_parent = True, fp_file = Some (durable_image restart_image), fp_temp = None,
    fp_outcomes = [no_fault\<lparr>fo_exists := False\<rparr>]\<rparr>"
  let ?s = "file_store_example\<lparr>st_persistence := Some ?f\<rparr>"
  show ?thesis
    using unexaminable_file_reads_empty [of ?s ?f "fst (load file_persistence ?s)" "snd (load file_persistence ?s)"]
    by (simp add: next_outcome_def)
qed

end
