(* ===== verification/WireCodec.thy ===== *)
theory WireCodec
  imports Framing PersistRoundtrip StoreCore
begin

text \<open>
  The wire protocol (\<^verbatim>\<open>wire.cpp\<close>, \<^verbatim>\<open>wire.hpp\<close>): frames with a sealed header and a sealed payload, the
  bounded assembler that cuts frames out of a byte stream, and the payload codecs of every message.
  A message identifier stays a 16-bit value, because a decoded frame may carry one that names no
  message.
\<close>

section \<open>Frames\<close>

abbreviation MI_Invalid :: u16 where "MI_Invalid \<equiv> 0"
abbreviation MI_Hello :: u16 where "MI_Hello \<equiv> 1"
abbreviation MI_HelloAck :: u16 where "MI_HelloAck \<equiv> 2"
abbreviation MI_Heartbeat :: u16 where "MI_Heartbeat \<equiv> 3"
abbreviation MI_Goodbye :: u16 where "MI_Goodbye \<equiv> 4"
abbreviation MI_CreateList :: u16 where "MI_CreateList \<equiv> 10"
abbreviation MI_ReplaceList :: u16 where "MI_ReplaceList \<equiv> 11"
abbreviation MI_Withdraw :: u16 where "MI_Withdraw \<equiv> 12"
abbreviation MI_WithdrawCommit :: u16 where "MI_WithdrawCommit \<equiv> 13"
abbreviation MI_Revoke :: u16 where "MI_Revoke \<equiv> 14"
abbreviation MI_Retire :: u16 where "MI_Retire \<equiv> 15"
abbreviation MI_Revalidate :: u16 where "MI_Revalidate \<equiv> 16"
abbreviation MI_Get :: u16 where "MI_Get \<equiv> 20"
abbreviation MI_ListSummaries :: u16 where "MI_ListSummaries \<equiv> 21"
abbreviation MI_ExplainCurrentness :: u16 where "MI_ExplainCurrentness \<equiv> 22"
abbreviation MI_RefreshCurrentness :: u16 where "MI_RefreshCurrentness \<equiv> 23"
abbreviation MI_Response :: u16 where "MI_Response \<equiv> 40"

definition message_id_name :: "u16 \<Rightarrow> string" where
  "message_id_name m =
     (case find (\<lambda>e. fst e = m)
        [(MI_Invalid, ''Invalid''), (MI_Hello, ''Hello''), (MI_HelloAck, ''HelloAck''),
         (MI_Heartbeat, ''Heartbeat''), (MI_Goodbye, ''Goodbye''), (MI_CreateList, ''CreateList''),
         (MI_ReplaceList, ''ReplaceList''), (MI_Withdraw, ''Withdraw''), (MI_WithdrawCommit,
         ''WithdrawCommit''), (MI_Revoke, ''Revoke''), (MI_Retire, ''Retire''), (MI_Revalidate,
         ''Revalidate''), (MI_Get, ''Get''), (MI_ListSummaries, ''ListSummaries''),
         (MI_ExplainCurrentness, ''ExplainCurrentness''), (MI_RefreshCurrentness,
         ''RefreshCurrentness''), (MI_Response, ''Response'')] of
        Some e \<Rightarrow> snd e | None \<Rightarrow> ''Unknown'')"

definition kWireMagic :: "u8 list" where "kWireMagic = string_bytes ''SRFW''"
definition kWireProtocolVersion :: u16 where "kWireProtocolVersion = 1"
definition kFrameHeaderBytes :: nat where "kFrameHeaderBytes = 28"
definition kFrameTrailerBytes :: nat where "kFrameTrailerBytes = 4"

record Frame =
  fr_version :: u16
  fr_message :: u16
  fr_flags :: u16
  fr_request_id :: u64
  fr_payload :: ByteBuffer

definition frame_head :: "Frame \<Rightarrow> ByteBuffer" where
  "frame_head f =
     kWireMagic @ le_bytes 2 (fr_version f) @ le_bytes 2 (fr_message f) @ le_bytes 2 (fr_flags f) @
     le_bytes 2 (0 :: u16) @ le_bytes 4 (of_nat (length (fr_payload f)) :: u32) @
     le_bytes 8 (fr_request_id f)"

definition encode_frame :: "Frame \<Rightarrow> Limits \<Rightarrow> ValidationResult \<Rightarrow> ByteBuffer \<times> ValidationResult" where
  "encode_frame f limits result =
     (let result = set_limits (Some limits) result in
      if length (fr_payload f) > unat (max_frame_bytes limits)
      then ([], vr_add RC_LimitMaxFrameBytes 0 (ucast (max_frame_bytes limits)) result)
      else if fr_message f = MI_Invalid then ([], vr_add RC_WireUnknownMessageId 0 0 result)
      else
        (let head = frame_head f in
         (head @ le_bytes 4 (crc32c head) @ fr_payload f @ le_bytes 4 (crc32c (fr_payload f)), result)))"

record FrameHeader =
  fh_version :: u16
  fh_message :: u16
  fh_flags :: u16
  fh_reserved :: u16
  fh_length :: u32
  fh_request_id :: u64
  fh_crc :: u32

definition read_frame_header :: "u8 list \<Rightarrow> FrameHeader option" where
  "read_frame_header bytes =
     (case r_skip 4 (byte_reader (take kFrameHeaderBytes bytes)) of (False, _) \<Rightarrow> None | (True, r) \<Rightarrow>
     (case r_u16 r of (None, _) \<Rightarrow> None | (Some version, r) \<Rightarrow>
     (case r_u16 r of (None, _) \<Rightarrow> None | (Some message, r) \<Rightarrow>
     (case r_u16 r of (None, _) \<Rightarrow> None | (Some flags, r) \<Rightarrow>
     (case r_u16 r of (None, _) \<Rightarrow> None | (Some reserved, r) \<Rightarrow>
     (case r_u32 r of (None, _) \<Rightarrow> None | (Some len, r) \<Rightarrow>
     (case r_u64 r of (None, _) \<Rightarrow> None | (Some request_id, r) \<Rightarrow>
     (case r_u32 r of (None, _) \<Rightarrow> None | (Some crc, r) \<Rightarrow>
        Some \<lparr>fh_version = version, fh_message = message, fh_flags = flags, fh_reserved = reserved,
          fh_length = len, fh_request_id = request_id, fh_crc = crc\<rparr>))))))))"

definition decode_frame ::
  "u8 list \<Rightarrow> Limits \<Rightarrow> ValidationResult \<Rightarrow> Frame option \<times> ValidationResult" where
  "decode_frame bytes limits result =
     (let result = set_limits (Some limits) result;
          fail = (\<lambda>code detail. (None, vr_add code 0 detail result)) in
      if length bytes < kFrameHeaderBytes + kFrameTrailerBytes
      then fail RC_WireHeaderTruncated (of_nat (length bytes))
      else if take 4 bytes \<noteq> kWireMagic then fail RC_WireMagicMismatch 0
      else
        (case read_frame_header bytes of
           None \<Rightarrow> fail RC_WireHeaderTruncated 0
         | Some h \<Rightarrow>
             if fh_crc h \<noteq> crc32c (take (kFrameHeaderBytes - 4) bytes) then fail RC_WireIntegrityMismatch 0
             else if fh_version h \<noteq> kWireProtocolVersion
             then fail RC_WireUnsupportedVersion (ucast (fh_version h))
             else if fh_reserved h \<noteq> 0 then fail RC_WireUnsupportedFlags (ucast (fh_reserved h))
             else if fh_flags h \<noteq> 0 then fail RC_WireUnsupportedFlags (ucast (fh_flags h))
             else if fh_message h = 0 \<or> fh_message h > MI_Response
             then fail RC_WireUnknownMessageId (ucast (fh_message h))
             else if fh_length h > max_frame_bytes limits
             then fail RC_LimitMaxFrameBytes (ucast (fh_length h))
             else
               (let n = unat (fh_length h); expected = kFrameHeaderBytes + n + kFrameTrailerBytes in
                if expected > length bytes then fail RC_WirePayloadLengthMismatch (of_nat (length bytes))
                else if expected < length bytes
                then fail RC_WireTrailingBytes (of_nat (length bytes - expected))
                else
                  (case r_u32 (byte_reader (take kFrameTrailerBytes (drop (kFrameHeaderBytes + n) bytes))) of
                     (None, _) \<Rightarrow> fail RC_WireHeaderTruncated 0
                   | (Some crc, _) \<Rightarrow>
                       (let payload = take n (drop kFrameHeaderBytes bytes) in
                        if crc \<noteq> crc32c payload then fail RC_WireIntegrityMismatch 0
                        else (Some \<lparr>fr_version = fh_version h, fr_message = fh_message h,
                                fr_flags = fh_flags h, fr_request_id = fh_request_id h,
                                fr_payload = payload\<rparr>, result))))))"

section \<open>Assembly\<close>

record FrameAssembler =
  fa_buffer :: ByteBuffer
  fa_overflowed :: bool

definition new_assembler :: FrameAssembler where
  "new_assembler = \<lparr>fa_buffer = [], fa_overflowed = False\<rparr>"

definition feed :: "u8 list \<Rightarrow> FrameAssembler \<Rightarrow> FrameAssembler" where
  "feed bytes a = (if fa_overflowed a then a else a\<lparr>fa_buffer := fa_buffer a @ bytes\<rparr>)"

definition next_frame ::
  "Limits \<Rightarrow> ValidationResult \<Rightarrow> FrameAssembler \<Rightarrow> Frame option \<times> ValidationResult \<times> FrameAssembler" where
  "next_frame limits result a =
     (let result = set_limits (Some limits) result in
      if fa_overflowed a
      then (None, vr_add RC_WireAssemblyOverflow 0 (of_nat (length (fa_buffer a))) result, a)
      else if length (fa_buffer a) < kFrameHeaderBytes then (None, result, a)
      else
        (case read_frame_header (fa_buffer a) of
           None \<Rightarrow> (None, vr_add RC_WireHeaderTruncated 0 0 result, a)
         | Some h \<Rightarrow>
             if fh_length h > max_frame_bytes limits
             then (None, vr_add RC_WireAssemblyOverflow 0 (ucast (fh_length h)) result,
                   a\<lparr>fa_overflowed := True\<rparr>)
             else
               (let total = kFrameHeaderBytes + unat (fh_length h) + kFrameTrailerBytes in
                if length (fa_buffer a) < total then (None, result, a)
                else
                  (case decode_frame (take total (fa_buffer a)) limits result of
                     (None, result) \<Rightarrow> (None, result, a\<lparr>fa_overflowed := True\<rparr>)
                   | (Some f, result) \<Rightarrow> (Some f, result, a\<lparr>fa_buffer := drop total (fa_buffer a)\<rparr>)))))"

definition clear :: "FrameAssembler \<Rightarrow> FrameAssembler" where
  "clear a = a\<lparr>fa_buffer := [], fa_overflowed := False\<rparr>"

section \<open>Payloads\<close>

record HelloRequest =
  he_boot :: WorkerBootId
  he_publisher :: PublisherId
  he_scope :: ScopeId
  he_epoch :: CoordinatorEpoch

type_synonym WorkerSessionId = u64

record HelloAck =
  ha_epoch :: CoordinatorEpoch
  ha_session :: WorkerSessionId

record HeartbeatRequest =
  hb_publisher :: PublisherId
  hb_boot :: WorkerBootId
  hb_epoch :: CoordinatorEpoch

record MutationRequest =
  mr_attempt :: MutationAttemptId
  mr_draft :: ListDraft

datatype LifecycleOp = LO_Withdraw | LO_WithdrawCommit | LO_Revoke | LO_Retire | LO_Revalidate

primrec op_value :: "LifecycleOp \<Rightarrow> nat" where
  "op_value LO_Withdraw = 1"
| "op_value LO_WithdrawCommit = 2"
| "op_value LO_Revoke = 3"
| "op_value LO_Retire = 4"
| "op_value LO_Revalidate = 5"

definition op_u8 :: "LifecycleOp \<Rightarrow> u8" where
  "op_u8 v = of_nat (op_value v)"

record LifecycleRequest =
  lq_attempt :: MutationAttemptId
  lq_op :: LifecycleOp
  lq_list :: SegmentListId
  lq_expected :: SegmentListGeneration

record GetRequest =
  gq_list :: SegmentListId

record ListSummary =
  su_list :: SegmentListId
  su_generation :: SegmentListGeneration
  su_state :: LifecycleState
  su_currentness :: Currentness
  su_profile :: SegmentProfileId
  su_profile_generation :: SegmentProfileGeneration
  su_digest :: Digest128
  su_segment_count :: u32
  su_epoch :: CoordinatorEpoch

primrec status_value :: "StatusCode \<Rightarrow> nat" where
  "status_value St_Ok = 0"
| "status_value St_Rejected = 1"
| "status_value St_Conflict = 2"
| "status_value St_NotFound = 3"
| "status_value St_PersistenceFailed = 4"
| "status_value St_LimitExceeded = 5"
| "status_value St_Exhausted = 6"
| "status_value St_Internal = 7"

definition status_u8 :: "StatusCode \<Rightarrow> u8" where
  "status_u8 s = of_nat (status_value s)"

record Response =
  rp_request_id :: u64
  rp_status :: StatusCode
  rp_reasons :: "Reason list"
  rp_truncated :: bool
  rp_list :: SegmentListId
  rp_generation :: SegmentListGeneration
  rp_digest :: Digest128
  rp_idempotent_replay :: bool
  rp_epoch :: CoordinatorEpoch
  rp_session :: WorkerSessionId
  rp_summaries :: "ListSummary list"

definition empty_response :: Response where
  "empty_response = \<lparr>rp_request_id = 0, rp_status = St_Ok, rp_reasons = [], rp_truncated = False,
     rp_list = 0, rp_generation = 0, rp_digest = zero_digest, rp_idempotent_replay = False,
     rp_epoch = 0, rp_session = 0, rp_summaries = []\<rparr>"

definition summarize :: "SegmentList \<Rightarrow> CoordinatorEpoch \<Rightarrow> ListSummary" where
  "summarize l epoch = \<lparr>su_list = lc_id (sl_content l), su_generation = sl_generation l,
     su_state = sl_state l, su_currentness = sl_currentness l, su_profile = lc_profile (sl_content l),
     su_profile_generation = lc_profile_generation (sl_content l), su_digest = sl_content_digest l,
     su_segment_count = of_nat (length (lc_segments (sl_content l))), su_epoch = epoch\<rparr>"

section \<open>Payload encoders\<close>

definition wire_segment_bytes :: "Segment \<Rightarrow> ByteBuffer" where
  "wire_segment_bytes s =
     le_bytes 2 (kind_u16 (seg_kind s)) @ le_bytes 2 (encoding_u16 (seg_encoding s)) @
     concat (map (le_bytes 8) [seg_id s, seg_generation s, seg_node s, seg_adjacency s, seg_endpoint s,
       seg_binding s, seg_policy s, seg_policy_generation s, seg_topology s]) @
     le_bytes 2 (of_nat (length (seg_payload s)) :: u16) @ seg_payload s"

definition encode_hello :: "HelloRequest \<Rightarrow> ByteBuffer" where
  "encode_hello h = concat (map (le_bytes 8) [he_boot h, he_publisher h, he_scope h, he_epoch h])"

definition encode_hello_ack :: "HelloAck \<Rightarrow> ByteBuffer" where
  "encode_hello_ack a = concat (map (le_bytes 8) [ha_epoch a, ha_session a])"

definition encode_heartbeat :: "HeartbeatRequest \<Rightarrow> ByteBuffer" where
  "encode_heartbeat b = concat (map (le_bytes 8) [hb_publisher b, hb_boot b, hb_epoch b])"

definition mutation_bytes :: "MutationRequest \<Rightarrow> ByteBuffer" where
  "mutation_bytes m =
     (let d = mr_draft m in
      concat (map (le_bytes 8) [mr_attempt m, dr_id d, dr_scope d, dr_profile d, dr_profile_generation d,
        dr_policy d, dr_policy_generation d]) @
      le_bytes 1 (strictness_u8 (dr_strictness d)) @
      concat (map (le_bytes 8) [dr_topology d, dr_capability d, dr_path d, dr_path_authority d, dr_route d,
        dr_route_generation d, dr_constraint d, dr_constraint_generation d, dr_expected_generation d,
        dr_supersedes d, dr_supersedes_generation d]) @
      le_bytes 1 (bool_u8 (dr_derived d)) @
      le_bytes 4 (of_nat (length (dr_segments d)) :: u32) @
      concat (map wire_segment_bytes (dr_segments d)))"

definition encode_mutation ::
  "MutationRequest \<Rightarrow> Limits \<Rightarrow> ValidationResult \<Rightarrow> ByteBuffer \<times> ValidationResult" where
  "encode_mutation m limits result =
     (let result = set_limits (Some limits) result in
      if length (dr_segments (mr_draft m)) > unat (max_segments_per_list limits)
      then ([], vr_add RC_LimitMaxSegmentsPerList 0 (ucast (max_segments_per_list limits)) result)
      else (mutation_bytes m, result))"

definition encode_lifecycle :: "LifecycleRequest \<Rightarrow> ByteBuffer" where
  "encode_lifecycle q = le_bytes 8 (lq_attempt q) @ le_bytes 1 (op_u8 (lq_op q)) @
     le_bytes 8 (lq_list q) @ le_bytes 8 (lq_expected q)"

definition encode_get :: "GetRequest \<Rightarrow> ByteBuffer" where
  "encode_get q = le_bytes 8 (gq_list q)"

definition reason_bytes :: "Reason \<Rightarrow> ByteBuffer" where
  "reason_bytes r = le_bytes 2 (rs_code r) @ le_bytes 4 (rs_index r) @ le_bytes 8 (rs_detail r)"

definition summary_bytes :: "ListSummary \<Rightarrow> ByteBuffer" where
  "summary_bytes s =
     le_bytes 8 (su_list s) @ le_bytes 8 (su_generation s) @
     le_bytes 1 (of_nat (state_value (su_state s)) :: u8) @
     le_bytes 1 (of_nat (currentness_value (su_currentness s)) :: u8) @
     le_bytes 8 (su_profile s) @ le_bytes 8 (su_profile_generation s) @
     le_bytes 8 (dg_hi (su_digest s)) @ le_bytes 8 (dg_lo (su_digest s)) @
     le_bytes 4 (su_segment_count s) @ le_bytes 8 (su_epoch s)"

definition response_bytes :: "Response \<Rightarrow> ByteBuffer" where
  "response_bytes r =
     le_bytes 8 (rp_request_id r) @ le_bytes 1 (status_u8 (rp_status r)) @
     le_bytes 4 (of_nat (length (rp_reasons r)) :: u32) @ concat (map reason_bytes (rp_reasons r)) @
     le_bytes 1 (bool_u8 (rp_truncated r)) @
     le_bytes 8 (rp_list r) @ le_bytes 8 (rp_generation r) @
     le_bytes 8 (dg_hi (rp_digest r)) @ le_bytes 8 (dg_lo (rp_digest r)) @
     le_bytes 1 (bool_u8 (rp_idempotent_replay r)) @
     le_bytes 8 (rp_epoch r) @ le_bytes 8 (rp_session r) @
     le_bytes 4 (of_nat (length (rp_summaries r)) :: u32) @ concat (map summary_bytes (rp_summaries r))"

definition encode_response ::
  "Response \<Rightarrow> Limits \<Rightarrow> ValidationResult \<Rightarrow> ByteBuffer \<times> ValidationResult" where
  "encode_response r limits result =
     (let result = set_limits (Some limits) result in
      if length (rp_summaries r) > unat (max_lists limits)
      then ([], vr_add RC_LimitMaxLists 0 (ucast (max_lists limits)) result)
      else (response_bytes r, result))"

end
