(* ===== verification/WireDecode.thy ===== *)
theory WireDecode
  imports WireCodec
begin

text \<open>
  The payload decoders of \<^verbatim>\<open>wire.cpp\<close> and their round trips: every decoder threads the bounds-checked
  reader and the result, and returns early on the first read or check that fails. What the decoders
  leave in their output arguments on failure is not modelled: every caller discards them.
\<close>

section \<open>Field reads\<close>

text \<open>
  A bare read adds no reason itself; \<open>w_or_malformed\<close> is the \<^verbatim>\<open>if (!... || !...)\<close> that adds
  \<^verbatim>\<open>WireMalformedFrame\<close> when any of its reads fails, on top of what the reads added.
\<close>

definition w_bare :: "(ByteReader \<Rightarrow> 'a option \<times> ByteReader) \<Rightarrow> 'a decoder" where
  "w_bare rd d = (case rd (dc_reader d) of (x, r) \<Rightarrow> (x, d\<lparr>dc_reader := r\<rparr>))"

definition w_or_malformed :: "'a decoder \<Rightarrow> 'a decoder" where
  "w_or_malformed m d =
     (case m d of (None, d) \<Rightarrow> d_fail RC_WireMalformedFrame 0 0 d | (Some x, d) \<Rightarrow> (Some x, d))"

definition read_u64 :: "u64 decoder" where
  "read_u64 = d_read r_u64 RC_WireMalformedFrame 0"

definition read_u64s :: "nat \<Rightarrow> u64 list decoder" where
  "read_u64s n = d_many n read_u64"

definition w_done :: "unit decoder" where
  "w_done = d_end RC_WireTrailingBytes 0"

definition run_payload ::
  "'a decoder \<Rightarrow> u8 list \<Rightarrow> Limits \<Rightarrow> ValidationResult \<Rightarrow> 'a option \<times> ValidationResult" where
  "run_payload m bytes limits result =
     (case m \<lparr>dc_reader = byte_reader bytes, dc_result = set_limits (Some limits) result\<rparr> of
        (x, d) \<Rightarrow> (x, dc_result d))"

section \<open>Payload decoders\<close>

definition read_segment :: "Limits \<Rightarrow> Segment decoder" where
  "read_segment limits =
     d_bind (w_or_malformed (d_bind (w_bare r_u16) (\<lambda>kind. d_bind (w_bare r_u16) (\<lambda>encoding.
       d_return (kind, encoding))))) (\<lambda>(kind, encoding).
     d_require (\<not> (kind = 0 \<or> kind > kind_u16 SK_Policy)) RC_WireUnknownEnumValue 0 (ucast kind) (
     d_require (\<not> encoding > encoding_u16 SE_AbstractPolicyV1) RC_WireUnknownEnumValue 0 (ucast encoding) (
     d_bind (read_u64s 9) (\<lambda>v.
     d_bind (d_read r_u16 RC_WireMalformedFrame 0) (\<lambda>len.
     d_require (\<not> unat len > unat (max_segment_payload_bytes limits)) RC_WireFieldOutOfRange 0 (ucast len) (
     d_bind (d_blob (unat len) RC_WireMalformedFrame 0 0) (\<lambda>payload.
     d_return \<lparr>seg_kind = kind_of kind, seg_encoding = encoding_of encoding, seg_id = v ! 0,
       seg_generation = v ! 1, seg_node = v ! 2, seg_adjacency = v ! 3, seg_endpoint = v ! 4,
       seg_binding = v ! 5, seg_policy = v ! 6, seg_policy_generation = v ! 7,
       seg_topology = v ! 8, seg_payload = payload\<rparr>)))))))"

definition decode_hello ::
  "u8 list \<Rightarrow> Limits \<Rightarrow> ValidationResult \<Rightarrow> HelloRequest option \<times> ValidationResult" where
  "decode_hello = run_payload (d_bind (read_u64s 4) (\<lambda>v. d_bind w_done (\<lambda>_.
     d_return \<lparr>he_boot = v ! 0, he_publisher = v ! 1, he_scope = v ! 2, he_epoch = v ! 3\<rparr>)))"

definition decode_hello_ack ::
  "u8 list \<Rightarrow> Limits \<Rightarrow> ValidationResult \<Rightarrow> HelloAck option \<times> ValidationResult" where
  "decode_hello_ack = run_payload (d_bind (read_u64s 2) (\<lambda>v. d_bind w_done (\<lambda>_.
     d_return \<lparr>ha_epoch = v ! 0, ha_session = v ! 1\<rparr>)))"

definition decode_heartbeat ::
  "u8 list \<Rightarrow> Limits \<Rightarrow> ValidationResult \<Rightarrow> HeartbeatRequest option \<times> ValidationResult" where
  "decode_heartbeat = run_payload (d_bind (read_u64s 3) (\<lambda>v. d_bind w_done (\<lambda>_.
     d_return \<lparr>hb_publisher = v ! 0, hb_boot = v ! 1, hb_epoch = v ! 2\<rparr>)))"

definition mutation_decoder :: "Limits \<Rightarrow> MutationRequest decoder" where
  "mutation_decoder limits =
     d_bind read_u64 (\<lambda>attempt. d_bind (read_u64s 6) (\<lambda>v.
     d_bind (d_read r_u8 RC_WireMalformedFrame 0) (\<lambda>strictness.
     d_require (\<not> (strictness \<noteq> strictness_u8 Strict \<and> strictness \<noteq> strictness_u8 Loose))
       RC_WireUnknownEnumValue 0 (ucast strictness) (
     d_bind (read_u64s 11) (\<lambda>w.
     d_bind (w_or_malformed (d_bind (w_bare r_u8) (\<lambda>derived. d_bind (w_bare r_u32) (\<lambda>segment_count.
       d_return (derived, segment_count))))) (\<lambda>(derived, segment_count).
     d_require (\<not> derived > 1) RC_WireFieldOutOfRange 0 (ucast derived) (
     d_require (\<not> segment_count > max_segments_per_list limits) RC_LimitMaxSegmentsPerList 0
       (ucast segment_count) (
     d_bind (d_many (unat segment_count) (read_segment limits)) (\<lambda>segments.
     d_bind w_done (\<lambda>_.
     d_return \<lparr>mr_attempt = attempt, mr_draft =
       \<lparr>dr_id = v ! 0, dr_scope = v ! 1, dr_profile = v ! 2, dr_profile_generation = v ! 3,
        dr_policy = v ! 4, dr_policy_generation = v ! 5, dr_strictness = strictness_of strictness,
        dr_topology = w ! 0, dr_capability = w ! 1, dr_path = w ! 2, dr_path_authority = w ! 3,
        dr_route = w ! 4, dr_route_generation = w ! 5, dr_constraint = w ! 6,
        dr_constraint_generation = w ! 7, dr_segments = segments, dr_expected_generation = w ! 8,
        dr_supersedes = w ! 9, dr_supersedes_generation = w ! 10, dr_derived = (derived \<noteq> 0)\<rparr>\<rparr>))))))))))"

definition decode_mutation ::
  "u8 list \<Rightarrow> Limits \<Rightarrow> ValidationResult \<Rightarrow> MutationRequest option \<times> ValidationResult" where
  "decode_mutation bytes limits = run_payload (mutation_decoder limits) bytes limits"

definition op_of :: "u8 \<Rightarrow> LifecycleOp" where
  "op_of = cast_enum op_u8 [LO_Withdraw, LO_WithdrawCommit, LO_Revoke, LO_Retire, LO_Revalidate] LO_Withdraw"

definition decode_lifecycle ::
  "u8 list \<Rightarrow> Limits \<Rightarrow> ValidationResult \<Rightarrow> LifecycleRequest option \<times> ValidationResult" where
  "decode_lifecycle = run_payload (
     d_bind (w_or_malformed (d_bind read_u64 (\<lambda>attempt. d_bind (w_bare r_u8) (\<lambda>op.
       d_return (attempt, op))))) (\<lambda>(attempt, op).
     d_require (\<not> (op = 0 \<or> op > op_u8 LO_Revalidate)) RC_WireUnknownEnumValue 0 (ucast op) (
     d_bind (read_u64s 2) (\<lambda>v. d_bind w_done (\<lambda>_.
     d_return \<lparr>lq_attempt = attempt, lq_op = op_of op, lq_list = v ! 0, lq_expected = v ! 1\<rparr>)))))"

definition decode_get ::
  "u8 list \<Rightarrow> Limits \<Rightarrow> ValidationResult \<Rightarrow> GetRequest option \<times> ValidationResult" where
  "decode_get = run_payload (d_bind read_u64 (\<lambda>value. d_bind w_done (\<lambda>_. d_return \<lparr>gq_list = value\<rparr>)))"

definition status_of :: "u8 \<Rightarrow> StatusCode" where
  "status_of = cast_enum status_u8 [St_Ok, St_Rejected, St_Conflict, St_NotFound, St_PersistenceFailed,
     St_LimitExceeded, St_Exhausted, St_Internal] St_Ok"

definition reason_decoder :: "Reason decoder" where
  "reason_decoder = w_or_malformed (
     d_bind (w_bare r_u16) (\<lambda>code. d_bind (w_bare r_u32) (\<lambda>index. d_bind read_u64 (\<lambda>detail.
     d_return \<lparr>rs_code = code, rs_index = index, rs_detail = detail\<rparr>))))"

definition summary_decoder :: "ListSummary decoder" where
  "summary_decoder =
     d_bind (w_or_malformed (
       d_bind (read_u64s 2) (\<lambda>v. d_bind (w_bare r_u8) (\<lambda>state. d_bind (w_bare r_u8) (\<lambda>currentness.
       d_bind (read_u64s 4) (\<lambda>w. d_bind (w_bare r_u32) (\<lambda>segment_count. d_bind read_u64 (\<lambda>epoch.
       d_return (v, state, currentness, w, segment_count, epoch)))))))))
       (\<lambda>(v, state, currentness, w, segment_count, epoch).
     d_require (\<not> (state = 0 \<or> state > of_nat (state_value LS_Retired))) RC_WireUnknownEnumValue 0 (ucast state) (
     d_require (\<not> currentness > of_nat (currentness_value Cu_FencedPublisher)) RC_WireUnknownEnumValue 0
       (ucast currentness) (
     d_return \<lparr>su_list = v ! 0, su_generation = v ! 1, su_state = state_of state,
       su_currentness = currentness_of currentness, su_profile = w ! 0, su_profile_generation = w ! 1,
       su_digest = \<lparr>dg_hi = w ! 2, dg_lo = w ! 3\<rparr>, su_segment_count = segment_count, su_epoch = epoch\<rparr>)))"

definition response_decoder :: "Limits \<Rightarrow> Response decoder" where
  "response_decoder limits =
     d_bind (w_or_malformed (d_bind read_u64 (\<lambda>request_id. d_bind (w_bare r_u8) (\<lambda>status.
       d_return (request_id, status))))) (\<lambda>(request_id, status).
     d_require (\<not> status > status_u8 St_Internal) RC_WireUnknownEnumValue 0 (ucast status) (
     d_bind (d_read r_u32 RC_WireMalformedFrame 0) (\<lambda>reason_count.
     d_require (\<not> reason_count > max_reasons limits) RC_LimitMaxReasons 0 (ucast reason_count) (
     d_bind (d_many (unat reason_count) reason_decoder) (\<lambda>reasons.
     d_bind (d_read r_u8 RC_WireMalformedFrame 0) (\<lambda>truncated.
     d_require (\<not> truncated > 1) RC_WireFieldOutOfRange 0 (ucast truncated) (
     d_bind (read_u64s 4) (\<lambda>v. d_bind (w_bare r_u8) (\<lambda>replay. d_bind (read_u64s 2) (\<lambda>w.
     d_require (\<not> replay > 1) RC_WireFieldOutOfRange 0 (ucast replay) (
     d_bind (d_read r_u32 RC_WireMalformedFrame 0) (\<lambda>summary_count.
     d_require (\<not> summary_count > max_lists limits) RC_LimitMaxLists 0 (ucast summary_count) (
     d_bind (d_many (unat summary_count) summary_decoder) (\<lambda>summaries.
     d_bind w_done (\<lambda>_.
     d_return \<lparr>rp_request_id = request_id, rp_status = status_of status, rp_reasons = reasons,
       rp_truncated = (truncated \<noteq> 0), rp_list = v ! 0, rp_generation = v ! 1,
       rp_digest = \<lparr>dg_hi = v ! 2, dg_lo = v ! 3\<rparr>, rp_idempotent_replay = (replay \<noteq> 0),
       rp_epoch = w ! 0, rp_session = w ! 1, rp_summaries = summaries\<rparr>)))))))))))))))"

definition decode_response ::
  "u8 list \<Rightarrow> Limits \<Rightarrow> ValidationResult \<Rightarrow> Response option \<times> ValidationResult" where
  "decode_response bytes limits = run_payload (response_decoder limits) bytes limits"

section \<open>Round trips of the fields\<close>

context field_codec
begin

lemma parses_bare:
  assumes "wf v"
  shows "parses (w_bare dec) (enc v) v"
  unfolding parses_def
proof (intro allI impI)
  fix d ts assume "good d" "unread d = enc v @ ts"
  then obtain r where "dec (dc_reader d) = (Some v, r)" "br_ok r" "reader_ok r" "rest r = ts"
    using round_trip [OF assms, of "dc_reader d" ts] by (auto simp: good_def unread_def)
  then show "\<exists>d'. w_bare dec d = (Some v, d') \<and> good d' \<and> unread d' = ts \<and>
      dc_result d' = dc_result d"
    by (simp add: w_bare_def good_def unread_def)
qed

end

lemma parses_or_malformed: "parses m bs x \<Longrightarrow> parses (w_or_malformed m) bs x"
  by (fastforce simp: parses_def w_or_malformed_def)

lemma parses_read_u64: "parses read_u64 (le_bytes 8 v) v"
  unfolding read_u64_def by (rule c64.parses_read) simp

lemma parses_read_u64s: "length vs = n \<Longrightarrow> parses (read_u64s n) (concat (map (le_bytes 8) vs)) vs"
  unfolding read_u64s_def by (auto intro: parses_many parses_read_u64)

lemma parses_w_done: "parses_all (f ()) [] x \<Longrightarrow> parses_all (d_bind w_done f) [] x"
  unfolding w_done_def by (rule parses_end)

lemmas parses_bares = c8.parses_bare [OF TrueI] c16.parses_bare [OF TrueI] c32.parses_bare [OF TrueI]

lemmas parses_reads = c8.parses_read [OF TrueI] c16.parses_read [OF TrueI] c32.parses_read [OF TrueI]

lemmas parses_wire = parses_bares parses_reads parses_read_u64 parses_read_u64s

lemmas parses_wire_seq = parses_wire [THEN parses_bind] parses_require parses_return_some

lemmas parses_wire_all = parses_wire [THEN parses_bind_all] parses_require_all parses_w_done
  parses_return_eq

lemma parses_pair: "parses m bs (a, b) \<Longrightarrow> parses (f a b) cs y \<Longrightarrow> parses (d_bind m (\<lambda>(a, b). f a b)) (bs @ cs) y"
  by (erule parses_bind) simp

lemma parses_pair_all:
  "parses m bs (a, b) \<Longrightarrow> parses_all (f a b) cs y \<Longrightarrow> parses_all (d_bind m (\<lambda>(a, b). f a b)) (bs @ cs) y"
  by (erule parses_bind_all) simp

lemma run_payload_parsed:
  assumes "parses_all m bytes x"
  shows "run_payload m bytes limits result = (Some x, set_limits (Some limits) result)"
proof -
  let ?d = "\<lparr>dc_reader = byte_reader bytes, dc_result = set_limits (Some limits) result\<rparr>"
  have "good ?d" "unread ?d = bytes"
    by (simp_all add: good_def unread_def reader_defs)
  with assms obtain d where "m ?d = (Some x, d)" "dc_result d = set_limits (Some limits) result"
    unfolding parses_all_def by fastforce
  then show ?thesis by (simp add: run_payload_def)
qed

lemma op_of_value [simp]: "op_of (op_u8 v) = v"
  by (cases v) (simp_all add: op_of_def cast_enum_def op_u8_def)

lemma status_of_value [simp]: "status_of (status_u8 v) = v"
  by (cases v) (simp_all add: status_of_def cast_enum_def status_u8_def)

section \<open>Round trips of the payloads\<close>

lemma hello_roundtrip: "decode_hello (encode_hello h) limits result = (Some h, set_limits (Some limits) result)"
  unfolding decode_hello_def encode_hello_def
  by (intro run_payload_parsed parses_bind_last [OF parses_read_u64s] parses_w_done parses_return_eq) simp_all

lemma hello_ack_roundtrip:
  "decode_hello_ack (encode_hello_ack a) limits result = (Some a, set_limits (Some limits) result)"
  unfolding decode_hello_ack_def encode_hello_ack_def
  by (intro run_payload_parsed parses_bind_last [OF parses_read_u64s] parses_w_done parses_return_eq) simp_all

lemma heartbeat_roundtrip:
  "decode_heartbeat (encode_heartbeat b) limits result = (Some b, set_limits (Some limits) result)"
  unfolding decode_heartbeat_def encode_heartbeat_def
  by (intro run_payload_parsed parses_bind_last [OF parses_read_u64s] parses_w_done parses_return_eq) simp_all

lemma get_roundtrip: "decode_get (encode_get q) limits result = (Some q, set_limits (Some limits) result)"
  unfolding decode_get_def encode_get_def
  by (intro run_payload_parsed parses_bind_last [OF parses_read_u64] parses_w_done parses_return_eq) simp

lemma lifecycle_roundtrip:
  "decode_lifecycle (encode_lifecycle q) limits result = (Some q, set_limits (Some limits) result)"
proof -
  have b: "encode_lifecycle q = (le_bytes 8 (lq_attempt q) @ le_bytes 1 (op_u8 (lq_op q)) @ []) @
      concat (map (le_bytes 8) [lq_list q, lq_expected q]) @ []"
    by (simp add: encode_lifecycle_def)
  have op: "\<not> (op_u8 (lq_op q) = 0 \<or> op_u8 (lq_op q) > op_u8 LO_Revalidate)"
    by (cases "lq_op q") (simp_all add: op_u8_def)
  have head: "parses (w_or_malformed (d_bind read_u64 (\<lambda>attempt. d_bind (w_bare r_u8) (\<lambda>op.
      d_return (attempt, op))))) (le_bytes 8 (lq_attempt q) @ le_bytes 1 (op_u8 (lq_op q)) @ [])
      (lq_attempt q, op_u8 (lq_op q))"
    by (intro parses_or_malformed parses_wire_seq) simp
  show ?thesis
    unfolding decode_lifecycle_def b
    by (intro run_payload_parsed head [THEN parses_pair_all] parses_wire_all op) simp_all
qed

definition sendable_segment :: "Limits \<Rightarrow> Segment \<Rightarrow> bool" where
  "sendable_segment limits s \<longleftrightarrow> seg_kind s \<noteq> SK_Invalid \<and>
     length (seg_payload s) \<le> unat (max_segment_payload_bytes limits) \<and>
     length (seg_payload s) \<le> 0xFFFF"

lemma wire_segment_roundtrip:
  assumes "sendable_segment limits s"
  shows "parses (read_segment limits) (wire_segment_bytes s) s"
proof -
  have b: "wire_segment_bytes s =
     (le_bytes 2 (kind_u16 (seg_kind s)) @ le_bytes 2 (encoding_u16 (seg_encoding s)) @ []) @
     concat (map (le_bytes 8) [seg_id s, seg_generation s, seg_node s, seg_adjacency s,
       seg_endpoint s, seg_binding s, seg_policy s, seg_policy_generation s, seg_topology s]) @
     le_bytes 2 (of_nat (length (seg_payload s)) :: u16) @ seg_payload s @ []"
    by (simp add: wire_segment_bytes_def)
  have k: "\<not> (kind_u16 (seg_kind s) = 0 \<or> kind_u16 (seg_kind s) > kind_u16 SK_Policy)"
    using assms by (cases "seg_kind s") (simp_all add: sendable_segment_def kind_u16_def)
  have e: "\<not> encoding_u16 (seg_encoding s) > encoding_u16 SE_AbstractPolicyV1"
    by (cases "seg_encoding s") (simp_all add: encoding_u16_def)
  have head: "parses (w_or_malformed (d_bind (w_bare r_u16) (\<lambda>kind. d_bind (w_bare r_u16) (\<lambda>encoding.
       d_return (kind, encoding)))))
      (le_bytes 2 (kind_u16 (seg_kind s)) @ le_bytes 2 (encoding_u16 (seg_encoding s)) @ [])
      (kind_u16 (seg_kind s), encoding_u16 (seg_encoding s))"
    by (intro parses_or_malformed parses_wire_seq) simp
  show ?thesis
    unfolding b read_segment_def
    by (intro head [THEN parses_pair] k e parses_wire_seq parses_blob [THEN parses_bind])
       (use assms in \<open>auto simp: sendable_segment_def unat_of_nat_u16\<close>)
qed

definition sendable :: "Limits \<Rightarrow> MutationRequest \<Rightarrow> bool" where
  "sendable limits m \<longleftrightarrow>
     length (dr_segments (mr_draft m)) \<le> unat (max_segments_per_list limits) \<and>
     list_all (sendable_segment limits) (dr_segments (mr_draft m))"

lemma count_u32: "n \<le> unat (m :: u32) \<Longrightarrow> unat (of_nat n :: u32) = n \<and> \<not> of_nat n > m"
  using unsigned_less [of m, where ?'a = nat]
  by (simp add: unat_of_nat_u32 word_less_nat_alt)

lemma parses_counted:
  assumes "\<forall>x \<in> set xs. parses m (enc x) x" and "n = length xs"
  shows "parses (d_many n m) (concat (map enc xs)) xs"
  using parses_many assms by blast

lemma mutation_roundtrip:
  assumes "sendable limits m"
  shows "parses_all (mutation_decoder limits) (mutation_bytes m) m"
proof -
  let ?d = "mr_draft m"
  have b: "mutation_bytes m =
      le_bytes 8 (mr_attempt m) @
      concat (map (le_bytes 8) [dr_id ?d, dr_scope ?d, dr_profile ?d, dr_profile_generation ?d,
        dr_policy ?d, dr_policy_generation ?d]) @
      le_bytes 1 (strictness_u8 (dr_strictness ?d)) @
      concat (map (le_bytes 8) [dr_topology ?d, dr_capability ?d, dr_path ?d, dr_path_authority ?d,
        dr_route ?d, dr_route_generation ?d, dr_constraint ?d, dr_constraint_generation ?d,
        dr_expected_generation ?d, dr_supersedes ?d, dr_supersedes_generation ?d]) @
      (le_bytes 1 (bool_u8 (dr_derived ?d)) @
       le_bytes 4 (of_nat (length (dr_segments ?d)) :: u32) @ []) @
      concat (map wire_segment_bytes (dr_segments ?d)) @ []"
    by (simp add: mutation_bytes_def Let_def)
  have tail: "parses (w_or_malformed (d_bind (w_bare r_u8) (\<lambda>derived. d_bind (w_bare r_u32) (\<lambda>segment_count.
       d_return (derived, segment_count)))))
      (le_bytes 1 (bool_u8 (dr_derived ?d)) @ le_bytes 4 (of_nat (length (dr_segments ?d)) :: u32) @ [])
      (bool_u8 (dr_derived ?d), of_nat (length (dr_segments ?d)))"
    by (intro parses_or_malformed parses_wire_seq) simp
  have str: "\<not> (strictness_u8 (dr_strictness ?d) \<noteq> strictness_u8 Strict \<and>
      strictness_u8 (dr_strictness ?d) \<noteq> strictness_u8 Loose)"
    by (cases "dr_strictness ?d") simp_all
  have n: "unat (of_nat (length (dr_segments ?d)) :: u32) = length (dr_segments ?d)"
    "\<not> of_nat (length (dr_segments ?d)) > max_segments_per_list limits"
    using assms count_u32 by (auto simp: sendable_def)
  have segs: "\<forall>s \<in> set (dr_segments ?d). parses (read_segment limits) (wire_segment_bytes s) s"
    using assms wire_segment_roundtrip by (auto simp: sendable_def list_all_iff)
  have der: "\<not> bool_u8 (dr_derived ?d) > 1" "(bool_u8 (dr_derived ?d) \<noteq> 0) = dr_derived ?d"
    by (simp_all add: bool_u8_def)
  show ?thesis
    unfolding b mutation_decoder_def
    by (intro str n der parses_wire_all tail [THEN parses_pair_all]
          parses_counted [OF segs, THEN parses_bind_all]) (simp_all add: n der)
qed

definition sendable_response :: "Limits \<Rightarrow> Response \<Rightarrow> bool" where
  "sendable_response limits r \<longleftrightarrow> length (rp_reasons r) \<le> unat (max_reasons limits) \<and>
     length (rp_summaries r) \<le> unat (max_lists limits) \<and>
     list_all (\<lambda>s. su_state s \<noteq> LS_Invalid) (rp_summaries r)"

lemma reason_roundtrip: "parses reason_decoder (reason_bytes r) r"
proof -
  have b: "reason_bytes r = le_bytes 2 (rs_code r) @ le_bytes 4 (rs_index r) @ le_bytes 8 (rs_detail r) @ []"
    by (simp add: reason_bytes_def)
  show ?thesis unfolding b reason_decoder_def by (intro parses_or_malformed parses_wire_seq) simp
qed

lemma summary_roundtrip:
  assumes "su_state s \<noteq> LS_Invalid"
  shows "parses summary_decoder (summary_bytes s) s"
proof -
  let ?v = "[su_list s, su_generation s]"
  let ?w = "[su_profile s, su_profile_generation s, dg_hi (su_digest s), dg_lo (su_digest s)]"
  let ?st = "of_nat (state_value (su_state s)) :: u8"
  let ?cu = "of_nat (currentness_value (su_currentness s)) :: u8"
  have b: "summary_bytes s = (concat (map (le_bytes 8) ?v) @ le_bytes 1 ?st @ le_bytes 1 ?cu @
      concat (map (le_bytes 8) ?w) @ le_bytes 4 (su_segment_count s) @ le_bytes 8 (su_epoch s) @ []) @ []"
    by (simp add: summary_bytes_def)
  have st: "\<not> (?st = 0 \<or> ?st > of_nat (state_value LS_Retired))"
    using assms by (cases "su_state s") simp_all
  have cu: "\<not> ?cu > of_nat (currentness_value Cu_FencedPublisher)"
    by (cases "su_currentness s") simp_all
  show ?thesis
    unfolding b summary_decoder_def
  proof (rule parses_bind [where x = "(?v, ?st, ?cu, ?w, su_segment_count s, su_epoch s)"], goal_cases)
    case 1
    show ?case by (intro parses_or_malformed parses_wire_seq) simp_all
  next
    case 2
    show ?case by (simp only: prod.case) (intro st cu parses_wire_seq, simp)
  qed
qed

lemma response_roundtrip:
  assumes "sendable_response limits r"
  shows "parses_all (response_decoder limits) (response_bytes r) r"
proof -
  have b: "response_bytes r =
     (le_bytes 8 (rp_request_id r) @ le_bytes 1 (status_u8 (rp_status r)) @ []) @
     le_bytes 4 (of_nat (length (rp_reasons r)) :: u32) @ concat (map reason_bytes (rp_reasons r)) @
     le_bytes 1 (bool_u8 (rp_truncated r)) @
     concat (map (le_bytes 8) [rp_list r, rp_generation r, dg_hi (rp_digest r), dg_lo (rp_digest r)]) @
     le_bytes 1 (bool_u8 (rp_idempotent_replay r)) @
     concat (map (le_bytes 8) [rp_epoch r, rp_session r]) @
     le_bytes 4 (of_nat (length (rp_summaries r)) :: u32) @
     concat (map summary_bytes (rp_summaries r)) @ []"
    by (simp add: response_bytes_def)
  have head: "parses (w_or_malformed (d_bind read_u64 (\<lambda>request_id. d_bind (w_bare r_u8) (\<lambda>status.
       d_return (request_id, status)))))
      (le_bytes 8 (rp_request_id r) @ le_bytes 1 (status_u8 (rp_status r)) @ [])
      (rp_request_id r, status_u8 (rp_status r))"
    by (intro parses_or_malformed parses_wire_seq) simp
  have st: "\<not> status_u8 (rp_status r) > status_u8 St_Internal"
    by (cases "rp_status r") (simp_all add: status_u8_def)
  have n: "unat (of_nat (length (rp_reasons r)) :: u32) = length (rp_reasons r)"
    "\<not> of_nat (length (rp_reasons r)) > max_reasons limits"
    "unat (of_nat (length (rp_summaries r)) :: u32) = length (rp_summaries r)"
    "\<not> of_nat (length (rp_summaries r)) > max_lists limits"
    using assms count_u32 by (auto simp: sendable_response_def)
  have rs: "\<forall>x \<in> set (rp_reasons r). parses reason_decoder (reason_bytes x) x"
    by (simp add: reason_roundtrip)
  have ss: "\<forall>x \<in> set (rp_summaries r). parses summary_decoder (summary_bytes x) x"
    using assms by (auto simp: sendable_response_def list_all_iff summary_roundtrip)
  have fl: "\<not> bool_u8 c > 1" "(bool_u8 c \<noteq> 0) = c" for c
    by (simp_all add: bool_u8_def)
  show ?thesis
    unfolding b response_decoder_def
    by (intro st n fl parses_wire_all head [THEN parses_pair_all]
          parses_counted [OF rs, THEN parses_bind_all] parses_counted [OF ss, THEN parses_bind_all])
       (simp_all add: n fl)
qed

end
