(* ===== verification/WireFrames.thy ===== *)
theory WireFrames
  imports WireDecode
begin

text \<open>
  Frames and their assembly. \<open>decode_frame\<close> accepts exactly the byte strings that \<open>encode_frame\<close> writes
  for well-formed frames, and the assembler cuts a stream of such frames at the right places however the
  transport chops the stream into chunks.
\<close>

section \<open>The bytes of a frame\<close>

definition frame_bytes :: "Frame \<Rightarrow> u8 list" where
  "frame_bytes f = sealed (frame_head f) @ sealed (fr_payload f)"

definition frame_ok :: "Limits \<Rightarrow> Frame \<Rightarrow> bool" where
  "frame_ok limits f \<longleftrightarrow> fr_version f = kWireProtocolVersion \<and> fr_flags f = 0 \<and>
     fr_message f \<noteq> 0 \<and> fr_message f \<le> MI_Response \<and>
     length (fr_payload f) \<le> unat (max_frame_bytes limits)"

lemma length_kWireMagic [simp]: "length kWireMagic = 4"
  by (simp add: kWireMagic_def)

lemma length_frame_head [simp]: "length (frame_head f) = 24"
  by (simp add: frame_head_def)

lemma length_frame_bytes: "length (frame_bytes f) = 32 + length (fr_payload f)"
  by (simp add: frame_bytes_def)

lemma encode_frame_ok:
  "frame_ok limits f \<Longrightarrow> encode_frame f limits result = (frame_bytes f, set_limits (Some limits) result)"
  by (simp add: encode_frame_def frame_ok_def frame_bytes_def sealed_def Let_def)

lemma frame_length_u32:
  assumes "frame_ok limits f"
  shows "unat (of_nat (length (fr_payload f)) :: u32) = length (fr_payload f)"
    "\<not> of_nat (length (fr_payload f)) > max_frame_bytes limits"
  using count_u32 [of "length (fr_payload f)" "max_frame_bytes limits"] assms
  by (simp_all add: frame_ok_def)

section \<open>Reading a header\<close>

lemma read_frame_header_fields:
  assumes "28 \<le> length bytes"
  shows "read_frame_header bytes = Some
    \<lparr>fh_version = le_word (take 2 (drop 4 bytes)), fh_message = le_word (take 2 (drop 6 bytes)),
     fh_flags = le_word (take 2 (drop 8 bytes)), fh_reserved = le_word (take 2 (drop 10 bytes)),
     fh_length = le_word (take 4 (drop 12 bytes)), fh_request_id = le_word (take 8 (drop 16 bytes)),
     fh_crc = le_word (take 4 (drop 24 bytes))\<rparr>"
  using assms
  by (simp add: read_frame_header_def reader_defs kFrameHeaderBytes_def drop_take min_def)

lemma split_frame_head:
  "take 24 bytes = take 4 bytes @ take 2 (drop 4 bytes) @ take 2 (drop 6 bytes) @ take 2 (drop 8 bytes) @
    take 2 (drop 10 bytes) @ take 4 (drop 12 bytes) @ take 8 (drop 16 bytes)"
  using take_add [of 4 20 bytes] take_add [of 2 18 "drop 4 bytes"] take_add [of 2 16 "drop 6 bytes"]
    take_add [of 2 14 "drop 8 bytes"] take_add [of 2 12 "drop 10 bytes"] take_add [of 4 8 "drop 12 bytes"]
  by simp

lemma header_of_frame:
  "read_frame_header (frame_bytes f @ ts) = Some
    \<lparr>fh_version = fr_version f, fh_message = fr_message f, fh_flags = fr_flags f, fh_reserved = 0,
     fh_length = of_nat (length (fr_payload f)), fh_request_id = fr_request_id f,
     fh_crc = crc32c (frame_head f)\<rparr>"
proof -
  have "28 \<le> length (frame_bytes f @ ts)" by (simp add: length_frame_bytes)
  from read_frame_header_fields [OF this] show ?thesis
    by (simp add: frame_bytes_def sealed_def frame_head_def)
qed

section \<open>Exactly the written frames are accepted\<close>

lemma decode_frame_bytes:
  assumes "frame_ok limits f"
  shows "decode_frame (frame_bytes f) limits result = (Some f, set_limits (Some limits) result)"
proof -
  let ?bytes = "frame_bytes f" and ?n = "length (fr_payload f)"
  have parts: "take 4 ?bytes = kWireMagic" "take 24 ?bytes = frame_head f"
    "take ?n (drop 28 ?bytes) = fr_payload f"
    "drop (28 + ?n) ?bytes = le_bytes 4 (crc32c (fr_payload f))"
    by (simp_all add: frame_bytes_def sealed_def frame_head_def)
  obtain r where trailer: "r_u32 (byte_reader (le_bytes 4 (crc32c (fr_payload f)))) = (Some (crc32c (fr_payload f)), r)"
    by (simp add: reader_defs)
  show ?thesis
    using assms parts frame_length_u32 [OF assms] header_of_frame [of f "[]"] trailer
    by (simp add: decode_frame_def Let_def kFrameHeaderBytes_def kFrameTrailerBytes_def length_frame_bytes
        frame_ok_def not_less)
qed

lemma accepted_frame_checks:
  assumes "decode_frame bytes limits result = (Some f, result')" and "read_frame_header bytes = Some h"
  shows "take 4 bytes = kWireMagic" "fh_crc h = crc32c (take 24 bytes)" "fh_version h = kWireProtocolVersion"
    "fh_reserved h = 0" "fh_flags h = 0" "fh_message h \<noteq> 0 \<and> fh_message h \<le> MI_Response"
    "fh_length h \<le> max_frame_bytes limits" "length bytes = 32 + unat (fh_length h)"
    "fst (r_u32 (byte_reader (take 4 (drop (28 + unat (fh_length h)) bytes)))) =
       Some (crc32c (take (unat (fh_length h)) (drop 28 bytes)))"
    "f = \<lparr>fr_version = fh_version h, fr_message = fh_message h, fr_flags = fh_flags h,
       fr_request_id = fh_request_id h, fr_payload = take (unat (fh_length h)) (drop 28 bytes)\<rparr>"
    "result' = set_limits (Some limits) result"
proof -
  note d = assms(1) [unfolded decode_frame_def Let_def assms(2), simplified]
  show 1: "take 4 bytes = kWireMagic" "fh_crc h = crc32c (take 24 bytes)" "fh_version h = kWireProtocolVersion"
    "fh_reserved h = 0" "fh_flags h = 0" "fh_message h \<noteq> 0 \<and> fh_message h \<le> MI_Response"
    "fh_length h \<le> max_frame_bytes limits" "length bytes = 32 + unat (fh_length h)"
    using d by (simp_all add: kFrameHeaderBytes_def kFrameTrailerBytes_def not_less split: if_splits)
  obtain crc r where t: "r_u32 (byte_reader (take 4 (drop (28 + unat (fh_length h)) bytes))) = (crc, r)"
    by fastforce
  show "fst (r_u32 (byte_reader (take 4 (drop (28 + unat (fh_length h)) bytes)))) =
       Some (crc32c (take (unat (fh_length h)) (drop 28 bytes)))"
    "f = \<lparr>fr_version = fh_version h, fr_message = fh_message h, fr_flags = fh_flags h,
       fr_request_id = fh_request_id h, fr_payload = take (unat (fh_length h)) (drop 28 bytes)\<rparr>"
    "result' = set_limits (Some limits) result"
    using d 1 t
    by (simp_all add: kFrameHeaderBytes_def kFrameTrailerBytes_def split: if_splits option.splits)
qed

lemma accepted_frame:
  assumes "decode_frame bytes limits result = (Some f, result')"
  shows "frame_ok limits f \<and> bytes = frame_bytes f \<and> result' = set_limits (Some limits) result"
proof -
  have n: "28 \<le> length bytes"
    using assms by (auto simp: decode_frame_def Let_def kFrameHeaderBytes_def split: if_splits)
  define len where "len = (le_word (take 4 (drop 12 bytes)) :: u32)"
  note c = accepted_frame_checks [OF assms read_frame_header_fields [OF n], unfolded FrameHeader.simps,
      folded len_def]
  let ?p = "take (unat len) (drop 28 bytes)"
  have p: "length ?p = unat len" "fr_payload f = ?p" using c(8,10) by simp_all
  have le: "le_bytes 2 (le_word (take 2 (drop k bytes)) :: u16) = take 2 (drop k bytes)" if "k \<le> 26" for k
    using n that by (simp add: le_bytes_le_word)
  have le_len: "le_bytes 4 len = take 4 (drop 12 bytes)"
    unfolding len_def using n by (simp add: le_bytes_le_word)
  have le': "le_bytes 8 (le_word (take 8 (drop 16 bytes)) :: u64) = take 8 (drop 16 bytes)"
    "le_bytes 4 (le_word (take 4 (drop 24 bytes)) :: u32) = take 4 (drop 24 bytes)"
    "le_bytes 4 (le_word (drop (28 + unat len) bytes) :: u32) = drop (28 + unat len) bytes"
    using n c(8) by (simp_all add: le_bytes_le_word)
  have fields: "le_bytes 2 (fr_version f) = take 2 (drop 4 bytes)"
    "le_bytes 2 (fr_message f) = take 2 (drop 6 bytes)" "le_bytes 2 (fr_flags f) = take 2 (drop 8 bytes)"
    "le_bytes 2 (0 :: u16) = take 2 (drop 10 bytes)" "le_bytes 8 (fr_request_id f) = take 8 (drop 16 bytes)"
    "le_bytes 4 (of_nat (length (fr_payload f)) :: u32) = take 4 (drop 12 bytes)"
    using le [of 4] le [of 6] le [of 8] le [of 10] le_len le'(1) c(4) p unfolding c(10)
    by (simp_all only: Frame.simps) (simp_all add: p(1))
  have head: "take 24 bytes = frame_head f"
    unfolding frame_head_def fields split_frame_head [of bytes] c(1) ..
  have "take 28 bytes = sealed (frame_head f)"
    using take_add [of 24 4 bytes] le'(2) c(2) head by (simp add: sealed_def)
  moreover have "le_word (drop (28 + unat len) bytes) = crc32c ?p"
    using c(8,9) by (simp add: reader_defs)
  then have "drop 28 bytes = sealed (fr_payload f)"
    using append_take_drop_id [of "unat len" "drop 28 bytes"] le'(3) p
    by (simp add: sealed_def add.commute)
  ultimately have "bytes = frame_bytes f"
    using append_take_drop_id [of 28 bytes] by (simp add: frame_bytes_def)
  moreover have "frame_ok limits f"
    using c(3-7,10) p by (simp add: frame_ok_def word_le_nat_alt)
  ultimately show ?thesis using c(11) by simp
qed

lemma decode_frame_iff:
  "decode_frame bytes limits result = (Some f, result') \<longleftrightarrow>
     frame_ok limits f \<and> bytes = frame_bytes f \<and> result' = set_limits (Some limits) result"
  using accepted_frame decode_frame_bytes by metis

section \<open>One changed byte\<close>

lemma corrupted_frame_refused:
  assumes "i < length (frame_bytes f)" and "b \<noteq> frame_bytes f ! i"
  shows "(frame_bytes f)[i := b] \<noteq> frame_bytes g"
proof
  assume eq: "(frame_bytes f)[i := b] = frame_bytes g"
  have len: "length (fr_payload g) = length (fr_payload f)"
    using arg_cong [OF eq, of length] by (simp add: length_frame_bytes)
  let ?h = "sealed (frame_head f)"
  show False
  proof (cases "i < length ?h")
    case True
    then have "?h[i := b] = sealed (frame_head g)"
      using eq by (simp add: frame_bytes_def list_update_append)
    from sealed_update [OF this _ True] True assms(2) show False
      by (simp add: frame_bytes_def nth_append)
  next
    case False
    then have "(sealed (fr_payload f))[i - 28 := b] = sealed (fr_payload g)"
      using eq by (simp add: frame_bytes_def list_update_append)
    from sealed_update [OF this len] False assms show False
      by (simp add: frame_bytes_def nth_append)
  qed
qed

section \<open>Assembly\<close>

text \<open>
  \<open>drain\<close> is the inner loop of a connection, which takes frames until \<^verbatim>\<open>next\<close> returns false;
  \<open>receive\<close> alternates \<^verbatim>\<open>feed\<close> and \<open>drain\<close> over the chunks the transport delivers.
\<close>

lemma next_frame_some:
  assumes "next_frame limits result a = (Some f, result', a')"
  shows "frame_ok limits f" "fa_buffer a = frame_bytes f @ fa_buffer a'" "\<not> fa_overflowed a"
    "a' = a\<lparr>fa_buffer := fa_buffer a'\<rparr>"
proof -
  obtain total where t: "decode_frame (take total (fa_buffer a)) limits (set_limits (Some limits) result) =
      (Some f, result')" "a' = a\<lparr>fa_buffer := drop total (fa_buffer a)\<rparr>" "\<not> fa_overflowed a"
    using assms by (auto simp: next_frame_def Let_def split: if_splits option.splits prod.splits)
  from accepted_frame [OF t(1)] have "frame_ok limits f" "take total (fa_buffer a) = frame_bytes f"
    by simp_all
  with t show "frame_ok limits f" "fa_buffer a = frame_bytes f @ fa_buffer a'" "\<not> fa_overflowed a"
    "a' = a\<lparr>fa_buffer := fa_buffer a'\<rparr>"
    using append_take_drop_id [of total "fa_buffer a"] by simp_all
qed

function drain :: "Limits \<Rightarrow> FrameAssembler \<Rightarrow> Frame list \<times> FrameAssembler" where
  "drain limits a =
     (case next_frame limits vr_success a of
        (None, _, a') \<Rightarrow> ([], a')
      | (Some f, _, a') \<Rightarrow> (case drain limits a' of (fs, a'') \<Rightarrow> (f # fs, a'')))"
  by pat_completeness auto
termination
  by (relation "measure (\<lambda>(limits, a). length (fa_buffer a))")
     (auto dest!: next_frame_some(2) [OF sym] simp: length_frame_bytes)

declare drain.simps [simp del]

primrec receive :: "Limits \<Rightarrow> FrameAssembler \<Rightarrow> u8 list list \<Rightarrow> Frame list \<times> FrameAssembler" where
  "receive limits a [] = ([], a)"
| "receive limits a (c # cs) =
     (case drain limits (feed c a) of
        (fs, a') \<Rightarrow> (case receive limits a' cs of (gs, a'') \<Rightarrow> (fs @ gs, a'')))"

lemma set_limits_twice [simp]: "set_limits l (set_limits l' v) = set_limits l v"
  by (simp add: set_limits_def)

lemma next_frame_whole:
  assumes "frame_ok limits f" and "\<not> fa_overflowed a" and "fa_buffer a = frame_bytes f @ ts"
  shows "next_frame limits result a = (Some f, set_limits (Some limits) result, a\<lparr>fa_buffer := ts\<rparr>)"
proof -
  have n: "28 + unat (of_nat (length (fr_payload f)) :: u32) + 4 = length (frame_bytes f)"
    using frame_length_u32 [OF assms(1)] by (simp add: length_frame_bytes)
  show ?thesis
    using assms frame_length_u32 [OF assms(1)] header_of_frame [of f ts] n
      decode_frame_bytes [OF assms(1), of "set_limits (Some limits) result"]
    by (simp add: next_frame_def Let_def kFrameHeaderBytes_def kFrameTrailerBytes_def length_frame_bytes)
qed

lemma drain_stream:
  assumes "list_all (frame_ok limits) fs" and "\<not> fa_overflowed a"
    and "fa_buffer a = concat (map frame_bytes fs)"
  shows "drain limits a = (fs, a\<lparr>fa_buffer := []\<rparr>)"
  using assms
proof (induction fs arbitrary: a)
  case Nil
  then show ?case by (subst drain.simps) (simp add: next_frame_def Let_def kFrameHeaderBytes_def)
next
  case (Cons f fs)
  have "next_frame limits vr_success a =
      (Some f, set_limits (Some limits) vr_success, a\<lparr>fa_buffer := concat (map frame_bytes fs)\<rparr>)"
    using Cons.prems by (intro next_frame_whole) simp_all
  moreover have "drain limits (a\<lparr>fa_buffer := concat (map frame_bytes fs)\<rparr>) = (fs, a\<lparr>fa_buffer := []\<rparr>)"
    using Cons.IH [of "a\<lparr>fa_buffer := concat (map frame_bytes fs)\<rparr>"] Cons.prems by simp
  ultimately show ?case by (subst drain.simps) simp
qed

lemma read_frame_header_append:
  "28 \<le> length b \<Longrightarrow> read_frame_header (b @ c) = read_frame_header b"
  by (simp add: read_frame_header_def kFrameHeaderBytes_def)

lemma feed_feed: "feed d (feed c a) = feed (c @ d) a"
  by (simp add: feed_def)

lemma feed_nil [simp]: "feed [] a = a"
  by (simp add: feed_def)

lemma next_frame_none:
  assumes "next_frame limits result a = (None, result', a')"
  shows "a' = a \<or> (fa_overflowed a' \<and> fa_buffer a' = fa_buffer a \<and>
    (\<exists>result''. next_frame limits result (feed c a) = (None, result'', (feed c a)\<lparr>fa_overflowed := True\<rparr>)))"
  using assms
  by (auto simp: next_frame_def feed_def Let_def read_frame_header_append kFrameHeaderBytes_def
      split: if_splits option.splits prod.splits)

lemma drain_feed:
  assumes "drain limits a = (fs, a1)" and "drain limits (feed c a1) = (gs, a2)"
  shows "fst (drain limits (feed c a)) = fs @ gs"
  using assms
proof (induction limits a arbitrary: fs rule: drain.induct)
  case (1 limits a)
  obtain x r a' where n: "next_frame limits vr_success a = (x, r, a')" by (metis prod_cases3)
  show ?case
  proof (cases x)
    case None
    with n 1(2) have f: "fs = []" "a1 = a'" by (simp_all add: drain.simps [of limits a])
    show ?thesis
    proof (cases "a' = a")
      case True
      with 1(3) f show ?thesis by simp
    next
      case False
      with next_frame_none [of limits vr_success a r a' c] n None obtain r' where
        o: "fa_overflowed a'" "next_frame limits vr_success (feed c a) = (None, r', (feed c a)\<lparr>fa_overflowed := True\<rparr>)"
        by auto
      then have "gs = []"
        using 1(3) f by (auto simp: feed_def drain.simps [of limits a'] next_frame_def Let_def)
      with o(2) f show ?thesis by (simp add: drain.simps [of limits "feed c a"])
    qed
  next
    case (Some f)
    note s = next_frame_some [OF n [unfolded Some]]
    obtain hs where h: "drain limits a' = (hs, a1)" "fs = f # hs"
      using n Some 1(2) by (auto simp: drain.simps [of limits a] split: prod.splits)
    have "next_frame limits vr_success (feed c a) = (Some f, set_limits (Some limits) vr_success, feed c a')"
      using next_frame_whole [OF s(1), of "feed c a" "fa_buffer a' @ c" vr_success] s(2-4)
      by (cases a; cases a') (simp add: feed_def)
    moreover have "fst (drain limits (feed c a')) = hs @ gs"
      using 1(1) [OF n [unfolded Some, symmetric] refl refl h(1) 1(3)] .
    ultimately show ?thesis
      using h(2) by (cases "drain limits (feed c a')") (simp add: drain.simps [of limits "feed c a"])
  qed
qed

lemma drain_quiet: "drain limits a = (fs, a1) \<Longrightarrow> fst (drain limits a1) = []"
proof (induction limits a arbitrary: fs rule: drain.induct)
  case (1 limits a)
  obtain x r a' where n: "next_frame limits vr_success a = (x, r, a')" by (metis prod_cases3)
  show ?case
  proof (cases x)
    case None
    with n 1(2) have f: "a1 = a'" by (simp add: drain.simps [of limits a])
    from next_frame_none [of limits vr_success a r a' "[]"] n None have
      "a' = a \<or> fa_overflowed a'" by auto
    then show ?thesis
      using f n None by (auto simp: drain.simps [of limits a'] next_frame_def Let_def)
  next
    case (Some f)
    with n 1(2) obtain hs where "drain limits a' = (hs, a1)"
      by (auto simp: drain.simps [of limits a] split: prod.splits)
    with 1(1) [OF n [unfolded Some, symmetric] refl refl] show ?thesis by simp
  qed
qed

lemma receive_concat:
  assumes "fst (drain limits a) = []"
  shows "fst (receive limits a cs) = fst (drain limits (feed (concat cs) a))"
  using assms
proof (induction cs arbitrary: a)
  case (Cons c cs)
  obtain fs a1 where d: "drain limits (feed c a) = (fs, a1)" by fastforce
  obtain gs a2 where e: "drain limits (feed (concat cs) a1) = (gs, a2)" by fastforce
  from Cons.IH [OF drain_quiet [OF d]] e have "fst (receive limits a1 cs) = gs" by simp
  moreover from drain_feed [OF d e] have "fst (drain limits (feed (concat (c # cs)) a)) = fs @ gs"
    by (simp add: feed_feed)
  ultimately show ?case using d by (cases "receive limits a1 cs") simp
qed simp

lemma drain_new: "fst (drain limits new_assembler) = []"
  by (simp add: drain.simps new_assembler_def next_frame_def Let_def kFrameHeaderBytes_def)

text \<open>
  What an assembler holds between chunks is bounded: less than one frame, or the buffer has been given up.
\<close>

lemma next_frame_quiet:
  assumes "next_frame limits result a = (None, result', a')" and "\<not> fa_overflowed a'"
  shows "length (fa_buffer a') < 32 + unat (max_frame_bytes limits)"
proof -
  have le: "n \<le> max_frame_bytes limits \<Longrightarrow> unat n \<le> unat (max_frame_bytes limits)" for n
    by (simp add: word_le_nat_alt)
  from assms show ?thesis
    by (auto simp: next_frame_def Let_def kFrameHeaderBytes_def kFrameTrailerBytes_def not_less
        read_frame_header_fields split: if_splits option.splits prod.splits dest!: le)
qed

lemma drain_bounded:
  assumes "drain limits a = (fs, a1)" and "\<not> fa_overflowed a1"
  shows "length (fa_buffer a1) < 32 + unat (max_frame_bytes limits)"
  using assms
proof (induction limits a arbitrary: fs rule: drain.induct)
  case (1 limits a)
  obtain x r a' where n: "next_frame limits vr_success a = (x, r, a')" by (metis prod_cases3)
  show ?case
  proof (cases x)
    case None
    with n 1(2,3) next_frame_quiet [of limits vr_success a r a'] show ?thesis
      by (simp add: drain.simps [of limits a])
  next
    case (Some f)
    with n 1(2) obtain hs where "drain limits a' = (hs, a1)"
      by (auto simp: drain.simps [of limits a] split: prod.splits)
    with 1(1) [OF n [unfolded Some, symmetric] refl refl] 1(3) show ?thesis by simp
  qed
qed

lemma receive_bounded:
  assumes "length (fa_buffer a) < 32 + unat (max_frame_bytes limits)"
  shows "fa_overflowed (snd (receive limits a cs)) \<or>
    length (fa_buffer (snd (receive limits a cs))) < 32 + unat (max_frame_bytes limits)"
  using assms
proof (induction cs arbitrary: a)
  case (Cons c cs)
  obtain fs a1 where d: "drain limits (feed c a) = (fs, a1)" by fastforce
  show ?case
  proof (cases "fa_overflowed a1")
    case True
    then have "fa_overflowed (snd (receive limits a1 ds))" for ds
    proof (induction ds)
      case (Cons e ds)
      then have "drain limits (feed e a1) = ([], a1)"
        by (simp add: feed_def drain.simps [of limits a1] next_frame_def Let_def)
      with Cons show ?case by (cases "receive limits a1 ds") simp
    qed simp
    with d show ?thesis by (cases "receive limits a1 cs") (metis receive.simps(2) case_prod_conv snd_conv)
  next
    case False
    with Cons.IH [OF drain_bounded [OF d]] d show ?thesis by (cases "receive limits a1 cs") simp
  qed
qed simp

end
