(* ===== verification/Explain.thy ===== *)
theory Explain
  imports StoreMaintenance "HOL-Library.Multiset"
begin

text \<open>
  Snapshot comparison and explanations (\<^verbatim>\<open>explain.cpp\<close>, \<^verbatim>\<open>snapshot.hpp\<close>). Both are bounded
  presentations: every finding is counted, the first ones are kept, and a flag says whether any was
  dropped. That contract is stated once and both are instances of it. An operation that reads the
  store and the evidence is taken at one moment.
\<close>

section \<open>Bounded presentations\<close>

locale bounded_log =
  fixes push :: "'e \<Rightarrow> 's \<Rightarrow> 's"
    and entries :: "'s \<Rightarrow> 'e list"
    and total :: "'s \<Rightarrow> u32"
    and truncated :: "'s \<Rightarrow> bool"
    and limit :: nat
  assumes push_entries:
      "entries (push e s) = (if length (entries s) \<ge> limit then entries s else entries s @ [e])"
    and push_total: "total (push e s) = total s + 1"
    and push_truncated: "truncated (push e s) \<longleftrightarrow> truncated s \<or> length (entries s) \<ge> limit"
begin

lemma fold_entries:
  assumes "length (entries s) \<le> limit"
  shows "entries (fold push es s) = take limit (entries s @ es)"
  using assms
proof (induction es arbitrary: s)
  case (Cons e es)
  show ?case
  proof (cases "length (entries s) \<ge> limit")
    case True
    with Cons.prems Cons.IH [of "push e s"] show ?thesis by (simp add: push_entries)
  next
    case False
    with Cons.prems Cons.IH [of "push e s"] show ?thesis by (simp add: push_entries)
  qed
qed simp

lemma fold_total: "total (fold push es s) = total s + of_nat (length es)"
  by (induction es arbitrary: s) (simp_all add: push_total algebra_simps)

lemma fold_truncated:
  assumes "length (entries s) \<le> limit"
  shows "truncated (fold push es s) \<longleftrightarrow> truncated s \<or> limit < length (entries s) + length es"
  using assms
proof (induction es arbitrary: s)
  case (Cons e es)
  then show ?case
    using Cons.IH [of "push e s"] by (auto simp: push_entries push_truncated split: if_splits)
qed simp

lemma bounded_prefix:
  assumes "entries s = []" and "\<not> truncated s" and "total s = 0"
  shows "entries (fold push es s) = take limit es \<and>
    (truncated (fold push es s) \<longleftrightarrow> limit < length es) \<and>
    total (fold push es s) = of_nat (length es)"
  using assms fold_entries [of s es] fold_truncated [of s es] fold_total [of es s] by simp

end

section \<open>Snapshot diff\<close>

datatype DiffKind =
  DK_Invalid | DK_Insert | DK_Remove | DK_Replace | DK_Reorder | DK_ProfileChange | DK_PolicyChange
  | DK_DependencyChange | DK_CurrentnessChange | DK_LifecycleChange | DK_GenerationAdvance
  | DK_StrictnessChange | DK_AuthorityChange | DK_Created | DK_Destroyed

primrec diff_kind_name :: "DiffKind \<Rightarrow> string" where
  "diff_kind_name DK_Invalid = ''Invalid''"
| "diff_kind_name DK_Insert = ''Insert''"
| "diff_kind_name DK_Remove = ''Remove''"
| "diff_kind_name DK_Replace = ''Replace''"
| "diff_kind_name DK_Reorder = ''Reorder''"
| "diff_kind_name DK_ProfileChange = ''ProfileChange''"
| "diff_kind_name DK_PolicyChange = ''PolicyChange''"
| "diff_kind_name DK_DependencyChange = ''DependencyChange''"
| "diff_kind_name DK_CurrentnessChange = ''CurrentnessChange''"
| "diff_kind_name DK_LifecycleChange = ''LifecycleChange''"
| "diff_kind_name DK_GenerationAdvance = ''GenerationAdvance''"
| "diff_kind_name DK_StrictnessChange = ''StrictnessChange''"
| "diff_kind_name DK_AuthorityChange = ''AuthorityChange''"
| "diff_kind_name DK_Created = ''Created''"
| "diff_kind_name DK_Destroyed = ''Destroyed''"

record DiffEntry =
  de_kind :: DiffKind
  de_index :: u32
  de_other_index :: u32
  de_detail :: u64

abbreviation diff_entry :: "DiffKind \<Rightarrow> u32 \<Rightarrow> u32 \<Rightarrow> u64 \<Rightarrow> DiffEntry" where
  "diff_entry k i j d \<equiv> \<lparr>de_kind = k, de_index = i, de_other_index = j, de_detail = d\<rparr>"

record SnapshotDiff =
  sd_from :: SnapshotId
  sd_to :: SnapshotId
  sd_list :: SegmentListId
  sd_entries :: "DiffEntry list"
  sd_total_entries :: u32
  sd_truncated :: bool
  sd_order_changed :: bool

definition diff_contains :: "DiffKind \<Rightarrow> SnapshotDiff \<Rightarrow> bool" where
  "diff_contains kind d = list_ex (\<lambda>e. de_kind e = kind) (sd_entries d)"

definition diff_complete :: "SnapshotDiff \<Rightarrow> bool" where
  "diff_complete d \<longleftrightarrow> \<not> sd_truncated d"

definition snapshot_valid :: "SegmentListSnapshot \<Rightarrow> bool" where
  "snapshot_valid s \<longleftrightarrow> valid (ss_id s)"

definition diff_add :: "Limits \<Rightarrow> DiffEntry \<Rightarrow> SnapshotDiff \<Rightarrow> SnapshotDiff" where
  "diff_add limits e r =
     (let r = r\<lparr>sd_total_entries := sd_total_entries r + 1\<rparr> in
      if length (sd_entries r) \<ge> unat (max_diff_entries limits) then r\<lparr>sd_truncated := True\<rparr>
      else r\<lparr>sd_entries := sd_entries r @ [e]\<rparr>)"

definition note_if :: "bool \<Rightarrow> DiffKind \<Rightarrow> u64 \<Rightarrow> DiffEntry list" where
  "note_if c kind detail = (if c then [diff_entry kind 0 0 detail] else [])"

text \<open>The changes outside the segment sequence, in program order.\<close>

definition field_changes :: "SegmentList \<Rightarrow> SegmentList \<Rightarrow> DiffEntry list" where
  "field_changes from to =
     (let f = sl_content from; t = sl_content to in
      note_if (sl_generation to \<noteq> sl_generation from) DK_GenerationAdvance (sl_generation to) @
      note_if (sl_state from \<noteq> sl_state to) DK_LifecycleChange (of_nat (state_value (sl_state to))) @
      note_if (sl_currentness from \<noteq> sl_currentness to) DK_CurrentnessChange
        (of_nat (currentness_value (sl_currentness to))) @
      note_if (lc_profile f \<noteq> lc_profile t \<or> lc_profile_generation f \<noteq> lc_profile_generation t)
        DK_ProfileChange (lc_profile t) @
      note_if (lc_policy f \<noteq> lc_policy t \<or> lc_policy_generation f \<noteq> lc_policy_generation t)
        DK_PolicyChange (lc_policy t) @
      note_if (lc_strictness f \<noteq> lc_strictness t) DK_StrictnessChange
        (of_nat (strictness_value (lc_strictness t))) @
      note_if (lc_topology f \<noteq> lc_topology t) DK_DependencyChange (lc_topology t) @
      note_if (lc_capability f \<noteq> lc_capability t) DK_DependencyChange (lc_capability t) @
      note_if (lc_path_authority f \<noteq> lc_path_authority t) DK_DependencyChange (lc_path_authority t) @
      note_if (lc_route_generation f \<noteq> lc_route_generation t) DK_DependencyChange (lc_route_generation t) @
      note_if (lc_constraint_generation f \<noteq> lc_constraint_generation t) DK_DependencyChange
        (lc_constraint_generation t) @
      note_if (sl_authority from \<noteq> sl_authority to) DK_AuthorityChange (la_epoch (sl_authority to)))"

definition compare_width :: "SegmentList \<Rightarrow> SegmentList \<Rightarrow> u32" where
  "compare_width from to =
     fold (\<lambda>s w. max w (of_nat (length (seg_payload s))))
       (lc_segments (sl_content from) @ lc_segments (sl_content to)) 1"

definition segment_digests :: "SegmentList \<Rightarrow> u32 \<Rightarrow> Digest128 list" where
  "segment_digests list payload_width =
     map (\<lambda>s. digest128 (canonical_segment_bytes s payload_width)) (lc_segments (sl_content list))"

definition digest_key :: "Digest128 \<Rightarrow> u64 \<times> u64" where
  "digest_key d = (dg_hi d, dg_lo d)"

text \<open>Both sequences sorted by the order of \<^verbatim>\<open>Digest128\<close> are equal.\<close>

definition same_multiset :: "Digest128 list \<Rightarrow> Digest128 list \<Rightarrow> bool" where
  "same_multiset before after \<longleftrightarrow> sort (map digest_key before) = sort (map digest_key after)"

definition order_changed :: "Digest128 list \<Rightarrow> Digest128 list \<Rightarrow> bool" where
  "order_changed before after \<longleftrightarrow>
     before \<noteq> after \<and> same_multiset before after \<and> length before = length after"

definition position_changes :: "DiffKind \<Rightarrow> Digest128 list \<Rightarrow> Digest128 list \<Rightarrow> DiffEntry list" where
  "position_changes kind before after =
     concat (map (\<lambda>i. if before ! i = after ! i then []
                      else [diff_entry kind (of_nat i) (of_nat i) (dg_lo (after ! i))])
       [0..<min (length before) (length after)])"

definition extra_changes :: "DiffKind \<Rightarrow> nat \<Rightarrow> Digest128 list \<Rightarrow> DiffEntry list" where
  "extra_changes kind common ds =
     map (\<lambda>i. diff_entry kind (of_nat i) (of_nat i) (dg_lo (ds ! i))) [common..<length ds]"

definition sequence_changes :: "Digest128 list \<Rightarrow> Digest128 list \<Rightarrow> DiffEntry list" where
  "sequence_changes before after =
     (let common = min (length before) (length after) in
      if before = after then []
      else if order_changed before after then position_changes DK_Reorder before after
      else position_changes DK_Replace before after @ extra_changes DK_Insert common after @
           extra_changes DK_Remove common before)"

definition all_changes :: "SegmentListSnapshot \<Rightarrow> SegmentListSnapshot \<Rightarrow> DiffEntry list" where
  "all_changes from to =
     (let f = ss_list from; t = ss_list to in
      if \<not> snapshot_valid from \<and> \<not> snapshot_valid to then []
      else if \<not> snapshot_valid from then [diff_entry DK_Created 0 0 (sl_generation t)]
      else if \<not> snapshot_valid to then [diff_entry DK_Destroyed 0 0 (sl_generation f)]
      else if lc_id (sl_content f) \<noteq> lc_id (sl_content t)
      then [diff_entry DK_Destroyed 0 0 (lc_id (sl_content f)),
            diff_entry DK_Created 0 0 (lc_id (sl_content t))]
      else
        (let w = compare_width f t in
         field_changes f t @ sequence_changes (segment_digests f w) (segment_digests t w)))"

definition diff :: "Limits \<Rightarrow> SegmentListSnapshot \<Rightarrow> SegmentListSnapshot \<Rightarrow> SnapshotDiff" where
  "diff limits from to =
     (let f = ss_list from; t = ss_list to; w = compare_width f t;
          result = \<lparr>sd_from = ss_id from, sd_to = ss_id to,
            sd_list = (if snapshot_valid to then lc_id (sl_content t) else lc_id (sl_content f)),
            sd_entries = [], sd_total_entries = 0, sd_truncated = False, sd_order_changed = False\<rparr>;
          result = fold (diff_add limits) (all_changes from to) result
      in if snapshot_valid from \<and> snapshot_valid to \<and> lc_id (sl_content f) = lc_id (sl_content t)
         then result\<lparr>sd_order_changed := order_changed (segment_digests f w) (segment_digests t w)\<rparr>
         else result)"

interpretation diff_log: bounded_log "diff_add limits" sd_entries sd_total_entries sd_truncated
  "unat (max_diff_entries limits)" for limits
  by unfold_locales (simp_all add: diff_add_def Let_def)

section \<open>Explanations\<close>

datatype ExplanationTopic =
  ET_Invalid | ET_WhyActive | ET_WhyNotActive | ET_WhySegmentInvalid | ET_MissingCapability
  | ET_StaleTopology | ET_WhySuperseded | ET_WhyRevalidationRequired | ET_Currentness | ET_Lineage

primrec explanation_topic_name :: "ExplanationTopic \<Rightarrow> string" where
  "explanation_topic_name ET_Invalid = ''Invalid''"
| "explanation_topic_name ET_WhyActive = ''WhyActive''"
| "explanation_topic_name ET_WhyNotActive = ''WhyNotActive''"
| "explanation_topic_name ET_WhySegmentInvalid = ''WhySegmentInvalid''"
| "explanation_topic_name ET_MissingCapability = ''MissingCapability''"
| "explanation_topic_name ET_StaleTopology = ''StaleTopology''"
| "explanation_topic_name ET_WhySuperseded = ''WhySuperseded''"
| "explanation_topic_name ET_WhyRevalidationRequired = ''WhyRevalidationRequired''"
| "explanation_topic_name ET_Currentness = ''Currentness''"
| "explanation_topic_name ET_Lineage = ''Lineage''"

record Explanation =
  ex_topic :: ExplanationTopic
  ex_list :: SegmentListId
  ex_generation :: SegmentListGeneration
  ex_state :: LifecycleState
  ex_currentness :: Currentness
  ex_entries :: "Reason list"
  ex_total_entries :: u32
  ex_truncated :: bool

definition explanation_contains :: "ReasonCode \<Rightarrow> Explanation \<Rightarrow> bool" where
  "explanation_contains code x = list_ex (\<lambda>e. rs_code e = code) (ex_entries x)"

definition explanation_complete :: "Explanation \<Rightarrow> bool" where
  "explanation_complete x \<longleftrightarrow> \<not> ex_truncated x"

definition new_explanation :: "ExplanationTopic \<Rightarrow> SegmentListId \<Rightarrow> Explanation" where
  "new_explanation topic i = \<lparr>ex_topic = topic, ex_list = i, ex_generation = 0, ex_state = LS_Invalid,
     ex_currentness = Cu_Unknown, ex_entries = [], ex_total_entries = 0, ex_truncated = False\<rparr>"

text \<open>An \<^verbatim>\<open>ExplanationEntry\<close> has the fields of a \<^verbatim>\<open>Reason\<close>: a code, an index and a detail.\<close>

definition push_entry :: "Limits \<Rightarrow> Reason \<Rightarrow> Explanation \<Rightarrow> Explanation" where
  "push_entry limits e x =
     (let x = x\<lparr>ex_total_entries := ex_total_entries x + 1\<rparr> in
      if length (ex_entries x) \<ge> unat (max_explanation_entries limits) then x\<lparr>ex_truncated := True\<rparr>
      else x\<lparr>ex_entries := ex_entries x @ [e]\<rparr>)"

interpretation explanation_log: bounded_log "push_entry limits" ex_entries ex_total_entries ex_truncated
  "unat (max_explanation_entries limits)" for limits
  by unfold_locales (simp_all add: push_entry_def Let_def)

definition describes :: "SegmentList \<Rightarrow> Explanation \<Rightarrow> Explanation" where
  "describes l x = x\<lparr>ex_generation := sl_generation l, ex_state := sl_state l,
     ex_currentness := sl_currentness l\<rparr>"

definition not_found :: "Limits \<Rightarrow> SegmentListId \<Rightarrow> Explanation \<Rightarrow> Explanation" where
  "not_found limits i x = push_entry limits (reason RC_ListNotFound 0 i) x"

definition explain_topic :: "SegmentList \<Rightarrow> ExplanationTopic" where
  "explain_topic l =
     (if sl_state l = LS_Active \<and> sl_currentness l = Cu_Current then ET_WhyActive
      else if sl_currentness l \<in> {Cu_RevalidationRequired, Cu_StaleCapability, Cu_StaleTopology,
                Cu_StaleProfile, Cu_StalePolicy, Cu_StaleEpoch, Cu_StalePathAuthority,
                Cu_StaleRouteBinding, Cu_StaleConstraintBinding, Cu_FencedPublisher}
      then ET_WhyRevalidationRequired else ET_WhyNotActive)"

definition explain :: "SegmentListId \<Rightarrow> 'p Store \<Rightarrow> Explanation" where
  "explain i s =
     (case find_locked s i of
        None \<Rightarrow> not_found (st_limits s) i (new_explanation ET_WhyNotActive i)
      | Some l \<Rightarrow>
          fold (push_entry (st_limits s))
            (if explain_topic l = ET_WhyActive
             then [reason RC_CurrentnessCurrent 0 (sl_generation l)]
             else [reason (currentness_reason (sl_currentness l)) 0 (sl_generation l),
                   reason RC_CurrentnessCurrent 0 (of_nat (state_value (sl_state l)))])
            (describes l (new_explanation (explain_topic l) i)))"

definition segment_request :: "SegmentList \<Rightarrow> 'p Store \<Rightarrow> ValidationRequest" where
  "segment_request l s =
     (let profile = find_profile (lc_profile (sl_content l)) (st_registry s) in
      empty_request\<lparr>vq_limits := Some (st_limits s), vq_list_id := lc_id (sl_content l),
        vq_scope := lc_scope (sl_content l), vq_profile := profile, vq_profile_found := profile \<noteq> None,
        vq_profile_id := lc_profile (sl_content l), vq_segments := lc_segments (sl_content l),
        vq_evidence := map_option snapshot (st_evidence s), vq_topology := lc_topology (sl_content l),
        vq_full := True\<rparr>)"

definition explain_segment :: "SegmentListId \<Rightarrow> u32 \<Rightarrow> 'p Store \<Rightarrow> Explanation" where
  "explain_segment i index s =
     (let x = new_explanation ET_WhySegmentInvalid i in
      case find_locked s i of
        None \<Rightarrow> not_found (st_limits s) i x
      | Some l \<Rightarrow>
          (let x = describes l x; n = length (lc_segments (sl_content l)) in
           if unat index \<ge> n
           then push_entry (st_limits s) (reason RC_InvalidArgument index (of_nat n)) x
           else
             (let found = filter (\<lambda>r. rs_index r = index)
                    (vr_reasons (validate_request (segment_request l s)))
              in if found = [] then push_entry (st_limits s) (reason RC_Ok index 0) x
                 else fold (push_entry (st_limits s)) found x)))"

definition entry_if :: "bool \<Rightarrow> ReasonCode \<Rightarrow> u64 \<Rightarrow> Reason list" where
  "entry_if c code detail = (if c then [reason code 0 detail] else [])"

definition currentness_entries :: "SegmentList \<Rightarrow> Reason list" where
  "currentness_entries l =
     (let c = sl_content l in
      [reason (currentness_reason (sl_currentness l)) 0 (sl_generation l)] @
      entry_if (valid (lc_profile_generation c)) RC_CurrentnessStaleProfile (lc_profile_generation c) @
      entry_if (valid (lc_capability c)) RC_CurrentnessStaleCapability (lc_capability c) @
      entry_if (valid (lc_topology c)) RC_CurrentnessStaleTopology (lc_topology c) @
      entry_if (valid (lc_path_authority c)) RC_CurrentnessStalePathAuthority (lc_path_authority c) @
      entry_if (valid (lc_route_generation c)) RC_CurrentnessStaleRouteBinding (lc_route_generation c) @
      entry_if (valid (lc_constraint_generation c)) RC_CurrentnessStaleConstraintBinding
        (lc_constraint_generation c) @
      [reason RC_CurrentnessStaleEpoch 0 (la_epoch (sl_authority l))])"

definition explain_currentness :: "SegmentListId \<Rightarrow> 'p Store \<Rightarrow> Explanation" where
  "explain_currentness i s =
     (let x = new_explanation ET_Currentness i in
      case find_locked s i of
        None \<Rightarrow> not_found (st_limits s) i x
      | Some l \<Rightarrow> fold (push_entry (st_limits s)) (currentness_entries l) (describes l x))"

definition explain_supersession :: "SegmentListId \<Rightarrow> 'p Store \<Rightarrow> Explanation" where
  "explain_supersession i s =
     (let x = new_explanation ET_WhySuperseded i in
      case find_locked s i of
        None \<Rightarrow> not_found (st_limits s) i x
      | Some l \<Rightarrow>
          (let x = describes l x; lineage = sl_lineage l in
           if sl_state l = LS_Superseded
           then fold (push_entry (st_limits s))
                  [reason RC_ListSuperseded 0 (ln_superseded_by lineage),
                   reason RC_CurrentnessCurrent 0 (ln_supersedes lineage)] x
           else if valid (ln_supersedes lineage)
           then push_entry (st_limits s) (reason RC_Ok 0 (ln_supersedes lineage)) x
           else push_entry (st_limits s) (reason RC_ListNotFound 0 i) x))"

definition store_evidence :: "'p Store \<Rightarrow> FabricEvidence" where
  "store_evidence s = (case st_evidence s of None \<Rightarrow> empty_evidence | Some e \<Rightarrow> snapshot e)"

definition capability_entries :: "FabricEvidence \<Rightarrow> CapabilityKey \<Rightarrow> Reason list" where
  "capability_entries e key =
     (case find_capability e key of
        None \<Rightarrow> [reason RC_CapabilityMissing 0 key]
      | Some r \<Rightarrow>
          if \<not> cr_supported r then [reason RC_CapabilityUnsupported 0 key]
          else if cr_generation r \<noteq> fe_capability e
          then [reason RC_CapabilityGenerationMismatch 0 (cr_generation r)]
          else [])"

definition explain_missing_capability :: "SegmentListId \<Rightarrow> 'p Store \<Rightarrow> Explanation" where
  "explain_missing_capability i s =
     (let x = new_explanation ET_MissingCapability i in
      case find_locked s i of
        None \<Rightarrow> not_found (st_limits s) i x
      | Some l \<Rightarrow>
          (let x = describes l x in
           case find_profile (lc_profile (sl_content l)) (st_registry s) of
             None \<Rightarrow> push_entry (st_limits s) (reason RC_ProfileUnknown 0 (lc_profile (sl_content l))) x
           | Some p \<Rightarrow>
               (let x = fold (push_entry (st_limits s))
                      (concat (map (capability_entries (store_evidence s)) (pf_required_capabilities p))) x
                in if ex_entries x = []
                   then push_entry (st_limits s) (reason RC_Ok 0 (pf_id p)) x else x)))"

definition adjacency_entries :: "FabricEvidence \<Rightarrow> nat \<times> Segment \<Rightarrow> Reason list" where
  "adjacency_entries e q =
     (case q of (i, seg) \<Rightarrow>
        if seg_kind seg \<noteq> SK_Adjacency then []
        else
          (case find_adjacency e (seg_adjacency seg) of
             None \<Rightarrow> [reason RC_TopologyAdjacencyUnknown (of_nat i) (seg_adjacency seg)]
           | Some r \<Rightarrow>
               if ar_topology r \<noteq> seg_topology seg
               then [reason RC_TopologyAdjacencyStale (of_nat i) (ar_topology r)]
               else [reason RC_Ok (of_nat i) (ar_topology r)]))"

definition explain_stale_topology :: "SegmentListId \<Rightarrow> 'p Store \<Rightarrow> Explanation" where
  "explain_stale_topology i s =
     (let x = new_explanation ET_StaleTopology i in
      case find_locked s i of
        None \<Rightarrow> not_found (st_limits s) i x
      | Some l \<Rightarrow>
          (let c = sl_content l; e = store_evidence s;
               any = list_ex (\<lambda>seg. seg_kind seg = SK_Adjacency) (lc_segments c)
           in fold (push_entry (st_limits s))
                (concat (map (adjacency_entries e) (enumerate 0 (lc_segments c))) @
                 entry_if (valid (lc_topology c) \<and> valid (fe_topology e) \<and> lc_topology c \<noteq> fe_topology e)
                   RC_TopologyGenerationMismatch (fe_topology e) @
                 entry_if (\<not> any \<and> \<not> valid (lc_topology c)) RC_Ok 0)
                (describes l x)))"

section \<open>What a diff reports\<close>

lemma digest_key_inj [simp]: "digest_key a = digest_key b \<longleftrightarrow> a = b"
  by (auto simp: digest_key_def)

lemma same_multiset_iff: "same_multiset before after \<longleftrightarrow> mset before = mset after"
proof -
  have "inj digest_key" by (simp add: inj_def)
  then have "mset (map digest_key before) = mset (map digest_key after) \<longleftrightarrow> mset before = mset after"
    using multiset.inj_map [of digest_key] by (simp add: inj_eq)
  moreover have "sort xs = sort ys \<longleftrightarrow> mset xs = mset ys" for xs ys :: "(u64 \<times> u64) list"
  proof
    assume "sort xs = sort ys"
    then have "mset (sort xs) = mset (sort ys)" by simp
    then show "mset xs = mset ys" by simp
  qed (rule properties_for_sort, simp_all)
  ultimately show ?thesis by (simp add: same_multiset_def)
qed

lemma order_changed_iff: "order_changed before after \<longleftrightarrow> before \<noteq> after \<and> mset before = mset after"
  by (auto simp: order_changed_def same_multiset_iff dest: mset_eq_length)

lemma position_changes_empty:
  "position_changes k before after = [] \<longleftrightarrow>
     (\<forall>i < min (length before) (length after). before ! i = after ! i)"
  by (fastforce simp: position_changes_def)

lemma extra_changes_empty: "extra_changes k common ds = [] \<longleftrightarrow> length ds \<le> common"
  by (auto simp: extra_changes_def)

lemma sequence_changes_empty: "sequence_changes before after = [] \<longleftrightarrow> before = after"
proof
  assume e: "sequence_changes before after = []"
  show "before = after"
  proof (rule ccontr)
    assume "before \<noteq> after"
    with e have "length before = length after \<and> (\<forall>i < length before. before ! i = after ! i)"
      by (auto simp: sequence_changes_def position_changes_empty extra_changes_empty Let_def
          order_changed_def split: if_splits)
    with \<open>before \<noteq> after\<close> show False by (auto intro: nth_equalityI)
  qed
qed (simp add: sequence_changes_def)

text \<open>The fields a diff compares: two revisions that agree on them are reported unchanged.\<close>

definition same_governed :: "SegmentList \<Rightarrow> SegmentList \<Rightarrow> bool" where
  "same_governed f t \<longleftrightarrow>
     (let c = sl_content f; d = sl_content t; w = compare_width f t in
      sl_generation f = sl_generation t \<and> sl_state f = sl_state t \<and> sl_currentness f = sl_currentness t \<and>
      sl_authority f = sl_authority t \<and>
      (lc_profile c, lc_profile_generation c, lc_policy c, lc_policy_generation c, lc_strictness c) =
      (lc_profile d, lc_profile_generation d, lc_policy d, lc_policy_generation d, lc_strictness d) \<and>
      (lc_topology c, lc_capability c, lc_path_authority c, lc_route_generation c, lc_constraint_generation c) =
      (lc_topology d, lc_capability d, lc_path_authority d, lc_route_generation d, lc_constraint_generation d) \<and>
      segment_digests f w = segment_digests t w)"

lemma all_changes_empty:
  assumes "snapshot_valid from" and "snapshot_valid to"
    and "lc_id (sl_content (ss_list from)) = lc_id (sl_content (ss_list to))"
  shows "all_changes from to = [] \<longleftrightarrow> same_governed (ss_list from) (ss_list to)"
  using assms
  by (auto simp: all_changes_def field_changes_def note_if_def same_governed_def Let_def
      sequence_changes_empty)

text \<open>
  C38: a snapshot diff is an exact bounded comparison. For two snapshots of one list it keeps the first
  entries of the complete comparison up to the configured bound, counts all of them, and is flagged
  truncated exactly when some were dropped; the complete comparison is empty exactly when the two
  revisions agree on every compared field and, position by position, on the segment digests; and the
  order flag is set exactly when the segments are a different arrangement of the same ones.
\<close>

theorem snapshot_diff_exact:
  assumes "snapshot_valid from" and "snapshot_valid to"
    and "lc_id (sl_content (ss_list from)) = lc_id (sl_content (ss_list to))"
  shows "sd_entries (diff limits from to) = take (unat (max_diff_entries limits)) (all_changes from to) \<and>
    sd_total_entries (diff limits from to) = of_nat (length (all_changes from to)) \<and>
    (sd_truncated (diff limits from to) \<longleftrightarrow> unat (max_diff_entries limits) < length (all_changes from to)) \<and>
    (all_changes from to = [] \<longleftrightarrow> same_governed (ss_list from) (ss_list to)) \<and>
    (let w = compare_width (ss_list from) (ss_list to);
         before = segment_digests (ss_list from) w; after = segment_digests (ss_list to) w in
     sd_order_changed (diff limits from to) \<longleftrightarrow> before \<noteq> after \<and> mset before = mset after)"
proof -
  define r where "r = \<lparr>sd_from = ss_id from, sd_to = ss_id to,
      sd_list = (if snapshot_valid to then lc_id (sl_content (ss_list to)) else lc_id (sl_content (ss_list from))),
      sd_entries = [], sd_total_entries = 0, sd_truncated = False, sd_order_changed = False\<rparr>"
  have "diff limits from to = (fold (diff_add limits) (all_changes from to) r)
      \<lparr>sd_order_changed := order_changed
         (segment_digests (ss_list from) (compare_width (ss_list from) (ss_list to)))
         (segment_digests (ss_list to) (compare_width (ss_list from) (ss_list to)))\<rparr>"
    using assms by (simp add: diff_def r_def Let_def)
  then show ?thesis
    using diff_log.bounded_prefix [of r limits "all_changes from to"] all_changes_empty [OF assms]
    by (simp add: order_changed_iff r_def Let_def)
qed

definition snapshot_example :: "SnapshotId \<Rightarrow> Segment list \<Rightarrow> SegmentListSnapshot" where
  "snapshot_example i segments = \<lparr>ss_id = i, ss_revision = 1, ss_epoch = 1,
     ss_list = empty_list\<lparr>sl_content := (sl_content empty_list)\<lparr>lc_id := 11, lc_segments := segments\<rparr>\<rparr>,
     ss_digest = zero_digest\<rparr>"

theorem snapshot_diff_exact_witness:
  "sd_entries (diff default_limits (snapshot_example 1 []) (snapshot_example 2 [])) = [] \<and>
   \<not> sd_truncated (diff default_limits (snapshot_example 1 []) (snapshot_example 2 []))"
proof -
  have "same_governed (ss_list (snapshot_example 1 [])) (ss_list (snapshot_example 2 []))"
    by (simp add: same_governed_def snapshot_example_def Let_def)
  then show ?thesis
    using snapshot_diff_exact [of "snapshot_example 1 []" "snapshot_example 2 []" default_limits]
    by (simp add: snapshot_valid_def snapshot_example_def valid_def)
qed

end
