(* ===== verification/Coordinator.thy ===== *)
theory Coordinator
  imports Explain WireFrames StoreRuns "HOL-Library.Signed_Division"
begin

text \<open>
  The coordinator server (\<^verbatim>\<open>coordinator.hpp/.cpp\<close>): start-up, leases, the dispatch of every message and the
  life of a connection. What the surroundings decide is an argument: the clock, the outcome of a send, the
  chunks a socket delivers, and what other threads do to the coordinator between two of its steps.
\<close>

section \<open>State\<close>

record CoordinatorConfig =
  cf_limits :: Limits
  cf_lease_milliseconds :: u32
  cf_load_persisted :: bool
  cf_advance_epoch :: bool

text \<open>
  A time point is a count of nanoseconds. The lease table is a \<^verbatim>\<open>std::map\<close>: its entries in ascending order
  of the publisher.
\<close>

type_synonym LeaseTable = "(PublisherId \<times> int) list"

record 'p Coordinator =
  co_config :: CoordinatorConfig
  co_store :: "'p Store"
  co_last_seen :: LeaseTable

record Session =
  se_publisher :: PublisherId
  se_boot :: WorkerBootId
  se_scope :: ScopeId
  se_epoch :: CoordinatorEpoch
  se_registered :: bool

definition new_session :: Session where
  "new_session = \<lparr>se_publisher = 0, se_boot = 0, se_scope = 0, se_epoch = 0, se_registered = False\<rparr>"

abbreviation co_limits :: "'p Coordinator \<Rightarrow> Limits" where
  "co_limits c \<equiv> cf_limits (co_config c)"

abbreviation co_authority :: "'p Coordinator \<Rightarrow> AuthorityTable" where
  "co_authority c \<equiv> st_authority (co_store c)"

definition set_authority :: "AuthorityTable \<Rightarrow> 'p Coordinator \<Rightarrow> 'p Coordinator" where
  "set_authority a c = c\<lparr>co_store := (co_store c)\<lparr>st_authority := a\<rparr>\<rparr>"

section \<open>Leases\<close>

definition lease_put :: "PublisherId \<Rightarrow> int \<Rightarrow> LeaseTable \<Rightarrow> LeaseTable" where
  "lease_put i t m = insort_key fst (i, t) (filter (\<lambda>e. fst e \<noteq> i) m)"

definition lease_erase :: "PublisherId \<Rightarrow> LeaseTable \<Rightarrow> LeaseTable" where
  "lease_erase i m = filter (\<lambda>e. fst e \<noteq> i) m"

definition touch :: "int \<Rightarrow> PublisherId \<Rightarrow> 'p Coordinator \<Rightarrow> 'p Coordinator" where
  "touch now publisher c = c\<lparr>co_last_seen := lease_put publisher now (co_last_seen c)\<rparr>"

definition lease_expired :: "u32 \<Rightarrow> int \<Rightarrow> int \<Rightarrow> bool" where
  "lease_expired lease now seen \<longleftrightarrow> (now - seen) sdiv 1000000 > int (unat lease)"

definition expire_leases ::
  "'p IPersistence \<Rightarrow> 'p Interference \<Rightarrow> int \<Rightarrow> 'p Coordinator \<Rightarrow> nat \<times> 'p Coordinator" where
  "expire_leases ip env now c =
     (let late = (\<lambda>e. lease_expired (cf_lease_milliseconds (co_config c)) now (snd e));
          expired = map fst (filter late (co_last_seen c));
          c = c\<lparr>co_last_seen := filter (\<lambda>e. \<not> late e) (co_last_seen c)\<rparr>;
          c = set_authority (fold (\<lambda>i a. snd (mark_dead i a)) expired (co_authority c)) c;
          c = (if expired = [] then c
               else c\<lparr>co_store := snd (refresh_currentness ip env (co_store c))\<rparr>)
      in (length expired, c))"

section \<open>Dispatch\<close>

definition respond_with :: "ValidationResult \<Rightarrow> Response \<Rightarrow> Response" where
  "respond_with result response = response\<lparr>rp_status := status_for result,
     rp_reasons := vr_reasons result, rp_truncated := vr_truncated result\<rparr>"

text \<open>Three of the decode failures do not report truncation.\<close>

definition respond_untruncated :: "ValidationResult \<Rightarrow> Response \<Rightarrow> Response" where
  "respond_untruncated result response = response\<lparr>rp_status := status_for result,
     rp_reasons := vr_reasons result\<rparr>"

definition respond_outcome :: "MutationOutcome \<Rightarrow> CoordinatorEpoch \<Rightarrow> Response \<Rightarrow> Response" where
  "respond_outcome outcome epoch response = response\<lparr>rp_status := mo_status outcome,
     rp_reasons := vr_reasons (mo_result outcome), rp_truncated := vr_truncated (mo_result outcome),
     rp_list := mo_list outcome, rp_generation := mo_generation outcome, rp_digest := mo_digest outcome,
     rp_idempotent_replay := mo_idempotent_replay outcome, rp_epoch := epoch\<rparr>"

definition session_caller :: "Session \<Rightarrow> MutationAttemptId \<Rightarrow> CallerIdentity" where
  "session_caller session attempt = \<lparr>ca_epoch = se_epoch session, ca_publisher = se_publisher session,
     ca_boot = se_boot session, ca_scope = se_scope session, ca_attempt = attempt\<rparr>"

definition on_hello ::
  "int \<Rightarrow> Frame \<Rightarrow> Response \<Rightarrow> Session \<Rightarrow> 'p Coordinator \<Rightarrow> Response \<times> Session \<times> 'p Coordinator" where
  "on_hello now frame response session c =
     (case decode_hello (fr_payload frame) (co_limits c) vr_success of
        (None, result) \<Rightarrow> (respond_with result response, session, c)
      | (Some hello, _) \<Rightarrow>
          (let epoch = (if valid (he_epoch hello) then he_epoch hello else at_epoch (co_authority c));
               (registered, a) = register_publisher (he_publisher hello) (he_boot hello) (he_scope hello)
                 epoch (co_limits c) (co_authority c);
               c = set_authority a c
           in if vr_failed registered then (respond_with registered response, session, c)
              else
                (response\<lparr>rp_status := St_Ok, rp_epoch := at_epoch (co_authority c),
                   rp_session := he_publisher hello\<rparr>,
                 \<lparr>se_publisher = he_publisher hello, se_boot = he_boot hello, se_scope = he_scope hello,
                  se_epoch = at_epoch (co_authority c), se_registered = True\<rparr>,
                 touch now (he_publisher hello) c)))"

definition on_heartbeat ::
  "int \<Rightarrow> Frame \<Rightarrow> Response \<Rightarrow> 'p Coordinator \<Rightarrow> Response \<times> 'p Coordinator" where
  "on_heartbeat now frame response c =
     (case decode_heartbeat (fr_payload frame) (co_limits c) vr_success of
        (None, result) \<Rightarrow> (respond_untruncated result response, c)
      | (Some beat, _) \<Rightarrow>
          (let (result, a) = heartbeat (hb_publisher beat) (hb_boot beat) (hb_epoch beat) (co_authority c);
               c = set_authority a c
           in (respond_with result response, if vr_ok result then touch now (hb_publisher beat) c else c)))"

definition on_mutation ::
  "'p IPersistence \<Rightarrow> 'p Interference \<Rightarrow> Frame \<Rightarrow> Response \<Rightarrow> Session \<Rightarrow> 'p Coordinator \<Rightarrow>
   Response \<times> 'p Coordinator" where
  "on_mutation ip env frame response session c =
     (case decode_mutation (fr_payload frame) (co_limits c) vr_success of
        (None, result) \<Rightarrow> (respond_with result response, c)
      | (Some mutation, _) \<Rightarrow>
          if \<not> se_registered session
          then (response\<lparr>rp_status := St_Rejected,
                  rp_reasons := [reason RC_CallerUnknownPublisher 0 (se_publisher session)]\<rparr>, c)
          else
            (let (outcome, s) = create_list ip env (session_caller session (mr_attempt mutation))
                   (mr_draft mutation) (co_store c)
             in (respond_outcome outcome (at_epoch (st_authority s)) response, c\<lparr>co_store := s\<rparr>)))"

primrec lifecycle_operation ::
  "LifecycleOp \<Rightarrow> 'p IPersistence \<Rightarrow> 'p Interference \<Rightarrow> CallerIdentity \<Rightarrow> SegmentListId \<Rightarrow>
   SegmentListGeneration \<Rightarrow> 'p Store \<Rightarrow> MutationOutcome \<times> 'p Store" where
  "lifecycle_operation LO_Withdraw = withdraw"
| "lifecycle_operation LO_WithdrawCommit = withdraw_commit"
| "lifecycle_operation LO_Revoke = revoke"
| "lifecycle_operation LO_Retire = retire"
| "lifecycle_operation LO_Revalidate = revalidate"

definition on_lifecycle ::
  "'p IPersistence \<Rightarrow> 'p Interference \<Rightarrow> Frame \<Rightarrow> Response \<Rightarrow> Session \<Rightarrow> 'p Coordinator \<Rightarrow>
   Response \<times> 'p Coordinator" where
  "on_lifecycle ip env frame response session c =
     (case decode_lifecycle (fr_payload frame) (co_limits c) vr_success of
        (None, result) \<Rightarrow> (respond_untruncated result response, c)
      | (Some request, _) \<Rightarrow>
          (let (outcome, s) = lifecycle_operation (lq_op request) ip env
                 (session_caller session (lq_attempt request)) (lq_list request) (lq_expected request)
                 (co_store c)
           in (respond_outcome outcome (at_epoch (st_authority s)) response, c\<lparr>co_store := s\<rparr>)))"

definition on_get :: "Frame \<Rightarrow> Response \<Rightarrow> 'p Coordinator \<Rightarrow> Response" where
  "on_get frame response c =
     (case decode_get (fr_payload frame) (co_limits c) vr_success of
        (None, result) \<Rightarrow> respond_untruncated result response
      | (Some request, _) \<Rightarrow>
          if fr_message frame = MI_ExplainCurrentness then
            (let x = explain_currentness (gq_list request) (co_store c) in
             response\<lparr>rp_list := ex_list x, rp_generation := ex_generation x,
               rp_reasons := ex_entries x, rp_truncated := ex_truncated x, rp_status := St_Ok\<rparr>)
          else
            (case get (co_store c) (gq_list request) of
               None \<Rightarrow> response\<lparr>rp_status := St_NotFound,
                 rp_reasons := [reason RC_ListNotFound 0 (gq_list request)]\<rparr>
             | Some l \<Rightarrow> response\<lparr>rp_status := St_Ok, rp_list := lc_id (sl_content l),
                 rp_generation := sl_generation l, rp_digest := sl_content_digest l,
                 rp_summaries := [summarize l (at_epoch (co_authority c))]\<rparr>))"

definition dispatch ::
  "'p IPersistence \<Rightarrow> 'p Interference \<Rightarrow> int \<Rightarrow> Frame \<Rightarrow> Session \<Rightarrow> 'p Coordinator \<Rightarrow>
   Response \<times> Session \<times> 'p Coordinator" where
  "dispatch ip env now frame session c =
     (let m = fr_message frame;
          response = empty_response\<lparr>rp_request_id := fr_request_id frame, rp_epoch := at_epoch (co_authority c)\<rparr>;
          keep = (\<lambda>(response, c). (response, session, c))
      in
      if m = MI_Hello then on_hello now frame response session c
      else if m = MI_Heartbeat then keep (on_heartbeat now frame response c)
      else if m \<in> {MI_CreateList, MI_ReplaceList} then keep (on_mutation ip env frame response session c)
      else if m \<in> {MI_Withdraw, MI_WithdrawCommit, MI_Revoke, MI_Retire, MI_Revalidate}
      then keep (on_lifecycle ip env frame response session c)
      else if m \<in> {MI_Get, MI_ExplainCurrentness} then (on_get frame response c, session, c)
      else if m = MI_ListSummaries
      then (response\<lparr>rp_status := St_Ok, rp_summaries :=
              map (\<lambda>l. summarize l (at_epoch (co_authority c))) (ds_lists (st_state (co_store c)))\<rparr>,
            session, c)
      else if m = MI_RefreshCurrentness then
        (let (report, s) = refresh_currentness ip env (co_store c) in
         (response\<lparr>rp_status := St_Ok, rp_generation := of_nat (cp_invalidated report),
            rp_digest := \<lparr>dg_hi = of_nat (cp_examined report), dg_lo = 0\<rparr>\<rparr>,
          session, c\<lparr>co_store := s\<rparr>))
      else if m = MI_Goodbye then
        (response\<lparr>rp_status := St_Ok\<rparr>, session\<lparr>se_registered := False\<rparr>,
         if se_registered session
         then set_authority (snd (mark_dead (se_publisher session) (co_authority c))) c else c)
      else (response\<lparr>rp_status := St_Rejected,
              rp_reasons := [reason RC_WireUnknownMessageId 0 (ucast m)]\<rparr>, session, c))"

section \<open>Connections\<close>

text \<open>
  What the surroundings decide about one served frame: what other threads did to the coordinator since the
  last step of this connection, what they do inside the store operation, the clock, and whether the response
  could be sent.
\<close>

record 'p FrameIO =
  fo_others :: "'p Coordinator \<Rightarrow> 'p Coordinator"
  fo_env :: "'p Interference"
  fo_now :: int
  fo_sent :: bool

record 'p Connection =
  cn_coordinator :: "'p Coordinator"
  cn_session :: Session
  cn_assembler :: FrameAssembler
  cn_open :: bool
  cn_served :: nat
  cn_sent :: "ByteBuffer list"

definition new_connection :: "'p Coordinator \<Rightarrow> 'p Connection" where
  "new_connection c = \<lparr>cn_coordinator = c, cn_session = new_session, cn_assembler = new_assembler,
     cn_open = True, cn_served = 0, cn_sent = []\<rparr>"

definition response_frame :: "u64 \<Rightarrow> ByteBuffer \<Rightarrow> Frame" where
  "response_frame request_id encoded = \<lparr>fr_version = kWireProtocolVersion, fr_message = MI_Response,
     fr_flags = 0, fr_request_id = request_id, fr_payload = encoded\<rparr>"

definition serve_frame ::
  "'p IPersistence \<Rightarrow> (nat \<Rightarrow> 'p FrameIO) \<Rightarrow> Limits \<Rightarrow> Frame \<Rightarrow> 'p Connection \<Rightarrow> 'p Connection" where
  "serve_frame ip io limits frame cn =
     (let x = io (cn_served cn);
          (response, session, c) =
            dispatch ip (fo_env x) (fo_now x) frame (cn_session cn) (fo_others x (cn_coordinator cn));
          cn = cn\<lparr>cn_coordinator := c, cn_session := session, cn_served := cn_served cn + 1\<rparr>;
          (encoded, encode_result) = encode_response response limits vr_success
      in
      if vr_failed encode_result then cn\<lparr>cn_open := False\<rparr>
      else
        (let (bytes, frame_result) = encode_frame (response_frame (fr_request_id frame) encoded) limits vr_success in
         if vr_failed frame_result \<or> \<not> fo_sent x then cn\<lparr>cn_open := False\<rparr>
         else
           (let cn = cn\<lparr>cn_sent := cn_sent cn @ [bytes]\<rparr> in
            if fr_message frame = MI_Goodbye then cn\<lparr>cn_open := False\<rparr> else cn)))"

text \<open>The inner loop takes frames until \<^verbatim>\<open>next\<close> returns false or the connection closes.\<close>

lemma serve_frame_assembler [simp]:
  "cn_assembler (serve_frame ip io limits f cn) = cn_assembler cn"
  by (simp add: serve_frame_def Let_def split: prod.splits)

function serve_frames ::
  "'p IPersistence \<Rightarrow> (nat \<Rightarrow> 'p FrameIO) \<Rightarrow> Limits \<Rightarrow> 'p Connection \<Rightarrow> 'p Connection" where
  "serve_frames ip io limits cn =
     (case next_frame limits vr_success (cn_assembler cn) of
        (None, _, a) \<Rightarrow> cn\<lparr>cn_assembler := a\<rparr>
      | (Some f, _, a) \<Rightarrow>
          (let cn = serve_frame ip io limits f (cn\<lparr>cn_assembler := a\<rparr>) in
           if cn_open cn then serve_frames ip io limits cn else cn))"
  by pat_completeness auto
termination
  by (relation "measure (\<lambda>(ip, io, limits, cn). length (fa_buffer (cn_assembler cn)))")
     (auto dest!: next_frame_some(2) [OF sym] simp: length_frame_bytes)

declare serve_frames.simps [simp del]

text \<open>
  The outer loop. The chunks are what \<^verbatim>\<open>recv_some\<close> delivers until the peer closes, the transport fails or the
  server stops.
\<close>

primrec serve_chunks ::
  "'p IPersistence \<Rightarrow> (nat \<Rightarrow> 'p FrameIO) \<Rightarrow> Limits \<Rightarrow> u8 list list \<Rightarrow> 'p Connection \<Rightarrow> 'p Connection" where
  "serve_chunks ip io limits [] cn = cn"
| "serve_chunks ip io limits (chunk # chunks) cn =
     (if cn_open cn then
        (let cn = serve_frames ip io limits (cn\<lparr>cn_assembler := feed chunk (cn_assembler cn)\<rparr>) in
         if fa_overflowed (cn_assembler cn) then cn else serve_chunks ip io limits chunks cn)
      else cn)"

definition end_connection ::
  "'p IPersistence \<Rightarrow> 'p Interference \<Rightarrow> Session \<Rightarrow> 'p Coordinator \<Rightarrow> 'p Coordinator" where
  "end_connection ip env session c =
     (if se_registered session then
        (let c = set_authority (snd (mark_dead (se_publisher session) (co_authority c))) c;
             c = c\<lparr>co_last_seen := lease_erase (se_publisher session) (co_last_seen c)\<rparr>
         in c\<lparr>co_store := snd (refresh_currentness ip env (co_store c))\<rparr>)
      else c)"

definition handle_connection ::
  "'p IPersistence \<Rightarrow> (nat \<Rightarrow> 'p FrameIO) \<Rightarrow> 'p Interference \<Rightarrow> u8 list list \<Rightarrow> 'p Coordinator \<Rightarrow> 'p Coordinator" where
  "handle_connection ip io env chunks c =
     (let cn = serve_chunks ip io (co_limits c) chunks (new_connection c)
      in end_connection ip env (cn_session cn) (cn_coordinator cn))"

section \<open>Start-up\<close>

text \<open>
  \<^verbatim>\<open>start\<close> up to the listening socket: recovery, the built-in profiles, the new epoch, and the write that makes
  it durable. The result accumulates the reasons of the step that failed. \<open>listen_error\<close> is the reason that
  \<^verbatim>\<open>Socket::listen_loopback\<close> adds when no socket could be opened, \<open>port\<close> the port it got, and \<open>port_written\<close>
  says whether the port file was written (or none was asked for).
\<close>

primrec declare_profiles ::
  "'p IPersistence \<Rightarrow> SegmentProfile list \<Rightarrow> ValidationResult \<Rightarrow> 'p Store \<Rightarrow> bool \<times> ValidationResult \<times> 'p Store" where
  "declare_profiles ip [] out s = (True, out, s)"
| "declare_profiles ip (p # ps) out s =
     (case find_profile (pf_id p) (st_registry s) of
        Some _ \<Rightarrow> declare_profiles ip ps out s
      | None \<Rightarrow>
          (let (registered, s) = store_register_profile ip p s in
           if vr_failed registered then (False, absorb registered out, s)
           else declare_profiles ip ps out s))"

definition builtins :: "SegmentProfile list" where
  "builtins = [abstract_governance_profile, abstract_ordered_profile, abstract_nullable_profile]"

definition recover_on_start ::
  "'p IPersistence \<Rightarrow> CoordinatorConfig \<Rightarrow> ValidationResult \<Rightarrow> 'p Store \<Rightarrow> bool \<times> ValidationResult \<times> 'p Store" where
  "recover_on_start ip cfg out s =
     (if cf_load_persisted cfg \<and> st_persistence s \<noteq> None then
        (case load ip s of (report, s) \<Rightarrow>
           if \<not> lr_loaded report \<and> \<not> lr_empty report then (False, absorb (lr_result report) out, s)
           else (True, out, s))
      else (True, out, s))"

definition raise_epoch ::
  "'p IPersistence \<Rightarrow> CoordinatorConfig \<Rightarrow> ValidationResult \<Rightarrow> 'p Store \<Rightarrow> bool \<times> ValidationResult \<times> 'p Store" where
  "raise_epoch ip cfg out s =
     (let (advanced, a) = (if cf_advance_epoch cfg then advance_epoch (st_authority s) else (True, st_authority s));
          s = s\<lparr>st_authority := a\<rparr>
      in
      if \<not> advanced then (False, vr_add RC_EpochExhausted 0 0 out, s)
      else
        (case persist_now ip s of (flushed, s) \<Rightarrow>
           if vr_failed flushed then (False, absorb flushed out, s) else (True, out, s)))"

definition start ::
  "'p IPersistence \<Rightarrow> CoordinatorConfig \<Rightarrow> 'p option \<Rightarrow> Reason option \<Rightarrow> u16 \<Rightarrow> bool \<Rightarrow> ValidationResult \<Rightarrow>
   bool \<times> ValidationResult \<times> 'p Coordinator" where
  "start ip cfg persistence listen_error port port_written out =
     (let out = set_limits (Some (cf_limits cfg)) out;
          server = (\<lambda>s. \<lparr>co_config = cfg, co_store = s, co_last_seen = []\<rparr>) in
      case recover_on_start ip cfg out (new_store (cf_limits cfg) (Some (make_synthetic_fabric 64)) persistence) of
        (False, out, s) \<Rightarrow> (False, out, server s)
      | (True, out, s) \<Rightarrow>
          (case declare_profiles ip builtins out s of
             (False, out, s) \<Rightarrow> (False, out, server s)
           | (True, out, s) \<Rightarrow>
               (case raise_epoch ip cfg out s of
                  (False, out, s) \<Rightarrow> (False, out, server s)
                | (True, out, s) \<Rightarrow>
                    (case listen_error of
                       Some r \<Rightarrow> (False, vr_add_reason r out, server s)
                     | None \<Rightarrow>
                         if \<not> port_written then (False, vr_add RC_PersistIoError 0 (ucast port) out, server s)
                         else (True, out, server s)))))"

end
