(* ===== verification/CoordinatorRuns.thy ===== *)
theory CoordinatorRuns
  imports Coordinator PersistBackends
begin

text \<open>
  Lemmas on the coordinator: every handler is a run of the store in the sense of \<open>store_run\<close>, so the store's
  invariant and the permanence of fencing carry over to connections; and a connection serves exactly the
  frames of the stream it receives.
\<close>

section \<open>Runs of the store\<close>

lemma store_run_trans: "store_run ip s t \<Longrightarrow> store_run ip r s \<Longrightarrow> store_run ip r t"
  by (induction rule: store_run.induct) (auto intro: store_run.intros)

text \<open>What other threads may do: each of their steps is itself a run of the store.\<close>

definition legal_env :: "'p IPersistence \<Rightarrow> 'p Interference \<Rightarrow> bool" where
  "legal_env ip env \<longleftrightarrow> interference_ok env \<and>
     (\<forall>s. store_run ip s (iv_begin env s) \<and> store_run ip s (iv_snapshot env s) \<and>
          store_run ip s (iv_lock env s) \<and> store_run ip s (iv_commit env s))"

lemma legal_no_interference: "legal_env ip no_interference"
  by (simp add: legal_env_def no_interference_def store_run.idle)
     (simp add: no_interference_ok [unfolded no_interference_def])

lemma run_batch_run:
  "legal_env ip env \<Longrightarrow> run_batch ip env caller drafts intent re ra s = (out, s') \<Longrightarrow> store_run ip s s'"
  by (rule store_run.mutation [OF store_run.idle])
     (auto simp: legal_env_def at_capture_def at_recheck_def)

lemma transition_run:
  "legal_env ip env \<Longrightarrow> transition ip env event caller i expected s = (out, s') \<Longrightarrow> store_run ip s s'"
  by (rule store_run.administration [OF store_run.idle])
     (auto simp: legal_env_def at_capture_def at_recheck_def)

lemma refresh_run:
  "legal_env ip env \<Longrightarrow> store_run ip s (snd (refresh_currentness ip env s))"
  by (rule store_run.refresh [OF store_run.idle, where env = env and report = "fst (refresh_currentness ip env s)"])
     (auto simp: legal_env_def at_capture_def)

lemma revalidate_run:
  assumes "legal_env ip env" and "revalidate ip env caller i expected s = (out, s')"
  shows "store_run ip s s'"
proof -
  have "store_run ip s (iv_begin env s)" using assms(1) by (simp add: legal_env_def)
  then show ?thesis
    using assms(2) by (auto simp: revalidate_def split: option.splits
        intro: store_run.idle store_run_trans run_batch_run [OF assms(1)])
qed

lemma lifecycle_run:
  "legal_env ip env \<Longrightarrow> lifecycle_operation op ip env caller i expected s = (out, s') \<Longrightarrow> store_run ip s s'"
  by (cases op) (auto simp: withdraw_def withdraw_commit_def revoke_def retire_def
      intro: transition_run revalidate_run)

lemma authority_steps_run: "authority_step\<^sup>*\<^sup>* (st_authority s) a \<Longrightarrow> store_run ip s (s\<lparr>st_authority := a\<rparr>)"
proof (induction rule: rtranclp_induct)
  case (step a b)
  then have "store_run ip s (s\<lparr>st_authority := a, st_authority := b\<rparr>)"
    using store_run.authority [OF step(3)] by simp
  then show ?case by simp
qed (simp add: store_run.idle)

lemma set_authority_run:
  "authority_step\<^sup>*\<^sup>* (co_authority c) a \<Longrightarrow> store_run ip (co_store c) (co_store (set_authority a c))"
  by (simp add: set_authority_def authority_steps_run)

section \<open>Handlers are runs\<close>

lemma mark_all_dead: "authority_step\<^sup>*\<^sup>* a (fold (\<lambda>i a. snd (mark_dead i a)) is a)"
  by (induction "is" arbitrary: a)
     (auto intro: converse_rtranclp_into_rtranclp authority_step.dead)

lemma touch_store [simp]: "co_store (touch now i c) = co_store c" "co_config (touch now i c) = co_config c"
  by (simp_all add: touch_def)

lemma set_authority_config [simp]: "co_config (set_authority a c) = co_config c"
  "co_last_seen (set_authority a c) = co_last_seen c" "co_authority (set_authority a c) = a"
  by (simp_all add: set_authority_def)

lemma on_hello_run:
  assumes "on_hello now f r se c = (r', se', c')"
  shows "store_run ip (co_store c) (co_store c') \<and> co_config c' = co_config c"
proof -
  have "store_run ip (co_store c) (co_store (set_authority (snd (register_publisher p b sc e l (co_authority c))) c))"
    for p b sc e l by (rule set_authority_run) (auto intro: authority_step.register)
  then show ?thesis using assms
    by (auto simp: on_hello_def Let_def store_run.idle split: prod.splits option.splits if_splits)
       (metis snd_conv)+
qed

lemma on_heartbeat_run:
  assumes "on_heartbeat now f r c = (r', c')"
  shows "store_run ip (co_store c) (co_store c') \<and> co_config c' = co_config c"
proof -
  have "store_run ip (co_store c) (co_store (set_authority (snd (heartbeat p b e (co_authority c))) c))"
    for p b e by (rule set_authority_run) (auto intro: authority_step.beat)
  then show ?thesis using assms
    by (auto simp: on_heartbeat_def Let_def store_run.idle split: prod.splits option.splits if_splits)
       (metis snd_conv)+
qed

lemma on_mutation_run:
  "legal_env ip env \<Longrightarrow> on_mutation ip env f r se c = (r', c') \<Longrightarrow>
    store_run ip (co_store c) (co_store c') \<and> co_config c' = co_config c"
  by (auto simp: on_mutation_def create_list_def store_run.idle split: prod.splits option.splits if_splits
      intro: run_batch_run)

lemma on_lifecycle_run:
  "legal_env ip env \<Longrightarrow> on_lifecycle ip env f r se c = (r', c') \<Longrightarrow>
    store_run ip (co_store c) (co_store c') \<and> co_config c' = co_config c"
  by (auto simp: on_lifecycle_def store_run.idle split: prod.splits option.splits intro: lifecycle_run)

lemma mark_dead_run:
  "store_run ip (co_store c) (co_store (set_authority (snd (mark_dead i (co_authority c))) c))"
  by (rule set_authority_run) (auto intro: authority_step.dead)

lemma dispatch_run:
  assumes "legal_env ip env" and "dispatch ip env now f se c = (r, se', c')"
  shows "store_run ip (co_store c) (co_store c') \<and> co_config c' = co_config c"
proof -
  have r: "store_run ip (co_store c) s" if "refresh_currentness ip env (co_store c) = (rep, s)" for rep s
    using refresh_run [OF assms(1), of "co_store c"] that by simp
  show ?thesis
    using assms(2) unfolding dispatch_def Let_def
    by (auto simp: store_run.idle mark_dead_run split: if_splits prod.splits
        dest: on_hello_run on_heartbeat_run on_mutation_run [OF assms(1)] on_lifecycle_run [OF assms(1)] r)
qed

lemma end_connection_run:
  assumes "legal_env ip env"
  shows "store_run ip (co_store c) (co_store (end_connection ip env se c)) \<and>
    co_config (end_connection ip env se c) = co_config c"
  using store_run_trans [OF refresh_run [OF assms] mark_dead_run]
  by (auto simp: end_connection_def Let_def store_run.idle)

lemma expire_leases_run:
  assumes "legal_env ip env" and "expire_leases ip env now c = (n, c')"
  shows "store_run ip (co_store c) (co_store c') \<and> co_config c' = co_config c"
proof -
  let ?ex = "map fst (filter (\<lambda>e. lease_expired (cf_lease_milliseconds (co_config c)) now (snd e)) (co_last_seen c))"
  let ?s = "(co_store c)\<lparr>st_authority := fold (\<lambda>i a. snd (mark_dead i a)) ?ex (co_authority c)\<rparr>"
  have "store_run ip (co_store c) ?s" by (intro authority_steps_run mark_all_dead)
  with store_run_trans [OF refresh_run [OF assms(1)] this] show ?thesis
    using assms(2) by (auto simp: expire_leases_def Let_def set_authority_def split: if_splits)
qed

section \<open>Connections are runs\<close>

text \<open>The surroundings of a connection are legal when every step of other threads is a run.\<close>

definition legal_io :: "'p IPersistence \<Rightarrow> (nat \<Rightarrow> 'p FrameIO) \<Rightarrow> bool" where
  "legal_io ip io \<longleftrightarrow> (\<forall>n. legal_env ip (fo_env (io n)) \<and>
     (\<forall>c. store_run ip (co_store c) (co_store (fo_others (io n) c)) \<and>
          co_config (fo_others (io n) c) = co_config c))"

text \<open>The frames of a connection, one after the other, until it closes.\<close>

primrec serve_seq ::
  "'p IPersistence \<Rightarrow> (nat \<Rightarrow> 'p FrameIO) \<Rightarrow> Limits \<Rightarrow> Frame list \<Rightarrow> 'p Connection \<Rightarrow> 'p Connection" where
  "serve_seq ip io limits [] cn = cn"
| "serve_seq ip io limits (f # fs) cn =
     (if cn_open cn then serve_seq ip io limits fs (serve_frame ip io limits f cn) else cn)"

definition observed :: "'p Connection \<Rightarrow> 'p Connection" where
  "observed cn = cn\<lparr>cn_assembler := new_assembler\<rparr>"

lemma observed_simps [simp]: "cn_coordinator (observed cn) = cn_coordinator cn"
  "cn_session (observed cn) = cn_session cn" "cn_open (observed cn) = cn_open cn"
  "cn_served (observed cn) = cn_served cn" "cn_sent (observed cn) = cn_sent cn"
  "observed (cn\<lparr>cn_assembler := a\<rparr>) = observed cn" "observed (observed cn) = observed cn"
  by (simp_all add: observed_def)

lemma serve_frame_observed: "serve_frame ip io limits f (observed cn) = observed (serve_frame ip io limits f cn)"
  by (simp add: serve_frame_def observed_def Let_def split: prod.splits)

lemma serve_seq_observed: "serve_seq ip io limits fs (observed cn) = observed (serve_seq ip io limits fs cn)"
  by (induction fs arbitrary: cn) (simp_all add: serve_frame_observed)

lemma serve_seq_closed: "\<not> cn_open cn \<Longrightarrow> serve_seq ip io limits fs cn = cn"
  by (cases fs) simp_all

lemma serve_seq_append:
  "serve_seq ip io limits (fs @ gs) cn = serve_seq ip io limits gs (serve_seq ip io limits fs cn)"
  by (induction fs arbitrary: cn) (auto simp: serve_seq_closed)

lemma serve_frames_seq:
  assumes "cn_open cn" and "drain limits (cn_assembler cn) = (fs, a)"
  shows "observed (serve_frames ip io limits cn) = serve_seq ip io limits fs (observed cn) \<and>
    (cn_open (serve_frames ip io limits cn) \<longrightarrow> cn_assembler (serve_frames ip io limits cn) = a)"
  using assms
proof (induction ip io limits cn arbitrary: fs rule: serve_frames.induct)
  case (1 ip io limits cn)
  obtain x r b where n: "next_frame limits vr_success (cn_assembler cn) = (x, r, b)" by (metis prod_cases3)
  show ?case
  proof (cases x)
    case None
    with n 1(3) show ?thesis by (simp add: serve_frames.simps [of ip io limits cn] drain.simps [of limits "cn_assembler cn"])
  next
    case (Some f)
    let ?cn = "serve_frame ip io limits f (cn\<lparr>cn_assembler := b\<rparr>)"
    obtain gs where g: "drain limits b = (gs, a)" "fs = f # gs"
      using n Some 1(3) by (auto simp: drain.simps [of limits "cn_assembler cn"] split: prod.splits)
    have o: "observed ?cn = serve_frame ip io limits f (observed cn)"
      by (simp add: serve_frame_observed [symmetric])
    show ?thesis
    proof (cases "cn_open ?cn")
      case True
      then have "serve_frames ip io limits cn = serve_frames ip io limits ?cn"
        using n Some by (simp add: serve_frames.simps [of ip io limits cn] Let_def)
      with 1(1) [OF n [unfolded Some, symmetric] refl refl refl True True] g o 1(2) show ?thesis by simp
    next
      case False
      then have "serve_frames ip io limits cn = ?cn"
        using n Some by (simp add: serve_frames.simps [of ip io limits cn] Let_def)
      moreover have "\<not> cn_open (serve_frame ip io limits f (observed cn))"
        using False by (simp add: o [symmetric])
      ultimately show ?thesis using g o 1(2) False by (simp add: serve_seq_closed)
    qed
  qed
qed

lemma receive_overflowed:
  "fa_overflowed a \<Longrightarrow> receive limits a cs = ([], a)"
  by (induction cs) (simp_all add: feed_def drain.simps [of limits a] next_frame_def Let_def)

lemma serve_chunks_seq:
  assumes "cn_open cn"
  shows "observed (serve_chunks ip io limits chunks cn) =
    serve_seq ip io limits (fst (receive limits (cn_assembler cn) chunks)) (observed cn)"
  using assms
proof (induction chunks arbitrary: cn)
  case (Cons chunk chunks)
  let ?cn = "cn\<lparr>cn_assembler := feed chunk (cn_assembler cn)\<rparr>"
  let ?d = "serve_frames ip io limits ?cn"
  obtain fs a where d: "drain limits (feed chunk (cn_assembler cn)) = (fs, a)" by fastforce
  obtain gs b where r: "receive limits a chunks = (gs, b)" by fastforce
  note f = serve_frames_seq [of ?cn limits fs a ip io]
  have o: "observed ?d = serve_seq ip io limits fs (observed cn)" and
    a: "cn_open ?d \<longrightarrow> cn_assembler ?d = a"
    using f d Cons.prems by simp_all
  show ?case
  proof (cases "cn_open ?d")
    case True
    have "observed (serve_chunks ip io limits chunks ?d) = serve_seq ip io limits gs (observed ?d)"
      using Cons.IH [OF True] a True r by simp
    moreover have "gs = []" if "fa_overflowed a"
      using receive_overflowed [OF that, of limits chunks] r by simp
    ultimately show ?thesis
      using Cons.prems d r o a True by (auto simp: Let_def serve_seq_append)
  next
    case False
    have c: "\<not> cn_open (observed ?d)" using False by simp
    have "serve_chunks ip io limits chunks ?d = ?d" using False by (cases chunks) simp_all
    with Cons.prems d r o serve_seq_closed [OF c] show ?thesis
      by (simp add: Let_def serve_seq_append)
  qed
qed simp

section \<open>What a connection leaves behind\<close>

lemma persist_tables_authority: "persist_tables ip r s = (r', s') \<Longrightarrow> st_authority s' = st_authority s"
  by (auto simp: persist_tables_def Let_def swap_in_def rebuild_index_def split: prod.splits bool.splits
      dest: persist_locked_keeps(3))

lemma register_authority:
  "store_register_profile ip p s = (r, s') \<Longrightarrow> st_authority s' = st_authority s"
  "store_register_policy ip q s = (r, s') \<Longrightarrow> st_authority s' = st_authority s"
  by (auto simp: store_register_profile_def store_register_policy_def Let_def split: prod.splits if_splits
      dest: persist_tables_authority)

lemma persist_now_authority: "persist_now ip s = (r, s') \<Longrightarrow> st_authority s' = st_authority s"
  by (auto simp: persist_now_def Let_def swap_in_def rebuild_index_def split: prod.splits bool.splits if_splits
      dest: persist_locked_keeps(3))

lemma raise_epoch_run:
  assumes "next_generation (recovery_base st a) = Some e" and "valid (at_epoch a)"
  shows "authority_step\<^sup>*\<^sup>* a (a\<lparr>at_epoch := e\<rparr>)"
proof -
  let ?b = "recovery_base st a"
  have b: "valid ?b" "\<not> ?b < at_epoch a"
    using assms(2) by (auto simp: recovery_base_def Let_def initial_generation_def valid_def)
  then have "snd (restore_epoch ?b a) = a\<lparr>at_epoch := ?b\<rparr>" by (simp add: restore_epoch_def)
  moreover have "snd (advance_epoch (a\<lparr>at_epoch := ?b\<rparr>)) = a\<lparr>at_epoch := e\<rparr>"
    using assms(1) by (simp add: advance_epoch_def)
  ultimately show ?thesis
    using authority_step.restore [of a ?b] authority_step.advance [of "a\<lparr>at_epoch := ?b\<rparr>"]
    by (metis converse_rtranclp_into_rtranclp r_into_rtranclp)
qed

context durable_medium
begin

lemma load_authority:
  assumes "load ip s = (report, s')" and "authority_wf (st_authority s)"
  shows "authority_step\<^sup>*\<^sup>* (st_authority s) (st_authority s')"
proof (cases "lr_loaded report")
  case True
  from load_loaded(1) [OF assms(1) True honest] obtain e where
    "next_generation (recovery_base (lr_state report) (st_authority s)) = Some e"
    "st_authority s' = recover_authority (lr_state report) ((st_authority s)\<lparr>at_epoch := e\<rparr>)"
    by (auto simp: recovered_def)
  with raise_epoch_run recover_authority_run assms(2) show ?thesis
    by (metis authority_wf_def rtranclp_trans)
next
  case False
  with load_not_loaded [OF assms(1)] show ?thesis by simp
qed

lemma run_authority:
  assumes "store_run ip s s'" and "bounds_positive l" and "store_ok l s"
  shows "authority_step\<^sup>*\<^sup>* (st_authority s) (st_authority s')"
  using assms(1,3)
proof (induction rule: store_run.induct)
  case (mutation s0 s env caller drafts intent re ra out s')
  have ok: "store_ok l s" using run_ok [OF mutation(1) assms(2)] mutation.prems by simp
  then have cap: "0 < max_reasons (st_limits s)" using assms(2) by (simp add: bounds_positive_def store_ok_def)
  have ok1: "store_ok l (iv_snapshot env s)" using run_ok [OF mutation(3) assms(2) ok] .
  have ok2: "store_ok l (at_capture env s)" using run_ok [OF mutation(4) assms(2) ok1] .
  have "\<exists>t \<in> left_by_others env s. st_authority s' = st_authority t"
    using run_batch_cases [OF mutation(6,2) cap]
    by (auto simp: batch_rejected_def batch_replayed_def batch_committed_def committed_def same_tables_def
        left_by_others_def)
  then show ?case
    using mutation.IH(1) [OF mutation.prems] mutation.IH(2) [OF ok] mutation.IH(3) [OF ok1]
      mutation.IH(4) [OF ok2]
    by (auto simp: left_by_others_def)
next
  case (administration s0 s env event caller i expected out s')
  have ok: "store_ok l s" using run_ok [OF administration(1) assms(2)] administration.prems by simp
  then have cap: "0 < max_reasons (st_limits s)" using assms(2) by (simp add: bounds_positive_def store_ok_def)
  have ok1: "store_ok l (iv_snapshot env s)" using run_ok [OF administration(3) assms(2) ok] .
  have ok2: "store_ok l (at_capture env s)" using run_ok [OF administration(4) assms(2) ok1] .
  have "\<exists>t \<in> left_by_others env s. st_authority s' = st_authority t"
    using transition_cases [OF administration(6,2) cap]
    by (auto simp: batch_rejected_def transition_committed_def committed_def same_tables_def
        left_by_others_def)
  then show ?case
    using administration.IH(1) [OF administration.prems] administration.IH(2) [OF ok]
      administration.IH(3) [OF ok1] administration.IH(4) [OF ok2]
    by (auto simp: left_by_others_def)
next
  case (refresh s0 s env report s')
  have ok: "store_ok l s" using run_ok [OF refresh(1) assms(2)] refresh.prems by simp
  have ok1: "store_ok l (iv_snapshot env s)" using run_ok [OF refresh(3) assms(2) ok] .
  have "st_authority s' = st_authority (at_capture env s)"
    using refresh_cases [OF refresh(5)] by (auto simp: committed_def same_tables_def)
  then show ?case
    using refresh.IH(1) [OF refresh.prems] refresh.IH(2) [OF ok] refresh.IH(3) [OF ok1] by simp
next
  case (recovery s0 s lreport s')
  have "authority_wf (st_authority s)"
    using run_ok [OF recovery(1) assms(2)] recovery.prems by (simp add: store_ok_def)
  with load_authority [OF recovery(2)] recovery.IH [OF recovery.prems] show ?case by simp
next
  case (profile s0 s p res s')
  then show ?case using register_authority(1) by fastforce
next
  case (policy s0 s q res s')
  then show ?case using register_authority(2) by fastforce
next
  case (persist s0 s res s')
  then show ?case using persist_now_authority by fastforce
next
  case (view s0 s i snap s')
  then show ?case by (auto simp: list_snapshot_def split: option.splits)
next
  case (authority s0 s a)
  then show ?case by simp
qed simp_all

end

section \<open>Connections keep the invariant\<close>

lemma serve_frame_dispatch:
  assumes "dispatch ip (fo_env (io (cn_served cn))) (fo_now (io (cn_served cn))) f (cn_session cn)
    (fo_others (io (cn_served cn)) (cn_coordinator cn)) = (r, se, c)"
  shows "cn_coordinator (serve_frame ip io limits f cn) = c" "cn_session (serve_frame ip io limits f cn) = se"
  using assms by (simp_all add: serve_frame_def Let_def split: prod.splits)

lemma serve_frame_run:
  assumes "legal_io ip io"
  shows "store_run ip (co_store (cn_coordinator cn)) (co_store (cn_coordinator (serve_frame ip io limits f cn))) \<and>
    co_config (cn_coordinator (serve_frame ip io limits f cn)) = co_config (cn_coordinator cn)"
proof -
  let ?x = "io (cn_served cn)" and ?c = "cn_coordinator cn"
  obtain r se c where d: "dispatch ip (fo_env ?x) (fo_now ?x) f (cn_session cn) (fo_others ?x ?c) = (r, se, c)"
    by (metis prod_cases3)
  have o: "store_run ip (co_store ?c) (co_store (fo_others ?x ?c))" "co_config (fo_others ?x ?c) = co_config ?c"
    "legal_env ip (fo_env ?x)" using assms by (simp_all add: legal_io_def)
  from serve_frame_dispatch(1) [of ip io cn, OF d] dispatch_run [OF o(3) d] o(1,2) show ?thesis by (auto intro: store_run_trans)
qed

lemma serve_seq_run:
  assumes "legal_io ip io"
  shows "store_run ip (co_store (cn_coordinator cn)) (co_store (cn_coordinator (serve_seq ip io limits fs cn))) \<and>
    co_config (cn_coordinator (serve_seq ip io limits fs cn)) = co_config (cn_coordinator cn)"
proof (induction fs arbitrary: cn)
  case (Cons f fs)
  then show ?case
    using serve_frame_run [OF assms, of cn limits f]
      store_run_trans [of ip _ _ "co_store (cn_coordinator cn)"] by (auto intro: store_run.idle)
qed (simp add: store_run.idle)

lemma serve_chunks_new:
  "cn_coordinator (serve_chunks ip io l chunks (new_connection c)) =
     cn_coordinator (serve_seq ip io l (fst (receive l new_assembler chunks)) (new_connection c))"
  "cn_session (serve_chunks ip io l chunks (new_connection c)) =
     cn_session (serve_seq ip io l (fst (receive l new_assembler chunks)) (new_connection c))"
  "cn_sent (serve_chunks ip io l chunks (new_connection c)) =
     cn_sent (serve_seq ip io l (fst (receive l new_assembler chunks)) (new_connection c))"
proof -
  have "observed (new_connection c) = new_connection c" "cn_open (new_connection c)"
    "cn_assembler (new_connection c) = new_assembler"
    by (simp_all add: new_connection_def observed_def)
  then have "observed (serve_chunks ip io l chunks (new_connection c)) =
      serve_seq ip io l (fst (receive l new_assembler chunks)) (new_connection c)"
    using serve_chunks_seq [of "new_connection c" ip io l chunks] by simp
  then show "cn_coordinator (serve_chunks ip io l chunks (new_connection c)) =
     cn_coordinator (serve_seq ip io l (fst (receive l new_assembler chunks)) (new_connection c))"
    "cn_session (serve_chunks ip io l chunks (new_connection c)) =
     cn_session (serve_seq ip io l (fst (receive l new_assembler chunks)) (new_connection c))"
    "cn_sent (serve_chunks ip io l chunks (new_connection c)) =
     cn_sent (serve_seq ip io l (fst (receive l new_assembler chunks)) (new_connection c))"
    by (metis observed_simps(1,2,5))+
qed

lemma serve_chunks_run:
  assumes "legal_io ip io"
  shows "store_run ip (co_store c) (co_store (cn_coordinator (serve_chunks ip io l chunks (new_connection c)))) \<and>
    co_config (cn_coordinator (serve_chunks ip io l chunks (new_connection c))) = co_config c"
  using serve_seq_run [OF assms, of "new_connection c"]
  by (simp add: serve_chunks_new) (simp add: new_connection_def)

lemma handle_connection_run:
  assumes "legal_io ip io" and "legal_env ip env"
  shows "store_run ip (co_store c) (co_store (handle_connection ip io env chunks c)) \<and>
    co_config (handle_connection ip io env chunks c) = co_config c"
  using store_run_trans [OF end_connection_run [OF assms(2), THEN conjunct1]
      serve_chunks_run [OF assms(1), THEN conjunct1]]
    end_connection_run [OF assms(2)] serve_chunks_run [OF assms(1)]
  by (simp add: handle_connection_def Let_def)

section \<open>Sessions\<close>

text \<open>A registered session belongs to a publisher the authority table knows.\<close>

definition session_known :: "Session \<Rightarrow> AuthorityTable \<Rightarrow> bool" where
  "session_known se a \<longleftrightarrow> (se_registered se \<longrightarrow> find_publisher (se_publisher se) a \<noteq> None)"

lemma known_step: "authority_step a a' \<Longrightarrow> find_publisher pid a \<noteq> None \<Longrightarrow> find_publisher pid a' \<noteq> None"
  by (elim authority_stepE)
     (auto simp: find_publisher_def authority_defs Let_def find_key_map find_key_append
       find_key_update_key find_key_upsert split: option.splits if_splits)

lemma known_steps: "authority_step\<^sup>*\<^sup>* a a' \<Longrightarrow> session_known se a \<Longrightarrow> session_known se a'"
  by (induction rule: rtranclp_induct) (auto simp: session_known_def dest: known_step)

lemma registered_known:
  assumes "register_publisher pid boot scope e l a = (r, a')" and "\<not> vr_failed r" and "0 < max_reasons l"
  shows "find_publisher pid a' \<noteq> None"
  using assms
  by (auto simp: register_publisher_def Let_def vr_failed_def vr_add_empty vr_defs word_gt_0 unat_eq_0
      find_publisher_def find_key_update_key find_key_append split: option.splits if_splits)

lemma dispatch_session:
  assumes "dispatch ip env now f se c = (r, se', c')" and "0 < max_reasons (co_limits c)"
  shows "se' = se \<or> \<not> se_registered se' \<or> find_publisher (se_publisher se') (co_authority c') \<noteq> None"
proof (cases "fr_message f = MI_Hello")
  case True
  then show ?thesis
    using assms
    by (auto simp: dispatch_def on_hello_def Let_def split: option.splits prod.splits if_splits
        dest!: registered_known)
next
  case False
  then show ?thesis
    using assms by (auto simp: dispatch_def Let_def split: if_splits prod.splits)
qed

context durable_medium
begin

lemma serve_frame_known:
  assumes "legal_io ip io" and "bounds_positive l" and "store_ok l (co_store (cn_coordinator cn))"
    and "co_limits (cn_coordinator cn) = l" and "session_known (cn_session cn) (co_authority (cn_coordinator cn))"
  shows "session_known (cn_session (serve_frame ip io l f cn)) (co_authority (cn_coordinator (serve_frame ip io l f cn)))"
proof -
  let ?x = "io (cn_served cn)" and ?c = "cn_coordinator cn"
  obtain r se c where d: "dispatch ip (fo_env ?x) (fo_now ?x) f (cn_session cn) (fo_others ?x ?c) = (r, se, c)"
    by (metis prod_cases3)
  have o: "store_run ip (co_store ?c) (co_store (fo_others ?x ?c))" "co_config (fo_others ?x ?c) = co_config ?c"
    "legal_env ip (fo_env ?x)" using assms by (simp_all add: legal_io_def)
  have "store_run ip (co_store ?c) (co_store c)"
    using dispatch_run [OF o(3) d] o(1) by (auto intro: store_run_trans)
  then have "session_known (cn_session cn) (co_authority c)"
    using known_steps run_authority assms(2,3,5) by blast
  moreover have "0 < max_reasons (co_limits (fo_others ?x ?c))"
    using assms(2,4) o(2) by (simp add: bounds_positive_def)
  ultimately have "session_known se (co_authority c)"
    using dispatch_session [OF d] by (auto simp: session_known_def)
  with serve_frame_dispatch [of ip io cn, OF d] show ?thesis by simp
qed

lemma serve_seq_known:
  assumes "legal_io ip io" and "bounds_positive l" and "store_ok l (co_store (cn_coordinator cn))"
    and "co_limits (cn_coordinator cn) = l" and "session_known (cn_session cn) (co_authority (cn_coordinator cn))"
  shows "session_known (cn_session (serve_seq ip io l fs cn)) (co_authority (cn_coordinator (serve_seq ip io l fs cn)))"
  using assms(3-5)
proof (induction fs arbitrary: cn)
  case (Cons f fs)
  note r = serve_frame_run [OF assms(1), of cn l f]
  have "store_ok l (co_store (cn_coordinator (serve_frame ip io l f cn)))"
    using run_ok [OF r [THEN conjunct1] assms(2)] Cons.prems(1) .
  then show ?case
    using Cons.IH [of "serve_frame ip io l f cn"] serve_frame_known [OF assms(1,2) Cons.prems] r Cons.prems
    by simp
qed simp

lemma session_ends_known:
  assumes "legal_io ip io" and "bounds_positive (co_limits c)" and "store_ok (co_limits c) (co_store c)"
  shows "session_known (cn_session (serve_chunks ip io (co_limits c) chunks (new_connection c)))
    (co_authority (cn_coordinator (serve_chunks ip io (co_limits c) chunks (new_connection c))))"
  unfolding serve_chunks_new
  using assms by (intro serve_seq_known)
    (simp_all add: new_connection_def session_known_def new_session_def)

end

section \<open>Refresh with a medium that never fails\<close>

definition saves_succeed :: "'p IPersistence \<Rightarrow> bool" where
  "saves_succeed ip \<longleftrightarrow> (\<forall>st limits r p. fst (ip_save ip st limits r p))"

lemma saves_persist: "saves_succeed ip \<Longrightarrow> fst (persist_locked ip nxt out s)"
proof (cases "st_persistence s")
  case (Some p)
  moreover assume "saves_succeed ip"
  then have "fst (ip_save ip nxt (st_limits s) (set_limits (Some (st_limits s)) out) p)"
    by (simp add: saves_succeed_def)
  ultimately show ?thesis
    by (cases "ip_save ip nxt (st_limits s) (set_limits (Some (st_limits s)) out) p")
       (simp add: persist_locked_def Let_def split: bool.splits)
qed (simp add: persist_locked_def Let_def)

lemma refreshed_lists:
  assumes "saves_succeed ip"
  shows "\<exists>now. ds_lists (st_state (snd (refresh_currentness ip env s))) =
      map (refresh_list now) (ds_lists (st_state (at_capture env s))) \<and>
    (\<forall>l. is_fenced (la_boot (sl_authority l)) (st_authority (at_capture env s)) \<longrightarrow> now l = Cu_FencedPublisher)"
proof -
  let ?t = "at_capture env s"
  define now where "now = refreshed_currentness (map_option snapshot (st_evidence (iv_snapshot env s)))
      (at_epoch (st_authority (iv_snapshot env s))) (st_authority ?t) (st_registry ?t)"
  let ?ls = "ds_lists (st_state ?t)"
  let ?n = "(st_state ?t)\<lparr>ds_lists := map (refresh_list now) ?ls, ds_revision := ds_revision (st_state ?t) + 1\<rparr>"
  let ?changed = "list_ex (\<lambda>l. \<not> refresh_skips l \<and>
      (now l \<noteq> sl_currentness l \<or> (now l \<noteq> Cu_Current \<and> sl_state l = LS_Active))) ?ls"
  obtain w t where p: "persist_locked ip ?n (set_limits (Some (st_limits ?t)) vr_success) ?t = (True, w, t)"
    using saves_persist [OF assms] by (metis prod.collapse)
  have r: "snd (refresh_currentness ip env s) = (if ?changed then swap_in ?n t else ?t)"
    using p by (simp add: refresh_currentness_def now_def at_capture_def Let_def)
  have "map (refresh_list now) ?ls = ?ls" if "\<not> ?changed"
    using that by (intro map_idI) (auto simp: refresh_list_def list_ex_iff)
  with r have "ds_lists (st_state (snd (refresh_currentness ip env s))) = map (refresh_list now) ?ls"
    by (auto simp: swap_in_def rebuild_index_def)
  moreover have "now l = Cu_FencedPublisher" if "is_fenced (la_boot (sl_authority l)) (st_authority ?t)" for l
    using that by (simp add: now_def refreshed_currentness_def Let_def)
  ultimately show ?thesis by blast
qed

end
