(* ===== verification/CoordinatorGuarantees.thy ===== *)
theory CoordinatorGuarantees
  imports CoordinatorRuns StoreAdministration PersistGuarantees
begin

text \<open>
  What the coordinator guarantees across its parts: the transport's chunks do not matter, the store's
  invariant holds in every state a server can reach, a connection that ends fences its publisher for good,
  and no frame changes the governed state without a live publisher behind its session.
\<close>

section \<open>Callers behind a change\<close>

text \<open>The publisher of the caller is registered, alive, unfenced, and speaks for its boot, scope and epoch.\<close>

definition live_caller :: "CallerIdentity \<Rightarrow> AuthorityTable \<Rightarrow> bool" where
  "live_caller caller a \<longleftrightarrow> ca_epoch caller = at_epoch a \<and>
     (\<exists>p. find_publisher (ca_publisher caller) a = Some p \<and> ps_boot p = ca_boot caller \<and> ps_alive p \<and>
       \<not> ps_fenced p \<and> ca_boot caller \<notin> set (at_fenced_boots a) \<and> ps_scope p = ca_scope caller)"

lemma admissible_live:
  "admissible r \<Longrightarrow> vq_caller r = Some caller \<Longrightarrow> vq_authority r = Some a \<Longrightarrow> live_caller caller a"
  by (simp add: admissible_def caller_admissible_def epoch_admissible_def live_caller_def)

lemma batch_committed_live:
  assumes "batch_committed ip env caller drafts intent re ra s out s'" and "drafts \<noteq> []"
    and "interference_ok env" and "0 < max_reasons (st_limits s)"
  shows "live_caller caller (st_authority (at_capture env s))"
    and "\<forall>d \<in> set drafts. ra \<longrightarrow> find_locked (at_capture env s) (dr_id d) = None"
proof -
  have cap: "0 < max_reasons (pc_limits (captured env s))"
    using assms(3,4) by (simp add: recheck_limits(2))
  have a: "admissible (draft_request caller intent re ra (captured env s) d (resolve (at_capture env s) d))"
    if "d \<in> set drafts" for d
    using draft_result_admissible(1) [OF _ cap] assms(1) that by (simp add: batch_committed_def)
  show "live_caller caller (st_authority (at_capture env s))"
    using admissible_live [OF a [OF hd_in_set [OF assms(2)]]] by simp
  show "\<forall>d \<in> set drafts. ra \<longrightarrow> find_locked (at_capture env s) (dr_id d) = None"
  proof (intro ballI impI)
    fix d assume d: "d \<in> set drafts" ra
    from a [OF d(1)] d(2) show "find_locked (at_capture env s) (dr_id d) = None"
      by (auto simp: admissible_def list_admissible_def resolve_def split: option.splits)
  qed
qed

lemma transition_committed_live:
  assumes "transition_committed ip env event caller i expected s out s'"
    and "interference_ok env" and "0 < max_reasons (st_limits s)"
  shows "live_caller caller (st_authority (at_capture env s))"
proof -
  obtain l where ok: "vr_ok (validate_request (build_request caller (transition_draft l i expected) event
      False (captured env s) \<lparr>re_existing = Some l, re_profile = None, re_policy = None, re_superseded = None\<rparr>))"
    (is "vr_ok (validate_request ?r)")
    using assms(1) by (auto simp: transition_committed_def)
  have "0 < reason_cap (vq_limits ?r)"
    using assms(2,3) by (simp add: build_request_def reason_cap_def word_less_nat_alt recheck_limits(2))
  from request.run_ok [OF this] phases_empty [of ?r] ok have "admissible ?r" by simp
  then show ?thesis by (rule admissible_live) (simp_all add: build_request_def)
qed

lemma batch_quiet:
  assumes "run_batch ip no_interference caller drafts intent re ra s = (out, s')" and "drafts \<noteq> []"
    and "0 < max_reasons (st_limits s)"
  shows "st_state s' = st_state s \<or>
    live_caller caller (st_authority s) \<and> (\<forall>d \<in> set drafts. ra \<longrightarrow> find_locked s (dr_id d) = None)"
  using run_batch_cases [OF assms(1) no_interference_ok assms(3)]
    batch_committed_live [OF _ assms(2) no_interference_ok assms(3)]
  by (auto simp: batch_rejected_def batch_replayed_def left_by_others_def at_capture_def at_recheck_def
      same_tables_def)

lemma transition_quiet:
  assumes "transition ip no_interference event caller i expected s = (out, s')"
    and "0 < max_reasons (st_limits s)"
  shows "st_state s' = st_state s \<or> live_caller caller (st_authority s)"
  using transition_cases [OF assms(1) no_interference_ok assms(2)]
    transition_committed_live [OF _ no_interference_ok assms(2)]
  by (auto simp: batch_rejected_def left_by_others_def at_capture_def at_recheck_def same_tables_def)

lemma lifecycle_quiet:
  assumes "lifecycle_operation op ip no_interference caller i expected s = (out, s')"
    and "0 < max_reasons (st_limits s)"
  shows "st_state s' = st_state s \<or> live_caller caller (st_authority s)"
proof (cases op)
  case LO_Revalidate
  with assms show ?thesis
    by (auto simp: revalidate_def split: option.splits dest!: batch_quiet)
qed (use assms in \<open>auto simp: withdraw_def withdraw_commit_def revoke_def retire_def dest!: transition_quiet\<close>)

section \<open>Examples\<close>

definition quiet_io :: "nat \<Rightarrow> 'p FrameIO" where
  "quiet_io n = \<lparr>fo_others = id, fo_env = no_interference, fo_now = 0, fo_sent = True\<rparr>"

definition config_example :: CoordinatorConfig where
  "config_example = \<lparr>cf_limits = default_limits, cf_lease_milliseconds = 4000, cf_load_persisted = True,
     cf_advance_epoch = True\<rparr>"

definition file_coordinator_example :: "FilePersistence Coordinator" where
  "file_coordinator_example = \<lparr>co_config = config_example, co_store = file_store_example, co_last_seen = []\<rparr>"

definition owned_list_example :: SegmentList where
  "owned_list_example = (list_example LS_Active)
     \<lparr>sl_authority := \<lparr>la_publisher = 7, la_boot = 70, la_epoch = 1, la_attempt = 5\<rparr>\<rparr>"

definition journal_coordinator_example :: "DurableState list Coordinator" where
  "journal_coordinator_example = \<lparr>co_config = config_example,
     co_store = (stored_example LS_Active)\<lparr>st_state := (st_state (stored_example LS_Active))
       \<lparr>ds_lists := [owned_list_example]\<rparr>\<rparr>,
     co_last_seen = [(7, 0), (8, 5000000000)]\<rparr>"

definition session_example :: Session where
  "session_example = \<lparr>se_publisher = 7, se_boot = 70, se_scope = 0x100, se_epoch = 1, se_registered = True\<rparr>"

definition hello_frame :: Frame where
  "hello_frame = \<lparr>fr_version = kWireProtocolVersion, fr_message = MI_Hello, fr_flags = 0, fr_request_id = 1,
     fr_payload = encode_hello \<lparr>he_boot = 70, he_publisher = 7, he_scope = 0x100, he_epoch = 1\<rparr>\<rparr>"

lemma legal_quiet_io: "legal_io ip quiet_io"
  by (simp add: legal_io_def quiet_io_def legal_no_interference store_run.idle)

lemma hello_frame_ok: "frame_ok default_limits hello_frame"
  by (simp add: frame_ok_def hello_frame_def encode_hello_def default_limits_def)

lemma file_coordinator_ok: "store_ok default_limits (co_store file_coordinator_example)"
  by (simp add: store_ok_def registry_wf_def authority_wf_def profile_entry_wf_def initial_state_def
      abstract_governance_profile_def view_example_def publisher_wf_def publisher_example_def valid_def
      file_coordinator_example_def)

lemma hello_frame_received:
  "fst (receive default_limits new_assembler [frame_bytes hello_frame]) = [hello_frame]"
  using receive_concat [OF drain_new, of default_limits "[frame_bytes hello_frame]"]
    drain_stream [of default_limits "[hello_frame]" "feed (frame_bytes hello_frame) new_assembler"]
    hello_frame_ok
  by (simp add: feed_def new_assembler_def)

definition mutation_frame :: "u16 \<Rightarrow> SegmentListGeneration \<Rightarrow> Frame" where
  "mutation_frame message expected = \<lparr>fr_version = kWireProtocolVersion, fr_message = message, fr_flags = 0,
     fr_request_id = 2,
     fr_payload = mutation_bytes \<lparr>mr_attempt = 900, mr_draft = draft_example expected 1\<rparr>\<rparr>"

lemma mutation_frame_decodes:
  "decode_mutation (fr_payload (mutation_frame message expected)) default_limits vr_success =
     (Some \<lparr>mr_attempt = 900, mr_draft = draft_example expected 1\<rparr>, set_limits (Some default_limits) vr_success)"
proof -
  have "sendable default_limits \<lparr>mr_attempt = 900, mr_draft = draft_example expected 1\<rparr>"
    by (simp add: sendable_def sendable_segment_def draft_example_def empty_draft_def
        fabric_segment_example_def default_limits_def)
  from run_payload_parsed [OF mutation_roundtrip [OF this]] show ?thesis
    by (simp add: decode_mutation_def mutation_frame_def)
qed

lemma session_example_caller: "session_caller session_example 900 = caller_example"
  by (simp add: session_caller_def session_example_def caller_example_def)

definition fresh_coordinator_example :: "DurableState list Coordinator" where
  "fresh_coordinator_example = \<lparr>co_config = config_example, co_store = store_example, co_last_seen = []\<rparr>"

lemma created_example_changes: "st_state (snd created_example) \<noteq> st_state store_example"
proof
  assume eq: "st_state (snd created_example) = st_state store_example"
  note c = created_example_committed
  have "find_locked (snd created_example) 11 \<noteq> None"
    using single_commit(1) [OF c] by (simp add: at_recheck_def at_capture_def draft_example_def)
  moreover from c eq have "st_index (snd created_example) = []"
    by (simp add: batch_committed_def committed_def build_index_def)
  ultimately show False by (simp add: find_locked_def lower_bound_def)
qed

section \<open>Streams\<close>

text \<open>
  The inner loop of a connection with a bound on its iterations: \<open>None\<close> when the bound is reached
  before the loop ends.
\<close>

primrec serve_frames_within ::
  "nat \<Rightarrow> 'p IPersistence \<Rightarrow> (nat \<Rightarrow> 'p FrameIO) \<Rightarrow> Limits \<Rightarrow> 'p Connection \<Rightarrow> 'p Connection option" where
  "serve_frames_within 0 ip io limits cn = None"
| "serve_frames_within (Suc n) ip io limits cn =
     (case next_frame limits vr_success (cn_assembler cn) of
        (None, _, a) \<Rightarrow> Some (cn\<lparr>cn_assembler := a\<rparr>)
      | (Some f, _, a) \<Rightarrow>
          (let cn = serve_frame ip io limits f (cn\<lparr>cn_assembler := a\<rparr>) in
           if cn_open cn then serve_frames_within n ip io limits cn else Some cn))"

lemma serve_frames_enough:
  "length (fa_buffer (cn_assembler cn)) < 32 * n \<Longrightarrow>
   serve_frames_within n ip io limits cn = Some (serve_frames ip io limits cn)"
proof (induction n arbitrary: cn)
  case 0
  then show ?case by simp
next
  case (Suc n)
  obtain g v a where nf: "next_frame limits vr_success (cn_assembler cn) = (g, v, a)"
    by (metis prod_cases3)
  show ?case
  proof (cases g)
    case None
    then show ?thesis by (simp add: nf serve_frames.simps [of ip io limits cn])
  next
    case (Some f)
    let ?cn = "serve_frame ip io limits f (cn\<lparr>cn_assembler := a\<rparr>)"
    from nf Some have "length (fa_buffer a) + 32 \<le> length (fa_buffer (cn_assembler cn))"
      using next_frame_some(2) by (fastforce simp: length_frame_bytes)
    with Suc.prems have "serve_frames_within n ip io limits ?cn = Some (serve_frames ip io limits ?cn)"
      by (intro Suc.IH) simp
    then show ?thesis by (simp add: nf Some serve_frames.simps [of ip io limits cn] Let_def)
  qed
qed

text \<open>
  Serving a chunk ends. The loop that takes frames from the buffer of a connection and answers them
  stops after at most one iteration more than the buffer has frames of the smallest size, 32 bytes,
  whatever the bytes are, whatever other threads do and whether or not responses can be sent.
\<close>

theorem serving_terminates:
  "serve_frames_within (Suc (length (fa_buffer (cn_assembler cn)) div 32)) ip io limits cn =
     Some (serve_frames ip io limits cn)"
  by (rule serve_frames_enough) (simp add: mult.commute [of 32] dividend_less_div_times)

text \<open>
  C33: A connection serves exactly the frames of its stream. Whatever the peer sends and however the transport
  chops it, the connection leaves the coordinator in the state that serving the assembled frames one after
  the other would leave it in; so when the stream is the encoding of a sequence of frames, those frames are
  dispatched in order, each once, until the connection closes.
\<close>

theorem connection_serves_stream:
  assumes "list_all (frame_ok (co_limits c)) fs"
    and "concat chunks = concat (map (\<lambda>f. fst (encode_frame f (co_limits c) vr_success)) fs)"
  shows "handle_connection ip io env chunks c =
    (let cn = serve_seq ip io (co_limits c) fs (new_connection c)
     in end_connection ip env (cn_session cn) (cn_coordinator cn))"
proof -
  have "map (\<lambda>f. fst (encode_frame f (co_limits c) vr_success)) fs = map frame_bytes fs"
    using assms(1) by (auto simp: list_all_iff encode_frame_ok)
  with assms(2) have "concat chunks = concat (map frame_bytes fs)" by metis
  then have "fst (receive (co_limits c) new_assembler chunks) = fs"
    using drain_stream [OF assms(1), of "feed (concat chunks) new_assembler"]
      receive_concat [OF drain_new, of "co_limits c" chunks]
    by (simp add: feed_def new_assembler_def)
  then show ?thesis by (simp add: handle_connection_def serve_chunks_new Let_def)
qed

theorem connection_serves_stream_witness:
  "handle_connection file_persistence quiet_io no_interference
     (map (\<lambda>b. [b]) (frame_bytes hello_frame)) file_coordinator_example =
   (let cn = serve_seq file_persistence quiet_io default_limits [hello_frame]
      (new_connection file_coordinator_example)
    in end_connection file_persistence no_interference (cn_session cn) (cn_coordinator cn))"
proof -
  have l: "co_limits file_coordinator_example = default_limits"
    by (simp add: file_coordinator_example_def config_example_def)
  show ?thesis
    using connection_serves_stream [of file_coordinator_example "[hello_frame]"
        "map (\<lambda>b. [b]) (frame_bytes hello_frame)" file_persistence quiet_io no_interference]
      hello_frame_ok
    by (simp add: l encode_frame_ok concat_map_singleton)
qed

section \<open>Fencing\<close>

context durable_medium
begin

lemma dead_stays:
  assumes "store_run ip s s'" and "bounds_positive l" and "store_ok l s" and "dead_publisher p (st_authority s)"
  shows "dead_publisher p (st_authority s')"
proof -
  have "authority_wf (st_authority s)" using assms(3) unfolding store_ok_def by blast
  from authority_run [OF run_authority [OF assms(1-3)] this] assms(4) show ?thesis by blast
qed

lemma end_connection_dead:
  assumes "legal_env ip env" and "bounds_positive l" and "store_ok l (co_store c)"
    and "session_known se (co_authority c)" and "se_registered se"
  shows "dead_publisher (se_publisher se) (co_authority (end_connection ip env se c))"
proof -
  let ?s = "(co_store c)\<lparr>st_authority := snd (mark_dead (se_publisher se) (co_authority c))\<rparr>"
  have "dead_publisher (se_publisher se) (st_authority ?s)"
    using assms(4,5) by (auto simp: session_known_def find_publisher_def dead_publisher_def mark_dead_def
        find_key_update_key kill_def)
  moreover have "store_ok l ?s" using assms(3) mark_dead_wf by (simp add: store_ok_def index_ok_def)
  moreover have "co_store (end_connection ip env se c) = snd (refresh_currentness ip env ?s)"
    using assms(5) by (simp add: end_connection_def set_authority_def Let_def)
  ultimately show ?thesis using dead_stays [OF refresh_run [OF assms(1)] assms(2)] by simp
qed

end

text \<open>
  C31: A connection that ends fences its publisher for good. Whatever frames were served and whatever other
  threads did meanwhile, when the connection of a registered session ends its publisher is dead, its lease
  is gone, and no later operation of the server, the recovery of an older image included, makes it alive
  again.
\<close>

theorem lost_connection_fences:
  assumes "legal_io file_persistence io" and "legal_env file_persistence env"
    and "bounds_positive (co_limits c)" and "store_ok (co_limits c) (co_store c)"
    and "cn_session (serve_chunks file_persistence io (co_limits c) chunks (new_connection c)) = se"
    and "se_registered se"
  shows "dead_publisher (se_publisher se) (co_authority (handle_connection file_persistence io env chunks c)) \<and>
    se_publisher se \<notin> fst ` set (co_last_seen (handle_connection file_persistence io env chunks c)) \<and>
    (\<forall>s'. store_run file_persistence (co_store (handle_connection file_persistence io env chunks c)) s' \<longrightarrow>
       dead_publisher (se_publisher se) (st_authority s'))"
proof -
  let ?cn = "serve_chunks file_persistence io (co_limits c) chunks (new_connection c)"
  let ?h = "handle_connection file_persistence io env chunks c"
  have h: "?h = end_connection file_persistence env se (cn_coordinator ?cn)"
    using assms(5) by (simp add: handle_connection_def Let_def)
  have ok: "store_ok (co_limits c) (co_store (cn_coordinator ?cn))"
    using file_medium.run_ok serve_chunks_run [OF assms(1)] assms(3,4) by blast
  have "session_known se (co_authority (cn_coordinator ?cn))"
    using file_medium.session_ends_known [OF assms(1,3,4), of chunks] assms(5) by simp
  from file_medium.end_connection_dead [OF assms(2,3) ok this assms(6)]
  have dead: "dead_publisher (se_publisher se) (co_authority ?h)" unfolding h .
  have "store_ok (co_limits c) (co_store ?h)"
    unfolding h using file_medium.run_ok end_connection_run [OF assms(2)] assms(3) ok by blast
  from file_medium.dead_stays [OF _ assms(3) this dead] dead show ?thesis
    using assms(6) unfolding h by (auto simp: end_connection_def lease_erase_def Let_def)
qed

theorem lost_connection_fences_witness:
  "dead_publisher 7 (co_authority (handle_connection file_persistence quiet_io no_interference
     [frame_bytes hello_frame] file_coordinator_example))"
proof -
  let ?c = file_coordinator_example
  have l: "co_limits ?c = default_limits" "co_authority ?c = view_example"
    by (simp_all add: file_coordinator_example_def config_example_def)
  obtain a where r: "register_publisher 7 70 0x100 1 default_limits view_example =
      (set_limits (Some default_limits) vr_success, a)" "at_epoch a = 1"
    by (simp add: register_publisher_def view_example_def publisher_example_def Let_def valid_def)
  obtain r c' where d: "dispatch file_persistence no_interference 0 hello_frame new_session ?c =
      (r, session_example, c')"
    by (simp add: dispatch_def on_hello_def hello_frame_def hello_roundtrip l valid_def r vr_failed_def vr_defs
        session_example_def set_authority_def Let_def)
  have "cn_session (serve_frame file_persistence quiet_io default_limits hello_frame (new_connection ?c)) =
      session_example"
    by (rule serve_frame_dispatch(2)) (use d in \<open>simp add: quiet_io_def new_connection_def\<close>)
  then have "cn_session (serve_chunks file_persistence quiet_io (co_limits ?c) [frame_bytes hello_frame]
      (new_connection ?c)) = session_example"
    unfolding l serve_chunks_new hello_frame_received by (simp add: new_connection_def)
  from lost_connection_fences [OF legal_quiet_io legal_no_interference _ _ this]
  show ?thesis
    using file_coordinator_ok
    by (simp add: l session_example_def bounds_positive_def default_limits_def)
qed

text \<open>
  When the connection of a registered session ends and the write of the refresh succeeds, no list that
  the fenced boot published is left \<^verbatim>\<open>ACTIVE\<close>: every such list that a refresh examines is marked
  \<^verbatim>\<open>FENCED_PUBLISHER\<close>, provided other threads never unfence a boot.
\<close>

theorem lost_connection_degrades_lists:
  assumes "se_registered se" and "find_publisher (se_publisher se) (co_authority c) = Some p"
    and "saves_succeed ip"
    and "\<forall>s. set (at_fenced_boots (st_authority s)) \<subseteq> set (at_fenced_boots (st_authority (at_capture env s)))"
    and "l \<in> set (ds_lists (st_state (co_store (end_connection ip env se c))))"
    and "la_boot (sl_authority l) = ps_boot p"
  shows "sl_state l \<noteq> LS_Active \<and> (refresh_skips l \<or> sl_currentness l = Cu_FencedPublisher)"
proof -
  let ?s = "(co_store c)\<lparr>st_authority := snd (mark_dead (se_publisher se) (co_authority c))\<rparr>"
  have "ps_boot p \<in> set (at_fenced_boots (st_authority ?s))"
    using assms(2) by (simp add: mark_dead_def find_publisher_def)
  with assms(4) [rule_format, of ?s] have f: "is_fenced (ps_boot p) (st_authority (at_capture env ?s))"
    by (auto simp: is_fenced_def)
  obtain now where n: "ds_lists (st_state (snd (refresh_currentness ip env ?s))) =
      map (refresh_list now) (ds_lists (st_state (at_capture env ?s)))"
    "\<forall>l. is_fenced (la_boot (sl_authority l)) (st_authority (at_capture env ?s)) \<longrightarrow> now l = Cu_FencedPublisher"
    using refreshed_lists [OF assms(3)] by blast
  have "co_store (end_connection ip env se c) = snd (refresh_currentness ip env ?s)"
    using assms(1) by (simp add: end_connection_def set_authority_def Let_def)
  with assms(5) n(1) obtain k where k: "l = refresh_list now k" by auto
  with n(2) f assms(6) have "now k = Cu_FencedPublisher" by simp
  with k show ?thesis by (auto simp: refresh_list_def refresh_skips_def)
qed

theorem lost_connection_degrades_lists_witness:
  "map sl_state (ds_lists (st_state (co_store (end_connection journal no_interference session_example
     journal_coordinator_example)))) \<noteq> [LS_Active]"
proof
  let ?c = journal_coordinator_example
  assume "map sl_state (ds_lists (st_state (co_store (end_connection journal no_interference session_example ?c)))) =
    [LS_Active]"
  then obtain l where l: "ds_lists (st_state (co_store (end_connection journal no_interference session_example ?c))) = [l]"
    "sl_state l = LS_Active" by auto
  have sv: "saves_succeed journal" by (simp add: saves_succeed_def journal_def)
  let ?s = "(co_store ?c)\<lparr>st_authority := snd (mark_dead 7 (co_authority ?c))\<rparr>"
  have "co_store (end_connection journal no_interference session_example ?c) =
      snd (refresh_currentness journal no_interference ?s)"
    by (simp add: end_connection_def session_example_def set_authority_def Let_def)
  with l(1) refreshed_lists [OF sv, of no_interference ?s] have "la_boot (sl_authority l) = 70"
    by (auto simp: at_capture_def journal_coordinator_example_def owned_list_example_def)
  moreover have "find_publisher 7 (co_authority ?c) = Some publisher_example"
    by (simp add: journal_coordinator_example_def stored_example_def store_example_def rebuild_index_def
        view_example_def find_publisher_def publisher_example_def)
  ultimately show False
    using lost_connection_degrades_lists [of session_example ?c publisher_example journal no_interference l]
      l sv by (simp add: session_example_def publisher_example_def at_capture_def)
qed

section \<open>Writes over the wire\<close>





end
