(* ===== verification/Server.thy ===== *)
theory Server
  imports CoordinatorRuns
begin

text \<open>
  The threads of the coordinator server (\<^verbatim>\<open>coordinator.cpp\<close>): the accept loop \<^verbatim>\<open>serve\<close>, the lease monitor,
  one thread per connection, and \<^verbatim>\<open>stop\<close>. Each thread is a program counter over the shared state of the
  server; a move is one step of one thread, and any order of moves is a schedule. What the system
  decides is part of the move: whether \<^verbatim>\<open>accept\<close> delivers a peer, what a socket delivers, the clock, and
  what happens in the unlocked windows of a store operation. A blocked call is a thread that is not
  scheduled. \<open>stop\<close> may be called again after it has returned, as the destructor does.
\<close>

section \<open>State\<close>

text \<open>
  The points of \<^verbatim>\<open>serve\<close>: the test of the loop, the call of \<^verbatim>\<open>accept\<close>, the wait for a peer, the test
  after a failure, the peer before it is counted, before it is published with its thread, and after.
\<close>

datatype ServePc =
    Sv_Idle | Sv_Test | Sv_Accept | Sv_Waiting | Sv_Failed | Sv_Accepted | Sv_Counted u32
  | Sv_Published u32 | Sv_Returned

text \<open>\<open>Sp_Swapped\<close> holds the threads that remain to be joined and the peers that remain to be closed.\<close>

datatype StopPc =
    Sp_Idle | Sp_Flagged | Sp_Closed | Sp_Monitored | Sp_Swapped "nat list" "nat list" | Sp_Returned

datatype MonitorPc = Mo_Test | Mo_Sleep | Mo_Expire | Mo_Ended

text \<open>
  A connection thread: the test of its outer loop, the receive, the inner loop over frames, the end of
  the session, the closing of the peer.
\<close>

datatype ThreadPc = Th_Loop | Th_Recv | Th_Frames | Th_End | Th_Close | Th_Done

record ConnThread =
  ct_pc :: ThreadPc
  ct_session :: Session
  ct_assembler :: FrameAssembler
  ct_open :: bool

definition new_thread :: ConnThread where
  "new_thread = \<lparr>ct_pc = Th_Loop, ct_session = new_session, ct_assembler = new_assembler, ct_open = True\<rparr>"

text \<open>
  Connections are numbered in the order in which they are published. \<open>sr_null\<close> says that the store pointer
  has been reset, \<open>sr_fault\<close> that a thread has followed it since.
\<close>

record 'p Server =
  sr_coordinator :: "'p Coordinator"
  sr_max_connections :: u32
  sr_null :: bool
  sr_fault :: bool
  sr_stopping :: bool
  sr_listening :: bool
  sr_served :: u32
  sr_threads :: "ConnThread list"
  sr_workers :: "nat list"
  sr_peers :: "nat list"
  sr_closed :: "nat list"
  sr_serve :: ServePc
  sr_stop :: StopPc
  sr_monitor :: MonitorPc

definition started_server :: "u32 \<Rightarrow> 'p Coordinator \<Rightarrow> 'p Server" where
  "started_server max_connections c = \<lparr>sr_coordinator = c, sr_max_connections = max_connections,
     sr_null = False, sr_fault = False, sr_stopping = False, sr_listening = True, sr_served = 0,
     sr_threads = [], sr_workers = [], sr_peers = [], sr_closed = [], sr_serve = Sv_Idle,
     sr_stop = Sp_Idle, sr_monitor = Mo_Test\<rparr>"

section \<open>Threads\<close>

text \<open>\<open>delivered\<close> is the answer of \<^verbatim>\<open>accept\<close> on a listener that is open.\<close>

definition serve_step :: "bool \<Rightarrow> 'p Server \<Rightarrow> 'p Server option" where
  "serve_step delivered s =
     (case sr_serve s of
        Sv_Idle \<Rightarrow> Some (s\<lparr>sr_serve := Sv_Test\<rparr>)
      | Sv_Test \<Rightarrow> Some (s\<lparr>sr_serve := if sr_stopping s then Sv_Returned else Sv_Accept\<rparr>)
      | Sv_Accept \<Rightarrow> Some (s\<lparr>sr_serve := if sr_listening s then Sv_Waiting else Sv_Failed\<rparr>)
      | Sv_Waiting \<Rightarrow> Some (s\<lparr>sr_serve := if delivered then Sv_Accepted else Sv_Failed\<rparr>)
      | Sv_Failed \<Rightarrow> Some (s\<lparr>sr_serve := if sr_stopping s then Sv_Returned else Sv_Test\<rparr>)
      | Sv_Accepted \<Rightarrow> Some (s\<lparr>sr_served := sr_served s + 1, sr_serve := Sv_Counted (sr_served s + 1)\<rparr>)
      | Sv_Counted served \<Rightarrow>
          (let i = length (sr_threads s) in
           Some (s\<lparr>sr_peers := sr_peers s @ [i], sr_workers := sr_workers s @ [i],
             sr_threads := sr_threads s @ [new_thread], sr_serve := Sv_Published served\<rparr>))
      | Sv_Published served \<Rightarrow>
          Some (s\<lparr>sr_serve :=
            if sr_max_connections s \<noteq> 0 \<and> served \<ge> sr_max_connections s then Sv_Returned else Sv_Test\<rparr>)
      | Sv_Returned \<Rightarrow> None)"

definition thread_done :: "'p Server \<Rightarrow> nat \<Rightarrow> bool" where
  "thread_done s i \<longleftrightarrow> i < length (sr_threads s) \<and> ct_pc (sr_threads s ! i) = Th_Done"

definition stop_step :: "'p Server \<Rightarrow> 'p Server option" where
  "stop_step s =
     (case sr_stop s of
        Sp_Flagged \<Rightarrow> Some (s\<lparr>sr_listening := False, sr_stop := Sp_Closed\<rparr>)
      | Sp_Closed \<Rightarrow> if sr_monitor s = Mo_Ended then Some (s\<lparr>sr_stop := Sp_Monitored\<rparr>) else None
      | Sp_Monitored \<Rightarrow> Some (s\<lparr>sr_workers := [], sr_stop := Sp_Swapped (sr_workers s) (sr_peers s)\<rparr>)
      | Sp_Swapped pending (p # peers) \<Rightarrow>
          Some (s\<lparr>sr_closed := p # sr_closed s, sr_stop := Sp_Swapped pending peers\<rparr>)
      | Sp_Swapped (t # pending) [] \<Rightarrow>
          if thread_done s t then Some (s\<lparr>sr_stop := Sp_Swapped pending []\<rparr>) else None
      | Sp_Swapped [] [] \<Rightarrow> Some (s\<lparr>sr_null := True, sr_stop := Sp_Returned\<rparr>)
      | _ \<Rightarrow> Some (s\<lparr>sr_stopping := True, sr_stop := Sp_Flagged\<rparr>))"

text \<open>A use of the store: the operation, or a fault when the pointer has been reset.\<close>

definition use_store :: "('p Coordinator \<Rightarrow> 'p Coordinator) \<Rightarrow> 'p Server \<Rightarrow> 'p Server" where
  "use_store f s = (if sr_null s then s\<lparr>sr_fault := True\<rparr> else s\<lparr>sr_coordinator := f (sr_coordinator s)\<rparr>)"

definition monitor_step :: "'p IPersistence \<Rightarrow> 'p Interference \<Rightarrow> int \<Rightarrow> 'p Server \<Rightarrow> 'p Server option" where
  "monitor_step ip env now s =
     (case sr_monitor s of
        Mo_Test \<Rightarrow> Some (s\<lparr>sr_monitor := if sr_stopping s then Mo_Ended else Mo_Sleep\<rparr>)
      | Mo_Sleep \<Rightarrow> Some (s\<lparr>sr_monitor := if sr_stopping s then Mo_Ended else Mo_Expire\<rparr>)
      | Mo_Expire \<Rightarrow> Some (use_store (\<lambda>c. snd (expire_leases ip env now c)) (s\<lparr>sr_monitor := Mo_Test\<rparr>))
      | Mo_Ended \<Rightarrow> None)"

text \<open>
  One frame of a connection is \<^verbatim>\<open>serve_frame\<close> on the state of the server and the local state of the thread.
\<close>

definition thread_connection :: "ConnThread \<Rightarrow> 'p Coordinator \<Rightarrow> 'p Connection" where
  "thread_connection t c = \<lparr>cn_coordinator = c, cn_session = ct_session t, cn_assembler = ct_assembler t,
     cn_open = ct_open t, cn_served = 0, cn_sent = []\<rparr>"

definition set_thread :: "nat \<Rightarrow> ConnThread \<Rightarrow> 'p Server \<Rightarrow> 'p Server" where
  "set_thread i t s = s\<lparr>sr_threads := (sr_threads s)[i := t]\<rparr>"

definition frame_step ::
  "'p IPersistence \<Rightarrow> 'p Interference \<Rightarrow> int \<Rightarrow> bool \<Rightarrow> nat \<Rightarrow> ConnThread \<Rightarrow> 'p Server \<Rightarrow> 'p Server" where
  "frame_step ip env now sent i t s =
     (let limits = co_limits (sr_coordinator s) in
      case next_frame limits vr_success (ct_assembler t) of
        (None, _, a) \<Rightarrow>
          set_thread i (t\<lparr>ct_assembler := a, ct_pc := if fa_overflowed a then Th_End else Th_Loop\<rparr>) s
      | (Some f, _, a) \<Rightarrow>
          (let io = (\<lambda>_. \<lparr>fo_others = id, fo_env = env, fo_now = now, fo_sent = sent\<rparr>);
               cn = serve_frame ip io limits f (thread_connection (t\<lparr>ct_assembler := a\<rparr>) (sr_coordinator s))
           in if sr_null s then s\<lparr>sr_fault := True\<rparr>
              else (set_thread i (t\<lparr>ct_assembler := a, ct_session := cn_session cn, ct_open := cn_open cn,
                      ct_pc := if cn_open cn then Th_Frames else Th_Loop\<rparr>) s)
                   \<lparr>sr_coordinator := cn_coordinator cn\<rparr>))"

text \<open>
  \<open>chunk\<close> is what \<^verbatim>\<open>recv_some\<close> delivers, \<open>None\<close> when it fails; a closed socket delivers nothing. The loop
  is left when the connection is no longer open, the server stops or the receive fails.
\<close>

definition connection_step ::
  "'p IPersistence \<Rightarrow> 'p Interference \<Rightarrow> int \<Rightarrow> bool \<Rightarrow> u8 list option \<Rightarrow> nat \<Rightarrow> 'p Server \<Rightarrow> 'p Server option" where
  "connection_step ip env now sent chunk i s =
     (if i \<ge> length (sr_threads s) then None
      else
        (let t = sr_threads s ! i in
         case ct_pc t of
           Th_Loop \<Rightarrow>
             Some (set_thread i (t\<lparr>ct_pc := if ct_open t \<and> \<not> sr_stopping s then Th_Recv else Th_End\<rparr>) s)
         | Th_Recv \<Rightarrow>
             Some (case (if i \<in> set (sr_closed s) then None else chunk) of
                     None \<Rightarrow> set_thread i (t\<lparr>ct_pc := Th_End\<rparr>) s
                   | Some bytes \<Rightarrow>
                       set_thread i (t\<lparr>ct_assembler := feed bytes (ct_assembler t), ct_pc := Th_Frames\<rparr>) s)
         | Th_Frames \<Rightarrow> Some (frame_step ip env now sent i t s)
         | Th_End \<Rightarrow>
             (let s = set_thread i (t\<lparr>ct_pc := Th_Close\<rparr>) s in
              Some (if se_registered (ct_session t)
                    then use_store (end_connection ip env (ct_session t)) s else s))
         | Th_Close \<Rightarrow>
             Some ((set_thread i (t\<lparr>ct_pc := Th_Done\<rparr>) s)
               \<lparr>sr_closed := i # sr_closed s, sr_peers := filter (\<lambda>p. p \<noteq> i) (sr_peers s)\<rparr>)
         | Th_Done \<Rightarrow> None))"

section \<open>Schedules\<close>

datatype 'p ServerMove =
    Move_Serve bool
  | Move_Stop
  | Move_Monitor "'p Interference" int
  | Move_Connection "'p Interference" int bool "u8 list option" nat

primrec server_step :: "'p IPersistence \<Rightarrow> 'p ServerMove \<Rightarrow> 'p Server \<Rightarrow> 'p Server option" where
  "server_step ip (Move_Serve delivered) s = serve_step delivered s"
| "server_step ip Move_Stop s = stop_step s"
| "server_step ip (Move_Monitor env now) s = monitor_step ip env now s"
| "server_step ip (Move_Connection env now sent chunk i) s = connection_step ip env now sent chunk i s"

primrec run_schedule :: "'p IPersistence \<Rightarrow> 'p ServerMove list \<Rightarrow> 'p Server \<Rightarrow> 'p Server option" where
  "run_schedule ip [] s = Some s"
| "run_schedule ip (m # ms) s = Option.bind (server_step ip m s) (run_schedule ip ms)"

text \<open>
  A move is legal when what other threads do inside a store operation is a run of the store and a receive
  delivers at most the buffer of the connection.
\<close>

definition recv_buffer :: nat where "recv_buffer = 16384"

fun legal_move :: "'p IPersistence \<Rightarrow> 'p ServerMove \<Rightarrow> bool" where
  "legal_move ip (Move_Monitor env now) \<longleftrightarrow> legal_env ip env"
| "legal_move ip (Move_Connection env now sent chunk i) \<longleftrightarrow>
     legal_env ip env \<and> (case chunk of None \<Rightarrow> True | Some bytes \<Rightarrow> length bytes \<le> recv_buffer)"
| "legal_move ip m \<longleftrightarrow> True"

inductive server_reach :: "'p IPersistence \<Rightarrow> 'p Server \<Rightarrow> 'p Server \<Rightarrow> bool" for ip and s0 where
  start: "server_reach ip s0 s0"
| move: "server_reach ip s0 s \<Longrightarrow> legal_move ip m \<Longrightarrow> server_step ip m s = Some s' \<Longrightarrow> server_reach ip s0 s'"

lemma schedule_reaches:
  "run_schedule ip ms s = Some s' \<Longrightarrow> list_all (legal_move ip) ms \<Longrightarrow> server_reach ip s0 s \<Longrightarrow>
   server_reach ip s0 s'"
  by (induction ms arbitrary: s) (auto simp: bind_eq_Some_conv intro: server_reach.move)

text \<open>
  What every step of every thread keeps holds in every state that is reached: the contract of an invariant of
  the server, with one law per thread.
\<close>

locale server_invariant =
  fixes ip :: "'p IPersistence" and inv :: "'p Server \<Rightarrow> bool"
  assumes serve_keeps: "serve_step delivered s = Some s' \<Longrightarrow> inv s \<Longrightarrow> inv s'"
    and stop_keeps: "stop_step s = Some s' \<Longrightarrow> inv s \<Longrightarrow> inv s'"
    and monitor_keeps: "monitor_step ip env now s = Some s' \<Longrightarrow> inv s \<Longrightarrow> inv s'"
    and connection_keeps: "connection_step ip env now sent chunk i s = Some s' \<Longrightarrow> inv s \<Longrightarrow> inv s'"
begin

lemma step_keeps: "server_step ip m s = Some s' \<Longrightarrow> inv s \<Longrightarrow> inv s'"
  by (cases m) (simp_all add: serve_keeps stop_keeps monitor_keeps connection_keeps)

lemma reach_keeps: "server_reach ip s0 s \<Longrightarrow> inv s0 \<Longrightarrow> inv s"
  by (induction rule: server_reach.induct) (blast intro: step_keeps)+

end

end
