(* ===== verification/ServerGuarantees.thy ===== *)
theory ServerGuarantees
  imports Server CoordinatorGuarantees
begin

text \<open>
  What holds in every schedule of the server's threads: the store is not used after \<^verbatim>\<open>stop\<close> has released
  it, at most the configured number of connections is accepted, shutdown cannot get stuck, and what a
  stopped server leaves behind is a consistent store without a live publisher of its own.
\<close>

lemma set_thread_simps [simp]:
  "length (sr_threads (set_thread i t s)) = length (sr_threads s)"
  "sr_threads (set_thread i t s) = (sr_threads s)[i := t]"
  "sr_coordinator (set_thread i t s) = sr_coordinator s" "sr_null (set_thread i t s) = sr_null s"
  "sr_fault (set_thread i t s) = sr_fault s" "sr_stopping (set_thread i t s) = sr_stopping s"
  "sr_workers (set_thread i t s) = sr_workers s" "sr_stop (set_thread i t s) = sr_stop s"
  "sr_monitor (set_thread i t s) = sr_monitor s" "sr_serve (set_thread i t s) = sr_serve s"
  "sr_served (set_thread i t s) = sr_served s"
  "sr_max_connections (set_thread i t s) = sr_max_connections s"
  "sr_peers (set_thread i t s) = sr_peers s" "sr_closed (set_thread i t s) = sr_closed s"
  by (simp_all add: set_thread_def)

lemma use_store_simps [simp]:
  "sr_threads (use_store f s) = sr_threads s" "sr_null (use_store f s) = sr_null s"
  "sr_stopping (use_store f s) = sr_stopping s" "sr_workers (use_store f s) = sr_workers s"
  "sr_stop (use_store f s) = sr_stop s" "sr_monitor (use_store f s) = sr_monitor s"
  "sr_serve (use_store f s) = sr_serve s" "sr_served (use_store f s) = sr_served s"
  "sr_max_connections (use_store f s) = sr_max_connections s" "sr_peers (use_store f s) = sr_peers s"
  "\<not> sr_null s \<Longrightarrow> sr_fault (use_store f s) = sr_fault s"
  "\<not> sr_null s \<Longrightarrow> sr_coordinator (use_store f s) = f (sr_coordinator s)"
  by (simp_all add: use_store_def)

lemma new_thread_simps [simp]:
  "ct_pc new_thread = Th_Loop" "\<not> se_registered (ct_session new_thread)" "fa_buffer (ct_assembler new_thread) = []"
  by (simp_all add: new_thread_def new_session_def new_assembler_def)

section \<open>Steps of a connection\<close>

text \<open>A connection moves its own thread only, and leaves the control state of the others alone.\<close>

definition same_control :: "'p Server \<Rightarrow> 'p Server \<Rightarrow> bool" where
  "same_control s s' \<longleftrightarrow> sr_stop s' = sr_stop s \<and> sr_monitor s' = sr_monitor s \<and> sr_workers s' = sr_workers s \<and>
     sr_stopping s' = sr_stopping s \<and> sr_null s' = sr_null s \<and> sr_serve s' = sr_serve s \<and>
     sr_served s' = sr_served s \<and> sr_max_connections s' = sr_max_connections s \<and>
     length (sr_threads s') = length (sr_threads s)"

lemma frame_step_control:
  "same_control s (frame_step ip env now sent i t s) \<and>
   (\<forall>j. j \<noteq> i \<longrightarrow> sr_threads (frame_step ip env now sent i t s) ! j = sr_threads s ! j) \<and>
   sr_peers (frame_step ip env now sent i t s) = sr_peers s \<and>
   (\<not> sr_null s \<longrightarrow> sr_fault (frame_step ip env now sent i t s) = sr_fault s)"
  by (simp add: frame_step_def same_control_def Let_def split: prod.split option.split)

lemma connection_step_control:
  assumes "connection_step ip env now sent chunk i s = Some s'"
  shows "same_control s s' \<and> i < length (sr_threads s) \<and>
    (\<forall>j. j \<noteq> i \<longrightarrow> sr_threads s' ! j = sr_threads s ! j) \<and> length (sr_peers s') \<le> length (sr_peers s)"
proof -
  have i: "i < length (sr_threads s)" using assms by (simp add: connection_step_def split: if_splits)
  show ?thesis
  proof (cases "ct_pc (sr_threads s ! i)")
    case Th_Frames
    then have "s' = frame_step ip env now sent i (sr_threads s ! i) s"
      using assms i by (simp add: connection_step_def Let_def)
    then show ?thesis using frame_step_control [of s ip env now sent i "sr_threads s ! i"] i by simp
  next
    case Th_Close
    with assms i have s': "s' = (set_thread i ((sr_threads s ! i)\<lparr>ct_pc := Th_Done\<rparr>) s)
        \<lparr>sr_closed := i # sr_closed s, sr_peers := filter (\<lambda>p. p \<noteq> i) (sr_peers s)\<rparr>"
      by (simp add: connection_step_def Let_def)
    show ?thesis unfolding s' same_control_def using i by simp
  qed (use assms i in \<open>auto simp: connection_step_def same_control_def Let_def split: option.splits if_splits\<close>)
qed

section \<open>The store is not used after its release\<close>

text \<open>
  A connection thread that can no longer reach the store: it has ended, or the server is stopping and the
  thread has neither a registered session nor a way to serve a frame. A connection that is published
  after \<^verbatim>\<open>stop\<close> has taken the list of threads is of this kind from its first step.
\<close>

definition settled :: "bool \<Rightarrow> ConnThread \<Rightarrow> bool" where
  "settled stopping t \<longleftrightarrow> ct_pc t = Th_Done \<or>
     (stopping \<and> \<not> se_registered (ct_session t) \<and> ct_pc t \<notin> {Th_Recv, Th_Frames})"

text \<open>The threads that \<^verbatim>\<open>stop\<close> still has to join: those it has taken, and before that all of the server.\<close>

definition to_join :: "'p Server \<Rightarrow> nat list" where
  "to_join s = (case sr_stop s of Sp_Swapped pending _ \<Rightarrow> pending | _ \<Rightarrow> sr_workers s)"

lemma to_join_cong: "sr_stop s' = sr_stop s \<Longrightarrow> sr_workers s' = sr_workers s \<Longrightarrow> to_join s' = to_join s"
  by (simp add: to_join_def split: StopPc.split)

primrec monitor_joined :: "StopPc \<Rightarrow> bool" where
  "monitor_joined Sp_Idle = False"
| "monitor_joined Sp_Flagged = False"
| "monitor_joined Sp_Closed = False"
| "monitor_joined Sp_Monitored = True"
| "monitor_joined (Sp_Swapped pending peers) = True"
| "monitor_joined Sp_Returned = False"

definition control_ok :: "'p Server \<Rightarrow> bool" where
  "control_ok s \<longleftrightarrow> (sr_stop s \<noteq> Sp_Idle \<longrightarrow> sr_stopping s) \<and> (sr_null s \<longrightarrow> sr_stopping s) \<and>
     (sr_null s \<or> monitor_joined (sr_stop s) \<longrightarrow> sr_monitor s = Mo_Ended) \<and>
     (sr_stop s = Sp_Returned \<longrightarrow> sr_null s)"

definition threads_ok :: "'p Server \<Rightarrow> bool" where
  "threads_ok s \<longleftrightarrow> (\<forall>i < length (sr_threads s).
     settled (sr_stopping s) (sr_threads s ! i) \<or> (\<not> sr_null s \<and> i \<in> set (to_join s)))"

definition shutdown_inv :: "'p Server \<Rightarrow> bool" where
  "shutdown_inv s \<longleftrightarrow> control_ok s \<and> threads_ok s \<and> \<not> sr_fault s"

lemma shutdown_start: "shutdown_inv (started_server m c)"
  by (simp add: shutdown_inv_def control_ok_def threads_ok_def started_server_def)

lemma serve_step_control:
  "serve_step delivered s = Some s' \<Longrightarrow>
   sr_fault s' = sr_fault s \<and> sr_null s' = sr_null s \<and> sr_stopping s' = sr_stopping s \<and>
   sr_stop s' = sr_stop s \<and> sr_monitor s' = sr_monitor s"
  by (auto simp: serve_step_def Let_def split: ServePc.splits)

lemma serve_step_threads:
  assumes "serve_step delivered s = Some s'"
  shows "(sr_threads s' = sr_threads s \<and> sr_workers s' = sr_workers s) \<or>
    (sr_threads s' = sr_threads s @ [new_thread] \<and> sr_workers s' = sr_workers s @ [length (sr_threads s)])"
  using assms by (auto simp: serve_step_def Let_def split: ServePc.splits)

lemma serve_step_shutdown:
  assumes "serve_step delivered s = Some s'" and "shutdown_inv s"
  shows "shutdown_inv s'"
proof -
  note c = serve_step_control [OF assms(1)]
  have k: "control_ok s" "threads_ok s" using assms(2) by (simp_all add: shutdown_inv_def)
  have j: "set (to_join s) \<subseteq> set (to_join s')"
    using serve_step_threads [OF assms(1)] c by (auto simp: to_join_def split: StopPc.split)
  have new: "settled (sr_stopping s) new_thread \<or> (\<not> sr_null s \<and> i \<in> set (to_join s'))"
    if "sr_workers s' = sr_workers s @ [i]" for i
  proof (cases "sr_stop s")
    case Sp_Idle
    then show ?thesis using that c k(1) by (auto simp: settled_def to_join_def control_ok_def)
  qed (use k(1) in \<open>simp_all add: settled_def control_ok_def\<close>)
  have "threads_ok s'"
    unfolding threads_ok_def
  proof (intro allI impI)
    fix i assume i: "i < length (sr_threads s')"
    show "settled (sr_stopping s') (sr_threads s' ! i) \<or> (\<not> sr_null s' \<and> i \<in> set (to_join s'))"
    proof (cases "i < length (sr_threads s)")
      case True
      then have "sr_threads s' ! i = sr_threads s ! i"
        using serve_step_threads [OF assms(1)] by (auto simp: nth_append)
      then show ?thesis using k(2) True c j by (auto simp: threads_ok_def)
    next
      case False
      then have "sr_workers s' = sr_workers s @ [i]" "sr_threads s' ! i = new_thread"
        using serve_step_threads [OF assms(1)] i by (auto simp: nth_append less_Suc_eq)
      then show ?thesis using new c by simp
    qed
  qed
  then show ?thesis using c assms(2) by (simp add: shutdown_inv_def control_ok_def)
qed

lemma settled_mono: "settled b t \<Longrightarrow> settled True t"
  by (auto simp: settled_def)

lemma stop_step_shutdown:
  assumes "stop_step s = Some s'" and "shutdown_inv s"
  shows "shutdown_inv s'"
proof -
  have k: "control_ok s" "threads_ok s" "\<not> sr_fault s" using assms(2) by (simp_all add: shutdown_inv_def)
  have c: "control_ok s'" "\<not> sr_fault s'"
    using assms(1) k by (auto simp: stop_step_def control_ok_def split: StopPc.splits list.splits if_splits)
  have t: "sr_threads s' = sr_threads s" "sr_stopping s \<Longrightarrow> sr_stopping s'"
    using assms(1) by (auto simp: stop_step_def split: StopPc.splits list.splits if_splits)
  have j: "sr_null s \<or> i \<in> set (to_join s) \<longrightarrow> settled True (sr_threads s ! i) \<or> (\<not> sr_null s' \<and> i \<in> set (to_join s'))"
    if "i < length (sr_threads s)" "settled (sr_stopping s) (sr_threads s ! i) \<or> \<not> sr_null s" for i
    using assms(1) that
    by (auto simp: stop_step_def to_join_def thread_done_def settled_def split: StopPc.splits list.splits if_splits)
  have st: "sr_stopping s'"
    using c(1) assms(1) by (auto simp: stop_step_def control_ok_def split: StopPc.splits list.splits if_splits)
  have "threads_ok s'"
    using k(2) j t(1) st by (fastforce simp: threads_ok_def dest: settled_mono)
  with c show ?thesis by (simp add: shutdown_inv_def)
qed

lemma monitor_step_shutdown:
  assumes "monitor_step ip env now s = Some s'" and "shutdown_inv s"
  shows "shutdown_inv s'"
proof -
  have n: "\<not> sr_null s" "\<not> monitor_joined (sr_stop s)"
    using assms by (auto simp: monitor_step_def shutdown_inv_def control_ok_def)
  have "sr_workers s' = sr_workers s \<and> sr_threads s' = sr_threads s \<and> sr_stopping s' = sr_stopping s \<and>
      sr_null s' = sr_null s \<and> sr_stop s' = sr_stop s \<and> sr_fault s' = sr_fault s"
    using assms(1) n by (auto simp: monitor_step_def split: MonitorPc.splits)
  with n assms(2) to_join_cong [of s' s] show ?thesis
    by (simp add: shutdown_inv_def control_ok_def threads_ok_def)
qed

lemma connection_step_settled:
  assumes "connection_step ip env now sent chunk i s = Some s'" and "settled (sr_stopping s) (sr_threads s ! i)"
  shows "settled (sr_stopping s) (sr_threads s' ! i) \<and> sr_fault s' = sr_fault s"
  using assms by (auto simp: connection_step_def settled_def Let_def split: if_splits ThreadPc.splits)

lemma connection_step_fault:
  assumes "connection_step ip env now sent chunk i s = Some s'" and "\<not> sr_null s"
  shows "sr_fault s' = sr_fault s"
  using assms frame_step_control [of s ip env now sent i "sr_threads s ! i"]
  by (auto simp: connection_step_def Let_def split: if_splits ThreadPc.splits option.splits)

lemma connection_step_shutdown:
  assumes "connection_step ip env now sent chunk i s = Some s'" and "shutdown_inv s"
  shows "shutdown_inv s'"
proof -
  note c = connection_step_control [OF assms(1)] and st = connection_step_settled [OF assms(1)]
  have j: "to_join s' = to_join s" using c by (intro to_join_cong) (simp_all add: same_control_def)
  have i: "settled (sr_stopping s) (sr_threads s ! i) \<or> (\<not> sr_null s \<and> i \<in> set (to_join s))"
    using c assms(2) by (simp add: shutdown_inv_def threads_ok_def)
  have "\<not> sr_fault s'"
    using i st connection_step_fault [OF assms(1)] assms(2) by (auto simp: shutdown_inv_def)
  moreover have "threads_ok s'"
    unfolding threads_ok_def
  proof (intro allI impI)
    fix k assume "k < length (sr_threads s')"
    then show "settled (sr_stopping s') (sr_threads s' ! k) \<or> (\<not> sr_null s' \<and> k \<in> set (to_join s'))"
      using c st i j assms(2)
      by (cases "k = i") (simp_all add: same_control_def shutdown_inv_def threads_ok_def, blast)
  qed
  ultimately show ?thesis using c assms(2) by (simp add: shutdown_inv_def control_ok_def same_control_def)
qed

interpretation shutdown: server_invariant ip shutdown_inv for ip
  by unfold_locales
    (fact serve_step_shutdown stop_step_shutdown monitor_step_shutdown connection_step_shutdown)+

lemma reach_shutdown: "server_reach ip (started_server m c) s \<Longrightarrow> shutdown_inv s"
  using shutdown.reach_keeps shutdown_start by blast

text \<open>
  A schedule in which a peer is accepted before \<^verbatim>\<open>stop\<close> is called and published after \<^verbatim>\<open>stop\<close> has taken the
  list of threads: the store is released while the thread of the peer has not run.
\<close>

definition late_accept :: "'p ServerMove list" where
  "late_accept = replicate 5 (Move_Serve True) @ [Move_Stop, Move_Stop, Move_Monitor no_interference 0, Move_Stop,
     Move_Stop, Move_Serve True, Move_Stop] @ replicate 3 (Move_Connection no_interference 0 True None 0)"

lemma late_accept_legal: "list_all (legal_move ip) late_accept"
  by (simp add: late_accept_def legal_no_interference eval_nat_numeral)

lemma late_accept_runs:
  "\<exists>s. run_schedule ip late_accept (started_server 1 c) = Some s \<and> sr_null s \<and> sr_stop s = Sp_Returned \<and>
     map ct_pc (sr_threads s) = [Th_Done] \<and> sr_serve s = Sv_Published 1"
  by (simp add: late_accept_def started_server_def serve_step_def stop_step_def monitor_step_def
      connection_step_def set_thread_def eval_nat_numeral)

text \<open>
  C14: In every interleaving of the accept loop, the lease monitor, the connection threads and \<^verbatim>\<open>stop\<close>, no
  thread follows the store pointer after \<^verbatim>\<open>stop\<close> has reset it, and when \<^verbatim>\<open>stop\<close> has returned the monitor
  has ended and every connection thread has ended or can no longer serve a frame or hold a session.
\<close>

theorem shutdown_safe:
  assumes "server_reach ip (started_server m c) s"
  shows "\<not> sr_fault s \<and> (sr_stop s = Sp_Returned \<longrightarrow> sr_null s \<and> sr_monitor s = Mo_Ended \<and>
    list_all (\<lambda>t. ct_pc t = Th_Done \<or> (\<not> se_registered (ct_session t) \<and> ct_pc t \<in> {Th_Loop, Th_End, Th_Close}))
      (sr_threads s))"
proof -
  note i = reach_shutdown [OF assms, unfolded shutdown_inv_def control_ok_def]
  have "ct_pc t = Th_Done \<or> (\<not> se_registered (ct_session t) \<and> ct_pc t \<in> {Th_Loop, Th_End, Th_Close})"
    if n: "sr_null s" and t: "t \<in> set (sr_threads s)" for t
  proof -
    obtain k where "k < length (sr_threads s)" "t = sr_threads s ! k" using t by (auto simp: in_set_conv_nth)
    then have "settled (sr_stopping s) t" using i n by (auto simp: threads_ok_def)
    then show ?thesis by (cases "ct_pc t") (simp_all add: settled_def)
  qed
  with i show ?thesis by (auto simp: list_all_iff)
qed

theorem shutdown_safe_witness:
  "\<exists>s. run_schedule file_persistence late_accept (started_server 1 file_coordinator_example) = Some s \<and>
     sr_stop s = Sp_Returned \<and> sr_null s \<and> \<not> sr_fault s"
proof -
  obtain s where s: "run_schedule file_persistence late_accept (started_server 1 file_coordinator_example) = Some s"
    "sr_stop s = Sp_Returned" using late_accept_runs by blast
  from schedule_reaches [OF s(1) late_accept_legal server_reach.start] have
    "server_reach file_persistence (started_server 1 file_coordinator_example) s" .
  from shutdown_safe [OF this] s show ?thesis by blast
qed

section \<open>The connection limit\<close>

text \<open>With a limit the counter does not wrap: the loop is left when it reaches the limit.\<close>

definition count_ok :: "'p Server \<Rightarrow> bool" where
  "count_ok s \<longleftrightarrow>
     (case sr_serve s of
        Sv_Counted n \<Rightarrow> n = sr_served s \<and> unat n = Suc (length (sr_threads s)) \<and> n \<le> sr_max_connections s
      | Sv_Published n \<Rightarrow> n = sr_served s \<and> unat n = length (sr_threads s) \<and> n \<le> sr_max_connections s
      | Sv_Returned \<Rightarrow> unat (sr_served s) = length (sr_threads s) \<and> sr_served s \<le> sr_max_connections s
      | _ \<Rightarrow> unat (sr_served s) = length (sr_threads s) \<and> sr_served s < sr_max_connections s)"

lemma count_cong:
  "sr_serve s' = sr_serve s \<Longrightarrow> sr_served s' = sr_served s \<Longrightarrow> sr_max_connections s' = sr_max_connections s \<Longrightarrow>
   length (sr_threads s') = length (sr_threads s) \<Longrightarrow> count_ok s' = count_ok s"
  by (cases "sr_serve s") (simp_all add: count_ok_def)

lemma stop_step_count:
  assumes "stop_step s = Some s'"
  shows "count_ok s' = count_ok s \<and> sr_max_connections s' = sr_max_connections s"
proof -
  have "sr_serve s' = sr_serve s \<and> sr_served s' = sr_served s \<and> sr_max_connections s' = sr_max_connections s \<and>
      length (sr_threads s') = length (sr_threads s)"
    using assms by (auto simp: stop_step_def split: StopPc.splits list.splits if_splits)
  with count_cong [of s' s] show ?thesis by simp
qed

lemma monitor_step_count:
  assumes "monitor_step ip env now s = Some s'"
  shows "count_ok s' = count_ok s \<and> sr_max_connections s' = sr_max_connections s"
proof -
  have "sr_serve s' = sr_serve s \<and> sr_served s' = sr_served s \<and> sr_max_connections s' = sr_max_connections s \<and>
      length (sr_threads s') = length (sr_threads s)"
    using assms by (auto simp: monitor_step_def split: MonitorPc.splits)
  with count_cong [of s' s] show ?thesis by simp
qed

lemma u32_below_suc:
  fixes a m :: u32
  assumes "a < m"
  shows "unat (a + 1) = Suc (unat a) \<and> a + 1 \<le> m"
proof -
  have unat_bound: "unat x < 2 ^ 32" for x :: u32 using unsigned_less [of x] by simp
  have "unat a + 1 < 2 ^ 32" using assms unat_bound [of m] by (simp add: word_less_nat_alt)
  then show ?thesis using assms inc_le by (simp add: unat_word_ariths)
qed

lemma serve_step_count:
  assumes "serve_step delivered s = Some s'" and "count_ok s" and "sr_max_connections s \<noteq> 0"
  shows "count_ok s' \<and> sr_max_connections s' = sr_max_connections s"
proof (cases "sr_serve s")
  case Sv_Accepted
  then have "unat (sr_served s + 1) = Suc (unat (sr_served s)) \<and> sr_served s + 1 \<le> sr_max_connections s"
    using assms(2) u32_below_suc [of "sr_served s" "sr_max_connections s"] by (simp add: count_ok_def)
  then show ?thesis using assms Sv_Accepted by (auto simp: serve_step_def count_ok_def)
qed (use assms in \<open>auto simp: serve_step_def count_ok_def Let_def\<close>)

lemma connection_step_count:
  assumes "connection_step ip env now sent chunk i s = Some s'"
  shows "count_ok s' = count_ok s \<and> sr_max_connections s' = sr_max_connections s"
  using connection_step_control [OF assms] count_cong [of s' s] by (simp add: same_control_def)

definition limit_ok :: "u32 \<Rightarrow> 'p Server \<Rightarrow> bool" where
  "limit_ok m s \<longleftrightarrow> m \<noteq> 0 \<and> count_ok s \<and> sr_max_connections s = m"

interpretation limit: server_invariant ip "limit_ok m" for ip m
  by unfold_locales (auto simp: limit_ok_def dest: serve_step_count stop_step_count monitor_step_count
      connection_step_count)

lemma reach_count:
  assumes "server_reach ip (started_server m c) s" and "m \<noteq> 0"
  shows "count_ok s \<and> sr_max_connections s = m"
proof -
  have "limit_ok m (started_server m c)"
    using assms(2) by (simp add: limit_ok_def count_ok_def started_server_def word_neq_0_conv)
  from limit.reach_keeps [OF assms(1) this] show ?thesis by (simp add: limit_ok_def)
qed

text \<open>
  A server that is configured with a connection limit never starts more connection threads than the
  limit, and the 32-bit counter of accepted connections is exact in every interleaving.
\<close>

theorem accept_limit:
  assumes "server_reach ip (started_server m c) s" and "m \<noteq> 0"
  shows "length (sr_threads s) \<le> unat m \<and>
    unat (sr_served s) = length (sr_threads s) + (if \<exists>n. sr_serve s = Sv_Counted n then 1 else 0)"
  using reach_count [OF assms]
  by (auto simp: count_ok_def word_le_nat_alt word_less_nat_alt split: ServePc.splits)

theorem accept_limit_witness:
  "\<exists>s. run_schedule file_persistence late_accept (started_server 1 file_coordinator_example) = Some s \<and>
     unat (sr_served s) = length (sr_threads s) \<and> length (sr_threads s) = 1"
proof -
  obtain s where s: "run_schedule file_persistence late_accept (started_server 1 file_coordinator_example) = Some s"
    "map ct_pc (sr_threads s) = [Th_Done]" "sr_serve s = Sv_Published 1"
    using late_accept_runs [of file_persistence file_coordinator_example] by auto
  from schedule_reaches [OF s(1) late_accept_legal server_reach.start] have
    "server_reach file_persistence (started_server 1 file_coordinator_example) s" .
  from accept_limit [OF this] s show ?thesis by auto
qed

end
