(* ===== verification/ServerShutdown.thy ===== *)
theory ServerShutdown
  imports ServerGuarantees
begin

text \<open>
  Shutdown ends and leaves no writer behind: once \<^verbatim>\<open>stop\<close> has been called every move of every thread lowers
  a rank until \<^verbatim>\<open>stop\<close> returns, some move is always possible, and the store a stopped server leaves is a run
  of the store it was started with in which every publisher that registered over a connection is dead.
\<close>

section \<open>A rank that every move lowers\<close>

primrec serve_rank :: "ServePc \<Rightarrow> nat" where
  "serve_rank Sv_Idle = 2"
| "serve_rank Sv_Test = 1"
| "serve_rank Sv_Accept = 11"
| "serve_rank Sv_Waiting = 10"
| "serve_rank Sv_Failed = 1"
| "serve_rank Sv_Accepted = 9"
| "serve_rank (Sv_Counted n) = 8"
| "serve_rank (Sv_Published n) = 2"
| "serve_rank Sv_Returned = 0"

primrec monitor_rank :: "MonitorPc \<Rightarrow> nat" where
  "monitor_rank Mo_Test = 1"
| "monitor_rank Mo_Sleep = 1"
| "monitor_rank Mo_Expire = 2"
| "monitor_rank Mo_Ended = 0"

text \<open>What a thread has left depends on the bytes it holds: each served frame takes some of them.\<close>

definition thread_rank :: "ConnThread \<Rightarrow> nat" where
  "thread_rank t =
     (case ct_pc t of
        Th_Loop \<Rightarrow> 3
      | Th_Recv \<Rightarrow> 5 + recv_buffer + length (fa_buffer (ct_assembler t))
      | Th_Frames \<Rightarrow> 4 + length (fa_buffer (ct_assembler t))
      | Th_End \<Rightarrow> 2
      | Th_Close \<Rightarrow> 1
      | Th_Done \<Rightarrow> 0)"

definition stop_rank :: "'p Server \<Rightarrow> nat" where
  "stop_rank s =
     (let n = length (sr_workers s) + length (sr_peers s) in
      case sr_stop s of
        Sp_Idle \<Rightarrow> 5 + n
      | Sp_Flagged \<Rightarrow> 4 + n
      | Sp_Closed \<Rightarrow> 3 + n
      | Sp_Monitored \<Rightarrow> 2 + n
      | Sp_Swapped pending peers \<Rightarrow> 1 + length pending + length peers
      | Sp_Returned \<Rightarrow> 0)"

definition shutdown_rank :: "'p Server \<Rightarrow> nat" where
  "shutdown_rank s = serve_rank (sr_serve s) + monitor_rank (sr_monitor s) + stop_rank s +
     sum_list (map thread_rank (sr_threads s))"

lemma serve_step_rank:
  assumes "serve_step delivered s = Some s'" and "sr_stopping s"
  shows "shutdown_rank s' < shutdown_rank s"
proof (cases "sr_serve s")
  case (Sv_Counted n)
  have "stop_rank s' \<le> stop_rank s + 2"
    using assms(1) Sv_Counted by (cases "sr_stop s") (auto simp: serve_step_def stop_rank_def Let_def)
  then show ?thesis
    using assms(1) Sv_Counted by (auto simp: serve_step_def shutdown_rank_def thread_rank_def Let_def)
next
  case Sv_Accepted
  then show ?thesis using assms
    by (cases "sr_stop s") (auto simp: serve_step_def shutdown_rank_def stop_rank_def)
qed (use assms in \<open>cases "sr_stop s"; auto simp: serve_step_def shutdown_rank_def stop_rank_def\<close>)+

lemma stop_step_rank:
  assumes "stop_step s = Some s'" and "sr_stop s \<noteq> Sp_Returned"
  shows "shutdown_rank s' < shutdown_rank s"
  using assms
  by (auto simp: stop_step_def shutdown_rank_def stop_rank_def split: StopPc.splits list.splits if_splits)

lemma monitor_step_rank:
  assumes "monitor_step ip env now s = Some s'" and "sr_stopping s"
  shows "shutdown_rank s' < shutdown_rank s"
proof -
  have "stop_rank s' = stop_rank s \<and> sr_threads s' = sr_threads s \<and> sr_serve s' = sr_serve s \<and>
      monitor_rank (sr_monitor s') < monitor_rank (sr_monitor s)"
    using assms by (cases "sr_stop s") (auto simp: monitor_step_def stop_rank_def split: MonitorPc.splits)
  then show ?thesis by (simp add: shutdown_rank_def)
qed

lemma frame_step_rank:
  assumes "\<not> sr_null s" and "i < length (sr_threads s)" and "ct_pc t = Th_Frames"
  shows "thread_rank (sr_threads (frame_step ip env now sent i t s) ! i) < thread_rank t"
proof -
  obtain x r a where n: "next_frame (co_limits (sr_coordinator s)) vr_success (ct_assembler t) = (x, r, a)"
    by (metis prod_cases3)
  show ?thesis
  proof (cases x)
    case (Some f)
    then have "length (fa_buffer a) < length (fa_buffer (ct_assembler t))"
      using next_frame_some(2) [OF n [unfolded Some]] by (simp add: length_frame_bytes)
    then show ?thesis using n Some assms by (simp add: frame_step_def thread_rank_def Let_def)
  qed (use n assms in \<open>simp add: frame_step_def thread_rank_def\<close>)
qed

lemma connection_thread_rank:
  assumes "connection_step ip env now sent chunk i s = Some s'" and "sr_stopping s"
    and "ct_pc (sr_threads s ! i) = Th_Frames \<longrightarrow> \<not> sr_null s"
    and "legal_move ip (Move_Connection env now sent chunk i)"
  shows "thread_rank (sr_threads s' ! i) < thread_rank (sr_threads s ! i)"
proof -
  have i: "i < length (sr_threads s)" using connection_step_control [OF assms(1)] by blast
  show ?thesis
  proof (cases "ct_pc (sr_threads s ! i)")
    case Th_Frames
    then show ?thesis
      using assms(1,3) i frame_step_rank [of s i] by (auto simp: connection_step_def Let_def)
  qed (use assms i in \<open>auto simp: connection_step_def thread_rank_def feed_def Let_def
      split: option.splits if_splits\<close>)
qed

lemma sum_list_lower:
  fixes f :: "'a \<Rightarrow> nat"
  assumes "length ys = length xs" and "i < length xs" and "\<forall>j. j \<noteq> i \<longrightarrow> ys ! j = xs ! j" and "f (ys ! i) < f (xs ! i)"
  shows "sum_list (map f ys) < sum_list (map f xs)"
proof -
  have "ys = xs[i := ys ! i]" using assms(1-3) by (intro nth_equalityI) (simp_all add: nth_list_update)
  then have "map f ys = (map f xs)[i := f (ys ! i)]" by (metis map_update)
  moreover have "f (xs ! i) \<le> sum_list (map f xs)" using assms(2) by (intro member_le_sum_list) simp_all
  ultimately show ?thesis using assms(2,4) by (simp add: sum_list_update)
qed

lemma connection_step_rank:
  assumes "connection_step ip env now sent chunk i s = Some s'" and "sr_stopping s" and "shutdown_inv s"
    and "legal_move ip (Move_Connection env now sent chunk i)"
  shows "shutdown_rank s' < shutdown_rank s"
proof -
  note c = connection_step_control [OF assms(1)]
  have "ct_pc (sr_threads s ! i) = Th_Frames \<longrightarrow> \<not> sr_null s"
    using assms(3) c by (auto simp: shutdown_inv_def threads_ok_def settled_def)
  from connection_thread_rank [OF assms(1,2) this assms(4)] have
    "sum_list (map thread_rank (sr_threads s')) < sum_list (map thread_rank (sr_threads s))"
    using c by (intro sum_list_lower) (auto simp: same_control_def)
  moreover have "stop_rank s' \<le> stop_rank s"
    using c by (auto simp: stop_rank_def same_control_def Let_def split: StopPc.split)
  ultimately show ?thesis using c by (simp add: shutdown_rank_def same_control_def)
qed

lemma server_step_rank:
  assumes "server_step ip m s = Some s'" and "legal_move ip m" and "shutdown_inv s"
    and "sr_stop s \<noteq> Sp_Idle" and "sr_stop s \<noteq> Sp_Returned"
  shows "shutdown_rank s' < shutdown_rank s"
proof -
  have "sr_stopping s" using assms(3,4) by (simp add: shutdown_inv_def control_ok_def)
  with assms show ?thesis
    by (cases m) (auto intro: serve_step_rank stop_step_rank monitor_step_rank connection_step_rank)
qed

section \<open>Some move is always possible\<close>

definition joins_ok :: "'p Server \<Rightarrow> bool" where
  "joins_ok s \<longleftrightarrow> (\<forall>i \<in> set (sr_workers s) \<union> set (to_join s). i < length (sr_threads s))"

lemma serve_step_joins:
  assumes "serve_step delivered s = Some s'" and "joins_ok s"
  shows "joins_ok s'"
proof -
  have "sr_stop s' = sr_stop s" using serve_step_control [OF assms(1)] by simp
  then show ?thesis
    using serve_step_threads [OF assms(1)] assms(2)
    by (cases "sr_stop s") (auto simp: joins_ok_def to_join_def less_Suc_eq)
qed

lemma stop_step_joins:
  assumes "stop_step s = Some s'" and "joins_ok s"
  shows "joins_ok s'"
proof -
  have "sr_threads s' = sr_threads s" "set (sr_workers s') \<subseteq> set (sr_workers s)"
    "set (to_join s') \<subseteq> set (sr_workers s) \<union> set (to_join s)"
    using assms(1) by (auto simp: stop_step_def to_join_def split: StopPc.splits list.splits if_splits)
  with assms(2) show ?thesis by (auto simp: joins_ok_def)
qed

lemma monitor_step_joins:
  assumes "monitor_step ip env now s = Some s'" and "joins_ok s"
  shows "joins_ok s'"
proof -
  have "sr_stop s' = sr_stop s \<and> sr_workers s' = sr_workers s \<and> sr_threads s' = sr_threads s"
    using assms(1) by (auto simp: monitor_step_def split: MonitorPc.splits)
  with assms(2) to_join_cong [of s' s] show ?thesis by (simp add: joins_ok_def)
qed

lemma connection_step_joins:
  assumes "connection_step ip env now sent chunk i s = Some s'" and "joins_ok s"
  shows "joins_ok s'"
  using connection_step_control [OF assms(1)] assms(2) to_join_cong [of s' s]
  by (simp add: joins_ok_def same_control_def)

interpretation joins: server_invariant ip joins_ok for ip
  by unfold_locales (fact serve_step_joins stop_step_joins monitor_step_joins connection_step_joins)+

lemma joins_start: "joins_ok (started_server m c)"
  by (simp add: joins_ok_def to_join_def started_server_def)

lemma reach_joins: "server_reach ip (started_server m c) s \<Longrightarrow> joins_ok s"
  using joins.reach_keeps joins_start by blast

text \<open>The scheduler that runs \<^verbatim>\<open>stop\<close> whenever it is not blocked, and otherwise the thread it waits for.\<close>

definition serve_stop :: "'p Server \<Rightarrow> 'p ServerMove" where
  "serve_stop s =
     (case sr_stop s of
        Sp_Closed \<Rightarrow> if sr_monitor s = Mo_Ended then Move_Stop else Move_Monitor no_interference 0
      | Sp_Swapped (t # pending) [] \<Rightarrow>
          if thread_done s t then Move_Stop else Move_Connection no_interference 0 True None t
      | _ \<Rightarrow> Move_Stop)"

lemma serve_stop_runs:
  assumes "joins_ok s"
  shows "legal_move ip (serve_stop s) \<and> server_step ip (serve_stop s) s \<noteq> None"
proof -
  have "connection_step ip no_interference 0 True None t s \<noteq> None" if "t \<in> set (to_join s)" "\<not> thread_done s t" for t
  proof -
    have "t < length (sr_threads s)" using that(1) assms by (simp add: joins_ok_def)
    then show ?thesis using that(2) by (cases "ct_pc (sr_threads s ! t)")
      (simp_all add: connection_step_def thread_done_def Let_def)
  qed
  moreover have "monitor_step ip no_interference 0 s \<noteq> None" if "sr_monitor s \<noteq> Mo_Ended"
    using that by (cases "sr_monitor s") (simp_all add: monitor_step_def)
  ultimately show ?thesis
    by (auto simp: serve_stop_def stop_step_def to_join_def legal_no_interference
        split: StopPc.splits list.splits if_splits)
qed

section \<open>Shutdown ends\<close>

text \<open>The server under a scheduler, until \<^verbatim>\<open>stop\<close> returns; the scheduler may look at the number of the move.\<close>

primrec run_under ::
  "'p IPersistence \<Rightarrow> (nat \<Rightarrow> 'p Server \<Rightarrow> 'p ServerMove) \<Rightarrow> nat \<Rightarrow> 'p Server \<Rightarrow> 'p Server" where
  "run_under ip scheduler 0 s = s"
| "run_under ip scheduler (Suc n) s =
     (if sr_stop s = Sp_Returned then s
      else case server_step ip (scheduler n s) s of None \<Rightarrow> s | Some s' \<Rightarrow> run_under ip scheduler n s')"

lemma stop_stays_called:
  assumes "server_step ip m s = Some s'" and "sr_stop s \<noteq> Sp_Idle"
  shows "sr_stop s' \<noteq> Sp_Idle"
proof (cases m)
  case (Move_Serve d)
  with assms serve_step_control [of d s s'] show ?thesis by simp
next
  case Move_Stop
  with assms show ?thesis by (auto simp: stop_step_def split: StopPc.splits list.splits if_splits)
next
  case (Move_Monitor env now)
  with assms show ?thesis by (auto simp: monitor_step_def split: MonitorPc.splits)
next
  case (Move_Connection env now sent chunk i)
  with assms connection_step_control [of ip env now sent chunk i s s'] show ?thesis by (simp add: same_control_def)
qed

lemma returned_stays: "sr_stop s = Sp_Returned \<Longrightarrow> run_under ip scheduler n s = s"
  by (cases n) simp_all



section \<open>The store a server leaves\<close>

definition single_io :: "'p Interference \<Rightarrow> int \<Rightarrow> bool \<Rightarrow> nat \<Rightarrow> 'p FrameIO" where
  "single_io env now sent = (\<lambda>_. \<lparr>fo_others = id, fo_env = env, fo_now = now, fo_sent = sent\<rparr>)"

lemma single_io_legal: "legal_env ip env \<Longrightarrow> legal_io ip (single_io env now sent)"
  by (simp add: legal_io_def single_io_def store_run.idle)

text \<open>A step with a frame is \<open>serve_frame\<close>; the other steps of the inner loop leave the store alone.\<close>

lemma frame_step_cases:
  assumes "\<not> sr_null s" and "i < length (sr_threads s)"
  obtains (served) f a cn where
    "cn = serve_frame ip (single_io env now sent) (co_limits (sr_coordinator s)) f
       (thread_connection (t\<lparr>ct_assembler := a\<rparr>) (sr_coordinator s))"
    "sr_coordinator (frame_step ip env now sent i t s) = cn_coordinator cn"
    "ct_session (sr_threads (frame_step ip env now sent i t s) ! i) = cn_session cn"
    "ct_pc (sr_threads (frame_step ip env now sent i t s) ! i) \<in> {Th_Frames, Th_Loop}"
  | (waits) "sr_coordinator (frame_step ip env now sent i t s) = sr_coordinator s"
    "ct_session (sr_threads (frame_step ip env now sent i t s) ! i) = ct_session t"
    "ct_pc (sr_threads (frame_step ip env now sent i t s) ! i) \<in> {Th_End, Th_Loop}"
proof -
  obtain x r a where n: "next_frame (co_limits (sr_coordinator s)) vr_success (ct_assembler t) = (x, r, a)"
    by (metis prod_cases3)
  show thesis
  proof (cases x)
    case None
    show thesis by (rule waits) (use n None assms in \<open>simp_all add: frame_step_def\<close>)
  next
    case (Some f)
    show thesis by (rule served [OF refl])
        (use n Some assms in \<open>simp_all add: frame_step_def single_io_def Let_def\<close>)
  qed
qed

lemma frame_step_store:
  assumes "legal_env ip env" and "i < length (sr_threads s)"
  shows "store_run ip (co_store (sr_coordinator s)) (co_store (sr_coordinator (frame_step ip env now sent i t s))) \<and>
    co_config (sr_coordinator (frame_step ip env now sent i t s)) = co_config (sr_coordinator s)"
proof (cases "sr_null s")
  case False
  then show ?thesis
  proof (cases rule: frame_step_cases [OF False assms(2), of ip env now sent t, case_names served waits])
    case (served f a cn)
    then show ?thesis
      using serve_frame_run [OF single_io_legal [OF assms(1)], of
          "thread_connection (t\<lparr>ct_assembler := a\<rparr>) (sr_coordinator s)"]
      by (simp add: thread_connection_def)
  qed (simp add: store_run.idle)
qed (simp add: frame_step_def store_run.idle Let_def split: prod.split option.split)

lemma use_store_store:
  assumes "\<And>c. store_run ip (co_store c) (co_store (f c)) \<and> co_config (f c) = co_config c"
  shows "store_run ip (co_store (sr_coordinator s)) (co_store (sr_coordinator (use_store f s))) \<and>
    co_config (sr_coordinator (use_store f s)) = co_config (sr_coordinator s)"
  using assms by (simp add: use_store_def store_run.idle)

lemma connection_step_store:
  assumes "connection_step ip env now sent chunk i s = Some s'" and "legal_env ip env"
  shows "store_run ip (co_store (sr_coordinator s)) (co_store (sr_coordinator s')) \<and>
    co_config (sr_coordinator s') = co_config (sr_coordinator s)"
proof -
  have i: "i < length (sr_threads s)" using connection_step_control [OF assms(1)] by blast
  show ?thesis
  proof (cases "ct_pc (sr_threads s ! i)")
    case Th_Frames
    with assms(1) i have "s' = frame_step ip env now sent i (sr_threads s ! i) s"
      by (simp add: connection_step_def Let_def)
    then show ?thesis using frame_step_store [OF assms(2) i] by blast
  next
    case Th_End
    then have "s' = (if se_registered (ct_session (sr_threads s ! i))
        then use_store (end_connection ip env (ct_session (sr_threads s ! i)))
          (set_thread i ((sr_threads s ! i)\<lparr>ct_pc := Th_Close\<rparr>) s)
        else set_thread i ((sr_threads s ! i)\<lparr>ct_pc := Th_Close\<rparr>) s)"
      using assms(1) i by (simp add: connection_step_def Let_def)
    then show ?thesis
      using use_store_store [of ip "end_connection ip env (ct_session (sr_threads s ! i))",
          OF end_connection_run [OF assms(2)], of "set_thread i ((sr_threads s ! i)\<lparr>ct_pc := Th_Close\<rparr>) s"]
      by (simp add: store_run.idle)
  qed (use assms i in \<open>auto simp: connection_step_def store_run.idle Let_def split: option.splits if_splits\<close>)
qed

lemma monitor_step_store:
  assumes "monitor_step ip env now s = Some s'" and "legal_env ip env"
  shows "store_run ip (co_store (sr_coordinator s)) (co_store (sr_coordinator s')) \<and>
    co_config (sr_coordinator s') = co_config (sr_coordinator s)"
proof -
  have e: "store_run ip (co_store c) (co_store (snd (expire_leases ip env now c))) \<and>
      co_config (snd (expire_leases ip env now c)) = co_config c" for c
    using expire_leases_run [OF assms(2), of now c] by (metis prod.collapse)
  show ?thesis
    using assms(1) use_store_store [OF e, of "s\<lparr>sr_monitor := Mo_Test\<rparr>"]
    by (auto simp: monitor_step_def store_run.idle split: MonitorPc.splits)
qed

lemma serve_stop_store:
  "serve_step delivered s = Some s' \<Longrightarrow> sr_coordinator s' = sr_coordinator s"
  "stop_step s = Some s' \<Longrightarrow> sr_coordinator s' = sr_coordinator s \<and> sr_threads s' = sr_threads s"
  by (auto simp: serve_step_def stop_step_def Let_def split: ServePc.splits StopPc.splits list.splits if_splits)

lemma server_step_store:
  assumes "server_step ip m s = Some s'" and "legal_move ip m"
  shows "store_run ip (co_store (sr_coordinator s)) (co_store (sr_coordinator s')) \<and>
    co_config (sr_coordinator s') = co_config (sr_coordinator s)"
proof (cases m)
  case (Move_Monitor env now)
  with assms monitor_step_store [of ip env now s s'] show ?thesis by simp
next
  case (Move_Connection env now sent chunk i)
  with assms connection_step_store [of ip env now sent chunk i s s'] show ?thesis by simp
next
  case (Move_Serve delivered)
  with assms(1) serve_stop_store(1) [of delivered s s'] show ?thesis by (simp add: store_run.idle)
next
  case Move_Stop
  with assms(1) serve_stop_store(2) [of s s'] show ?thesis by (simp add: store_run.idle)
qed

lemma reach_store:
  "server_reach ip s0 s \<Longrightarrow> store_run ip (co_store (sr_coordinator s0)) (co_store (sr_coordinator s)) \<and>
    co_config (sr_coordinator s) = co_config (sr_coordinator s0)"
proof (induction rule: server_reach.induct)
  case (move s m s')
  with server_step_store [OF move(3,2)] show ?case by (auto intro: store_run_trans)
qed (simp add: store_run.idle)

section \<open>No writer is left behind\<close>

text \<open>A registered session is known, and when its thread has ended the session its publisher is dead.\<close>

definition thread_fenced :: "AuthorityTable \<Rightarrow> ConnThread \<Rightarrow> bool" where
  "thread_fenced a t \<longleftrightarrow> session_known (ct_session t) a \<and>
     (ct_pc t \<in> {Th_Close, Th_Done} \<and> se_registered (ct_session t) \<longrightarrow> dead_publisher (se_publisher (ct_session t)) a)"

lemma new_thread_fenced: "thread_fenced a new_thread"
  by (simp add: thread_fenced_def session_known_def)

context durable_medium
begin

lemma fenced_later:
  assumes "store_run ip s s'" and "bounds_positive l" and "store_ok l s" and "thread_fenced (st_authority s) t"
  shows "thread_fenced (st_authority s') t"
  using assms(4) dead_stays [OF assms(1-3)] known_steps [OF run_authority [OF assms(1-3)]]
  by (auto simp: thread_fenced_def)

lemma frame_step_fenced:
  assumes "legal_env ip env" and "\<not> sr_null s" and "i < length (sr_threads s)"
    and "bounds_positive (co_limits (sr_coordinator s))"
    and "store_ok (co_limits (sr_coordinator s)) (co_store (sr_coordinator s))"
    and "thread_fenced (co_authority (sr_coordinator s)) t"
  shows "thread_fenced (co_authority (sr_coordinator (frame_step ip env now sent i t s)))
    (sr_threads (frame_step ip env now sent i t s) ! i)"
proof (cases rule: frame_step_cases [OF assms(2,3), of ip env now sent t, case_names served waits])
  case (served f a cn)
  have "session_known (cn_session cn) (co_authority (cn_coordinator cn))"
    unfolding served(1)
    by (rule serve_frame_known [OF single_io_legal [OF assms(1)] assms(4)])
       (use assms(5,6) in \<open>simp_all add: thread_connection_def thread_fenced_def\<close>)
  with served show ?thesis by (auto simp: thread_fenced_def)
next
  case waits
  with assms(6) show ?thesis by (auto simp: thread_fenced_def)
qed

lemma connection_step_fenced:
  assumes "connection_step ip env now sent chunk i s = Some s'" and "legal_env ip env" and "shutdown_inv s"
    and "bounds_positive (co_limits (sr_coordinator s))"
    and "store_ok (co_limits (sr_coordinator s)) (co_store (sr_coordinator s))"
    and "thread_fenced (co_authority (sr_coordinator s)) (sr_threads s ! i)"
  shows "thread_fenced (co_authority (sr_coordinator s')) (sr_threads s' ! i)"
proof -
  let ?t = "sr_threads s ! i"
  have i: "i < length (sr_threads s)" using connection_step_control [OF assms(1)] by blast
  have n: "\<not> sr_null s" if "\<not> settled (sr_stopping s) ?t"
    using assms(3) that i by (auto simp: shutdown_inv_def threads_ok_def)
  show ?thesis
  proof (cases "ct_pc ?t")
    case Th_Frames
    then have "s' = frame_step ip env now sent i ?t s" using assms(1) i by (simp add: connection_step_def Let_def)
    with frame_step_fenced [OF assms(2) n i assms(4-6)] Th_Frames show ?thesis by (simp add: settled_def)
  next
    case Th_End
    show ?thesis
    proof (cases "se_registered (ct_session ?t)")
      case True
      with Th_End have nn: "\<not> sr_null s" by (intro n) (simp add: settled_def)
      with Th_End True have s': "sr_threads s' ! i = ?t\<lparr>ct_pc := Th_Close\<rparr>"
        "sr_coordinator s' = end_connection ip env (ct_session ?t) (sr_coordinator s)"
        using assms(1) i by (auto simp: connection_step_def Let_def)
      have k: "session_known (ct_session ?t) (co_authority (sr_coordinator s))"
        using assms(6) by (simp add: thread_fenced_def)
      with end_connection_run [OF assms(2)] run_authority [OF _ assms(4,5)] known_steps
      have "session_known (ct_session ?t) (co_authority (sr_coordinator s'))" unfolding s' by blast
      with end_connection_dead [OF assms(2,4,5) k True] s' show ?thesis by (simp add: thread_fenced_def)
    qed (use assms(1,6) i Th_End in \<open>auto simp: connection_step_def thread_fenced_def Let_def\<close>)
  qed (use assms(1,6) i in \<open>auto simp: connection_step_def thread_fenced_def Let_def split: option.splits if_splits\<close>)
qed

lemma reach_fenced:
  assumes "server_reach ip (started_server m c) s" and "bounds_positive (co_limits c)"
    and "store_ok (co_limits c) (co_store c)"
  shows "list_all (thread_fenced (co_authority (sr_coordinator s))) (sr_threads s)"
  using assms(1)
proof (induction rule: server_reach.induct)
  case start
  then show ?case by (simp add: started_server_def)
next
  case (move s mv s')
  have c: "co_config (sr_coordinator s) = co_config c" "store_ok (co_limits c) (co_store (sr_coordinator s))"
    using reach_store [OF move(1)] run_ok assms(2,3) by (auto simp: started_server_def)
  have later: "thread_fenced (co_authority (sr_coordinator s')) t" if "t \<in> set (sr_threads s)" for t
    using fenced_later server_step_store [OF move(3,2)] assms(2) c(2) move(4) that by (fastforce simp: list_all_iff)
  show ?case
  proof (cases mv)
    case (Move_Serve d)
    with later serve_step_threads [of d s s'] move(3) new_thread_fenced show ?thesis by (auto simp: list_all_iff)
  next
    case Move_Stop
    with later serve_stop_store(2) [of s s'] move(3) show ?thesis by (simp add: list_all_iff)
  next
    case (Move_Monitor env now)
    with move(3) have "sr_threads s' = sr_threads s" by (auto simp: monitor_step_def split: MonitorPc.splits)
    with later show ?thesis by (simp add: list_all_iff)
  next
    case (Move_Connection env now sent chunk i)
    with move(3) have st: "connection_step ip env now sent chunk i s = Some s'" by simp
    note k = connection_step_control [OF st]
    have "thread_fenced (co_authority (sr_coordinator s')) (sr_threads s' ! i)"
      using connection_step_fenced [OF st] reach_shutdown [OF move(1)] c assms(2) move(2,4) Move_Connection k
      by (simp add: list_all_length)
    then have "thread_fenced (co_authority (sr_coordinator s')) (sr_threads s' ! n)" if "n < length (sr_threads s')" for n
      using later k that by (cases "n = i") (simp_all add: same_control_def)
    then show ?thesis by (simp add: list_all_length)
  qed
qed

end


text \<open>
  A peer registers publisher 7, the answer cannot be sent, and \<^verbatim>\<open>stop\<close> is called while its connection ends.
\<close>

definition hello_then_stop :: "'p ServerMove list" where
  "hello_then_stop =
     (let connection = Move_Connection no_interference 0 False (Some (frame_bytes hello_frame)) 0 in
      replicate 6 (Move_Serve True) @ [connection, connection, connection, Move_Stop, connection, connection,
        connection, Move_Stop, Move_Monitor no_interference 0, Move_Stop, Move_Stop, Move_Stop, Move_Stop])"

lemma hello_then_stop_legal: "list_all (legal_move ip) hello_then_stop"
proof -
  have "length (frame_bytes hello_frame) \<le> recv_buffer"
    by (simp add: recv_buffer_def length_frame_bytes hello_frame_def encode_hello_def)
  then show ?thesis
    by (simp add: hello_then_stop_def legal_no_interference Let_def list_all_iff)
qed

lemma hello_registers:
  "cn_session (serve_frame file_persistence (single_io no_interference 0 sent) default_limits hello_frame
     (thread_connection (new_thread\<lparr>ct_assembler := a\<rparr>) file_coordinator_example)) = session_example"
proof -
  let ?c = file_coordinator_example
  have l: "co_limits ?c = default_limits" "co_authority ?c = view_example"
    by (simp_all add: file_coordinator_example_def config_example_def)
  obtain a where r: "register_publisher 7 70 0x100 1 default_limits view_example =
      (set_limits (Some default_limits) vr_success, a)" "at_epoch a = 1"
    by (simp add: register_publisher_def view_example_def publisher_example_def Let_def valid_def)
  obtain r c' where d: "dispatch file_persistence no_interference 0 hello_frame new_session ?c =
      (r, session_example, c')"
    by (simp add: dispatch_def on_hello_def hello_frame_def hello_roundtrip l valid_def r vr_failed_def vr_defs
        session_example_def set_authority_def Let_def)
  show ?thesis
    by (rule serve_frame_dispatch(2)) (use d in \<open>simp add: single_io_def thread_connection_def new_thread_def\<close>)
qed

lemma unsent_closes: "\<not> fo_sent (io (cn_served cn)) \<Longrightarrow> \<not> cn_open (serve_frame ip io limits f cn)"
  by (simp add: serve_frame_def Let_def split: prod.split)

lemma hello_frame_step:
  assumes "sr_coordinator s = file_coordinator_example" and "\<not> sr_null s"
  shows "\<exists>c a. frame_step file_persistence no_interference 0 False i
      (new_thread\<lparr>ct_assembler := feed (frame_bytes hello_frame) new_assembler, ct_pc := Th_Frames\<rparr>) s =
    (set_thread i \<lparr>ct_pc = Th_Loop, ct_session = session_example, ct_assembler = a, ct_open = False\<rparr> s)
      \<lparr>sr_coordinator := c\<rparr>"
proof -
  let ?a = "feed (frame_bytes hello_frame) new_assembler"
  have l: "co_limits file_coordinator_example = default_limits"
    by (simp add: file_coordinator_example_def config_example_def)
  have n: "next_frame default_limits vr_success ?a =
      (Some hello_frame, set_limits (Some default_limits) vr_success, ?a\<lparr>fa_buffer := []\<rparr>)"
    by (rule next_frame_whole [OF hello_frame_ok]) (simp_all add: feed_def new_assembler_def)
  have o: "\<not> cn_open (serve_frame file_persistence (single_io no_interference 0 False) default_limits hello_frame cn)"
    for cn by (rule unsent_closes) (simp add: single_io_def)
  show ?thesis
    using n o hello_registers [of False "?a\<lparr>fa_buffer := []\<rparr>"] assms l
    by (simp add: frame_step_def Let_def single_io_def new_thread_def thread_connection_def) blast
qed

lemma run_schedule_append: "run_schedule ip (ms @ ms') s = Option.bind (run_schedule ip ms s) (run_schedule ip ms')"
proof (induction ms arbitrary: s)
  case (Cons m ms)
  then show ?case by (cases "server_step ip m s") simp_all
qed simp

lemma hello_then_stop_runs:
  "\<exists>s. run_schedule file_persistence hello_then_stop (started_server 1 file_coordinator_example) = Some s \<and>
     sr_stop s = Sp_Returned \<and> map ct_session (sr_threads s) = [session_example]"
proof -
  have n: "replicate 6 x = [x, x, x, x, x, x]" for x :: 'b by (simp add: eval_nat_numeral)
  note steps = serve_step_def stop_step_def monitor_step_def connection_step_def set_thread_def use_store_def
    thread_done_def Let_def
  let ?connection = "Move_Connection no_interference 0 False (Some (frame_bytes hello_frame)) 0"
  obtain s where s: "run_schedule file_persistence (replicate 6 (Move_Serve True) @ [?connection, ?connection])
      (started_server 1 file_coordinator_example) = Some s"
    "sr_coordinator s = file_coordinator_example" "\<not> sr_null s"
    "sr_threads s = [new_thread\<lparr>ct_assembler := feed (frame_bytes hello_frame) new_assembler, ct_pc := Th_Frames\<rparr>]"
    "sr_stop s = Sp_Idle" "sr_monitor s = Mo_Test" "sr_workers s = [0]" "sr_peers s = [0]"
    by (simp add: started_server_def steps n new_thread_def)
  have "hello_then_stop = (replicate 6 (Move_Serve True) @ [?connection, ?connection]) @ [?connection, Move_Stop,
      ?connection, ?connection, ?connection, Move_Stop, Move_Monitor no_interference 0, Move_Stop, Move_Stop,
      Move_Stop, Move_Stop]" (is "_ = ?opening @ ?closing")
    by (simp add: hello_then_stop_def Let_def)
  note append = run_schedule_append [of file_persistence ?opening ?closing]
  have r: "run_schedule file_persistence hello_then_stop (started_server 1 file_coordinator_example) =
      run_schedule file_persistence ?closing s"
    unfolding \<open>hello_then_stop = ?opening @ ?closing\<close> append s(1) by simp
  obtain c a where "frame_step file_persistence no_interference 0 False 0 (sr_threads s ! 0) s =
      (set_thread 0 \<lparr>ct_pc = Th_Loop, ct_session = session_example, ct_assembler = a, ct_open = False\<rparr> s)
        \<lparr>sr_coordinator := c\<rparr>"
    using hello_frame_step [OF s(2,3), of 0] s(4) by auto
  then show ?thesis
    unfolding r using s(3-8) by (simp add: steps session_example_def)
qed


end
