(* ===== verification/OracleInput.thy ===== *)
theory OracleInput
  imports Bytes
begin

text \<open>
  The input side of the independent sequence oracle (\<^verbatim>\<open>oracle/oracle_main.cpp\<close>): the kinds, encodings
  and reason names it knows, the scenario it reads, and the line-oriented parser. The oracle shares
  no code with the library, and this theory uses none of the library's theories but the byte
  vocabulary. A thrown \<^verbatim>\<open>ScenarioError\<close> is \<open>Inl reason\<close>; a \<^verbatim>\<open>std::string_view\<close> is the character
  list it denotes. The stream is its characters and the flag \<^verbatim>\<open>in.bad()\<close> at its end.
\<close>

section \<open>Kinds, encodings and reason names\<close>

datatype Kind = OK_Invalid | OK_Node | OK_Adjacency | OK_Endpoint | OK_Binding | OK_Policy

primrec kindCode :: "Kind \<Rightarrow> nat" where
  "kindCode OK_Invalid = 0"
| "kindCode OK_Node = 1"
| "kindCode OK_Adjacency = 2"
| "kindCode OK_Endpoint = 3"
| "kindCode OK_Binding = 4"
| "kindCode OK_Policy = 5"

datatype Enc =
    OE_Unset
  | OE_AbstractNodeV1
  | OE_AbstractAdjacencyV1
  | OE_AbstractEndpointV1
  | OE_AbstractBindingV1
  | OE_AbstractPolicyV1

primrec encCode :: "Enc \<Rightarrow> nat" where
  "encCode OE_Unset = 0"
| "encCode OE_AbstractNodeV1 = 1"
| "encCode OE_AbstractAdjacencyV1 = 2"
| "encCode OE_AbstractEndpointV1 = 3"
| "encCode OE_AbstractBindingV1 = 4"
| "encCode OE_AbstractPolicyV1 = 5"

text \<open>The arrays indexed by kind code are functions of the kind.\<close>

primrec kRequiredEncoding :: "Kind \<Rightarrow> Enc" where
  "kRequiredEncoding OK_Invalid = OE_Unset"
| "kRequiredEncoding OK_Node = OE_AbstractNodeV1"
| "kRequiredEncoding OK_Adjacency = OE_AbstractAdjacencyV1"
| "kRequiredEncoding OK_Endpoint = OE_AbstractEndpointV1"
| "kRequiredEncoding OK_Binding = OE_AbstractBindingV1"
| "kRequiredEncoding OK_Policy = OE_AbstractPolicyV1"

definition kUsesNode :: "Kind \<Rightarrow> bool" where "kUsesNode k \<longleftrightarrow> k = OK_Node"
definition kUsesAdj :: "Kind \<Rightarrow> bool" where "kUsesAdj k \<longleftrightarrow> k = OK_Adjacency"
definition kUsesTopo :: "Kind \<Rightarrow> bool" where "kUsesTopo k \<longleftrightarrow> k = OK_Adjacency"
definition kUsesEndp :: "Kind \<Rightarrow> bool" where "kUsesEndp k \<longleftrightarrow> k = OK_Endpoint"
definition kUsesBind :: "Kind \<Rightarrow> bool" where "kUsesBind k \<longleftrightarrow> k = OK_Binding"
definition kUsesPol :: "Kind \<Rightarrow> bool" where "kUsesPol k \<longleftrightarrow> k = OK_Policy"
definition kUsesPolgen :: "Kind \<Rightarrow> bool" where "kUsesPolgen k \<longleftrightarrow> k = OK_Policy"

lemmas kUses_defs = kUsesNode_def kUsesAdj_def kUsesTopo_def kUsesEndp_def kUsesBind_def
  kUsesPol_def kUsesPolgen_def

definition kKindNames :: "(string \<times> Kind) list" where
  "kKindNames = [
     (''invalid'', OK_Invalid),
     (''node'', OK_Node),
     (''adjacency'', OK_Adjacency),
     (''endpoint'', OK_Endpoint),
     (''binding'', OK_Binding),
     (''policy'', OK_Policy)]"

definition kEncNames :: "(string \<times> Enc) list" where
  "kEncNames = [
     (''unset'', OE_Unset),
     (''abstractnodev1'', OE_AbstractNodeV1),
     (''abstractadjacencyv1'', OE_AbstractAdjacencyV1),
     (''abstractendpointv1'', OE_AbstractEndpointV1),
     (''abstractbindingv1'', OE_AbstractBindingV1),
     (''abstractpolicyv1'', OE_AbstractPolicyV1)]"

definition kindFromName :: "string \<Rightarrow> Kind option" where
  "kindFromName name = map_of kKindNames name"

definition encFromName :: "string \<Rightarrow> Enc option" where
  "encFromName name = map_of kEncNames name"

definition kReasonNames :: "(u32 \<times> string) list" where
  "kReasonNames = [
     (170, ''ProfileUnknown''),
     (171, ''ProfileIdInvalid''),
     (174, ''ProfileKindNotAllowed''),
     (175, ''ProfilePayloadWidthExceeded''),
     (176, ''ProfileMaxDepthExceeded''),
     (177, ''ProfileRepeatNotPermitted''),
     (178, ''ProfileEmptyNotPermitted''),
     (180, ''ProfileKindMismatch''),
     (250, ''SegmentKindInvalid''),
     (251, ''SegmentIdInvalid''),
     (252, ''SegmentGenerationInvalid''),
     (255, ''SegmentReservedFieldSet''),
     (256, ''SegmentMissingBinding''),
     (258, ''SegmentBindingIncomplete''),
     (259, ''SegmentEncodingMismatch''),
     (264, ''SegmentDuplicateConsecutive''),
     (265, ''SegmentDuplicateNonConsecutive''),
     (293, ''CapabilityEvidenceUnavailable''),
     (325, ''TopologyEvidenceUnavailable''),
     (421, ''LimitMaxSegmentsPerList''),
     (422, ''LimitMaxSegmentPayloadBytes'')]"

definition reasonName :: "u32 \<Rightarrow> string" where
  "reasonName code = (case map_of kReasonNames code of Some n \<Rightarrow> n | None \<Rightarrow> ''Unknown'')"

section \<open>Scenarios\<close>

record OracleSegment =
  os_kind :: Kind
  os_enc :: Enc
  os_id :: u64
  os_gen :: u64
  os_node :: u64
  os_adj :: u64
  os_endp :: u64
  os_bind :: u64
  os_pol :: u64
  os_polgen :: u64
  os_topo :: u64
  os_payload :: "u8 list"

record Scenario =
  sc_profileId :: u64
  sc_profileGen :: u64
  sc_kindAllowed :: "bool list"
  sc_depth :: u64
  sc_width :: u64
  sc_empty :: u64
  sc_consec :: u64
  sc_nonconsec :: u64
  sc_loose :: u64
  sc_reqcaps :: u64
  sc_maxseg :: u64
  sc_maxpayload :: u64
  sc_segments :: "OracleSegment list"

definition empty_scenario :: Scenario where
  "empty_scenario = \<lparr>sc_profileId = 0, sc_profileGen = 0, sc_kindAllowed = replicate 6 False,
     sc_depth = 0, sc_width = 0, sc_empty = 0, sc_consec = 0, sc_nonconsec = 0, sc_loose = 0,
     sc_reqcaps = 0, sc_maxseg = 0, sc_maxpayload = 0, sc_segments = []\<rparr>"

section \<open>Tokens\<close>

text \<open>Sequencing of computations that may throw.\<close>

definition and_then :: "'e + 'a \<Rightarrow> ('a \<Rightarrow> 'e + 'b) \<Rightarrow> 'e + 'b" where
  "and_then r f = (case r of Inl e \<Rightarrow> Inl e | Inr x \<Rightarrow> f x)"

lemma and_then_simps [simp]: "and_then (Inl e) f = Inl e" "and_then (Inr x) f = f x"
  by (simp_all add: and_then_def)

definition require :: "bool \<Rightarrow> string \<Rightarrow> string + unit" where
  "require c why = (if c then Inr () else Inl why)"

definition hasKeyword :: "string \<Rightarrow> string \<Rightarrow> bool" where
  "hasKeyword line keyword \<longleftrightarrow>
     line = keyword \<or>
     (length line > length keyword \<and> take (length keyword) line = keyword \<and>
      line ! length keyword = CHR '' '')"

text \<open>The pieces between the separators, in order; \<^verbatim>\<open>find\<close> and \<^verbatim>\<open>substr\<close> in a loop.\<close>

primrec split_on :: "char \<Rightarrow> string \<Rightarrow> string list" where
  "split_on sep [] = [[]]"
| "split_on sep (c # cs) =
     (if c = sep then [] # split_on sep cs
      else (c # hd (split_on sep cs)) # tl (split_on sep cs))"

definition splitFields :: "string \<Rightarrow> string \<Rightarrow> string + string list" where
  "splitFields line what =
     (let tokens = split_on CHR '' '' line in
      if list_ex (\<lambda>t. t = []) tokens then Inl (''malformed-'' @ what) else Inr tokens)"

definition field :: "string \<Rightarrow> string \<Rightarrow> string option" where
  "field token key =
     (if length token \<le> length key then None
      else if take (length key) token \<noteq> key then None
      else if token ! length key \<noteq> CHR ''='' then None
      else let value = drop (length key + 1) token in if value = [] then None else Some value)"

definition is_digit :: "char \<Rightarrow> bool" where
  "is_digit c \<longleftrightarrow> 48 \<le> (of_char c :: nat) \<and> (of_char c :: nat) \<le> 57"

definition digit_value :: "char \<Rightarrow> u64" where
  "digit_value c = of_nat (of_char c - 48)"

primrec toU64_loop :: "string \<Rightarrow> u64 \<Rightarrow> string \<Rightarrow> string + u64" where
  "toU64_loop why acc [] = Inr acc"
| "toU64_loop why acc (c # cs) =
     (if \<not> is_digit c then Inl why
      else if acc > (- 1 - digit_value c) div 10 then Inl ''integer-overflow''
      else toU64_loop why (acc * 10 + digit_value c) cs)"

definition toU64 :: "string \<Rightarrow> string \<Rightarrow> string + u64" where
  "toU64 text why = (if text = [] then Inl why else toU64_loop why 0 text)"

definition toBit :: "string \<Rightarrow> string \<Rightarrow> string + u64" where
  "toBit text why = (if text = ''0'' then Inr 0 else if text = ''1'' then Inr 1 else Inl why)"

definition hexNibble :: "char \<Rightarrow> nat option" where
  "hexNibble c =
     (let v = (of_char c :: nat) in
      if 48 \<le> v \<and> v \<le> 57 then Some (v - 48)
      else if 97 \<le> v \<and> v \<le> 102 then Some (v - 97 + 10)
      else None)"

text \<open>The loop of \<^verbatim>\<open>hexDecode\<close> over an even number of characters.\<close>

fun hexPairs :: "string \<Rightarrow> string + u8 list" where
  "hexPairs (a # b # cs) =
     (case (hexNibble a, hexNibble b) of
        (Some hi, Some lo) \<Rightarrow>
          and_then (hexPairs cs) (\<lambda>out. Inr ((push_bit 4 (of_nat hi) OR of_nat lo) # out))
      | _ \<Rightarrow> Inl ''invalid-hex'')"
| "hexPairs _ = Inr []"

definition hexDecode :: "string \<Rightarrow> string + u8 list" where
  "hexDecode text =
     (if text = [] \<or> length text mod 2 \<noteq> 0 then Inl ''invalid-hex'' else hexPairs text)"

section \<open>Lines\<close>

definition kMaxLineBytes :: nat where "kMaxLineBytes = 1048576"
definition kMaxLines :: nat where "kMaxLines = 262144"

definition drop_cr :: "string \<Rightarrow> string" where
  "drop_cr line = (if line \<noteq> [] \<and> last line = CHR 0x0D then butlast line else line)"

fun read_loop :: "bool \<Rightarrow> string list \<Rightarrow> string \<Rightarrow> string \<Rightarrow> string + string list" where
  "read_loop bad lines line (ch # chars) =
     (if ch = CHR 0x0A then
        (let lines = lines @ [drop_cr line] in
         if length lines > kMaxLines then Inl ''input-too-large''
         else read_loop bad lines [] chars)
      else if length line \<ge> kMaxLineBytes then Inl ''line-too-long''
      else read_loop bad lines (line @ [ch]) chars)"
| "read_loop bad lines line [] =
     (if bad then Inl ''input-read-error''
      else if line \<noteq> [] then
        (let lines = lines @ [drop_cr line] in
         if length lines > kMaxLines then Inl ''input-too-large'' else Inr lines)
      else Inr lines)"

definition readLines :: "bool \<Rightarrow> string \<Rightarrow> string + string list" where
  "readLines bad input = read_loop bad [] [] input"

section \<open>Records\<close>

text \<open>\<^verbatim>\<open>if (!field(token, key, value)) fail(why); toU64(value, why)\<close>, and the same for a bit.\<close>

definition field_value :: "string \<Rightarrow> string \<Rightarrow> string \<Rightarrow> string + string" where
  "field_value why token key = (case field token key of None \<Rightarrow> Inl why | Some v \<Rightarrow> Inr v)"

definition u64_field :: "string \<Rightarrow> string \<Rightarrow> string \<Rightarrow> string + u64" where
  "u64_field why token key = and_then (field_value why token key) (\<lambda>v. toU64 v why)"

definition bit_field :: "string \<Rightarrow> string \<Rightarrow> string \<Rightarrow> string + u64" where
  "bit_field why token key = and_then (field_value why token key) (\<lambda>v. toBit v why)"

primrec kinds_loop :: "string list \<Rightarrow> bool list \<Rightarrow> string + bool list" where
  "kinds_loop [] allowed = Inr allowed"
| "kinds_loop (name # names) allowed =
     (case kindFromName name of
        None \<Rightarrow> Inl ''invalid-kind''
      | Some kind \<Rightarrow>
          if name = [] \<or> kind = OK_Invalid then Inl ''invalid-kind''
          else kinds_loop names (allowed[kindCode kind := True]))"

definition parseProfile :: "string \<Rightarrow> Scenario \<Rightarrow> string + Scenario" where
  "parseProfile line scenario =
     (let why = ''malformed-profile'' in
      and_then (splitFields line ''profile-line'') (\<lambda>tokens.
      and_then (require (length tokens = 11 \<and> tokens ! 0 = ''PROFILE'') why) (\<lambda>_.
      and_then (u64_field why (tokens ! 1) ''id'') (\<lambda>id.
      and_then (u64_field why (tokens ! 2) ''gen'') (\<lambda>gen.
      and_then (field_value why (tokens ! 3) ''kinds'') (\<lambda>kinds.
      and_then (kinds_loop (split_on CHR '','' kinds) (sc_kindAllowed scenario)) (\<lambda>allowed.
      and_then (u64_field why (tokens ! 4) ''depth'') (\<lambda>depth.
      and_then (u64_field why (tokens ! 5) ''width'') (\<lambda>width.
      and_then (bit_field why (tokens ! 6) ''empty'') (\<lambda>empty.
      and_then (bit_field why (tokens ! 7) ''consec'') (\<lambda>consec.
      and_then (bit_field why (tokens ! 8) ''nonconsec'') (\<lambda>nonconsec.
      and_then (bit_field why (tokens ! 9) ''loose'') (\<lambda>loose.
      and_then (u64_field why (tokens ! 10) ''reqcaps'') (\<lambda>reqcaps.
      Inr (scenario\<lparr>sc_profileId := id, sc_profileGen := gen, sc_kindAllowed := allowed,
             sc_depth := depth, sc_width := width, sc_empty := empty, sc_consec := consec,
             sc_nonconsec := nonconsec, sc_loose := loose,
             sc_reqcaps := reqcaps\<rparr>)))))))))))))))"

definition kind_field :: "string \<Rightarrow> string + Kind" where
  "kind_field v = (case kindFromName v of None \<Rightarrow> Inl ''invalid-kind'' | Some k \<Rightarrow> Inr k)"

definition enc_field :: "string \<Rightarrow> string + Enc" where
  "enc_field v = (case encFromName v of None \<Rightarrow> Inl ''invalid-encoding'' | Some e \<Rightarrow> Inr e)"

definition payload_field :: "string \<Rightarrow> string + u8 list" where
  "payload_field v = (if v \<noteq> ''-'' then hexDecode v else Inr [])"

definition parseSegment :: "string \<Rightarrow> Scenario \<Rightarrow> string + Scenario" where
  "parseSegment line scenario =
     (let why = ''malformed-segment'' in
      and_then (splitFields line ''segment-line'') (\<lambda>tokens.
      and_then (require (length tokens = 14 \<and> tokens ! 0 = ''SEG'') why) (\<lambda>_.
      and_then (u64_field why (tokens ! 1) ''index'') (\<lambda>index.
      and_then (require (index = of_nat (length (sc_segments scenario)))
        ''segment-index-out-of-order'') (\<lambda>_.
      and_then (field_value why (tokens ! 2) ''kind'') (\<lambda>v. and_then (kind_field v) (\<lambda>kind.
      and_then (field_value why (tokens ! 3) ''enc'') (\<lambda>v. and_then (enc_field v) (\<lambda>enc.
      and_then (u64_field why (tokens ! 4) ''id'') (\<lambda>id.
      and_then (u64_field why (tokens ! 5) ''gen'') (\<lambda>gen.
      and_then (u64_field why (tokens ! 6) ''node'') (\<lambda>node.
      and_then (u64_field why (tokens ! 7) ''adj'') (\<lambda>adj.
      and_then (u64_field why (tokens ! 8) ''endp'') (\<lambda>endp.
      and_then (u64_field why (tokens ! 9) ''bind'') (\<lambda>bind.
      and_then (u64_field why (tokens ! 10) ''pol'') (\<lambda>pol.
      and_then (u64_field why (tokens ! 11) ''polgen'') (\<lambda>polgen.
      and_then (u64_field why (tokens ! 12) ''topo'') (\<lambda>topo.
      and_then (field_value why (tokens ! 13) ''payload'') (\<lambda>v. and_then (payload_field v) (\<lambda>payload.
      Inr (scenario\<lparr>sc_segments := sc_segments scenario @
        [\<lparr>os_kind = kind, os_enc = enc, os_id = id, os_gen = gen, os_node = node, os_adj = adj,
          os_endp = endp, os_bind = bind, os_pol = pol, os_polgen = polgen, os_topo = topo,
          os_payload = payload\<rparr>]\<rparr>)))))))))))))))))))))"

definition parseLimits :: "string \<Rightarrow> Scenario \<Rightarrow> string + Scenario" where
  "parseLimits line scenario =
     (let why = ''malformed-limits'' in
      and_then (splitFields line ''limits-line'') (\<lambda>tokens.
      and_then (require (length tokens = 3 \<and> tokens ! 0 = ''LIMITS'') why) (\<lambda>_.
      and_then (u64_field why (tokens ! 1) ''maxseg'') (\<lambda>maxseg.
      and_then (u64_field why (tokens ! 2) ''maxpayload'') (\<lambda>maxpayload.
      Inr (scenario\<lparr>sc_maxseg := maxseg, sc_maxpayload := maxpayload\<rparr>))))))"

text \<open>The \<^verbatim>\<open>SEG\<close> loop returns the scenario and the lines it left.\<close>

fun parse_segments :: "string list \<Rightarrow> Scenario \<Rightarrow> string + Scenario \<times> string list" where
  "parse_segments (line # lines) scenario =
     (if hasKeyword line ''SEG''
      then and_then (parseSegment line scenario) (\<lambda>scenario. parse_segments lines scenario)
      else Inr (scenario, line # lines))"
| "parse_segments [] scenario = Inr (scenario, [])"

definition parse_tail :: "Scenario \<Rightarrow> string list \<Rightarrow> string + Scenario" where
  "parse_tail scenario lines =
     and_then (require (lines \<noteq> [] \<and> hasKeyword (hd lines) ''LIMITS'') ''missing-limits'') (\<lambda>_.
     and_then (parseLimits (hd lines) scenario) (\<lambda>scenario.
     and_then (require (tl lines \<noteq> [] \<and> hd (tl lines) = ''END'') ''missing-end'') (\<lambda>_.
     and_then (require (dropWhile (\<lambda>l. l = []) (tl (tl lines)) = []) ''trailing-input'') (\<lambda>_.
     Inr scenario))))"

definition parseScenario :: "string list \<Rightarrow> string + Scenario" where
  "parseScenario lines =
     and_then (require (lines \<noteq> [] \<and> hasKeyword (hd lines) ''PROFILE'') ''missing-profile'') (\<lambda>_.
     and_then (parseProfile (hd lines) empty_scenario) (\<lambda>scenario.
     and_then (parse_segments (tl lines) scenario) (\<lambda>(scenario, left).
     parse_tail scenario left)))"

end
