(* ===== verification/OracleCheck.thy ===== *)
theory OracleCheck
  imports OracleInput
begin

text \<open>
  The decision side of the independent oracle (\<^verbatim>\<open>oracle/oracle_main.cpp\<close>): canonical segments, the
  duplicate facts of the scanned prefix, the reasons of the five phases it decides, the canonical
  byte encoding, the digest and the printed result block. \<^verbatim>\<open>std::bad_alloc\<close> is not modelled.
\<close>

section \<open>Canonical segments\<close>

record CanonSegment =
  cs_kind :: u16
  cs_enc :: u16
  cs_id :: u64
  cs_gen :: u64
  cs_node :: u64
  cs_adj :: u64
  cs_endp :: u64
  cs_bind :: u64
  cs_pol :: u64
  cs_polgen :: u64
  cs_topo :: u64
  cs_payload :: "u8 list"

text \<open>\<^verbatim>\<open>operator<\<close>, the order that \<^verbatim>\<open>std::map\<close> uses for its keys.\<close>

definition canon_less :: "CanonSegment \<Rightarrow> CanonSegment \<Rightarrow> bool" where
  "canon_less a b =
     (if cs_kind a \<noteq> cs_kind b then cs_kind a < cs_kind b
      else if cs_enc a \<noteq> cs_enc b then cs_enc a < cs_enc b
      else if cs_id a \<noteq> cs_id b then cs_id a < cs_id b
      else if cs_gen a \<noteq> cs_gen b then cs_gen a < cs_gen b
      else if cs_node a \<noteq> cs_node b then cs_node a < cs_node b
      else if cs_adj a \<noteq> cs_adj b then cs_adj a < cs_adj b
      else if cs_endp a \<noteq> cs_endp b then cs_endp a < cs_endp b
      else if cs_bind a \<noteq> cs_bind b then cs_bind a < cs_bind b
      else if cs_pol a \<noteq> cs_pol b then cs_pol a < cs_pol b
      else if cs_polgen a \<noteq> cs_polgen b then cs_polgen a < cs_polgen b
      else if cs_topo a \<noteq> cs_topo b then cs_topo a < cs_topo b
      else ord_class.lexordp (cs_payload a) (cs_payload b))"

text \<open>\<^verbatim>\<open>while (!payload.empty() && payload.back() == 0) payload.pop_back()\<close>.\<close>

definition strip_zeros :: "u8 list \<Rightarrow> u8 list" where
  "strip_zeros p = rev (dropWhile (\<lambda>b. b = 0) (rev p))"

definition canonicalize_one :: "u64 \<Rightarrow> OracleSegment \<Rightarrow> CanonSegment" where
  "canonicalize_one width seg = \<lparr>
     cs_kind = of_nat (kindCode (os_kind seg)),
     cs_enc = (if os_enc seg = OE_Unset then of_nat (encCode (kRequiredEncoding (os_kind seg)))
               else of_nat (encCode (os_enc seg))),
     cs_id = os_id seg, cs_gen = os_gen seg, cs_node = os_node seg, cs_adj = os_adj seg,
     cs_endp = os_endp seg, cs_bind = os_bind seg, cs_pol = os_pol seg,
     cs_polgen = os_polgen seg, cs_topo = os_topo seg,
     cs_payload = (let kept = min (length (os_payload seg)) (unat width)
                   in strip_zeros (take kept (os_payload seg)))\<rparr>"

definition canonicalize :: "Scenario \<Rightarrow> CanonSegment list" where
  "canonicalize scenario = map (canonicalize_one (sc_width scenario)) (sc_segments scenario)"

section \<open>Duplicates\<close>

definition scannedCount :: "Scenario \<Rightarrow> nat" where
  "scannedCount scenario =
     (let limit = (if sc_maxseg scenario = - 1 then - 1 else sc_maxseg scenario + 1)
      in min (length (sc_segments scenario)) (unat limit))"

record DuplicateFacts =
  df_consecutive :: bool
  df_nonConsecutive :: bool

definition no_facts :: DuplicateFacts where
  "no_facts = \<lparr>df_consecutive = False, df_nonConsecutive = False\<rparr>"

definition duplicateFacts :: "nat list \<Rightarrow> nat \<Rightarrow> DuplicateFacts" where
  "duplicateFacts prior i =
     (if prior = [] then no_facts
      else let previous = (if i = 0 then 2 ^ 64 - 1 else i - 1) in
        \<lparr>df_consecutive = (last prior = previous),
         df_nonConsecutive = (length prior \<ge> 2 \<or> hd prior \<noteq> previous)\<rparr>)"

text \<open>
  The map \<^verbatim>\<open>seen\<close> is a total function whose default, as for \<^verbatim>\<open>operator[]\<close>, is the empty vector. Its
  keys are compared by equality, which is what the equivalence of \<^verbatim>\<open>operator<\<close> amounts to (see
  \<open>canon_less_equivalence\<close>).
\<close>

primrec facts_loop ::
  "(CanonSegment \<Rightarrow> nat list) \<Rightarrow> nat \<Rightarrow> CanonSegment list \<Rightarrow> DuplicateFacts list" where
  "facts_loop seen i [] = []"
| "facts_loop seen i (c # cs) =
     duplicateFacts (seen c) i # facts_loop (seen(c := seen c @ [i])) (Suc i) cs"

definition scan_facts :: "Scenario \<Rightarrow> CanonSegment list \<Rightarrow> DuplicateFacts list" where
  "scan_facts scenario canon =
     facts_loop (\<lambda>_. []) 0 (take (scannedCount scenario) canon) @
     replicate (length canon - scannedCount scenario) no_facts"

section \<open>Reasons\<close>

record OracleReason =
  or_phase :: u32
  or_code :: u32
  or_index :: u64
  or_detail :: u64

definition oracle_emit :: "bool \<Rightarrow> u32 \<Rightarrow> u32 \<Rightarrow> nat \<Rightarrow> u64 \<Rightarrow> OracleReason list" where
  "oracle_emit c phase code index detail =
     (if c then [\<lparr>or_phase = phase, or_code = code, or_index = of_nat index, or_detail = detail\<rparr>]
      else [])"

definition oracle_profile_segment ::
  "Scenario \<Rightarrow> DuplicateFacts list \<Rightarrow> nat \<Rightarrow> OracleReason list" where
  "oracle_profile_segment scenario facts i =
     (let seg = sc_segments scenario ! i in
      oracle_emit (df_consecutive (facts ! i) \<and> sc_consec scenario = 0) 5 177 i 0 @
      oracle_emit (df_nonConsecutive (facts ! i) \<and> sc_nonconsec scenario = 0) 5 177 i 0 @
      oracle_emit (\<not> sc_kindAllowed scenario ! kindCode (os_kind seg)) 5 174 i
        (of_nat (kindCode (os_kind seg))) @
      oracle_emit (length (os_payload seg) > unat (sc_width scenario)) 5 175 i
        (sc_width scenario) @
      oracle_emit (kRequiredEncoding (os_kind seg) = OE_Unset) 5 180 i 0)"

definition oracle_profile :: "Scenario \<Rightarrow> DuplicateFacts list \<Rightarrow> OracleReason list" where
  "oracle_profile scenario facts =
     (if sc_width scenario = 0 then oracle_emit True 5 171 0 0
      else
        oracle_emit (length (sc_segments scenario) > unat (sc_depth scenario)) 5 176 0
          (sc_depth scenario) @
        oracle_emit (sc_segments scenario = [] \<and> sc_empty scenario = 0) 5 178 0 0 @
        concat (map (oracle_profile_segment scenario facts) [0..<scannedCount scenario]))"

definition required_missing :: "OracleSegment \<Rightarrow> bool" where
  "required_missing seg \<longleftrightarrow>
     (let k = os_kind seg in
      (kUsesNode k \<and> os_node seg = 0) \<or> (kUsesAdj k \<and> os_adj seg = 0) \<or>
      (kUsesTopo k \<and> os_topo seg = 0) \<or> (kUsesEndp k \<and> os_endp seg = 0) \<or>
      (kUsesBind k \<and> os_bind seg = 0) \<or> (kUsesPol k \<and> os_pol seg = 0) \<or>
      (kUsesPolgen k \<and> os_polgen seg = 0))"

definition reserved_set :: "OracleSegment \<Rightarrow> bool" where
  "reserved_set seg \<longleftrightarrow>
     (let k = os_kind seg in
      (\<not> kUsesNode k \<and> os_node seg \<noteq> 0) \<or> (\<not> kUsesAdj k \<and> os_adj seg \<noteq> 0) \<or>
      (\<not> kUsesTopo k \<and> os_topo seg \<noteq> 0) \<or> (\<not> kUsesEndp k \<and> os_endp seg \<noteq> 0) \<or>
      (\<not> kUsesBind k \<and> os_bind seg \<noteq> 0) \<or> (\<not> kUsesPol k \<and> os_pol seg \<noteq> 0) \<or>
      (\<not> kUsesPolgen k \<and> os_polgen seg \<noteq> 0))"

definition all_zero :: "OracleSegment \<Rightarrow> bool" where
  "all_zero seg \<longleftrightarrow> os_node seg = 0 \<and> os_adj seg = 0 \<and> os_endp seg = 0 \<and> os_bind seg = 0 \<and>
     os_pol seg = 0 \<and> os_polgen seg = 0 \<and> os_topo seg = 0"

definition oracle_structural_segment ::
  "Scenario \<Rightarrow> CanonSegment list \<Rightarrow> DuplicateFacts list \<Rightarrow> nat \<Rightarrow> OracleReason list" where
  "oracle_structural_segment scenario canon facts i =
     (let seg = sc_segments scenario ! i; can = canon ! i in
      (if os_kind seg = OK_Invalid then oracle_emit True 7 250 i 0
       else
         oracle_emit (os_id seg = 0) 7 251 i 0 @
         oracle_emit (os_gen seg = 0) 7 252 i 0 @
         oracle_emit (cs_enc can \<noteq> of_nat (encCode (kRequiredEncoding (os_kind seg)))) 7 259 i
           (ucast (cs_enc can)) @
         (if all_zero seg then oracle_emit True 7 256 i 0
          else oracle_emit (required_missing seg) 7 258 i 0) @
         oracle_emit (reserved_set seg) 7 255 i 0) @
      oracle_emit (df_consecutive (facts ! i)) 7 264 i (os_id seg) @
      oracle_emit (df_nonConsecutive (facts ! i)) 7 265 i (os_id seg))"

definition oracle_structural ::
  "Scenario \<Rightarrow> CanonSegment list \<Rightarrow> DuplicateFacts list \<Rightarrow> OracleReason list" where
  "oracle_structural scenario canon facts =
     concat (map (oracle_structural_segment scenario canon facts) [0..<scannedCount scenario])"

definition oracle_capability :: "Scenario \<Rightarrow> OracleReason list" where
  "oracle_capability scenario = oracle_emit (sc_reqcaps scenario > 0) 8 293 0 0"

definition oracle_topology :: "Scenario \<Rightarrow> OracleReason list" where
  "oracle_topology scenario =
     oracle_emit
       (list_ex (\<lambda>seg. os_kind seg = OK_Adjacency)
          (take (scannedCount scenario) (sc_segments scenario))) 9 325 0 0"

definition oracle_limits :: "Scenario \<Rightarrow> OracleReason list" where
  "oracle_limits scenario =
     oracle_emit (length (sc_segments scenario) > unat (sc_maxseg scenario)) 13 421 0
       (sc_maxseg scenario) @
     concat (map (\<lambda>i.
       oracle_emit (length (os_payload (sc_segments scenario ! i)) > unat (sc_maxpayload scenario))
         13 422 i (sc_maxpayload scenario)) [0..<length (sc_segments scenario)])"

text \<open>
  \<^verbatim>\<open>std::sort\<close> with the lexicographic comparator, which is total, and \<^verbatim>\<open>std::unique\<close>, which drops an
  element equal to the last one kept.
\<close>

definition oracle_key :: "OracleReason \<Rightarrow> u32 \<times> u32 \<times> u64 \<times> u64" where
  "oracle_key r = (or_phase r, or_code r, or_index r, or_detail r)"

definition same_triple :: "OracleReason \<Rightarrow> OracleReason \<Rightarrow> bool" where
  "same_triple a b \<longleftrightarrow>
     or_code a = or_code b \<and> or_index a = or_index b \<and> or_detail a = or_detail b"

fun unique_by :: "('a \<Rightarrow> 'a \<Rightarrow> bool) \<Rightarrow> 'a list \<Rightarrow> 'a list" where
  "unique_by same (x # y # zs) =
     (if same x y then unique_by same (x # zs) else x # unique_by same (y # zs))"
| "unique_by same xs = xs"

definition raw_reasons :: "Scenario \<Rightarrow> CanonSegment list \<Rightarrow> OracleReason list" where
  "raw_reasons scenario canon =
     (let facts = scan_facts scenario canon in
      oracle_profile scenario facts @ oracle_structural scenario canon facts @
      oracle_capability scenario @ oracle_topology scenario @ oracle_limits scenario)"

definition oracle_check :: "Scenario \<Rightarrow> CanonSegment list \<Rightarrow> OracleReason list" where
  "oracle_check scenario canon =
     unique_by same_triple (sort_key oracle_key (raw_reasons scenario canon))"

section \<open>Canonical bytes and digest\<close>

definition putU16 :: "u16 \<Rightarrow> u8 list" where
  "putU16 value = [ucast (value AND 0xFF), ucast (drop_bit 8 value AND 0xFF)]"

definition putU32 :: "u32 \<Rightarrow> u8 list" where
  "putU32 value = map (\<lambda>k. ucast (drop_bit (8 * k) value AND 0xFF)) [0..<4]"

definition putU64 :: "u64 \<Rightarrow> u8 list" where
  "putU64 value = map (\<lambda>k. ucast (drop_bit (8 * k) value AND 0xFF)) [0..<8]"

definition kMaxEncodedBytes :: u64 where "kMaxEncodedBytes = 16777216"

definition encode_canon :: "u64 \<Rightarrow> CanonSegment \<Rightarrow> u8 list" where
  "encode_canon width seg =
     putU16 (cs_kind seg) @ putU16 (cs_enc seg) @ putU64 (cs_id seg) @ putU64 (cs_gen seg) @
     putU64 (cs_node seg) @ putU64 (cs_adj seg) @ putU64 (cs_endp seg) @ putU64 (cs_bind seg) @
     putU64 (cs_pol seg) @ putU64 (cs_polgen seg) @ putU64 (cs_topo seg) @
     putU16 (ucast width) @
     map (\<lambda>k. if k < length (cs_payload seg) then cs_payload seg ! k else 0) [0..<unat width]"

definition encodeSequence :: "Scenario \<Rightarrow> CanonSegment list \<Rightarrow> string + u8 list" where
  "encodeSequence scenario canon =
     (let count = (of_nat (length canon) :: u64); cap = kMaxEncodedBytes in
      if sc_width scenario > cap then Inl ''output-too-large''
      else let per = 78 + sc_width scenario in
        if count > (cap - 6) div per then Inl ''output-too-large''
        else Inr (putU16 0xC503 @ putU32 (ucast count) @
               concat (map (encode_canon (sc_width scenario)) canon)))"

definition fnv :: "u64 \<Rightarrow> u8 list \<Rightarrow> u64" where
  "fnv seed data = fold (\<lambda>b h. (h XOR ucast b) * 0x00000100000001B3) data seed"

definition oracle_digest128 :: "u8 list \<Rightarrow> u64 \<times> u64" where
  "oracle_digest128 data =
     (let hi = fnv 0xCBF29CE484222325 data;
          lo = fnv 0x9E3779B97F4A7C15 data;
          lo = fnv lo (putU64 (of_nat (length data)));
          lo = fnv (lo XOR 0x2545F4914F6CDD1D) data
      in if hi = 0 \<and> lo = 0 then (hi, 1) else (hi, lo))"

section \<open>The result block\<close>

definition kDigits :: string where "kDigits = ''0123456789abcdef''"

definition toHex :: "u8 list \<Rightarrow> string" where
  "toHex bytes =
     concat (map (\<lambda>b. [kDigits ! unat (drop_bit 4 b), kDigits ! unat (b AND 0x0F)]) bytes)"

text \<open>\<^verbatim>\<open>%016llx\<close>: the sixteen nibbles, the highest first.\<close>

definition hex16 :: "u64 \<Rightarrow> string" where
  "hex16 v = map (\<lambda>k. kDigits ! unat (drop_bit (60 - 4 * k) v AND 0xF)) [0..<16]"

fun join_names :: "string list \<Rightarrow> string" where
  "join_names (a # b # cs) = a @ '','' @ join_names (b # cs)"
| "join_names [a] = a"
| "join_names [] = []"

definition result_block :: "OracleReason list \<Rightarrow> u8 list \<Rightarrow> u64 \<times> u64 \<Rightarrow> string" where
  "result_block reasons bytes digest =
     ''valid='' @ (if reasons = [] then ''1'' else ''0'') @ [CHR 0x0A] @
     ''primary='' @ (if reasons = [] then ''Ok'' else reasonName (or_code (hd reasons))) @ [CHR 0x0A] @
     ''reasons='' @ join_names (map (reasonName \<circ> or_code) reasons) @ [CHR 0x0A] @
     ''bytes='' @ toHex bytes @ [CHR 0x0A] @
     ''digest='' @ hex16 (fst digest) @ hex16 (snd digest) @ [CHR 0x0A]"

definition oracle_run :: "bool \<Rightarrow> string \<Rightarrow> string + string" where
  "oracle_run bad input =
     and_then (readLines bad input) (\<lambda>lines.
     and_then (parseScenario lines) (\<lambda>scenario.
     let canon = canonicalize scenario; reasons = oracle_check scenario canon in
     and_then (encodeSequence scenario canon) (\<lambda>bytes.
     Inr (result_block reasons bytes (oracle_digest128 bytes)))))"

definition oracle_main :: "bool \<Rightarrow> string \<Rightarrow> string \<times> nat" where
  "oracle_main bad input =
     (case oracle_run bad input of
        Inr output \<Rightarrow> (output, 0)
      | Inl why \<Rightarrow> (''ERROR '' @ why @ [CHR 0x0A], 2))"

end
