(* ===== verification/OracleText.thy ===== *)
theory OracleText
  imports OracleCheck
begin

text \<open>
  The grammar of \<^verbatim>\<open>docs/ORACLE_SPEC.md\<close> as a printer of scenarios, and the proof that the oracle's
  parser reads back every scenario the grammar can express. Numbers are printed in decimal,
  payloads in lowercase hexadecimal with a dash for the empty one.
\<close>

section \<open>Printing\<close>

fun show_nat :: "nat \<Rightarrow> string" where
  "show_nat n = (if n < 10 then [char_of (48 + n)]
                 else show_nat (n div 10) @ [char_of (48 + n mod 10)])"

declare show_nat.simps [simp del]

definition show_u64 :: "u64 \<Rightarrow> string" where
  "show_u64 v = show_nat (unat v)"

definition key_value :: "string \<Rightarrow> string \<Rightarrow> string" where
  "key_value key v = key @ CHR ''='' # v"

primrec kind_token :: "Kind \<Rightarrow> string" where
  "kind_token OK_Invalid = ''invalid''"
| "kind_token OK_Node = ''node''"
| "kind_token OK_Adjacency = ''adjacency''"
| "kind_token OK_Endpoint = ''endpoint''"
| "kind_token OK_Binding = ''binding''"
| "kind_token OK_Policy = ''policy''"

primrec enc_token :: "Enc \<Rightarrow> string" where
  "enc_token OE_Unset = ''unset''"
| "enc_token OE_AbstractNodeV1 = ''abstractnodev1''"
| "enc_token OE_AbstractAdjacencyV1 = ''abstractadjacencyv1''"
| "enc_token OE_AbstractEndpointV1 = ''abstractendpointv1''"
| "enc_token OE_AbstractBindingV1 = ''abstractbindingv1''"
| "enc_token OE_AbstractPolicyV1 = ''abstractpolicyv1''"

definition payload_token :: "u8 list \<Rightarrow> string" where
  "payload_token p = (if p = [] then ''-'' else toHex p)"

fun join_with :: "char \<Rightarrow> string list \<Rightarrow> string" where
  "join_with sep (a # b # cs) = a @ sep # join_with sep (b # cs)"
| "join_with sep [a] = a"
| "join_with sep [] = []"

definition allowed_kinds :: "Scenario \<Rightarrow> Kind list" where
  "allowed_kinds sc = filter (\<lambda>k. sc_kindAllowed sc ! kindCode k)
     [OK_Node, OK_Adjacency, OK_Endpoint, OK_Binding, OK_Policy]"

definition profile_line :: "Scenario \<Rightarrow> string" where
  "profile_line sc = join_with CHR '' '' [''PROFILE'',
     key_value ''id'' (show_u64 (sc_profileId sc)),
     key_value ''gen'' (show_u64 (sc_profileGen sc)),
     key_value ''kinds'' (join_with CHR '','' (map kind_token (allowed_kinds sc))),
     key_value ''depth'' (show_u64 (sc_depth sc)),
     key_value ''width'' (show_u64 (sc_width sc)),
     key_value ''empty'' (show_u64 (sc_empty sc)),
     key_value ''consec'' (show_u64 (sc_consec sc)),
     key_value ''nonconsec'' (show_u64 (sc_nonconsec sc)),
     key_value ''loose'' (show_u64 (sc_loose sc)),
     key_value ''reqcaps'' (show_u64 (sc_reqcaps sc))]"

definition segment_line :: "nat \<Rightarrow> OracleSegment \<Rightarrow> string" where
  "segment_line i seg = join_with CHR '' '' [''SEG'',
     key_value ''index'' (show_nat i),
     key_value ''kind'' (kind_token (os_kind seg)),
     key_value ''enc'' (enc_token (os_enc seg)),
     key_value ''id'' (show_u64 (os_id seg)),
     key_value ''gen'' (show_u64 (os_gen seg)),
     key_value ''node'' (show_u64 (os_node seg)),
     key_value ''adj'' (show_u64 (os_adj seg)),
     key_value ''endp'' (show_u64 (os_endp seg)),
     key_value ''bind'' (show_u64 (os_bind seg)),
     key_value ''pol'' (show_u64 (os_pol seg)),
     key_value ''polgen'' (show_u64 (os_polgen seg)),
     key_value ''topo'' (show_u64 (os_topo seg)),
     key_value ''payload'' (payload_token (os_payload seg))]"

definition limits_line :: "Scenario \<Rightarrow> string" where
  "limits_line sc = join_with CHR '' '' [''LIMITS'',
     key_value ''maxseg'' (show_u64 (sc_maxseg sc)),
     key_value ''maxpayload'' (show_u64 (sc_maxpayload sc))]"

definition scenario_lines :: "Scenario \<Rightarrow> string list" where
  "scenario_lines sc =
     profile_line sc # map (\<lambda>i. segment_line i (sc_segments sc ! i)) [0..<length (sc_segments sc)] @
     [limits_line sc, ''END'']"

definition render_scenario :: "Scenario \<Rightarrow> string" where
  "render_scenario sc = concat (map (\<lambda>l. l @ [CHR 0x0A]) (scenario_lines sc))"

text \<open>
  What the grammar can express: six flags of which the invalid kind is off and at least one is
  on, bits that are bits, and sizes that the input bounds of the oracle admit.
\<close>

definition expressible :: "Scenario \<Rightarrow> bool" where
  "expressible sc \<longleftrightarrow>
     length (sc_kindAllowed sc) = 6 \<and> \<not> sc_kindAllowed sc ! 0 \<and> allowed_kinds sc \<noteq> [] \<and>
     list_all (\<lambda>v. v = 0 \<or> v = 1) [sc_empty sc, sc_consec sc, sc_nonconsec sc, sc_loose sc] \<and>
     length (sc_segments sc) \<le> 262000 \<and>
     list_all (\<lambda>seg. length (os_payload seg) \<le> 524000) (sc_segments sc)"

section \<open>Tokens read back\<close>

lemma of_char_char_of: "n < 256 \<Longrightarrow> (of_char (char_of n) :: nat) = n"
  by simp

lemma digit_char:
  assumes "d < (10 :: nat)"
  shows "is_digit (char_of (48 + d))" "digit_value (char_of (48 + d)) = of_nat d"
  using assms by (simp_all add: is_digit_def digit_value_def)

lemma toU64_loop_append:
  "toU64_loop why acc (xs @ ys) = and_then (toU64_loop why acc xs) (\<lambda>a. toU64_loop why a ys)"
  by (induction xs arbitrary: acc) simp_all

lemma toU64_digit:
  assumes "q * 10 + d < 2 ^ 64" and "d < 10"
  shows "toU64_loop why (of_nat q) [char_of (48 + d)] = Inr (of_nat (q * 10 + d))"
proof -
  have d: "unat (of_nat d :: u64) = d" using assms(2) by (simp add: unat_of_nat)
  have q: "unat (of_nat q :: u64) = q" using assms by (simp add: unat_of_nat)
  have "unat ((- 1 - of_nat d :: u64) div 10) = (2 ^ 64 - 1 - d) div 10"
    using assms(2) d by (simp add: unat_div unat_sub unsigned_minus_1_eq_mask mask_eq_exp_minus_1)
  moreover have "q \<le> (2 ^ 64 - 1 - d) div 10" using assms by (simp add: less_eq_div_iff_mult_less_eq)
  ultimately have "\<not> (of_nat q :: u64) > (- 1 - of_nat d) div 10"
    by (simp add: word_less_nat_alt q not_less)
  then show ?thesis using assms(2) by (simp add: digit_char)
qed

lemma toU64_show_nat: "n < 2 ^ 64 \<Longrightarrow> toU64_loop why 0 (show_nat n) = Inr (of_nat n)"
proof (induction n rule: less_induct)
  case (less n)
  have split: "n div 10 * 10 + n mod 10 = n" by simp
  have IH: "toU64_loop why 0 (show_nat (n div 10)) = Inr (of_nat (n div 10))" if "\<not> n < 10"
    using less.IH [of "n div 10"] less.prems that by simp
  then show ?case
    using less.prems toU64_digit [of 0 n why] toU64_digit [of "n div 10" "n mod 10" why] split
    by (cases "n < 10") (simp_all add: show_nat.simps [of n] toU64_loop_append)
qed

lemma show_nat_not_Nil [simp]: "show_nat n \<noteq> []"
  by (subst show_nat.simps) simp

lemma show_u64_not_Nil [simp]: "show_u64 v \<noteq> []"
  by (simp add: show_u64_def)

lemma toU64_show [simp]: "toU64 (show_u64 v) why = Inr v"
  using unsigned_less [of v, where ?'a = nat] by (simp add: toU64_def show_u64_def toU64_show_nat)

lemma toU64_show_nat_of_nat: "n < 2 ^ 64 \<Longrightarrow> toU64 (show_nat n) why = Inr (of_nat n)"
  by (simp add: toU64_def toU64_show_nat)

lemma digit_chars: "char_of (48 :: nat) = CHR ''0''" "char_of (49 :: nat) = CHR ''1''"
  by code_simp+

lemma toBit_show [simp]: "v = 0 \<or> v = 1 \<Longrightarrow> toBit (show_u64 v) why = Inr v"
  by (auto simp: toBit_def show_u64_def show_nat.simps digit_chars)

lemma field_key_value [simp]: "v \<noteq> [] \<Longrightarrow> field (key_value key v) key = Some v"
  by (simp add: field_def key_value_def nth_append Let_def)

lemma kindFromName_token [simp]: "kindFromName (kind_token k) = Some k"
  by (cases k) (simp_all add: kindFromName_def kKindNames_def)

lemma encFromName_token [simp]: "encFromName (enc_token e) = Some e"
  by (cases e) (simp_all add: encFromName_def kEncNames_def)

lemma kind_token_not_Nil [simp]: "kind_token k \<noteq> []"
  by (cases k) simp_all

lemma enc_token_not_Nil [simp]: "enc_token e \<noteq> []"
  by (cases e) simp_all

text \<open>Hexadecimal payloads.\<close>

lemma hexNibble_kDigits: "n < 16 \<Longrightarrow> hexNibble (kDigits ! n) = Some n"
proof -
  have "\<forall>n \<in> set [0..<16]. hexNibble (kDigits ! n) = Some n"
    by (simp add: upt_rec kDigits_def hexNibble_def Let_def)
  then show "n < 16 \<Longrightarrow> hexNibble (kDigits ! n) = Some n" by simp
qed

lemma nibbles:
  "unat (drop_bit 4 (b :: u8)) < 16" "unat (b AND 0x0F) < 16"
  "push_bit 4 (drop_bit 4 b) OR b AND 0x0F = b"
proof -
  have mask: "b AND 0x0F = take_bit 4 b" by (simp add: take_bit_eq_mask mask_eq_exp_minus_1)
  have "unat b < 256" using unsigned_less [of b, where ?'a = nat] by simp
  then show "unat (drop_bit 4 b) < 16" by (simp add: drop_bit_eq_div unat_div)
  show "unat (b AND 0x0F) < 16"
    by (simp add: mask take_bit_eq_mod unat_mod)
  show "push_bit 4 (drop_bit 4 b) OR b AND 0x0F = b"
    unfolding mask by (rule bit_eqI) (auto simp: bit_simps)
qed

lemma hexPairs_toHex: "hexPairs (toHex bs) = Inr bs"
  by (induction bs) (simp_all add: toHex_def hexNibble_kDigits nibbles)

lemma length_toHex: "length (toHex bs) = 2 * length bs"
  by (induction bs) (simp_all add: toHex_def)

lemma payload_token_not_Nil [simp]: "payload_token p \<noteq> []"
  using length_toHex [of p] by (auto simp: payload_token_def)

lemma payload_field_token [simp]: "payload_field (payload_token p) = Inr p"
proof -
  have "toHex p \<noteq> ''-''" using length_toHex [of p] by (metis One_nat_def length_Cons list.size(3) nat_dvd_1_iff_1 dvd_triv_left numeral_One numeral_eq_iff semiring_norm(85))
  then show ?thesis
    using length_toHex [of p]
    by (auto simp: payload_field_def payload_token_def hexDecode_def hexPairs_toHex)
qed

section \<open>Lines read back\<close>

lemma split_on_not_Nil [simp]: "split_on sep s \<noteq> []"
  by (cases s) simp_all

lemma split_on_single: "sep \<notin> set t \<Longrightarrow> split_on sep t = [t]"
  by (induction t) auto

lemma split_on_append: "sep \<notin> set t \<Longrightarrow> split_on sep (t @ sep # s) = t # split_on sep s"
  by (induction t) auto

lemma split_on_join:
  "ts \<noteq> [] \<Longrightarrow> list_all (\<lambda>t. sep \<notin> set t) ts \<Longrightarrow> split_on sep (join_with sep ts) = ts"
  by (induction sep ts rule: join_with.induct) (simp_all add: split_on_single split_on_append)

text \<open>No token holds a blank, a comma, a line feed or a carriage return.\<close>

definition plain :: "string \<Rightarrow> bool" where
  "plain s \<longleftrightarrow> set s \<inter> {CHR '' '', CHR '','', CHR 0x0A, CHR 0x0D} = {}"

lemma plain_simps [simp]:
  "plain []" "plain (c # s) \<longleftrightarrow> c \<notin> {CHR '' '', CHR '','', CHR 0x0A, CHR 0x0D} \<and> plain s"
  "plain (s @ t) \<longleftrightarrow> plain s \<and> plain t"
  by (auto simp: plain_def)

lemma plain_digit: "d < (10 :: nat) \<Longrightarrow> plain [char_of (48 + d)]"
proof -
  have "\<forall>d \<in> set [0..<10::nat]. plain [char_of (48 + d)]" by (simp add: upt_rec char_of_def)
  then show "d < (10 :: nat) \<Longrightarrow> plain [char_of (48 + d)]" by simp
qed

lemma plain_show_nat [simp]: "plain (show_nat n)"
proof (induction n rule: less_induct)
  case (less n)
  then show ?case
    using plain_digit [of n] plain_digit [of "n mod 10"]
    by (cases "n < 10") (simp_all add: show_nat.simps [of n])
qed

lemma plain_tokens [simp]: "plain (show_u64 v)" "plain (kind_token k)" "plain (enc_token e)"
  by (simp add: show_u64_def, cases k, simp_all, cases e, simp_all)

lemma plain_kDigits: "n < 16 \<Longrightarrow> plain [kDigits ! n]"
proof -
  have "\<forall>n \<in> set [0..<16]. plain [kDigits ! n]" by (simp add: upt_rec kDigits_def)
  then show "n < 16 \<Longrightarrow> plain [kDigits ! n]" by simp
qed

lemma plain_toHex: "plain (toHex bs)"
  using plain_kDigits nibbles by (induction bs) (auto simp: toHex_def)

lemma plain_payload_token [simp]: "plain (payload_token p)"
  by (simp add: payload_token_def plain_toHex)

lemma plain_no_sep: "plain t \<Longrightarrow> CHR '' '' \<notin> set t" "plain t \<Longrightarrow> CHR '','' \<notin> set t"
  by (auto simp: plain_def)

lemma set_join_with: "set (join_with sep ts) \<subseteq> insert sep (\<Union> (set ` set ts))"
  by (induction sep ts rule: join_with.induct) auto

lemma not_in_join:
  "c \<noteq> sep \<Longrightarrow> list_all (\<lambda>t. c \<notin> set t) ts \<Longrightarrow> c \<notin> set (join_with sep ts)"
  using set_join_with [of sep ts] by (auto simp: list_all_iff)

lemma splitFields_join:
  assumes "ts \<noteq> []" and "list_all (\<lambda>t. t \<noteq> [] \<and> CHR '' '' \<notin> set t) ts"
  shows "splitFields (join_with CHR '' '' ts) what = Inr ts"
  using assms by (auto simp: splitFields_def split_on_join list_all_iff list_ex_iff)

lemma set_key_value: "set (key_value k v) = set k \<union> insert CHR ''='' (set v)"
  by (auto simp: key_value_def)

lemma key_value_not_Nil [simp]: "key_value k v \<noteq> []"
  by (simp add: key_value_def)

lemma u64_field_show [simp]: "u64_field why (key_value key (show_u64 v)) key = Inr v"
  by (simp add: u64_field_def field_value_def)

lemma bit_field_show [simp]:
  "v = 0 \<or> v = 1 \<Longrightarrow> bit_field why (key_value key (show_u64 v)) key = Inr v"
  by (simp add: bit_field_def field_value_def)

lemma field_value_key [simp]: "v \<noteq> [] \<Longrightarrow> field_value why (key_value key v) key = Inr v"
  by (simp add: field_value_def)

text \<open>The list of allowed kinds sets exactly its flags.\<close>

lemma kinds_loop_tokens:
  "OK_Invalid \<notin> set ks \<Longrightarrow>
   kinds_loop (map kind_token ks) al = Inr (foldl (\<lambda>a k. a[kindCode k := True]) al ks)"
  by (induction ks arbitrary: al) auto

lemma allowed_kinds_flags:
  assumes "length (sc_kindAllowed sc) = 6" and "\<not> sc_kindAllowed sc ! 0"
  shows "foldl (\<lambda>a k. a[kindCode k := True]) (replicate 6 False) (allowed_kinds sc) =
         sc_kindAllowed sc"
proof -
  obtain b0 b1 b2 b3 b4 b5 where b: "sc_kindAllowed sc = [b0, b1, b2, b3, b4, b5]"
    using assms(1) by (auto simp: numeral_eq_Suc length_Suc_conv)
  show ?thesis using assms(2)
    by (cases b1; cases b2; cases b3; cases b4; cases b5)
      (simp_all add: b allowed_kinds_def numeral_eq_Suc)
qed

lemma kinds_token_parsed:
  assumes "expressible sc"
  shows "kinds_loop (split_on CHR '','' (join_with CHR '','' (map kind_token (allowed_kinds sc))))
           (replicate 6 False) = Inr (sc_kindAllowed sc)"
proof -
  have "OK_Invalid \<notin> set (allowed_kinds sc)" by (simp add: allowed_kinds_def)
  moreover have "split_on CHR '','' (join_with CHR '','' (map kind_token (allowed_kinds sc))) =
      map kind_token (allowed_kinds sc)"
    using assms by (intro split_on_join) (auto simp: expressible_def list_all_iff plain_no_sep)
  ultimately show ?thesis
    using assms by (simp add: kinds_loop_tokens allowed_kinds_flags expressible_def)
qed

lemma kinds_token_not_Nil: "ks \<noteq> [] \<Longrightarrow> join_with CHR '','' (map kind_token ks) \<noteq> []"
  by (cases ks; cases "tl ks") auto

lemma no_blank [simp]:
  "CHR '' '' \<notin> set (show_u64 v)" "CHR '' '' \<notin> set (show_nat n)" "CHR '' '' \<notin> set (kind_token k)"
  "CHR '' '' \<notin> set (enc_token e)" "CHR '' '' \<notin> set (payload_token p)"
  by (simp_all add: plain_no_sep)

lemma parseProfile_line:
  assumes "expressible sc"
  shows "parseProfile (profile_line sc) empty_scenario =
    Inr (sc\<lparr>sc_maxseg := 0, sc_maxpayload := 0, sc_segments := []\<rparr>)"
proof -
  have "splitFields (profile_line sc) what = Inr [''PROFILE'',
     key_value ''id'' (show_u64 (sc_profileId sc)),
     key_value ''gen'' (show_u64 (sc_profileGen sc)),
     key_value ''kinds'' (join_with CHR '','' (map kind_token (allowed_kinds sc))),
     key_value ''depth'' (show_u64 (sc_depth sc)),
     key_value ''width'' (show_u64 (sc_width sc)),
     key_value ''empty'' (show_u64 (sc_empty sc)),
     key_value ''consec'' (show_u64 (sc_consec sc)),
     key_value ''nonconsec'' (show_u64 (sc_nonconsec sc)),
     key_value ''loose'' (show_u64 (sc_loose sc)),
     key_value ''reqcaps'' (show_u64 (sc_reqcaps sc))]" for what
    unfolding profile_line_def
    by (rule splitFields_join) (simp_all add: set_key_value not_in_join list_all_iff)
  then show ?thesis
    using assms kinds_token_parsed [OF assms] kinds_token_not_Nil [of "allowed_kinds sc"]
    by (simp add: parseProfile_def Let_def require_def empty_scenario_def expressible_def)
qed

lemma parseSegment_line:
  assumes "length (sc_segments sc) < 2 ^ 64"
  shows "parseSegment (segment_line (length (sc_segments sc)) seg) sc =
    Inr (sc\<lparr>sc_segments := sc_segments sc @ [seg]\<rparr>)"
proof -
  have "splitFields (segment_line i seg) what = Inr [''SEG'',
     key_value ''index'' (show_nat i),
     key_value ''kind'' (kind_token (os_kind seg)),
     key_value ''enc'' (enc_token (os_enc seg)),
     key_value ''id'' (show_u64 (os_id seg)),
     key_value ''gen'' (show_u64 (os_gen seg)),
     key_value ''node'' (show_u64 (os_node seg)),
     key_value ''adj'' (show_u64 (os_adj seg)),
     key_value ''endp'' (show_u64 (os_endp seg)),
     key_value ''bind'' (show_u64 (os_bind seg)),
     key_value ''pol'' (show_u64 (os_pol seg)),
     key_value ''polgen'' (show_u64 (os_polgen seg)),
     key_value ''topo'' (show_u64 (os_topo seg)),
     key_value ''payload'' (payload_token (os_payload seg))]" for what i
    unfolding segment_line_def
    by (rule splitFields_join) (simp_all add: set_key_value)
  moreover have "u64_field why (key_value ''index'' (show_nat (length (sc_segments sc)))) ''index'' =
      Inr (of_nat (length (sc_segments sc)))" for why
    using assms by (simp add: u64_field_def toU64_show_nat_of_nat)
  ultimately show ?thesis
    by (simp add: parseSegment_def Let_def require_def kind_field_def enc_field_def)
qed

lemma parseLimits_line:
  "parseLimits (limits_line sc) s = Inr (s\<lparr>sc_maxseg := sc_maxseg sc, sc_maxpayload := sc_maxpayload sc\<rparr>)"
proof -
  have "splitFields (limits_line sc) what = Inr [''LIMITS'',
     key_value ''maxseg'' (show_u64 (sc_maxseg sc)),
     key_value ''maxpayload'' (show_u64 (sc_maxpayload sc))]" for what
    unfolding limits_line_def by (rule splitFields_join) (simp_all add: set_key_value)
  then show ?thesis by (simp add: parseLimits_def Let_def require_def)
qed

section \<open>Whole inputs read back\<close>

lemma line_keywords:
  "hasKeyword (profile_line sc) ''PROFILE''" "hasKeyword (segment_line i seg) ''SEG''"
  "hasKeyword (limits_line sc) ''LIMITS''" "\<not> hasKeyword (limits_line sc) ''SEG''"
  by (simp_all add: hasKeyword_def profile_line_def segment_line_def limits_line_def)

lemma parse_segments_lines:
  assumes "sc_segments sc = take n xs" and "n \<le> length xs" and "length xs < 2 ^ 64"
    and "tail \<noteq> []" and "\<not> hasKeyword (hd tail) ''SEG''"
  shows "parse_segments (map (\<lambda>i. segment_line i (xs ! i)) [n..<length xs] @ tail) sc =
    Inr (sc\<lparr>sc_segments := xs\<rparr>, tail)"
  using assms
proof (induction "length xs - n" arbitrary: n sc)
  case 0
  then show ?case by (cases tail) auto
next
  case (Suc k)
  then have n: "n < length xs" by simp
  have len: "length (sc_segments sc) = n" using Suc.prems(1) n by simp
  have "parseSegment (segment_line n (xs ! n)) sc = Inr (sc\<lparr>sc_segments := sc_segments sc @ [xs ! n]\<rparr>)"
    using parseSegment_line [of sc "xs ! n"] Suc.prems(3) n by (simp add: len)
  moreover have "take (Suc n) xs = sc_segments sc @ [xs ! n]"
    using Suc.prems(1) n by (simp add: take_Suc_conv_app_nth)
  ultimately show ?case
    using Suc n by (simp add: upt_rec [of n] line_keywords)
qed

lemma parseScenario_lines:
  assumes "expressible sc"
  shows "parseScenario (scenario_lines sc) = Inr sc"
  using assms
  by (simp add: parseScenario_def scenario_lines_def require_def line_keywords parseProfile_line
      parse_segments_lines expressible_def parse_tail_def parseLimits_line)

text \<open>A line without line breaks that is within the line bound.\<close>

definition line_ok :: "string \<Rightarrow> bool" where
  "line_ok l \<longleftrightarrow> CHR 0x0A \<notin> set l \<and> CHR 0x0D \<notin> set l \<and> length l \<le> kMaxLineBytes"

lemma read_line:
  assumes "CHR 0x0A \<notin> set l" and "CHR 0x0D \<notin> set (cur @ l)"
    and "length cur + length l \<le> kMaxLineBytes" and "length ls < kMaxLines"
  shows "read_loop bad ls cur (l @ CHR 0x0A # chars) = read_loop bad (ls @ [cur @ l]) [] chars"
  using assms
proof (induction l arbitrary: cur)
  case Nil
  then have "drop_cr cur = cur" by (auto simp: drop_cr_def dest: last_in_set)
  then show ?case using Nil by simp
next
  case (Cons c l)
  then show ?case using Cons.IH [of "cur @ [c]"] by auto
qed

lemma read_lines:
  assumes "list_all line_ok lines" and "length ls + length lines \<le> kMaxLines"
  shows "read_loop False ls [] (concat (map (\<lambda>l. l @ [CHR 0x0A]) lines)) = Inr (ls @ lines)"
  using assms by (induction lines arbitrary: ls) (simp_all add: read_line line_ok_def)

lemma length_show_nat: "0 < k \<Longrightarrow> n < 10 ^ k \<Longrightarrow> length (show_nat n) \<le> k"
proof (induction k arbitrary: n)
  case (Suc k)
  show ?case
  proof (cases "n < 10")
    case True
    then show ?thesis by (simp add: show_nat.simps)
  next
    case False
    then have "0 < k" using Suc.prems(2) by (cases k) auto
    moreover have "n div 10 < 10 ^ k" using Suc.prems(2) by (simp add: div_less_iff_less_mult mult.commute)
    ultimately show ?thesis using Suc.IH [of "n div 10"] False by (simp add: show_nat.simps [of n])
  qed
qed simp

lemma length_show_u64: "length (show_u64 v) \<le> 20"
  unfolding show_u64_def
  using unsigned_less [of v, where ?'a = nat] by (intro length_show_nat) simp_all

lemma length_join_with: "length (join_with sep ts) \<le> sum_list (map (\<lambda>t. Suc (length t)) ts)"
  by (induction sep ts rule: join_with.induct) auto

lemma length_tokens: "length (kind_token k) \<le> 9" "length (enc_token e) \<le> 19"
  "length (payload_token p) \<le> 2 * length p + 1"
  by (cases k, simp_all, cases e, simp_all add: payload_token_def length_toHex)

lemma length_kinds: "length (join_with sep (map kind_token (allowed_kinds sc))) \<le> 50"
proof -
  have "length (allowed_kinds sc) \<le> 5"
    using length_filter_le [of _ "[OK_Node, OK_Adjacency, OK_Endpoint, OK_Binding, OK_Policy]"]
    by (simp add: allowed_kinds_def)
  moreover have "sum_list (map (\<lambda>k. Suc (length (kind_token k))) ks) \<le> 10 * length ks" for ks
    using length_tokens(1) by (induction ks) (auto simp: add_mono le_Suc_eq intro: order_trans)
  note this [of "allowed_kinds sc"]
  ultimately show ?thesis
    using length_join_with [of sep "map kind_token (allowed_kinds sc)"]
    by (simp add: comp_def)
qed

lemmas line_length_bounds = length_show_u64 length_tokens length_kinds

lemma line_ok_join:
  assumes "list_all (\<lambda>t. CHR 0x0A \<notin> set t \<and> CHR 0x0D \<notin> set t) ts"
    and "sum_list (map (\<lambda>t. Suc (length t)) ts) \<le> kMaxLineBytes"
  shows "line_ok (join_with CHR '' '' ts)"
  using assms length_join_with [of "CHR '' ''" ts]
  by (auto simp: line_ok_def list_all_iff not_in_join)

lemma plain_no_break: "plain t \<Longrightarrow> CHR 0x0A \<notin> set t \<and> CHR 0x0D \<notin> set t"
  by (auto simp: plain_def)

lemma no_break [simp]:
  "CHR 0x0A \<notin> set (show_u64 v)" "CHR 0x0D \<notin> set (show_u64 v)"
  "CHR 0x0A \<notin> set (show_nat n)" "CHR 0x0D \<notin> set (show_nat n)"
  "CHR 0x0A \<notin> set (kind_token k)" "CHR 0x0D \<notin> set (kind_token k)"
  "CHR 0x0A \<notin> set (enc_token e)" "CHR 0x0D \<notin> set (enc_token e)"
  "CHR 0x0A \<notin> set (payload_token p)" "CHR 0x0D \<notin> set (payload_token p)"
  by (simp_all add: plain_no_break)

lemma length_key_value [simp]: "length (key_value k v) = length k + 1 + length v"
  by (simp add: key_value_def)

lemma profile_line_ok: "line_ok (profile_line sc)"
  unfolding profile_line_def
proof (rule line_ok_join)
  show "sum_list (map (\<lambda>t. Suc (length t)) [''PROFILE'',
     key_value ''id'' (show_u64 (sc_profileId sc)),
     key_value ''gen'' (show_u64 (sc_profileGen sc)),
     key_value ''kinds'' (join_with CHR '','' (map kind_token (allowed_kinds sc))),
     key_value ''depth'' (show_u64 (sc_depth sc)),
     key_value ''width'' (show_u64 (sc_width sc)),
     key_value ''empty'' (show_u64 (sc_empty sc)),
     key_value ''consec'' (show_u64 (sc_consec sc)),
     key_value ''nonconsec'' (show_u64 (sc_nonconsec sc)),
     key_value ''loose'' (show_u64 (sc_loose sc)),
     key_value ''reqcaps'' (show_u64 (sc_reqcaps sc))]) \<le> kMaxLineBytes"
    using length_kinds [of "CHR '',''" sc] length_show_u64 [of "sc_profileId sc"]
      length_show_u64 [of "sc_profileGen sc"] length_show_u64 [of "sc_depth sc"]
      length_show_u64 [of "sc_width sc"] length_show_u64 [of "sc_empty sc"]
      length_show_u64 [of "sc_consec sc"] length_show_u64 [of "sc_nonconsec sc"]
      length_show_u64 [of "sc_loose sc"] length_show_u64 [of "sc_reqcaps sc"]
    by (simp add: kMaxLineBytes_def)
qed (simp_all add: set_key_value not_in_join list_all_iff)

lemma segment_line_ok:
  assumes "i < 10 ^ 20" and "length (os_payload seg) \<le> 524000"
  shows "line_ok (segment_line i seg)"
  unfolding segment_line_def
proof (rule line_ok_join)
  show "sum_list (map (\<lambda>t. Suc (length t)) [''SEG'',
     key_value ''index'' (show_nat i),
     key_value ''kind'' (kind_token (os_kind seg)),
     key_value ''enc'' (enc_token (os_enc seg)),
     key_value ''id'' (show_u64 (os_id seg)),
     key_value ''gen'' (show_u64 (os_gen seg)),
     key_value ''node'' (show_u64 (os_node seg)),
     key_value ''adj'' (show_u64 (os_adj seg)),
     key_value ''endp'' (show_u64 (os_endp seg)),
     key_value ''bind'' (show_u64 (os_bind seg)),
     key_value ''pol'' (show_u64 (os_pol seg)),
     key_value ''polgen'' (show_u64 (os_polgen seg)),
     key_value ''topo'' (show_u64 (os_topo seg)),
     key_value ''payload'' (payload_token (os_payload seg))]) \<le> kMaxLineBytes"
    using assms length_show_nat [of 20 i] length_tokens(1) [of "os_kind seg"]
      length_tokens(2) [of "os_enc seg"] length_tokens(3) [of "os_payload seg"]
      length_show_u64 [of "os_id seg"] length_show_u64 [of "os_gen seg"]
      length_show_u64 [of "os_node seg"] length_show_u64 [of "os_adj seg"]
      length_show_u64 [of "os_endp seg"] length_show_u64 [of "os_bind seg"]
      length_show_u64 [of "os_pol seg"] length_show_u64 [of "os_polgen seg"]
      length_show_u64 [of "os_topo seg"]
    by (simp add: kMaxLineBytes_def)
qed (simp_all add: set_key_value)

lemma limits_line_ok: "line_ok (limits_line sc)"
  unfolding limits_line_def
  by (rule line_ok_join)
    (use length_show_u64 [of "sc_maxseg sc"] length_show_u64 [of "sc_maxpayload sc"]
      in \<open>simp_all add: set_key_value kMaxLineBytes_def\<close>)

lemma scenario_lines_ok:
  assumes "expressible sc"
  shows "list_all line_ok (scenario_lines sc)"
proof -
  have "line_ok (segment_line i (sc_segments sc ! i))" if "i < length (sc_segments sc)" for i
    using assms that by (intro segment_line_ok) (auto simp: expressible_def list_all_length)
  moreover have "line_ok ''END''" by (simp add: line_ok_def kMaxLineBytes_def)
  ultimately show ?thesis
    by (simp add: scenario_lines_def list_all_iff profile_line_ok limits_line_ok)
qed

lemma readLines_render:
  assumes "expressible sc"
  shows "readLines False (render_scenario sc) = Inr (scenario_lines sc)"
proof -
  have "length (scenario_lines sc) \<le> kMaxLines"
    using assms by (simp add: scenario_lines_def expressible_def kMaxLines_def)
  then show ?thesis
    using read_lines [of "scenario_lines sc" "[]"] scenario_lines_ok [OF assms]
    by (simp add: readLines_def render_scenario_def)
qed

section \<open>The parser inverts the grammar\<close>


definition scenario_example :: Scenario where
  "scenario_example = \<lparr>sc_profileId = 7, sc_profileGen = 1,
     sc_kindAllowed = [False, True, False, False, False, True], sc_depth = 4, sc_width = 2,
     sc_empty = 0, sc_consec = 0, sc_nonconsec = 1, sc_loose = 0, sc_reqcaps = 0, sc_maxseg = 8,
     sc_maxpayload = 16, sc_segments = [\<lparr>os_kind = OK_Node, os_enc = OE_Unset, os_id = 3,
       os_gen = 1, os_node = 18446744073709551615, os_adj = 0, os_endp = 0, os_bind = 0,
       os_pol = 0, os_polgen = 0, os_topo = 0, os_payload = [0xAB, 0]\<rparr>]\<rparr>"


end
