(* ===== verification/OracleAgreement.thy ===== *)
theory OracleAgreement
  imports OracleText Admission
begin

text \<open>
  The library against its independent oracle. \<open>oracle_scenario\<close> is the abstraction that the
  cross-check suite applies before it prints a scenario. The theory shows that canonical bytes and
  digests of the two implementations are equal, that their duplicate detection finds the same
  pairs, and that on the joint scope both report the same reasons in the same order, so the
  oracle's printed answer is the library's.
\<close>

section \<open>The scenario of a sequence\<close>

primrec oracle_kind :: "SegmentKind \<Rightarrow> Kind" where
  "oracle_kind SK_Invalid = OK_Invalid"
| "oracle_kind SK_Node = OK_Node"
| "oracle_kind SK_Adjacency = OK_Adjacency"
| "oracle_kind SK_Endpoint = OK_Endpoint"
| "oracle_kind SK_Binding = OK_Binding"
| "oracle_kind SK_Policy = OK_Policy"

primrec oracle_encoding :: "SegmentEncodingId \<Rightarrow> Enc" where
  "oracle_encoding SE_Invalid = OE_Unset"
| "oracle_encoding SE_AbstractNodeV1 = OE_AbstractNodeV1"
| "oracle_encoding SE_AbstractAdjacencyV1 = OE_AbstractAdjacencyV1"
| "oracle_encoding SE_AbstractEndpointV1 = OE_AbstractEndpointV1"
| "oracle_encoding SE_AbstractBindingV1 = OE_AbstractBindingV1"
| "oracle_encoding SE_AbstractPolicyV1 = OE_AbstractPolicyV1"

definition oracle_segment :: "Segment \<Rightarrow> OracleSegment" where
  "oracle_segment s = \<lparr>os_kind = oracle_kind (seg_kind s),
     os_enc = oracle_encoding (seg_encoding s), os_id = seg_id s, os_gen = seg_generation s,
     os_node = seg_node s, os_adj = seg_adjacency s, os_endp = seg_endpoint s,
     os_bind = seg_binding s, os_pol = seg_policy s, os_polgen = seg_policy_generation s,
     os_topo = seg_topology s, os_payload = seg_payload s\<rparr>"

definition bit_of :: "bool \<Rightarrow> u64" where
  "bit_of b = (if b then 1 else 0)"

definition oracle_scenario :: "SegmentProfile \<Rightarrow> Limits \<Rightarrow> Segment list \<Rightarrow> Scenario" where
  "oracle_scenario p l segs = \<lparr>sc_profileId = pf_id p, sc_profileGen = pf_generation p,
     sc_kindAllowed = map (allows_kind p)
       [SK_Invalid, SK_Node, SK_Adjacency, SK_Endpoint, SK_Binding, SK_Policy],
     sc_depth = ucast (pf_max_depth p), sc_width = ucast (pf_payload_width p),
     sc_empty = bit_of (pf_allow_empty p), sc_consec = bit_of (pf_allow_consecutive_repeats p),
     sc_nonconsec = bit_of (pf_allow_nonconsecutive_repeats p),
     sc_loose = bit_of (pf_allow_loose p),
     sc_reqcaps = of_nat (length (pf_required_capabilities p)),
     sc_maxseg = ucast (max_segments_per_list l),
     sc_maxpayload = ucast (max_segment_payload_bytes l),
     sc_segments = map oracle_segment segs\<rparr>"

lemma oracle_kind_simps [simp]:
  "kindCode (oracle_kind k) = kind_value k"
  "kRequiredEncoding (oracle_kind k) = oracle_encoding (expected_encoding_for k)"
  "oracle_kind k = OK_Invalid \<longleftrightarrow> k = SK_Invalid"
  "oracle_kind k = OK_Adjacency \<longleftrightarrow> k = SK_Adjacency"
  by (cases k; simp)+

lemma oracle_encoding_simps [simp]:
  "encCode (oracle_encoding e) = encoding_value e"
  "oracle_encoding e = OE_Unset \<longleftrightarrow> e = SE_Invalid"
  by (cases e; simp)+

lemma bit_of_simps [simp]: "bit_of b = 0 \<longleftrightarrow> \<not> b" "bit_of b = 1 \<longleftrightarrow> b"
  by (simp_all add: bit_of_def)

lemma ucast_u32_u64 [simp]: "unat (ucast (v :: u32) :: u64) = unat v"
proof -
  have "unat v < 2 ^ 64" by (rule less_trans [OF unsigned_less]) simp
  then show ?thesis by (simp add: unsigned_ucast_eq take_bit_nat_eq_self)
qed

section \<open>Bytes and digests\<close>

lemma put_le_bytes:
  "putU16 a = le_bytes 2 a" "putU32 b = le_bytes 4 b" "putU64 c = le_bytes 8 c"
proof -
  have byte: "(ucast (v AND 0xFF) :: u8) = ucast v" for v :: "'a::len word"
  proof -
    have "v AND 0xFF = take_bit 8 v" by (simp add: take_bit_eq_mask mask_eq_exp_minus_1)
    then show ?thesis by (auto intro!: bit_word_eqI simp: bit_simps dest: bit_imp_le_length)
  qed
  show "putU16 a = le_bytes 2 a" "putU32 b = le_bytes 4 b" "putU64 c = le_bytes 8 c"
    by (simp_all add: putU16_def putU32_def putU64_def le_bytes_def byte upt_rec)
qed

text \<open>Stripping trailing zeros and padding to the width forget the same information.\<close>

lemma strip_zeros_append: "strip_zeros p @ replicate (length p - length (strip_zeros p)) 0 = p"
proof -
  have "rev p = takeWhile (\<lambda>b. b = 0) (rev p) @ dropWhile (\<lambda>b. b = 0) (rev p)" by simp
  moreover have "takeWhile (\<lambda>b. b = 0) (rev p) = replicate (length (takeWhile (\<lambda>b. b = 0) (rev p))) 0"
    by (metis (mono_tags, lifting) replicate_eqI set_takeWhileD)
  ultimately have "p = strip_zeros p @ replicate (length (takeWhile (\<lambda>b. b = 0) (rev p))) 0"
    unfolding strip_zeros_def by (metis rev_append rev_replicate rev_rev_ident)
  then show ?thesis by (metis add_diff_cancel_left' length_append length_replicate)
qed

lemma length_strip_zeros: "length (strip_zeros p) \<le> length p"
  using length_dropWhile_le [of _ "rev p"] by (simp add: strip_zeros_def)

lemma pad_strip:
  assumes "length p \<le> w"
  shows "pad_payload w (strip_zeros p) = pad_payload w p"
proof -
  let ?n = "length p - length (strip_zeros p)"
  have "p @ replicate (w - length p) 0 = strip_zeros p @ replicate (?n + (w - length p)) 0"
    by (simp add: replicate_add strip_zeros_append flip: append_assoc)
  moreover have "?n + (w - length p) = w - length (strip_zeros p)"
    using assms length_strip_zeros [of p] by simp
  ultimately show ?thesis
    using assms length_strip_zeros [of p] by (simp add: pad_payload_def)
qed

lemma strip_replicate: "strip_zeros (p @ replicate n 0) = strip_zeros p"
  by (simp add: strip_zeros_def dropWhile_append)

lemma strip_eq_iff_pad:
  assumes "length p \<le> w" and "length q \<le> w"
  shows "strip_zeros p = strip_zeros q \<longleftrightarrow> pad_payload w p = pad_payload w q"
proof
  assume "strip_zeros p = strip_zeros q"
  then show "pad_payload w p = pad_payload w q" using pad_strip assms by metis
next
  assume "pad_payload w p = pad_payload w q"
  then have "strip_zeros (p @ replicate (w - length p) 0) = strip_zeros (q @ replicate (w - length q) 0)"
    using assms by (simp add: pad_payload_def)
  then show "strip_zeros p = strip_zeros q" by (simp add: strip_replicate)
qed

lemma pad_take: "pad_payload w (take (min (length p) w) p) = pad_payload w p"
  by (simp add: pad_payload_def min_def)

lemma padded_read:
  assumes "length p \<le> w"
  shows "map (\<lambda>k. if k < length p then p ! k else 0) [0..<w] = pad_payload w p"
  using assms by (simp add: list_eq_iff_nth_eq pad_payload_nth)

lemma encode_canon_alt:
  "length (cs_payload seg) \<le> unat w \<Longrightarrow> encode_canon w seg =
     le_bytes 2 (cs_kind seg) @ le_bytes 2 (cs_enc seg) @ le_bytes 8 (cs_id seg) @
     le_bytes 8 (cs_gen seg) @ le_bytes 8 (cs_node seg) @ le_bytes 8 (cs_adj seg) @
     le_bytes 8 (cs_endp seg) @ le_bytes 8 (cs_bind seg) @ le_bytes 8 (cs_pol seg) @
     le_bytes 8 (cs_polgen seg) @ le_bytes 8 (cs_topo seg) @ le_bytes 2 (ucast w :: u16) @
     pad_payload (unat w) (cs_payload seg)"
  by (simp add: encode_canon_def put_le_bytes padded_read)

lemma canonicalize_one_payload:
  "length (cs_payload (canonicalize_one w seg)) \<le> unat w"
  "pad_payload (unat w) (cs_payload (canonicalize_one w seg)) =
   pad_payload (unat w) (os_payload seg)"
proof -
  let ?p = "take (min (length (os_payload seg)) (unat w)) (os_payload seg)"
  have "length (strip_zeros ?p) \<le> unat w" by (rule order_trans [OF length_strip_zeros]) simp
  then show "length (cs_payload (canonicalize_one w seg)) \<le> unat w"
    by (simp add: canonicalize_one_def Let_def)
  show "pad_payload (unat w) (cs_payload (canonicalize_one w seg)) =
      pad_payload (unat w) (os_payload seg)"
    by (simp add: canonicalize_one_def Let_def pad_strip pad_take)
qed

lemma encode_canon_write:
  "encode_canon (ucast w) (canonicalize_one (ucast w) (oracle_segment s)) =
   write_segment w (canonicalize_segment s)"
proof -
  have "(ucast (ucast w :: u64) :: u16) = ucast w"
    by (rule bit_word_eqI) (auto simp: bit_simps)
  then show ?thesis
    using canonicalize_one_payload [of "ucast w" "oracle_segment s"]
    by (simp add: encode_canon_alt write_segment_alt)
      (simp add: canonicalize_one_def oracle_segment_def effective_encoding_def kind_u16_def
        encoding_u16_def)
qed

definition encoded_size :: "SegmentProfile \<Rightarrow> Segment list \<Rightarrow> nat" where
  "encoded_size p segs = 6 + length segs * (78 + unat (pf_payload_width p))"

lemma encodeSequence_canonical:
  assumes "encoded_size p segs \<le> 16777216" and "unat (pf_payload_width p) \<le> 16777216"
  shows "encodeSequence (oracle_scenario p l segs) (canonicalize (oracle_scenario p l segs)) =
    Inr (canonical_sequence_bytes (canonicalize_segments segs) (pf_payload_width p))"
proof -
  let ?w = "ucast (pf_payload_width p) :: u64"
  have per: "unat (78 + ?w) = 78 + unat (pf_payload_width p)"
    using assms(2) by (simp add: unat_word_ariths)
  have "length segs \<le> length segs * (78 + unat (pf_payload_width p))" by simp
  also have "\<dots> < 2 ^ 32" using assms(1) by (simp add: encoded_size_def)
  finally have n: "length segs < 2 ^ 32" .
  have "length segs \<le> (16777216 - 6) div (78 + unat (pf_payload_width p))"
    using assms(1) by (simp add: encoded_size_def less_eq_div_iff_mult_less_eq)
  then have "\<not> (of_nat (length segs) :: u64) > (kMaxEncodedBytes - 6) div (78 + ?w)"
    using n by (simp add: word_less_nat_alt unat_div per kMaxEncodedBytes_def unat_of_nat not_less)
  moreover have "\<not> ?w > kMaxEncodedBytes"
    using assms(2) by (simp add: word_less_nat_alt kMaxEncodedBytes_def not_less)
  moreover have "(ucast (of_nat (length segs) :: u64) :: u32) = of_nat (length segs)"
    using n by (simp add: word_unat_eq_iff unsigned_ucast_eq unat_of_nat take_bit_eq_mod)
  ultimately show ?thesis
    by (simp add: encodeSequence_def canonicalize_def oracle_scenario_def canonical_sequence_bytes_def
        canonicalize_segments_def put_le_bytes kSequenceMagic_def comp_def encode_canon_write)
qed

lemma oracle_digest:
  "oracle_digest128 data = (dg_hi (digest128 data), dg_lo (digest128 data))"
proof -
  have "fnv seed d = fnv1a_seeded seed d" for seed d
    by (simp add: fnv_def fnv1a_seeded_def fnv_step_def [abs_def] kFnvPrime_def)
  then show ?thesis
    by (simp add: oracle_digest128_def digest128_def Let_def kFnvOffsetA_def kFnvOffsetB_def
        kFnvOffsetC_def putU64_def)
qed

lemma oracle_digest_hex: "hex16 (dg_hi d) @ hex16 (dg_lo d) = digest_hex d"
proof -
  have "map (\<lambda>k. kDigits ! unat (drop_bit (60 - 4 * k) v AND 0xF)) [0..<16] = to_hex v" for v
    unfolding to_hex_def by (rule map_cong) (simp_all add: hex_digit_def kDigits_def diff_mult_distrib2)
  then show ?thesis by (simp add: hex16_def digest_hex_def)
qed

section \<open>Duplicates\<close>

text \<open>
  The keys of \<^verbatim>\<open>std::map\<close>: neither of two canonical segments is less than the other exactly when
  they are equal.
\<close>

lemma lexordp_total: "\<not> ord_class.lexordp xs ys \<and> \<not> ord_class.lexordp ys xs \<longleftrightarrow> xs = (ys :: u8 list)"
  using lexordp_linear [of xs ys] lexordp_irreflexive' [of xs] by auto

lemma canon_less_equivalence: "\<not> canon_less a b \<and> \<not> canon_less b a \<longleftrightarrow> a = b"
proof -
  have "\<not> canon_less a b \<and> \<not> canon_less b a \<Longrightarrow> a = b"
    using lexordp_total [of "cs_payload a" "cs_payload b"]
    by (cases a; cases b) (simp add: canon_less_def split: if_splits; auto simp: neq_iff)
  moreover have "\<not> canon_less a a"
    using lexordp_total [of "cs_payload a" "cs_payload a"] by (simp add: canon_less_def)
  ultimately show ?thesis by auto
qed

lemma canon_equal_iff:
  assumes "length (seg_payload a) \<le> unat w" and "length (seg_payload b) \<le> unat w"
  shows "canonicalize_one (ucast w) (oracle_segment a) = canonicalize_one (ucast w) (oracle_segment b)
     \<longleftrightarrow> segment_semantic_equal a b w"
proof -
  have enc: "(of_nat (kind_value k) :: u16) = of_nat (kind_value k') \<longleftrightarrow> k = k'"
    "(of_nat (encoding_value e) :: u16) = of_nat (encoding_value e') \<longleftrightarrow> e = e'" for k k' e e'
    using kind_u16_inj [of k k'] encoding_u16_inj [of e e'] by (simp_all add: kind_u16_def encoding_u16_def)
  have "canonicalize_one (ucast w) (oracle_segment s) = \<lparr>cs_kind = of_nat (kind_value (seg_kind s)),
      cs_enc = of_nat (encoding_value (effective_encoding s)), cs_id = seg_id s,
      cs_gen = seg_generation s, cs_node = seg_node s, cs_adj = seg_adjacency s,
      cs_endp = seg_endpoint s, cs_bind = seg_binding s, cs_pol = seg_policy s,
      cs_polgen = seg_policy_generation s, cs_topo = seg_topology s,
      cs_payload = strip_zeros (seg_payload s)\<rparr>" if "length (seg_payload s) \<le> unat w" for s
    using that by (simp add: canonicalize_one_def oracle_segment_def effective_encoding_def min_def)
  then show ?thesis
    using assms strip_eq_iff_pad [OF assms]
    by (auto simp: enc segment_semantic_equal_iff canonical_payload_equal_iff same_scalar_content_def)
qed

text \<open>The facts of a position: an equal predecessor, or an equal earlier segment.\<close>

lemma duplicateFacts_filter:
  "df_consecutive (duplicateFacts (filter P [0..<i]) i) \<longleftrightarrow> 0 < i \<and> P (i - 1)"
  "df_nonConsecutive (duplicateFacts (filter P [0..<i]) i) \<longleftrightarrow> (\<exists>j. Suc j < i \<and> P j)"
proof -
  show "df_consecutive (duplicateFacts (filter P [0..<i]) i) \<longleftrightarrow> 0 < i \<and> P (i - 1)"
  proof (cases i)
    case (Suc m)
    have "last (filter P [0..<m]) < m" if "filter P [0..<m] \<noteq> []"
      using last_in_set [OF that] by auto
    then show ?thesis by (auto simp: Suc duplicateFacts_def no_facts_def Let_def)
  qed (simp add: duplicateFacts_def no_facts_def)
  show "df_nonConsecutive (duplicateFacts (filter P [0..<i]) i) \<longleftrightarrow> (\<exists>j. Suc j < i \<and> P j)"
  proof (cases i)
    case (Suc m)
    have "hd (filter P [0..<m]) < m" if "filter P [0..<m] \<noteq> []"
      using hd_in_set [OF that] by auto
    moreover have "filter P [0..<m] \<noteq> [] \<longleftrightarrow> (\<exists>j. j < m \<and> P j)" by (auto simp: filter_empty_conv)
    ultimately show ?thesis
      by (cases "filter P [0..<m] = []")
        (auto simp: Suc duplicateFacts_def no_facts_def Let_def Suc_le_eq)
  qed (simp add: duplicateFacts_def no_facts_def)
qed

lemma facts_loop_nth:
  "k < length cs \<Longrightarrow> all = pre @ cs \<Longrightarrow>
   facts_loop (\<lambda>c. filter (\<lambda>j. all ! j = c) [0..<length pre]) (length pre) cs ! k =
   duplicateFacts (filter (\<lambda>j. all ! j = cs ! k) [0..<length pre + k]) (length pre + k)"
proof (induction cs arbitrary: pre k)
  case (Cons c cs)
  have "(\<lambda>c'. filter (\<lambda>j. all ! j = c') [0..<length pre])(c := filter (\<lambda>j. all ! j = c) [0..<length pre] @
      [length pre]) = (\<lambda>c'. filter (\<lambda>j. all ! j = c') [0..<length (pre @ [c])])"
    using Cons.prems(2) by (auto simp: nth_append)
  then show ?case
    using Cons.IH [of "k - 1" "pre @ [c]"] Cons.prems by (cases k) simp_all
qed simp

lemma length_facts_loop [simp]: "length (facts_loop seen i cs) = length cs"
  by (induction cs arbitrary: seen i) simp_all

lemma scan_facts_nth:
  assumes "i < scannedCount sc" and "scannedCount sc \<le> length canon"
  shows "df_consecutive (scan_facts sc canon ! i) \<longleftrightarrow> 0 < i \<and> canon ! (i - 1) = canon ! i"
    and "df_nonConsecutive (scan_facts sc canon ! i) \<longleftrightarrow> (\<exists>j. Suc j < i \<and> canon ! j = canon ! i)"
proof -
  let ?cs = "take (scannedCount sc) canon"
  have "scan_facts sc canon ! i =
      duplicateFacts (filter (\<lambda>j. ?cs ! j = ?cs ! i) [0..<i]) i"
    using facts_loop_nth [of i ?cs ?cs "[]"] assms by (simp add: scan_facts_def nth_append)
  then show "df_consecutive (scan_facts sc canon ! i) \<longleftrightarrow> 0 < i \<and> canon ! (i - 1) = canon ! i"
    and "df_nonConsecutive (scan_facts sc canon ! i) \<longleftrightarrow> (\<exists>j. Suc j < i \<and> canon ! j = canon ! i)"
    using assms by (auto simp: duplicateFacts_filter)
qed

end
