(* ===== verification/OracleReasons.thy ===== *)
theory OracleReasons
  imports OracleAgreement
begin

text \<open>
  The reasons of the library and of the oracle on the joint scope: both report the same code at
  the same index, in the same order, and the printed answers agree. A tag is a code with its
  index; the two implementations differ only in one detail number, which neither prints.
\<close>

section \<open>The joint scope\<close>

definition sequence_query ::
  "SegmentProfile \<Rightarrow> Limits \<Rightarrow> Segment list \<Rightarrow> SegmentSequenceRequest" where
  "sequence_query p l segs = \<lparr>sq_limits = Some l, sq_profile = Some p, sq_segments = segs,
     sq_evidence = None, sq_topology = 0\<rparr>"

definition scanned :: "Limits \<Rightarrow> Segment list \<Rightarrow> nat" where
  "scanned l segs = min (length segs) (unat (max_segments_per_list l) + 1)"

definition entity_bound :: "Segment \<Rightarrow> bool" where
  "entity_bound s \<longleftrightarrow> seg_kind s = SK_Invalid \<or>
     valid (seg_node s) \<or> valid (seg_adjacency s) \<or> valid (seg_endpoint s) \<or>
     valid (seg_binding s) \<or> valid (seg_policy s)"

definition repeats_forbidden :: "SegmentProfile \<Rightarrow> nat \<Rightarrow> Segment list \<Rightarrow> bool" where
  "repeats_forbidden p n segs \<longleftrightarrow>
     list_all (\<lambda>(j, i). segment_semantic_equal (segs ! j) (segs ! i) (pf_payload_width p) \<longrightarrow>
       \<not> (if j + 1 = i then pf_allow_consecutive_repeats p else pf_allow_nonconsecutive_repeats p))
     (scan_pairs n)"

text \<open>
  A profile with a width and a generation, an empty sequence only where it is permitted, no
  payload over the width, no segment without any entity reference, no adjacency behind the
  scanned prefix, no repeat that the profile permits, and indices of 32 bits.
\<close>

definition joint_scope :: "SegmentProfile \<Rightarrow> Limits \<Rightarrow> Segment list \<Rightarrow> bool" where
  "joint_scope p l segs \<longleftrightarrow>
     pf_payload_width p \<noteq> 0 \<and> valid (pf_generation p) \<and> (segs = [] \<longrightarrow> pf_allow_empty p) \<and>
     list_all (\<lambda>s. length (seg_payload s) \<le> unat (pf_payload_width p) \<and> entity_bound s) segs \<and>
     list_all (\<lambda>s. seg_kind s \<noteq> SK_Adjacency) (drop (scanned l segs) segs) \<and>
     repeats_forbidden p (scanned l segs) segs \<and>
     length segs < 2 ^ 32 \<and> length (pf_required_capabilities p) < 2 ^ 64"

definition library_reasons :: "SegmentProfile \<Rightarrow> Limits \<Rightarrow> Segment list \<Rightarrow> Reason list" where
  "library_reasons p l segs =
     (let r = sequence_request (sequence_query p l segs) in
      check_list_content_lifecycle r @ check_profile r @
      check_structural r (pf_payload_width p) @ check_capability r @ check_topology r @
      check_resource_limits r)"

lemma validate_library_reasons:
  "validate_segment_sequence (sequence_query p l segs) =
   vr_add_all (library_reasons p l segs) (set_limits (Some l) vr_success)"
  by (simp add: validate_segment_sequence_def library_reasons_def Let_def)
    (simp add: sequence_query_def)

section \<open>Tags\<close>

text \<open>
  The number that \<^verbatim>\<open>docs/ORACLE_SPEC.md\<close> gives a reason of the library. The tables of the document
  and of the oracle are off by one for the structural reasons from \<^verbatim>\<open>SegmentReservedFieldSet\<close> on and
  for \<^verbatim>\<open>TopologyEvidenceUnavailable\<close>; their order is the same.
\<close>

definition spec_code :: "ReasonCode \<Rightarrow> nat" where
  "spec_code c = unat c + (if 254 \<le> c \<and> c \<le> 264 \<or> c = 324 then 1 else 0)"

definition library_tag :: "Reason \<Rightarrow> nat \<times> nat" where
  "library_tag r = (spec_code (rs_code r), unat (rs_index r))"

definition oracle_tag :: "OracleReason \<Rightarrow> nat \<times> nat" where
  "oracle_tag r = (unat (or_code r), unat (or_index r))"

definition library_tags :: "Reason list \<Rightarrow> (nat \<times> nat) set" where
  "library_tags rs = library_tag ` set rs"

definition oracle_tags :: "OracleReason list \<Rightarrow> (nat \<times> nat) set" where
  "oracle_tags rs = oracle_tag ` set rs"

lemma library_tags_simps [simp]:
  "library_tags [] = {}" "library_tags (xs @ ys) = library_tags xs \<union> library_tags ys"
  "library_tags [reason c i d] = {(spec_code c, unat i)}"
  "library_tags (emit b c i d) = (if b then {(spec_code c, unat i)} else {})"
  "library_tags (concat (map f zs)) = (\<Union>z \<in> set zs. library_tags (f z))"
  by (auto simp: library_tags_def library_tag_def emit_def)

lemma oracle_tags_simps [simp]:
  "oracle_tags [] = {}" "oracle_tags (xs @ ys) = oracle_tags xs \<union> oracle_tags ys"
  "oracle_tags (oracle_emit b ph c i d) =
     (if b then {(unat c, unat (of_nat i :: u64))} else {})"
  "oracle_tags (concat (map f zs)) = (\<Union>z \<in> set zs. oracle_tags (f z))"
  by (auto simp: oracle_tags_def oracle_tag_def oracle_emit_def)

lemma unat_index [simp]:
  assumes "i < 2 ^ 32"
  shows "unat (of_nat i :: u32) = i" "unat (of_nat i :: u64) = i"
  using assms by (simp_all add: unat_of_nat)

text \<open>The request of a sequence without evidence.\<close>

abbreviation query_request :: "SegmentProfile \<Rightarrow> Limits \<Rightarrow> Segment list \<Rightarrow> ValidationRequest" where
  "query_request p l segs \<equiv> sequence_request (sequence_query p l segs)"

lemma query_request_fields [simp]:
  "vq_limits (query_request p l segs) = Some l"
  "vq_profile (query_request p l segs) = Some p"
  "vq_profile_found (query_request p l segs)"
  "vq_profile_id (query_request p l segs) = pf_id p"
  "vq_profile_generation (query_request p l segs) = 0"
  "vq_strictness (query_request p l segs) = Strict"
  "vq_segments (query_request p l segs) = segs"
  "vq_evidence (query_request p l segs) = None"
  "scan_bound (query_request p l segs) = scanned l segs"
  by (simp_all add: sequence_request_def sequence_query_def empty_request_def scan_bound_def
      scanned_def Let_def)

lemma oracle_scenario_fields [simp]:
  "sc_width (oracle_scenario p l segs) = ucast (pf_payload_width p)"
  "sc_depth (oracle_scenario p l segs) = ucast (pf_max_depth p)"
  "sc_empty (oracle_scenario p l segs) = bit_of (pf_allow_empty p)"
  "sc_consec (oracle_scenario p l segs) = bit_of (pf_allow_consecutive_repeats p)"
  "sc_nonconsec (oracle_scenario p l segs) = bit_of (pf_allow_nonconsecutive_repeats p)"
  "sc_maxseg (oracle_scenario p l segs) = ucast (max_segments_per_list l)"
  "sc_maxpayload (oracle_scenario p l segs) = ucast (max_segment_payload_bytes l)"
  "sc_reqcaps (oracle_scenario p l segs) = of_nat (length (pf_required_capabilities p))"
  "sc_segments (oracle_scenario p l segs) = map oracle_segment segs"
  "length (canonicalize (oracle_scenario p l segs)) = length segs"
  by (simp_all add: oracle_scenario_def canonicalize_def)

lemma oracle_segment_fields [simp]:
  "os_kind (oracle_segment s) = oracle_kind (seg_kind s)"
  "os_enc (oracle_segment s) = oracle_encoding (seg_encoding s)"
  "os_id (oracle_segment s) = seg_id s" "os_gen (oracle_segment s) = seg_generation s"
  "os_node (oracle_segment s) = seg_node s" "os_adj (oracle_segment s) = seg_adjacency s"
  "os_endp (oracle_segment s) = seg_endpoint s" "os_bind (oracle_segment s) = seg_binding s"
  "os_pol (oracle_segment s) = seg_policy s" "os_polgen (oracle_segment s) = seg_policy_generation s"
  "os_topo (oracle_segment s) = seg_topology s" "os_payload (oracle_segment s) = seg_payload s"
  by (simp_all add: oracle_segment_def)

lemma kind_flag [simp]:
  "sc_kindAllowed (oracle_scenario p l segs) ! kind_value k = allows_kind p k"
  by (cases k) (simp_all add: oracle_scenario_def)

lemma scannedCount_scenario [simp]:
  "scannedCount (oracle_scenario p l segs) = scanned l segs"
proof -
  let ?m = "ucast (max_segments_per_list l) :: u64"
  have m: "unat ?m < 2 ^ 32" using unsigned_less [of "max_segments_per_list l", where ?'a = nat] by simp
  have "unat (- 1 :: u64) = 2 ^ 64 - 1" by (simp add: unsigned_minus_1_eq_mask mask_eq_exp_minus_1)
  with m have "?m \<noteq> - 1" by (intro notI) simp
  moreover from this have "unat (?m + 1) = unat (max_segments_per_list l) + 1"
    by (simp add: unat_succ)
  ultimately show ?thesis by (simp add: scannedCount_def scanned_def Let_def)
qed

lemma scanned_le [simp]: "scanned l segs \<le> length segs"
  by (simp add: scanned_def)

section \<open>The phases agree\<close>

definition adjacent_repeat :: "SegmentProfile \<Rightarrow> Segment list \<Rightarrow> nat \<Rightarrow> bool" where
  "adjacent_repeat p segs i \<longleftrightarrow>
     0 < i \<and> segment_semantic_equal (segs ! (i - 1)) (segs ! i) (pf_payload_width p)"

definition distant_repeat :: "SegmentProfile \<Rightarrow> Segment list \<Rightarrow> nat \<Rightarrow> bool" where
  "distant_repeat p segs i \<longleftrightarrow>
     (\<exists>j. Suc j < i \<and> segment_semantic_equal (segs ! j) (segs ! i) (pf_payload_width p))"

lemma joint_scope_payload:
  "joint_scope p l segs \<Longrightarrow> i < length segs \<Longrightarrow>
     length (seg_payload (segs ! i)) \<le> unat (pf_payload_width p) \<and> entity_bound (segs ! i)"
  by (simp add: joint_scope_def list_all_length)

lemma oracle_facts:
  assumes "joint_scope p l segs" and "i < scanned l segs"
  defines "sc \<equiv> oracle_scenario p l segs"
  shows "df_consecutive (scan_facts sc (canonicalize sc) ! i) = adjacent_repeat p segs i"
    and "df_nonConsecutive (scan_facts sc (canonicalize sc) ! i) = distant_repeat p segs i"
proof -
  have n: "i < length segs" using assms(2) scanned_le [of l segs] by linarith
  have eq: "canonicalize sc ! j = canonicalize sc ! i \<longleftrightarrow>
      segment_semantic_equal (segs ! j) (segs ! i) (pf_payload_width p)" if "j < i" for j
    using joint_scope_payload [OF assms(1)] n that canon_equal_iff [of "segs ! j" "pf_payload_width p" "segs ! i"]
    by (simp add: sc_def canonicalize_def)
  have "i < scannedCount sc" "scannedCount sc \<le> length (canonicalize sc)"
    using assms(2) by (simp_all add: sc_def)
  then show "df_consecutive (scan_facts sc (canonicalize sc) ! i) = adjacent_repeat p segs i"
    and "df_nonConsecutive (scan_facts sc (canonicalize sc) ! i) = distant_repeat p segs i"
    using eq by (auto simp: scan_facts_nth adjacent_repeat_def distant_repeat_def)
qed

lemma pair_forbidden:
  assumes "joint_scope p l segs" and "j < i" and "i < scanned l segs"
    and "segment_semantic_equal (segs ! j) (segs ! i) (pf_payload_width p)"
  shows "\<not> (if j + 1 = i then pf_allow_consecutive_repeats p
            else pf_allow_nonconsecutive_repeats p)"
  using assms by (auto simp: joint_scope_def repeats_forbidden_def list_all_iff scan_pairs_set)

lemma adjacent_forbidden:
  "joint_scope p l segs \<Longrightarrow> i < scanned l segs \<Longrightarrow> adjacent_repeat p segs i \<Longrightarrow>
   \<not> pf_allow_consecutive_repeats p"
  using pair_forbidden [of p l segs "i - 1" i] by (simp add: adjacent_repeat_def)

lemma distant_forbidden:
  "joint_scope p l segs \<Longrightarrow> i < scanned l segs \<Longrightarrow> distant_repeat p segs i \<Longrightarrow>
   \<not> pf_allow_nonconsecutive_repeats p"
proof -
  assume js: "joint_scope p l segs" "i < scanned l segs" and "distant_repeat p segs i"
  then obtain j where "Suc j < i" "segment_semantic_equal (segs ! j) (segs ! i) (pf_payload_width p)"
    by (auto simp: distant_repeat_def)
  then show ?thesis using pair_forbidden [OF js(1) _ js(2), of j] by simp
qed

lemma scanned_index:
  "joint_scope p l segs \<Longrightarrow> i < scanned l segs \<Longrightarrow> i < length segs \<and> i < 2 ^ 32"
  using less_le_trans [of i "scanned l segs" "length segs"] by (simp add: joint_scope_def)

lemma ex_less_split: "(\<exists>j < i. P j) \<longleftrightarrow> (0 < i \<and> P (i - 1)) \<or> (\<exists>j. Suc j < i \<and> P j)"
  by (cases i) (auto simp: Ex_less_Suc)

lemma repeat_split:
  "(\<exists>j < i. segment_semantic_equal (segs ! j) (segs ! i) (pf_payload_width p)) \<longleftrightarrow>
   adjacent_repeat p segs i \<or> distant_repeat p segs i"
  unfolding adjacent_repeat_def distant_repeat_def by (rule ex_less_split)

lemma library_repeat_tags:
  assumes "joint_scope p l segs"
  shows "(\<Union>x \<in> set (scan_pairs (scanned l segs)). library_tags (profile_repeat_reasons p segs x)) =
    (\<lambda>i. (177, i)) ` {i. i < scanned l segs \<and> (adjacent_repeat p segs i \<or> distant_repeat p segs i)}"
    (is "?L = ?R")
proof -
  have "library_tags (profile_repeat_reasons p segs (j, i)) =
      (if segment_semantic_equal (segs ! j) (segs ! i) (pf_payload_width p) then {(177, i)} else {})"
    if "j < i" "i < scanned l segs" for j i
    using pair_forbidden [OF assms that] scanned_index [OF assms that(2)]
    by (cases "segment_semantic_equal (segs ! j) (segs ! i) (pf_payload_width p)")
      (auto simp: profile_repeat_reasons_def spec_code_def split: if_splits)
  then have "?L = {(177, i) | i. i < scanned l segs \<and>
      (\<exists>j < i. segment_semantic_equal (segs ! j) (segs ! i) (pf_payload_width p))}"
    by (fastforce simp: scan_pairs_set split: if_splits)
  then show ?thesis by (auto simp: repeat_split)
qed

lemma library_duplicate_tags:
  assumes "joint_scope p l segs"
  shows "(\<Union>x \<in> set (scan_pairs (scanned l segs)). library_tags (duplicate_reasons
      (\<not> pf_allow_consecutive_repeats p) (\<not> pf_allow_nonconsecutive_repeats p)
      (pf_payload_width p) segs x)) =
    (\<lambda>i. (264, i)) ` {i. i < scanned l segs \<and> adjacent_repeat p segs i} \<union>
    (\<lambda>i. (265, i)) ` {i. i < scanned l segs \<and> distant_repeat p segs i}" (is "?L = ?R")
proof -
  let ?eq = "\<lambda>j i. segment_semantic_equal (segs ! j) (segs ! i) (pf_payload_width p)"
  have "library_tags (duplicate_reasons (\<not> pf_allow_consecutive_repeats p)
      (\<not> pf_allow_nonconsecutive_repeats p) (pf_payload_width p) segs (j, i)) =
      (if ?eq j i then {(if j + 1 = i then 264 else 265, i)} else {})"
    if "j < i" "i < scanned l segs" for j i
    using pair_forbidden [OF assms that] scanned_index [OF assms that(2)]
    by (cases "?eq j i") (auto simp: duplicate_reasons_def spec_code_def split: if_splits)
  then have "?L = {(if j + 1 = i then 264 else 265, i) | j i. j < i \<and> i < scanned l segs \<and> ?eq j i}"
    by (fastforce simp: scan_pairs_set split: if_splits)
  also have "\<dots> = ?R"
  proof (intro equalityI subsetI)
    fix x assume "x \<in> ?R"
    then consider i where "x = (264, i)" "i < scanned l segs" "0 < i" "?eq (i - 1) i"
      | i j where "x = (265, i)" "i < scanned l segs" "Suc j < i" "?eq j i"
      by (auto simp: adjacent_repeat_def distant_repeat_def)
    then show "x \<in> {(if j + 1 = i then 264 else 265, i) | j i.
        j < i \<and> i < scanned l segs \<and> ?eq j i}"
    proof cases
      case (1 i)
      then show ?thesis by (intro CollectI exI [of _ "i - 1"] exI [of _ i]) simp
    next
      case (2 i j)
      then show ?thesis by (intro CollectI exI [of _ j] exI [of _ i]) simp
    qed
  next
    fix x :: "nat \<times> nat"
    assume "x \<in> {(if j + 1 = i then 264 else 265, i) | j i.
        j < i \<and> i < scanned l segs \<and> ?eq j i}"
    then obtain j i where x: "x = (if j + 1 = i then 264 else 265, i)" "j < i"
      "i < scanned l segs" "?eq j i" by blast
    then show "x \<in> ?R"
      by (cases "Suc j = i") (auto simp: adjacent_repeat_def distant_repeat_def image_iff
        intro: Suc_lessI)
  qed
  finally show ?thesis .
qed

lemma profile_tags_agree:
  assumes "joint_scope p l segs"
  defines "sc \<equiv> oracle_scenario p l segs"
  shows "library_tags (check_profile (query_request p l segs)) =
    oracle_tags (oracle_profile sc (scan_facts sc (canonicalize sc)))"
proof -
  let ?n = "scanned l segs" and ?facts = "scan_facts sc (canonicalize sc)"
  have scope: "(ucast (pf_payload_width p) :: u64) \<noteq> 0" "valid (pf_generation p)"
    "\<not> (segs = [] \<and> \<not> pf_allow_empty p)" "\<not> (\<not> pf_allow_empty p \<and> segs = [])"
    using assms(1) by (auto simp: joint_scope_def word_unat_eq_iff)
  let ?rep = "\<lambda>i. adjacent_repeat p segs i \<or> distant_repeat p segs i"
  have seg: "oracle_tags (oracle_profile_segment sc ?facts i) =
      library_tags (profile_segment_reasons p i (segs ! i)) \<union> (if ?rep i then {(177, i)} else {})"
    if "i < ?n" for i
    using scanned_index [OF assms(1) that] oracle_facts [OF assms(1) that]
      adjacent_forbidden [OF assms(1) that] distant_forbidden [OF assms(1) that]
    by (auto simp: oracle_profile_segment_def profile_segment_reasons_def sc_def spec_code_def)
  have "(\<Union>i < ?n. oracle_tags (oracle_profile_segment sc ?facts i)) =
      (\<Union>i < ?n. library_tags (profile_segment_reasons p i (segs ! i))) \<union>
      (\<lambda>i. (177, i)) ` {i. i < ?n \<and> ?rep i}"
    using seg by (auto split: if_splits)
  then have "oracle_tags (oracle_profile sc ?facts) =
      (if length segs > unat (pf_max_depth p) then {(176, 0)} else {}) \<union>
      (\<Union>i < ?n. library_tags (profile_segment_reasons p i (segs ! i))) \<union>
      (\<lambda>i. (177, i)) ` {i. i < ?n \<and> ?rep i}"
    by (simp add: scope oracle_profile_def sc_def lessThan_atLeast0 Un_assoc)
  moreover have "library_tags (check_profile (query_request p l segs)) =
      (if length segs > unat (pf_max_depth p) then {(176, 0)} else {}) \<union>
      (\<Union>i < ?n. library_tags (profile_segment_reasons p i (segs ! i))) \<union>
      (\<lambda>i. (177, i)) ` {i. i < ?n \<and> ?rep i}"
  proof -
    have none: "{i. i < ?n \<and> ?rep i} = {}"
      if "pf_allow_consecutive_repeats p" "pf_allow_nonconsecutive_repeats p"
      using that adjacent_forbidden [OF assms(1)] distant_forbidden [OF assms(1)] by auto
    show ?thesis
      by (cases "pf_allow_consecutive_repeats p \<and> pf_allow_nonconsecutive_repeats p")
        (simp_all add: none check_profile_def Let_def spec_code_def lessThan_atLeast0 Un_assoc scope
          library_repeat_tags [OF assms(1)])
  qed
  ultimately show ?thesis by simp
qed

lemma required_missing_iff: "required_missing (oracle_segment s) = binding_incomplete s"
  by (cases "seg_kind s") (simp_all add: required_missing_def binding_incomplete_def kUses_defs valid_def)

lemma reserved_set_iff:
  "seg_kind s \<noteq> SK_Invalid \<Longrightarrow> reserved_set (oracle_segment s) = reserved_field_set s"
  by (cases "seg_kind s") (simp_all add: reserved_set_def reserved_field_set_def kUses_defs valid_def, blast+)

lemma entity_bound_not_zero:
  "entity_bound s \<Longrightarrow> seg_kind s \<noteq> SK_Invalid \<Longrightarrow> \<not> all_zero (oracle_segment s)"
  by (auto simp: entity_bound_def all_zero_def valid_def)

lemma structural_tags_agree:
  assumes "joint_scope p l segs"
  defines "sc \<equiv> oracle_scenario p l segs"
  shows "library_tags (check_structural (query_request p l segs) (pf_payload_width p)) =
    oracle_tags (oracle_structural sc (canonicalize sc) (scan_facts sc (canonicalize sc)))"
proof -
  let ?n = "scanned l segs" and ?canon = "canonicalize sc"
  let ?facts = "scan_facts sc ?canon"
  have seg: "oracle_tags (oracle_structural_segment sc ?canon ?facts i) =
      library_tags (structural_segment_reasons None i (segs ! i)) \<union>
      (if adjacent_repeat p segs i then {(264, i)} else {}) \<union>
      (if distant_repeat p segs i then {(265, i)} else {})" if "i < ?n" for i
  proof -
    have i: "i < length segs" "i < 2 ^ 32" using scanned_index [OF assms(1) that] by simp_all
    have enc: "cs_enc (?canon ! i) = of_nat (encoding_value (effective_encoding (segs ! i)))"
      using i by (simp add: sc_def canonicalize_def canonicalize_one_def effective_encoding_def)
    have inj: "(of_nat (encoding_value e) :: u16) = of_nat (encoding_value e') \<longleftrightarrow> e = e'" for e e'
      using encoding_u16_inj [of e e'] by (simp add: encoding_u16_def)
    have bound: "entity_bound (segs ! i)" using joint_scope_payload [OF assms(1) i(1)] by simp
    have seg: "sc_segments sc ! i = oracle_segment (segs ! i)" using i by (simp add: sc_def)
    note facts = oracle_facts [OF assms(1) that, folded sc_def]
    show ?thesis
    proof (cases "seg_kind (segs ! i) = SK_Invalid")
      case True
      then show ?thesis using i
        by (simp add: oracle_structural_segment_def structural_segment_reasons_def seg facts
            spec_code_def)
    next
      case False
      let ?s = "segs ! i"
      have missing: "\<not> (\<not> valid (seg_node ?s) \<and> \<not> valid (seg_adjacency ?s) \<and>
          \<not> valid (seg_endpoint ?s) \<and> \<not> valid (seg_binding ?s) \<and> \<not> valid (seg_policy ?s))"
        using bound False by (simp add: entity_bound_def)
      have mismatch: "effective_encoding ?s \<noteq> expected_encoding_for (seg_kind ?s) \<longleftrightarrow>
          seg_encoding ?s \<noteq> SE_Invalid \<and> seg_encoding ?s \<noteq> expected_encoding_for (seg_kind ?s)"
        by (auto simp: effective_encoding_def)
      have zero: "seg_id ?s = 0 \<longleftrightarrow> \<not> valid (seg_id ?s)"
        "seg_generation ?s = 0 \<longleftrightarrow> \<not> valid (seg_generation ?s)"
        by (simp_all add: valid_def)
      show ?thesis
        using i False entity_bound_not_zero [OF bound False]
        unfolding oracle_structural_segment_def structural_segment_reasons_def seg Let_def
        by (simp add: facts spec_code_def required_missing_iff reserved_set_iff enc inj
            missing mismatch zero Un_assoc cong: if_cong split del: if_split)
    qed
  qed
  have "(\<Union>i < ?n. oracle_tags (oracle_structural_segment sc ?canon ?facts i)) =
      (\<Union>i < ?n. library_tags (structural_segment_reasons None i (segs ! i))) \<union>
      (\<lambda>i. (264, i)) ` {i. i < ?n \<and> adjacent_repeat p segs i} \<union>
      (\<lambda>i. (265, i)) ` {i. i < ?n \<and> distant_repeat p segs i}"
    using seg by (auto split: if_splits)
  then show ?thesis
    using library_duplicate_tags [OF assms(1)]
    by (simp add: check_structural_def oracle_structural_def Let_def sc_def lessThan_atLeast0 Un_assoc)
qed

lemma evidence_tags_agree:
  assumes "joint_scope p l segs"
  defines "sc \<equiv> oracle_scenario p l segs"
  shows "library_tags (check_capability (query_request p l segs)) = oracle_tags (oracle_capability sc)"
    and "library_tags (check_topology (query_request p l segs)) = oracle_tags (oracle_topology sc)"
    and "library_tags (check_resource_limits (query_request p l segs)) =
      oracle_tags (oracle_limits sc)"
    and "check_list_content_lifecycle (query_request p l segs) = []"
proof -
  have "(of_nat (length (pf_required_capabilities p)) :: u64) = 0 \<longleftrightarrow> pf_required_capabilities p = []"
    using assms(1) by (simp add: joint_scope_def word_unat_eq_iff unat_of_nat)
  then show "library_tags (check_capability (query_request p l segs)) =
      oracle_tags (oracle_capability sc)"
    by (auto simp: check_capability_def oracle_capability_def sc_def spec_code_def word_neq_0_conv)
  have "list_ex (\<lambda>s. seg_kind s = SK_Adjacency) segs \<longleftrightarrow>
      list_ex (\<lambda>s. seg_kind s = SK_Adjacency) (take (scanned l segs) segs)"
  proof -
    have "list_ex P segs \<longleftrightarrow> list_ex P (take (scanned l segs) segs) \<or> list_ex P (drop (scanned l segs) segs)" for P
      by (metis append_take_drop_id list_ex_append)
    then show ?thesis using assms(1) by (auto simp: joint_scope_def list_all_iff list_ex_iff)
  qed
  then show "library_tags (check_topology (query_request p l segs)) = oracle_tags (oracle_topology sc)"
    by (auto simp: check_topology_def oracle_topology_def sc_def spec_code_def take_map list_ex_iff)
  have "i < length segs \<Longrightarrow> i < 2 ^ 32" for i using assms(1) by (simp add: joint_scope_def)
  then show "library_tags (check_resource_limits (query_request p l segs)) =
      oracle_tags (oracle_limits sc)"
    by (auto simp: check_resource_limits_def oracle_limits_def sc_def spec_code_def split: if_splits)
  show "check_list_content_lifecycle (query_request p l segs) = []"
    using assms(1) by (auto simp: check_list_content_lifecycle_def joint_scope_def)
qed

lemma tags_agree:
  assumes "joint_scope p l segs"
  shows "library_tags (library_reasons p l segs) =
    oracle_tags (raw_reasons (oracle_scenario p l segs) (canonicalize (oracle_scenario p l segs)))"
  using profile_tags_agree [OF assms] structural_tags_agree [OF assms] evidence_tags_agree [OF assms]
  by (simp add: library_reasons_def raw_reasons_def Let_def)

section \<open>The order agrees\<close>

text \<open>The codes of the evidence-free phases.\<close>

definition sequence_codes :: "ReasonCode list" where
  "sequence_codes = [RC_ProfileKindNotAllowed, RC_ProfilePayloadWidthExceeded,
     RC_ProfileMaxDepthExceeded, RC_ProfileRepeatNotPermitted, RC_ProfileEmptyNotPermitted,
     RC_ProfileKindMismatch, RC_SegmentKindInvalid, RC_SegmentIdInvalid,
     RC_SegmentGenerationInvalid, RC_SegmentReservedFieldSet, RC_SegmentMissingBinding,
     RC_SegmentBindingIncomplete, RC_SegmentEncodingMismatch, RC_SegmentDuplicateConsecutive,
     RC_SegmentDuplicateNonConsecutive, RC_CapabilityEvidenceUnavailable,
     RC_TopologyEvidenceUnavailable, RC_LimitMaxSegmentsPerList,
     RC_LimitMaxSegmentPayloadBytes]"

text \<open>The phase number of a code of the oracle's table.\<close>

definition spec_phase :: "nat \<Rightarrow> nat" where
  "spec_phase c = (if c < 250 then 5 else if c < 290 then 7 else if c < 320 then 8
     else if c < 420 then 9 else 13)"

lemma spec_phase_mono: "c \<le> d \<Longrightarrow> spec_phase c \<le> spec_phase d"
  by (simp add: spec_phase_def)

lemma sequence_codes_phase:
  "c \<in> set sequence_codes \<Longrightarrow> phase_value (phase_of c) = spec_phase (spec_code c)"
  by (auto simp: sequence_codes_def spec_code_def spec_phase_def)

lemma sorted_map_less:
  fixes f :: "'a::linorder \<Rightarrow> 'b::linorder"
  assumes "sorted_wrt (<) xs" and "sorted_wrt (<) (map f xs)" and "c \<in> set xs" and "d \<in> set xs"
    and "c < d"
  shows "f c < f d"
  using assms by (induction xs) auto

lemma sequence_codes_mono:
  assumes "c \<in> set sequence_codes" and "d \<in> set sequence_codes" and "c < d"
  shows "spec_code c < spec_code d"
proof (rule sorted_map_less [OF _ _ assms])
  show "sorted_wrt (<) sequence_codes" by (simp add: sequence_codes_def)
  show "sorted_wrt (<) (map spec_code sequence_codes)"
    by (simp add: sequence_codes_def spec_code_def)
qed

text \<open>In each implementation code and index determine the detail.\<close>

definition library_detail :: "SegmentProfile \<Rightarrow> Limits \<Rightarrow> Segment list \<Rightarrow> Reason \<Rightarrow> u64" where
  "library_detail p l segs r =
     (let s = segs ! unat (rs_index r); c = rs_code r in
      if c = RC_ProfileKindNotAllowed \<or> c = RC_ProfileKindMismatch then kind_u64 (seg_kind s)
      else if c = RC_ProfilePayloadWidthExceeded then ucast (pf_payload_width p)
      else if c = RC_ProfileMaxDepthExceeded then ucast (pf_max_depth p)
      else if c = RC_SegmentEncodingMismatch then of_nat (encoding_value (seg_encoding s))
      else if c \<in> {RC_ProfileRepeatNotPermitted, RC_SegmentDuplicateConsecutive,
                   RC_SegmentDuplicateNonConsecutive} then seg_id s
      else if c = RC_LimitMaxSegmentsPerList then ucast (max_segments_per_list l)
      else if c = RC_LimitMaxSegmentPayloadBytes then ucast (max_segment_payload_bytes l)
      else 0)"

definition library_shape :: "SegmentProfile \<Rightarrow> Limits \<Rightarrow> Segment list \<Rightarrow> Reason list \<Rightarrow> bool" where
  "library_shape p l segs rs \<longleftrightarrow>
     (\<forall>r \<in> set rs. rs_code r \<in> set sequence_codes \<and> rs_detail r = library_detail p l segs r)"

lemma library_shape_simps [simp]:
  "library_shape p l segs []"
  "library_shape p l segs (xs @ ys) \<longleftrightarrow> library_shape p l segs xs \<and> library_shape p l segs ys"
  "library_shape p l segs (concat (map f zs)) \<longleftrightarrow> (\<forall>z \<in> set zs. library_shape p l segs (f z))"
  "library_shape p l segs (emit b c i d) \<longleftrightarrow>
     (b \<longrightarrow> c \<in> set sequence_codes \<and> d = library_detail p l segs (reason c i d))"
  "library_shape p l segs [reason c i d] \<longleftrightarrow>
     c \<in> set sequence_codes \<and> d = library_detail p l segs (reason c i d)"
  by (auto simp: library_shape_def emit_def)

lemma library_reasons_shape:
  assumes "joint_scope p l segs"
  shows "library_shape p l segs (library_reasons p l segs)"
proof -
  let ?r = "query_request p l segs"
  note shape_defs = sequence_codes_def library_detail_def Let_def
  have small: "i < 2 ^ 32" if "i < length segs" for i using assms that by (simp add: joint_scope_def)
  have scan: "i < 2 ^ 32" if "i < scanned l segs" for i using scanned_index [OF assms that] by simp
  have "library_shape p l segs (check_profile ?r)"
    using assms scan
    by (simp add: check_profile_def joint_scope_def profile_segment_reasons_def
        profile_repeat_reasons_def scan_pairs_set shape_defs split: prod.split)
  moreover have "library_shape p l segs (check_structural ?r (pf_payload_width p))"
    using scan
    by (simp add: check_structural_def structural_segment_reasons_def duplicate_reasons_def
        scan_pairs_set shape_defs split: prod.split)
  moreover have "library_shape p l segs (check_capability ?r)" "library_shape p l segs (check_topology ?r)"
    by (simp_all add: check_capability_def check_topology_def shape_defs)
  moreover have "library_shape p l segs (check_resource_limits ?r)"
    using small by (simp add: check_resource_limits_def shape_defs)
  ultimately show ?thesis
    using evidence_tags_agree(4) [OF assms] by (simp add: library_reasons_def Let_def)
qed

definition oracle_detail :: "Scenario \<Rightarrow> u32 \<Rightarrow> nat \<Rightarrow> u64" where
  "oracle_detail sc c i =
     (let s = sc_segments sc ! i in
      if c = 174 then of_nat (kindCode (os_kind s)) else if c = 175 then sc_width sc
      else if c = 176 then sc_depth sc
      else if c = 259 then ucast (cs_enc (canonicalize sc ! i))
      else if c = 264 \<or> c = 265 then os_id s else if c = 421 then sc_maxseg sc
      else if c = 422 then sc_maxpayload sc else 0)"

definition oracle_shape :: "Scenario \<Rightarrow> OracleReason list \<Rightarrow> bool" where
  "oracle_shape sc rs \<longleftrightarrow> (\<forall>r \<in> set rs. unat (or_phase r) = spec_phase (unat (or_code r)) \<and>
     or_detail r = oracle_detail sc (or_code r) (unat (or_index r)))"

lemma oracle_shape_simps [simp]:
  "oracle_shape sc []"
  "oracle_shape sc (xs @ ys) \<longleftrightarrow> oracle_shape sc xs \<and> oracle_shape sc ys"
  "oracle_shape sc (concat (map f zs)) \<longleftrightarrow> (\<forall>z \<in> set zs. oracle_shape sc (f z))"
  "oracle_shape sc (oracle_emit b ph c i d) \<longleftrightarrow>
     (b \<longrightarrow> unat ph = spec_phase (unat c) \<and> d = oracle_detail sc c (unat (of_nat i :: u64)))"
  by (auto simp: oracle_shape_def oracle_emit_def)

lemma raw_reasons_shape:
  assumes "length (sc_segments sc) < 2 ^ 64"
  shows "oracle_shape sc (raw_reasons sc (canonicalize sc))"
proof -
  have "i < 2 ^ 64" if "i < length (sc_segments sc)" for i using assms that by simp
  then have u: "unat (of_nat i :: u64) = i" if "i < length (sc_segments sc)" for i
    using that by (simp add: unat_of_nat)
  have "scannedCount sc \<le> length (sc_segments sc)" by (simp add: scannedCount_def Let_def)
  then have v: "unat (of_nat i :: u64) = i" if "i < scannedCount sc" for i using u that by simp
  show ?thesis
    by (simp add: raw_reasons_def oracle_profile_def oracle_profile_segment_def
        oracle_structural_def oracle_structural_segment_def oracle_capability_def
        oracle_topology_def oracle_limits_def Let_def spec_phase_def oracle_detail_def u v)
qed

text \<open>Both lists are strictly ordered by tag.\<close>

lemma unique_by_shape:
  assumes "oracle_shape sc rs"
  shows "unique_by same_triple rs = remdups_adj rs"
  using assms
proof (induction rs rule: remdups_adj.induct)
  case (3 x y zs)
  have "same_triple x y \<longleftrightarrow> x = y"
    using "3.prems" by (cases x; cases y) (auto simp: oracle_shape_def same_triple_def word_unat_eq_iff)
  then show ?case using 3 by (auto simp: oracle_shape_def)
qed simp_all

lemma less_key_tag:
  assumes "spec_phase c \<le> spec_phase d" and "spec_phase c = spec_phase d \<longrightarrow> c < d \<or> c = d \<and> i < (j :: nat)"
  shows "(c, i) < (d, j)"
  using assms spec_phase_mono [of d c] by (auto simp: less_prod_simp not_less)

lemma library_result_tags_sorted:
  assumes "library_shape p l segs (vr_reasons v)" and "sorted_wrt reason_before (vr_reasons v)"
  shows "sorted_wrt (<) (map library_tag (vr_reasons v))"
proof -
  have "library_tag a < library_tag b"
    if "a \<in> set (vr_reasons v)" "b \<in> set (vr_reasons v)" "reason_before a b" for a b
  proof -
    have codes: "rs_code a \<in> set sequence_codes" "rs_code b \<in> set sequence_codes"
      using assms(1) that by (auto simp: library_shape_def)
    have details: "rs_detail a = library_detail p l segs a" "rs_detail b = library_detail p l segs b"
      using assms(1) that by (auto simp: library_shape_def)
    have same: "rs_detail a = rs_detail b" if "rs_code a = rs_code b" "rs_index a = rs_index b"
      using that details by (simp add: library_detail_def)
    have key: "phase_value (phase_of (rs_code a)) < phase_value (phase_of (rs_code b)) \<or>
        phase_of (rs_code a) = phase_of (rs_code b) \<and>
        (rs_code a < rs_code b \<or> rs_code a = rs_code b \<and> rs_index a < rs_index b)"
      using \<open>reason_before a b\<close> same
      by (auto simp: reason_before_def reason_less_def Let_def less_ValidationPhase_def split: if_splits)
    show ?thesis
      unfolding library_tag_def
      using key sequence_codes_phase [OF codes(1)] sequence_codes_phase [OF codes(2)]
        sequence_codes_mono [OF codes]
      by (intro less_key_tag) (auto simp: word_less_nat_alt)
  qed
  then show ?thesis
    using assms(2) by (auto simp: sorted_wrt_map elim: sorted_wrt_mono_rel [rotated])
qed

lemma oracle_check_tags_sorted:
  assumes "length (sc_segments sc) < 2 ^ 64"
  defines "rs \<equiv> oracle_check sc (canonicalize sc)"
  shows "sorted_wrt (<) (map oracle_tag rs)" and "set rs = set (raw_reasons sc (canonicalize sc))"
proof -
  let ?raw = "raw_reasons sc (canonicalize sc)" and ?sorted = "sort_key oracle_key (raw_reasons sc (canonicalize sc))"
  have shape: "oracle_shape sc ?sorted"
    using raw_reasons_shape [OF assms(1)] by (simp add: oracle_shape_def)
  then have rs: "rs = remdups_adj ?sorted"
    by (simp add: rs_def oracle_check_def unique_by_shape)
  then show "set rs = set ?raw" by simp
  have "inj oracle_key" by (auto simp: inj_def oracle_key_def)
  then have "sorted (map oracle_key rs)" "distinct rs"
    by (simp_all add: rs sorted_remdups_adj sorted_distinct_adj [where f = oracle_key])
  then have before: "sorted_wrt (\<lambda>a b. oracle_key a < oracle_key b) rs"
    using \<open>inj oracle_key\<close>
    by (simp add: strict_sorted_iff distinct_map inj_on_def inj_def flip: sorted_wrt_map)
  have "oracle_tag a < oracle_tag b"
    if "a \<in> set rs" "b \<in> set rs" "oracle_key a < oracle_key b" for a b
  proof -
    have phase: "unat (or_phase a) = spec_phase (unat (or_code a))"
      "unat (or_phase b) = spec_phase (unat (or_code b))"
      and detail: "or_detail a = oracle_detail sc (or_code a) (unat (or_index a))"
        "or_detail b = oracle_detail sc (or_code b) (unat (or_index b))"
      using shape that by (auto simp: rs oracle_shape_def)
    have "or_phase a < or_phase b \<or> or_phase a = or_phase b \<and>
        (or_code a < or_code b \<or> or_code a = or_code b \<and> or_index a < or_index b)"
      using \<open>oracle_key a < oracle_key b\<close> detail
      by (auto simp: oracle_key_def less_prod_simp order_le_less)
    then show ?thesis
      unfolding oracle_tag_def using phase
      by (intro less_key_tag) (auto simp: word_less_nat_alt)
  qed
  then show "sorted_wrt (<) (map oracle_tag rs)"
    using before by (auto simp: sorted_wrt_map elim: sorted_wrt_mono_rel [rotated])
qed

section \<open>Agreement\<close>

lemma reason_name_all: "list_all (\<lambda>e. reason_code_name (cn_code e) = cn_name e) kCodes"
  by (simp add: list_all_iff reason_code_name_def code_lookup_def find_key_distinct [OF kCodes_distinct])

lemmas reason_name_table =
  reason_name_all [unfolded kCodes_def list.pred_inject code_entry_def CodeName.select_convs]

lemma sequence_codes_named:
  assumes "c \<in> set sequence_codes"
  shows "reason_code_name c = reasonName (of_nat (spec_code c))"
proof -
  have "list_all (\<lambda>c. reason_code_name c = reasonName (of_nat (spec_code c))) sequence_codes"
    by (simp add: sequence_codes_def spec_code_def reasonName_def kReasonNames_def reason_name_table)
  then show ?thesis using assms by (simp add: list_all_iff)
qed

text \<open>With room for every reason the result of the library lists exactly its reasons.\<close>

lemma validated_reasons:
  assumes "joint_scope p l segs"
    and "card (set (library_reasons p l segs)) < unat (max_reasons l)"
  shows "set (vr_reasons (validate_segment_sequence (sequence_query p l segs))) =
      set (library_reasons p l segs)"
    and "sorted_wrt reason_before (vr_reasons (validate_segment_sequence (sequence_query p l segs)))"
proof -
  let ?v = "set_limits (Some l) vr_success"
  have "\<forall>r \<in> set (library_reasons p l segs). rs_code r \<noteq> RC_Ok"
    using library_reasons_shape [OF assms(1)] by (auto simp: library_shape_def sequence_codes_def)
  moreover have "vr_reasons ?v = []" "vr_cap ?v = unat (max_reasons l)" by (simp_all add: vr_defs)
  ultimately show "set (vr_reasons (validate_segment_sequence (sequence_query p l segs))) =
      set (library_reasons p l segs)"
    using vr_add_all_room [of ?v "library_reasons p l segs"] assms(2)
    by (simp add: validate_library_reasons)
  show "sorted_wrt reason_before (vr_reasons (validate_segment_sequence (sequence_query p l segs)))"
    using vr_wf_add_all [of ?v "library_reasons p l segs"]
    by (simp add: validate_library_reasons vr_wf_def)
qed

lemma library_tag_inj:
  assumes "joint_scope p l segs"
  shows "inj_on library_tag (set (library_reasons p l segs))"
proof (rule inj_onI)
  fix a b assume *: "a \<in> set (library_reasons p l segs)" "b \<in> set (library_reasons p l segs)"
    "library_tag a = library_tag b"
  have shape: "rs_code r \<in> set sequence_codes \<and> rs_detail r = library_detail p l segs r"
    if "r \<in> set (library_reasons p l segs)" for r
    using library_reasons_shape [OF assms] that by (simp add: library_shape_def)
  have "rs_code a = rs_code b"
    using shape [OF *(1)] shape [OF *(2)] *(3) sequence_codes_mono [of "rs_code a" "rs_code b"]
      sequence_codes_mono [of "rs_code b" "rs_code a"]
    by (cases "rs_code a" "rs_code b" rule: linorder_cases) (simp_all add: library_tag_def)
  moreover have "rs_index a = rs_index b" using *(3) by (simp add: library_tag_def word_unat_eq_iff)
  ultimately show "a = b"
    using shape [OF *(1)] shape [OF *(2)] by (cases a; cases b) (simp add: library_detail_def)
qed

lemma library_reasons_room:
  assumes "joint_scope p l segs"
    and "length (oracle_check (oracle_scenario p l segs) (canonicalize (oracle_scenario p l segs)))
         < unat (max_reasons l)"
  shows "card (set (library_reasons p l segs)) < unat (max_reasons l)"
proof -
  let ?sc = "oracle_scenario p l segs"
  let ?os = "oracle_check ?sc (canonicalize ?sc)"
  have "length (sc_segments ?sc) < 2 ^ 64" using assms(1) by (simp add: joint_scope_def)
  note orc = oracle_check_tags_sorted [OF this]
  have "library_tag ` set (library_reasons p l segs) = oracle_tag ` set ?os"
    using tags_agree [OF assms(1)] orc(2) by (simp add: library_tags_def oracle_tags_def)
  then have "card (set (library_reasons p l segs)) = card (oracle_tag ` set ?os)"
    using card_image [OF library_tag_inj [OF assms(1)]] by simp
  also have "\<dots> \<le> length ?os"
    using card_image_le [of "set ?os" oracle_tag] card_length [of ?os] by simp
  finally show ?thesis using assms(2) by simp
qed

lemma tag_lists_agree:
  assumes "joint_scope p l segs"
    and "length (oracle_check (oracle_scenario p l segs) (canonicalize (oracle_scenario p l segs)))
         < unat (max_reasons l)"
  shows "map library_tag (vr_reasons (validate_segment_sequence (sequence_query p l segs))) =
    map oracle_tag (oracle_check (oracle_scenario p l segs)
      (canonicalize (oracle_scenario p l segs)))"
proof -
  let ?sc = "oracle_scenario p l segs"
  let ?os = "oracle_check ?sc (canonicalize ?sc)"
  have "length (sc_segments ?sc) < 2 ^ 64" using assms(1) by (simp add: joint_scope_def)
  note orc = oracle_check_tags_sorted [OF this]
  have tags: "library_tag ` set (library_reasons p l segs) = oracle_tag ` set ?os"
    using tags_agree [OF assms(1)] orc(2) by (simp add: library_tags_def oracle_tags_def)
  note lib = validated_reasons [OF assms(1) library_reasons_room [OF assms]]
  have "library_shape p l segs (vr_reasons (validate_segment_sequence (sequence_query p l segs)))"
    using library_reasons_shape [OF assms(1)] by (simp add: library_shape_def lib(1))
  then have "sorted_wrt (<) (map library_tag (vr_reasons
      (validate_segment_sequence (sequence_query p l segs))))"
    using lib(2) by (rule library_result_tags_sorted)
  then show ?thesis
    using orc(1) tags lib(1) by (intro strict_sorted_equal) simp_all
qed

lemma reason_names_agree:
  assumes "joint_scope p l segs"
    and "length (oracle_check (oracle_scenario p l segs) (canonicalize (oracle_scenario p l segs)))
         < unat (max_reasons l)"
  shows "map (reason_code_name \<circ> rs_code)
      (vr_reasons (validate_segment_sequence (sequence_query p l segs))) =
    map (reasonName \<circ> or_code) (oracle_check (oracle_scenario p l segs)
      (canonicalize (oracle_scenario p l segs)))" (is "map _ ?L = map _ ?O")
proof -
  let ?name = "\<lambda>t. reasonName (of_nat (fst t))"
  have codes: "rs_code r \<in> set sequence_codes" if "r \<in> set ?L" for r
  proof -
    have "card (set (library_reasons p l segs)) < unat (max_reasons l)"
      by (rule library_reasons_room [OF assms])
    from validated_reasons(1) [OF assms(1) this] show ?thesis
      using that library_reasons_shape [OF assms(1)] by (simp add: library_shape_def)
  qed
  have "map (reason_code_name \<circ> rs_code) ?L = map ?name (map library_tag ?L)"
    using codes by (simp add: library_tag_def sequence_codes_named)
  also have "\<dots> = map ?name (map oracle_tag ?O)" by (simp only: tag_lists_agree [OF assms])
  also have "\<dots> = map (reasonName \<circ> or_code) ?O" by (simp add: oracle_tag_def)
  finally show ?thesis .
qed

text \<open>The answer of the library, printed the way the cross-check compares it.\<close>

definition library_answer :: "SegmentProfile \<Rightarrow> Limits \<Rightarrow> Segment list \<Rightarrow> string" where
  "library_answer p l segs =
     (let result = validate_segment_sequence (sequence_query p l segs);
          canonical = canonicalize_segments segs;
          bytes = canonical_sequence_bytes canonical (pf_payload_width p) in
      ''valid='' @ (if vr_ok result then ''1'' else ''0'') @ [CHR 0x0A] @
      ''primary='' @ primary_name result @ [CHR 0x0A] @
      ''reasons='' @ join_names (map (reason_code_name \<circ> rs_code) (vr_reasons result)) @ [CHR 0x0A] @
      ''bytes='' @ toHex bytes @ [CHR 0x0A] @
      ''digest='' @ digest_hex (sequence_digest canonical (pf_payload_width p)) @ [CHR 0x0A])"

lemma result_block_agrees:
  assumes "joint_scope p l segs"
    and "length (oracle_check (oracle_scenario p l segs) (canonicalize (oracle_scenario p l segs)))
         < unat (max_reasons l)"
  shows "result_block (oracle_check (oracle_scenario p l segs) (canonicalize (oracle_scenario p l segs)))
      (canonical_sequence_bytes (canonicalize_segments segs) (pf_payload_width p))
      (oracle_digest128 (canonical_sequence_bytes (canonicalize_segments segs) (pf_payload_width p)))
    = library_answer p l segs"
proof -
  let ?L = "vr_reasons (validate_segment_sequence (sequence_query p l segs))"
  let ?O = "oracle_check (oracle_scenario p l segs) (canonicalize (oracle_scenario p l segs))"
  note names = reason_names_agree [OF assms]
  then have empty: "?L = [] \<longleftrightarrow> ?O = []" by (metis map_is_Nil_conv)
  have primary: "primary_name (validate_segment_sequence (sequence_query p l segs)) =
      (if ?O = [] then ''Ok'' else reasonName (or_code (hd ?O)))"
    using names empty by (cases ?L; cases ?O) (auto simp: primary_name_def)
  show ?thesis
    by (simp add: result_block_def library_answer_def Let_def oracle_digest
        oracle_digest_hex [unfolded append_assoc] sequence_digest_def vr_ok_def empty primary names
        flip: oracle_digest_hex)
qed

end
