(* ===== verification/OracleGuarantees.thy ===== *)
theory OracleGuarantees
  imports OracleReasons
begin

text \<open>
  What the cross-check of the library against its independent oracle establishes for every
  scenario of the joint scope instead of a random corpus: the two programs print the same answer,
  and the spelling of the encodings does not influence validation.
\<close>

section \<open>Sizes\<close>

text \<open>The canonical bytes fit the output bound of the oracle.\<close>

definition fits_output :: "SegmentProfile \<Rightarrow> Segment list \<Rightarrow> bool" where
  "fits_output p segs \<longleftrightarrow>
     encoded_size p segs \<le> 16777216 \<and> unat (pf_payload_width p) \<le> 16777216"

text \<open>What the grammar needs: some kind is allowed, and the input bounds hold.\<close>

definition printable :: "SegmentProfile \<Rightarrow> Segment list \<Rightarrow> bool" where
  "printable p segs \<longleftrightarrow>
     list_ex (allows_kind p) [SK_Node, SK_Adjacency, SK_Endpoint, SK_Binding, SK_Policy] \<and>
     length segs \<le> 262000 \<and> list_all (\<lambda>s. length (seg_payload s) \<le> 524000) segs"

lemma printable_expressible:
  assumes "printable p segs"
  shows "expressible (oracle_scenario p l segs)"
proof -
  have "bit_of b = 0 \<or> bit_of b = 1" for b by (simp add: bit_of_def)
  then show ?thesis
    using assms
    by (auto simp: printable_def expressible_def oracle_scenario_def allowed_kinds_def
        list_all_iff allows_kind_def)
qed

section \<open>One answer\<close>

text \<open>
  C18: On the joint scope the oracle and the library give the same answer. The scenario printed
  for a profile, limits and a sequence makes the oracle exit with code 0 and print the answer of
  the library: the same verdict, primary reason, ordered list of reasons, canonical bytes and
  digest. The reason budget of the library has to leave room for the reasons the oracle finds.
\<close>

theorem oracle_answers_like_library:
  assumes "joint_scope p l segs" and "printable p segs" and "fits_output p segs"
    and "length (oracle_check (oracle_scenario p l segs) (canonicalize (oracle_scenario p l segs)))
         < unat (max_reasons l)"
  shows "oracle_main False (render_scenario (oracle_scenario p l segs)) = (library_answer p l segs, 0)"
proof -
  have "oracle_run False (render_scenario (oracle_scenario p l segs)) = Inr (library_answer p l segs)"
    using readLines_render [OF printable_expressible [OF assms(2)]]
      parseScenario_lines [OF printable_expressible [OF assms(2)]]
      encodeSequence_canonical [of p segs l] assms(3) result_block_agrees [OF assms(1,4)]
    by (simp add: oracle_run_def fits_output_def Let_def)
  then show ?thesis by (simp add: oracle_main_def)
qed

definition sequence_example :: "Segment list" where
  "sequence_example = [node_segment_example 1, (node_segment_example 1)\<lparr>seg_encoding := SE_Invalid\<rparr>,
     (node_segment_example 2)\<lparr>seg_kind := SK_Adjacency\<rparr>]"

theorem oracle_answers_like_library_witness:
  "joint_scope abstract_governance_profile default_limits sequence_example \<and>
   oracle_main False
     (render_scenario (oracle_scenario abstract_governance_profile default_limits sequence_example)) =
   (library_answer abstract_governance_profile default_limits sequence_example, 0)"
proof -
  have scope: "joint_scope abstract_governance_profile default_limits sequence_example"
    by (simp add: joint_scope_def sequence_example_def node_segment_example_def
        abstract_governance_profile_def default_limits_def scanned_def entity_bound_def
        repeats_forbidden_def scan_pairs_def upt_rec segment_semantic_equal_def
        same_scalar_content_def valid_def effective_encoding_def)
  moreover have "printable abstract_governance_profile sequence_example"
    by (simp add: printable_def sequence_example_def node_segment_example_def
        abstract_governance_profile_def allows_kind_def kind_bit_def)
  moreover have "fits_output abstract_governance_profile sequence_example"
    by (simp add: fits_output_def encoded_size_def sequence_example_def abstract_governance_profile_def)
  moreover have "length (oracle_check
      (oracle_scenario abstract_governance_profile default_limits sequence_example)
      (canonicalize (oracle_scenario abstract_governance_profile default_limits sequence_example)))
      < unat (max_reasons default_limits)" by code_simp
  ultimately show ?thesis by (simp add: oracle_answers_like_library)
qed

section \<open>Spelling\<close>

lemma canonicalized_nth [simp]:
  "i < length segs \<Longrightarrow> canonicalize_segments segs ! i = canonicalize_segment (segs ! i)"
  by (simp add: canonicalize_segments_def)

lemma length_canonicalize_segments [simp]:
  "length (canonicalize_segments segs) = length segs"
  by (simp add: canonicalize_segments_def)

lemma canonicalized_Nil [simp]: "canonicalize_segments segs = [] \<longleftrightarrow> segs = []"
  by (simp add: canonicalize_segments_def)

lemma effective_canonicalized [simp]:
  "effective_encoding (canonicalize_segment s) = effective_encoding s"
  by (simp add: effective_encoding_def)

lemma semantic_equal_canonicalized [simp]:
  "segment_semantic_equal (canonicalize_segment a) (canonicalize_segment b) w =
   segment_semantic_equal a b w"
  by (simp add: segment_semantic_equal_def same_scalar_content_def)

lemma segment_reasons_canonicalized [simp]:
  "profile_segment_reasons p i (canonicalize_segment s) = profile_segment_reasons p i s"
  "structural_segment_reasons e i (canonicalize_segment s) = structural_segment_reasons e i s"
  "topology_segment_reasons f i (canonicalize_segment s) = topology_segment_reasons f i s"
proof -
  have "binding_incomplete (canonicalize_segment s) = binding_incomplete s"
    "reserved_field_set (canonicalize_segment s) = reserved_field_set s"
    "entity_reasons g i (canonicalize_segment s) = entity_reasons g i s" for g
    unfolding binding_incomplete_def reserved_field_set_def entity_reasons_def
      canonicalize_segment_frame by simp_all
  then show "profile_segment_reasons p i (canonicalize_segment s) = profile_segment_reasons p i s"
    "structural_segment_reasons e i (canonicalize_segment s) = structural_segment_reasons e i s"
    "topology_segment_reasons f i (canonicalize_segment s) = topology_segment_reasons f i s"
    by (auto simp: profile_segment_reasons_def structural_segment_reasons_def
        topology_segment_reasons_def effective_encoding_def emit_def split: option.split)
qed

lemma pair_reasons_canonicalized:
  assumes "x \<in> set (scan_pairs n)" and "n \<le> length segs"
  shows "profile_repeat_reasons p (canonicalize_segments segs) x = profile_repeat_reasons p segs x"
    and "duplicate_reasons c d w (canonicalize_segments segs) x = duplicate_reasons c d w segs x"
  using assms by (auto simp: profile_repeat_reasons_def duplicate_reasons_def scan_pairs_set)

lemma checks_canonicalized:
  fixes r :: ValidationRequest
  defines "r' \<equiv> r\<lparr>vq_segments := canonicalize_segments (vq_segments r)\<rparr>"
  shows "check_list_content_lifecycle r' = check_list_content_lifecycle r"
    and "check_profile r' = check_profile r"
    and "check_structural r' w = check_structural r w"
    and "check_capability r' = check_capability r"
    and "check_topology r' = check_topology r"
    and "check_resource_limits r' = check_resource_limits r"
proof -
  have scan: "scan_bound r' = scan_bound r" "scan_bound r \<le> length (vq_segments r)"
    by (simp_all add: r'_def scan_bound_def Let_def split: option.split)
  have segs: "concat (map (\<lambda>i. f i (canonicalize_segments (vq_segments r) ! i)) [0..<n]) =
      concat (map (\<lambda>i. f i (vq_segments r ! i)) [0..<n])"
    if "\<And>i s. f i (canonicalize_segment s) = f i s" "n \<le> length (vq_segments r)"
    for f :: "nat \<Rightarrow> Segment \<Rightarrow> Reason list" and n
    using that by (intro arg_cong [of _ _ concat] map_cong) auto
  have pairs: "concat (map (profile_repeat_reasons p (canonicalize_segments (vq_segments r)))
      (scan_pairs (scan_bound r))) = concat (map (profile_repeat_reasons p (vq_segments r))
      (scan_pairs (scan_bound r)))"
    "concat (map (duplicate_reasons c d v (canonicalize_segments (vq_segments r)))
      (scan_pairs (scan_bound r))) = concat (map (duplicate_reasons c d v (vq_segments r))
      (scan_pairs (scan_bound r)))" for p c d v
    using pair_reasons_canonicalized [OF _ scan(2)]
    by (intro arg_cong [of _ _ concat] map_cong; simp)+
  show "check_list_content_lifecycle r' = check_list_content_lifecycle r"
    by (simp add: check_list_content_lifecycle_def r'_def)
  show "check_profile r' = check_profile r"
    using scan segs [of "profile_segment_reasons p" "scan_bound r" for p] pairs(1)
    by (simp add: check_profile_def r'_def Let_def split: option.split)
  show "check_structural r' w = check_structural r w"
    using scan segs [of "structural_segment_reasons (vq_evidence r)" "scan_bound r"] pairs(2)
    by (simp add: check_structural_def r'_def Let_def split: option.split)
  show "check_capability r' = check_capability r"
    by (simp add: check_capability_def r'_def split: option.split)
  have "list_ex (\<lambda>s. seg_kind s = SK_Adjacency) (canonicalize_segments (vq_segments r)) =
      list_ex (\<lambda>s. seg_kind s = SK_Adjacency) (vq_segments r)"
    by (simp add: canonicalize_segments_def list_ex_iff)
  then show "check_topology r' = check_topology r"
    using segs [of "topology_segment_reasons e" "length (vq_segments r)" for e]
    by (simp add: check_topology_def r'_def Let_def split: option.split)
  show "check_resource_limits r' = check_resource_limits r"
  proof (cases "vq_limits r")
    case (Some l)
    then show ?thesis
      using segs [of "\<lambda>i s. emit (length (seg_payload s) > unat (max_segment_payload_bytes l))
        RC_LimitMaxSegmentPayloadBytes (of_nat i) (ucast (max_segment_payload_bytes l))"
        "length (vq_segments r)"]
      by (simp add: check_resource_limits_def r'_def Let_def)
  qed (simp add: check_resource_limits_def r'_def)
qed

text \<open>
  The spelling of an encoding never influences the decision on a sequence. Validating the
  canonicalized segments, in which every unset encoding is filled in, gives exactly the result of
  validating the sequence as supplied, with any evidence, so the digest that is later computed
  over the canonicalized segments belongs to the sequence that was judged.
\<close>

theorem validation_spelling_independent:
  "validate_segment_sequence (q\<lparr>sq_segments := canonicalize_segments (sq_segments q)\<rparr>) =
   validate_segment_sequence q"
proof -
  have "sequence_request (q\<lparr>sq_segments := canonicalize_segments (sq_segments q)\<rparr>) =
      (sequence_request q)\<lparr>vq_segments := canonicalize_segments (vq_segments (sequence_request q))\<rparr>"
    by (simp add: sequence_request_def empty_request_def)
  then show ?thesis
    unfolding validate_segment_sequence_def Let_def by (simp only: checks_canonicalized) simp
qed

end
