(* ===== verification/Transport.thy ===== *)
theory Transport
  imports Reason Bytes
begin

text \<open>
  The loopback socket (\<^verbatim>\<open>transport.cpp\<close>). A socket is its handle, 0 when it is closed. What the
  operating system answers is an argument: the outcome of each system call, and for the two loops
  the sequence of answers of \<^verbatim>\<open>send\<close> and \<^verbatim>\<open>recv\<close>. A loop that waits for a further answer returns
  \<open>None\<close>. Port 0 and the other numbers a port file must not hold are refused.
\<close>

section \<open>Opening and closing\<close>

type_synonym Socket = u64

definition socket_valid :: "Socket \<Rightarrow> bool" where
  "socket_valid s \<longleftrightarrow> s \<noteq> 0"

definition socket_close :: "Socket \<Rightarrow> Socket" where
  "socket_close s = 0"

text \<open>
  Moving a socket leaves the source closed. An assignment first closes the socket it replaces, unless it assigns
  to itself; the second component of the results is the source.
\<close>

definition socket_move :: "Socket \<Rightarrow> Socket \<times> Socket" where
  "socket_move other = (other, 0)"

definition socket_assign :: "bool \<Rightarrow> Socket \<Rightarrow> Socket \<Rightarrow> Socket \<times> Socket" where
  "socket_assign same s other = (if same then (s, other) else (other, 0))"

text \<open>
  The stages of the system calls: the transport stack is ready, a descriptor was created, and the
  calls on it succeed. A descriptor becomes the handle as it is.
\<close>

record OpenAnswers =
  oa_ready :: bool
  oa_descriptor :: "u64 option"
  oa_bound :: bool
  oa_listening :: bool
  oa_connected :: bool

definition listen_loopback :: "OpenAnswers \<Rightarrow> ValidationResult \<Rightarrow> Socket \<times> ValidationResult" where
  "listen_loopback os out =
     (if \<not> oa_ready os then (0, vr_add RC_NotSupported 0 1 out)
      else
        (case oa_descriptor os of
           None \<Rightarrow> (0, vr_add RC_InternalError 0 1 out)
         | Some d \<Rightarrow>
             if \<not> oa_bound os then (0, vr_add RC_InternalError 0 2 out)
             else if \<not> oa_listening os then (0, vr_add RC_InternalError 0 3 out)
             else (d, out)))"

definition connect_loopback :: "OpenAnswers \<Rightarrow> ValidationResult \<Rightarrow> Socket \<times> ValidationResult" where
  "connect_loopback os out =
     (if \<not> oa_ready os then (0, vr_add RC_NotSupported 0 2 out)
      else
        (case oa_descriptor os of
           None \<Rightarrow> (0, vr_add RC_InternalError 0 4 out)
         | Some d \<Rightarrow>
             if \<not> oa_connected os then (0, vr_add RC_InternalError 0 5 out) else (d, out)))"

definition accept :: "Socket \<Rightarrow> u64 option \<Rightarrow> ValidationResult \<Rightarrow> Socket \<times> ValidationResult" where
  "accept s accepted out =
     (if s = 0 then (0, vr_add RC_InternalError 0 6 out)
      else (case accepted of None \<Rightarrow> (0, vr_add RC_InternalError 0 7 out) | Some d \<Rightarrow> (d, out)))"

section \<open>Sending and receiving\<close>

text \<open>
  One answer of \<^verbatim>\<open>send\<close>: the number of bytes it took, an answer that makes the loop try again, or an
  error. The bytes that the peer will see are collected.
\<close>

datatype SendAnswer = Took nat | SendBlocked | SendFailed

definition send_chunk :: "u8 list \<Rightarrow> nat \<Rightarrow> nat" where
  "send_chunk bytes sent = (if length bytes - sent > 1048576 then 1048576 else length bytes - sent)"

fun send_loop :: "u8 list \<Rightarrow> nat \<Rightarrow> SendAnswer list \<Rightarrow> bool option \<times> u8 list" where
  "send_loop bytes sent answers =
     (if sent < length bytes then
        (case answers of
           [] \<Rightarrow> (None, [])
         | SendFailed # _ \<Rightarrow> (Some False, [])
         | SendBlocked # more_answers \<Rightarrow> send_loop bytes sent more_answers
         | Took n # more_answers \<Rightarrow>
             (let (result, seen) = send_loop bytes (sent + n) more_answers
              in (result, take n (take (send_chunk bytes sent) (drop sent bytes)) @ seen)))
      else (Some True, []))"

declare send_loop.simps [simp del]

definition send_all :: "Socket \<Rightarrow> u8 list \<Rightarrow> SendAnswer list \<Rightarrow> bool option \<times> u8 list" where
  "send_all s bytes answers = (if s = 0 then (Some False, []) else send_loop bytes 0 answers)"

datatype RecvAnswer = Got "u8 list" | RecvClosed | RecvBlocked | RecvFailed

fun recv_loop :: "RecvAnswer list \<Rightarrow> (bool \<times> u8 list) option" where
  "recv_loop (Got bytes # _) = Some (True, bytes)"
| "recv_loop (RecvClosed # _) = Some (False, [])"
| "recv_loop (RecvBlocked # answers) = recv_loop answers"
| "recv_loop (RecvFailed # _) = Some (False, [])"
| "recv_loop [] = None"

definition recv_some :: "Socket \<Rightarrow> nat \<Rightarrow> RecvAnswer list \<Rightarrow> (bool \<times> u8 list) option" where
  "recv_some s buffer_size answers =
     (if s = 0 \<or> buffer_size = 0 then Some (False, []) else recv_loop answers)"

text \<open>
  The number a port file holds: \<open>opened\<close> says whether the stream is good after opening, \<open>value\<close> is
  what the formatted extraction delivers.
\<close>

definition read_port_file :: "bool \<Rightarrow> u32 option \<Rightarrow> u16 option" where
  "read_port_file opened extracted =
     (if \<not> opened then None
      else
        (case extracted of
           None \<Rightarrow> None
         | Some value \<Rightarrow> if value = 0 \<or> value > 65535 then None else Some (ucast value)))"

section \<open>What the peer sees\<close>

text \<open>The contract of \<^verbatim>\<open>send\<close>: it takes at least one byte and at most what it was offered.\<close>

fun legal_answers :: "u8 list \<Rightarrow> nat \<Rightarrow> SendAnswer list \<Rightarrow> bool" where
  "legal_answers bytes sent [] = True"
| "legal_answers bytes sent (Took n # answers) \<longleftrightarrow>
     (sent < length bytes \<longrightarrow> 0 < n \<and> n \<le> send_chunk bytes sent) \<and> legal_answers bytes (sent + n) answers"
| "legal_answers bytes sent (_ # answers) \<longleftrightarrow> legal_answers bytes sent answers"

lemma send_chunk_le: "send_chunk bytes sent \<le> length bytes - sent"
  by (simp add: send_chunk_def)

lemma send_loop_prefix:
  assumes "legal_answers bytes sent answers" and "send_loop bytes sent answers = (result, seen)"
  shows "(\<exists>n. seen = take n (drop sent bytes)) \<and> (result = Some True \<longrightarrow> seen = drop sent bytes)"
  using assms
proof (induction bytes sent answers arbitrary: result seen rule: send_loop.induct)
  case (1 bytes sent answers)
  show ?case
  proof (cases "sent < length bytes")
    case False
    then show ?thesis using "1.prems" by (simp add: send_loop.simps [of bytes sent])
  next
    case True
    show ?thesis
    proof (cases answers)
      case Nil
      then show ?thesis using "1.prems" True by (auto simp: send_loop.simps [of bytes sent])
    next
      case (Cons a as)
      show ?thesis
      proof (cases a)
        case (Took n)
        obtain seen' where s: "send_loop bytes (sent + n) as = (result, seen')"
          "seen = take n (take (send_chunk bytes sent) (drop sent bytes)) @ seen'"
          using "1.prems" True Cons Took
          by (auto simp: send_loop.simps [of bytes sent] split: prod.splits)
        have n: "n \<le> send_chunk bytes sent" "legal_answers bytes (sent + n) as"
          using "1.prems"(1) True Cons Took by simp_all
        have seen: "seen = take n (drop sent bytes) @ seen'"
          using s(2) n(1) by (simp add: min_def)
        have split: "drop sent bytes = take n (drop sent bytes) @ drop (sent + n) bytes"
          by (metis append_take_drop_id drop_drop add.commute)
        have len: "length (take n (drop sent bytes)) = n"
          using n(1) send_chunk_le [of bytes sent] by simp
        from "1.IH"(1) [OF True Cons Took n(2) s(1)] obtain k where
          k: "seen' = take k (drop (sent + n) bytes)" "result = Some True \<longrightarrow> seen' = drop (sent + n) bytes"
          by blast
        have "seen = take (n + k) (drop sent bytes)"
          unfolding seen k(1) by (metis add.commute drop_drop take_add)
        then show ?thesis using seen split k(2) by metis
      next
        case SendBlocked
        then show ?thesis
          using "1.prems" True Cons "1.IH"(2) [OF True Cons SendBlocked]
          by (simp add: send_loop.simps [of bytes sent])
      next
        case SendFailed
        then show ?thesis using "1.prems" True Cons by (auto simp: send_loop.simps [of bytes sent])
      qed
    qed
  qed
qed

text \<open>
  Whatever partial writes and retries the operating system answers, the peer sees a prefix of
  the bytes, each byte at most once and in order, and \<^verbatim>\<open>send_all\<close> returns true only after the whole
  buffer was handed over.
\<close>

theorem send_all_exact:
  assumes "legal_answers bytes 0 answers" and "send_all s bytes answers = (result, seen)"
  shows "(\<exists>n. seen = take n bytes) \<and> (result = Some True \<longrightarrow> seen = bytes)"
  using send_loop_prefix [OF assms(1)] assms(2)
  by (auto simp: send_all_def split: if_splits)

theorem send_all_exact_witness:
  "legal_answers [1, 2, 3] 0 [Took 1, SendBlocked, Took 2] \<and>
   send_all 5 [1, 2, 3] [Took 1, SendBlocked, Took 2] = (Some True, [1, 2, 3])"
proof -
  have legal: "legal_answers [1, 2, 3] 0 [Took 1, SendBlocked, Took 2]"
    by (simp add: send_chunk_def)
  obtain seen where run: "send_all 5 [1, 2, 3] [Took 1, SendBlocked, Took 2] = (Some True, seen)"
    by (simp add: send_all_def send_loop.simps send_chunk_def)
  show ?thesis using legal run send_all_exact [OF legal run] by simp
qed

end
