(* ===== verification/Worker.thy ===== *)
theory Worker
  imports WireFrames Transport
begin

text \<open>
  The worker client (\<^verbatim>\<open>worker.hpp/.cpp\<close>): its state, the attempt identifiers it mints, one exchange of
  a request frame for a response frame, and every operation of the client. What the surroundings
  decide is an argument: the answers to the system calls that open the socket, whether the bytes
  of a request could be sent, and the chunks the socket delivers until it fails.
\<close>

section \<open>State\<close>

record WorkerConfig =
  wc_limits :: Limits
  wc_boot :: WorkerBootId
  wc_publisher :: PublisherId
  wc_scope :: ScopeId
  wc_expected_epoch :: CoordinatorEpoch

record WorkerClient =
  wk_socket :: Socket
  wk_config :: WorkerConfig
  wk_next_request :: u64
  wk_attempt_counter :: u64
  wk_session :: WorkerSessionId
  wk_session_epoch :: CoordinatorEpoch
  wk_transport :: StatusCode

definition new_worker :: "WorkerConfig \<Rightarrow> WorkerClient" where
  "new_worker cfg = \<lparr>wk_socket = 0, wk_config = cfg, wk_next_request = 1, wk_attempt_counter = 0,
     wk_session = 0, wk_session_epoch = 0, wk_transport = St_Ok\<rparr>"

text \<open>\<open>port\<close> is the answer of \<^verbatim>\<open>read_port_file\<close>. Assigning the new socket closes the old one.\<close>

definition worker_open ::
  "u16 option \<Rightarrow> OpenAnswers \<Rightarrow> WorkerConfig \<Rightarrow> ValidationResult \<Rightarrow> WorkerClient \<Rightarrow>
   bool \<times> ValidationResult \<times> WorkerClient" where
  "worker_open port os cfg out w =
     (let w = w\<lparr>wk_config := cfg\<rparr>; out = set_limits (Some (wc_limits cfg)) out in
      case port of
        None \<Rightarrow> (False, vr_add RC_PersistIoError 0 11 out, w)
      | Some _ \<Rightarrow>
          (let (s, out) = connect_loopback os out
           in (socket_valid s, out, w\<lparr>wk_socket := s\<rparr>)))"

definition worker_close :: "WorkerClient \<Rightarrow> WorkerClient" where
  "worker_close w = w\<lparr>wk_socket := socket_close (wk_socket w)\<rparr>"

section \<open>Attempt identifiers\<close>

definition attempt_mix :: "WorkerBootId \<Rightarrow> u64 \<Rightarrow> u64" where
  "attempt_mix boot counter = (boot * 0x9E3779B97F4A7C15) XOR (counter * 0x100000001B3)"

definition next_attempt :: "WorkerClient \<Rightarrow> MutationAttemptId \<times> WorkerClient" where
  "next_attempt w =
     (let w = w\<lparr>wk_attempt_counter := wk_attempt_counter w + 1\<rparr>;
          mixed = attempt_mix (wc_boot (wk_config w)) (wk_attempt_counter w)
      in (if mixed = 0 then wk_attempt_counter w + 1 else mixed, w))"

section \<open>Exchanges\<close>

text \<open>
  \<open>wi_sent\<close> is the result of \<^verbatim>\<open>send_all\<close>, \<open>wi_chunks\<close> what the calls of \<^verbatim>\<open>recv_some\<close> deliver before the
  one that fails. \<open>wi_residue\<close> is what a decoder that fails half-way has stored in the response; the
  client overwrites its status and reasons and hands the rest to the caller.
\<close>

record WorkerIO =
  wi_sent :: bool
  wi_chunks :: "u8 list list"
  wi_residue :: Response

definition failed_exchange :: "StatusCode \<Rightarrow> Reason list \<Rightarrow> Response" where
  "failed_exchange status reasons = empty_response\<lparr>rp_status := status, rp_reasons := reasons\<rparr>"

definition request_frame :: "u16 \<Rightarrow> u64 \<Rightarrow> ByteBuffer \<Rightarrow> Frame" where
  "request_frame message request_id payload = \<lparr>fr_version = kWireProtocolVersion, fr_message = message,
     fr_flags = 0, fr_request_id = request_id, fr_payload = payload\<rparr>"

text \<open>A frame arrived: it must be a response, and its payload must decode.\<close>

definition accept_reply :: "Frame \<Rightarrow> Response \<Rightarrow> WorkerClient \<Rightarrow> Response \<times> WorkerClient" where
  "accept_reply incoming residue w =
     (if fr_message incoming \<noteq> MI_Response
      then (failed_exchange St_Rejected
              [reason RC_WireUnknownMessageId 0 (ucast (fr_message incoming))], w)
      else
        (case decode_response (fr_payload incoming) (wc_limits (wk_config w)) vr_success of
           (None, payload_result) \<Rightarrow>
             (residue\<lparr>rp_status := St_Rejected, rp_reasons := vr_reasons payload_result\<rparr>, w)
         | (Some response, _) \<Rightarrow> (response, w\<lparr>wk_transport := St_Ok\<rparr>)))"

fun await_reply ::
  "FrameAssembler \<Rightarrow> u8 list list \<Rightarrow> Response \<Rightarrow> WorkerClient \<Rightarrow> Response \<times> WorkerClient" where
  "await_reply assembler chunks residue w =
     (case next_frame (wc_limits (wk_config w)) vr_success assembler of
        (Some incoming, _, _) \<Rightarrow> accept_reply incoming residue w
      | (None, decode_result, assembler) \<Rightarrow>
          if vr_failed decode_result
          then (failed_exchange St_Rejected (vr_reasons decode_result), w\<lparr>wk_transport := St_Rejected\<rparr>)
          else
            (case chunks of
               [] \<Rightarrow> (failed_exchange St_Internal [reason RC_InternalError 0 23],
                      worker_close (w\<lparr>wk_transport := St_Internal\<rparr>))
             | chunk # chunks \<Rightarrow> await_reply (feed chunk assembler) chunks residue w))"

declare await_reply.simps [simp del]

definition exchange ::
  "u16 \<Rightarrow> ByteBuffer \<Rightarrow> WorkerIO \<Rightarrow> WorkerClient \<Rightarrow> Response \<times> WorkerClient" where
  "exchange message payload io w =
     (if \<not> socket_valid (wk_socket w)
      then (failed_exchange St_Internal [reason RC_InternalError 0 21], w\<lparr>wk_transport := St_Internal\<rparr>)
      else
        (let frame = request_frame message (wk_next_request w) payload;
             w = w\<lparr>wk_next_request := wk_next_request w + 1\<rparr>;
             (bytes, result) = encode_frame frame (wc_limits (wk_config w)) vr_success
         in
         if vr_failed result \<or> \<not> wi_sent io
         then (failed_exchange St_Internal
                 (if vr_reasons result = [] then [reason RC_InternalError 0 22] else vr_reasons result),
               w\<lparr>wk_transport := St_Internal\<rparr>)
         else await_reply new_assembler (wi_chunks io) (wi_residue io) w))"

section \<open>Operations\<close>

definition worker_hello :: "WorkerClient \<Rightarrow> HelloRequest" where
  "worker_hello w = \<lparr>he_boot = wc_boot (wk_config w), he_publisher = wc_publisher (wk_config w),
     he_scope = wc_scope (wk_config w), he_epoch = wc_expected_epoch (wk_config w)\<rparr>"

definition handshake :: "WorkerIO \<Rightarrow> WorkerClient \<Rightarrow> Response \<times> WorkerClient" where
  "handshake io w =
     (let (response, w) = exchange MI_Hello (encode_hello (worker_hello w)) io w
      in (response,
          if rp_status response = St_Ok
          then w\<lparr>wk_session_epoch := rp_epoch response, wk_session := rp_session response\<rparr> else w))"

definition worker_beat :: "WorkerClient \<Rightarrow> HeartbeatRequest" where
  "worker_beat w = \<lparr>hb_publisher = wc_publisher (wk_config w), hb_boot = wc_boot (wk_config w),
     hb_epoch = wk_session_epoch w\<rparr>"

definition worker_heartbeat :: "WorkerIO \<Rightarrow> WorkerClient \<Rightarrow> Response \<times> WorkerClient" where
  "worker_heartbeat io w = exchange MI_Heartbeat (encode_heartbeat (worker_beat w)) io w"

definition send_mutation :: "u16 \<Rightarrow> ListDraft \<Rightarrow> WorkerIO \<Rightarrow> WorkerClient \<Rightarrow> Response \<times> WorkerClient" where
  "send_mutation message draft io w =
     (let (attempt, w) = next_attempt w;
          (payload, result) = encode_mutation \<lparr>mr_attempt = attempt, mr_draft = draft\<rparr>
            (wc_limits (wk_config w)) vr_success
      in
      if vr_failed result then (failed_exchange St_Rejected (vr_reasons result), w)
      else exchange message payload io w)"

primrec message_for :: "LifecycleOp \<Rightarrow> u16" where
  "message_for LO_Withdraw = MI_Withdraw"
| "message_for LO_WithdrawCommit = MI_WithdrawCommit"
| "message_for LO_Revoke = MI_Revoke"
| "message_for LO_Retire = MI_Retire"
| "message_for LO_Revalidate = MI_Revalidate"

definition send_lifecycle ::
  "LifecycleOp \<Rightarrow> SegmentListId \<Rightarrow> SegmentListGeneration \<Rightarrow> WorkerIO \<Rightarrow> WorkerClient \<Rightarrow>
   Response \<times> WorkerClient" where
  "send_lifecycle op list expected io w =
     (let (attempt, w) = next_attempt w
      in exchange (message_for op)
           (encode_lifecycle \<lparr>lq_attempt = attempt, lq_op = op, lq_list = list, lq_expected = expected\<rparr>) io w)"

definition worker_get :: "SegmentListId \<Rightarrow> WorkerIO \<Rightarrow> WorkerClient \<Rightarrow> Response \<times> WorkerClient" where
  "worker_get list io w = exchange MI_Get (encode_get \<lparr>gq_list = list\<rparr>) io w"

definition worker_summaries :: "WorkerIO \<Rightarrow> WorkerClient \<Rightarrow> Response \<times> WorkerClient" where
  "worker_summaries io w = exchange MI_ListSummaries [] io w"

definition worker_explain_currentness ::
  "SegmentListId \<Rightarrow> WorkerIO \<Rightarrow> WorkerClient \<Rightarrow> Response \<times> WorkerClient" where
  "worker_explain_currentness list io w =
     exchange MI_ExplainCurrentness (encode_get \<lparr>gq_list = list\<rparr>) io w"

definition worker_refresh_currentness :: "WorkerIO \<Rightarrow> WorkerClient \<Rightarrow> Response \<times> WorkerClient" where
  "worker_refresh_currentness io w = exchange MI_RefreshCurrentness [] io w"

definition goodbye :: "WorkerIO \<Rightarrow> WorkerClient \<Rightarrow> Response \<times> WorkerClient" where
  "goodbye io w = exchange MI_Goodbye [] io w"

end
