(* ===== verification/StoreOutcomes.thy ===== *)
theory StoreOutcomes
  imports StoreGuarantees
begin

text \<open>
  The shape of every outcome of a mutation or transition: the reasons it carries are sorted, free of
  duplicates and within the reason budget of the store, whatever path produced it. A server that
  puts an outcome into a response relies on this bound.
\<close>

definition outcome_wf :: "Limits \<Rightarrow> MutationOutcome \<Rightarrow> bool" where
  "outcome_wf l out \<longleftrightarrow> vr_wf (mo_result out) \<and> vr_cap (mo_result out) = unat (max_reasons l)"

lemma outcome_wf_update [simp]:
  "outcome_wf l (out\<lparr>mo_status := a\<rparr>) = outcome_wf l out"
  "outcome_wf l (out\<lparr>mo_list := b\<rparr>) = outcome_wf l out"
  "outcome_wf l (out\<lparr>mo_generation := c\<rparr>) = outcome_wf l out"
  "outcome_wf l (out\<lparr>mo_digest := d\<rparr>) = outcome_wf l out"
  "outcome_wf l (out\<lparr>mo_snapshot := e\<rparr>) = outcome_wf l out"
  "outcome_wf l (out\<lparr>mo_idempotent_replay := f\<rparr>) = outcome_wf l out"
  "outcome_wf l (out\<lparr>mo_durable := f\<rparr>) = outcome_wf l out"
  by (simp_all add: outcome_wf_def)

lemma outcome_wf_fresh [simp]: "outcome_wf l (fresh_outcome l)" "outcome_wf l (initial_outcome l drafts)"
  by (simp_all add: outcome_wf_def) (simp_all add: fresh_outcome_def initial_outcome_def)

lemma absorb_cap [simp]: "vr_cap (absorb r v) = vr_cap v"
  by (simp add: absorb_def) (simp add: vr_cap_def)

lemma outcome_wf_absorb [simp]:
  "outcome_wf l out \<Longrightarrow> outcome_wf l (out'\<lparr>mo_result := absorb r (mo_result out)\<rparr>)"
  by (simp add: outcome_wf_def vr_wf_absorb)

lemma outcome_wf_reject [simp]:
  "outcome_wf l out \<Longrightarrow> outcome_wf l (reject st c d out)"
  "outcome_wf l out \<Longrightarrow> outcome_wf l (reject_with r out)"
  by (simp_all add: reject_def reject_with_def Let_def outcome_wf_def vr_wf_add vr_wf_absorb)

lemma outcome_wf_finish [simp]: "outcome_wf l (finish_outcome s i snap out) = outcome_wf l out"
  by (simp add: finish_outcome_def Let_def split: option.split)

lemma outcome_wf_replay [simp]: "outcome_wf l (replay_outcome s drafts out) = outcome_wf l out"
  by (simp add: outcome_wf_def)

lemma outcome_wf_length: "outcome_wf l out \<Longrightarrow> length (vr_reasons (mo_result out)) \<le> unat (max_reasons l)"
  by (simp add: outcome_wf_def vr_wf_def)

lemma commit_batch_outcome:
  "outcome_wf (st_limits s) (fst (commit_batch ip caller drafts ctx prepared s))"
  by (simp add: commit_batch_def Let_def split: sum.split prod.split bool.split)

lemma prepare_batch_outcome:
  assumes "interference_ok env"
    and "prepare_batch env caller drafts intent re ra s = (r, s')"
  shows "st_limits s' = st_limits s \<and> (case r of Inl out \<Rightarrow> outcome_wf (st_limits s) out | Inr _ \<Rightarrow> True)"
  using assms
  by (auto simp: prepare_batch_def prepare_locked_def Let_def interference_limits [OF assms(1)]
      take_snapshot_id_def split: if_splits option.splits prod.splits)

lemma run_batch_outcome:
  assumes "interference_ok env"
  shows "outcome_wf (st_limits s) (fst (run_batch ip env caller drafts intent re ra s))"
proof -
  obtain r s' where p: "prepare_batch env caller drafts intent re ra s = (r, s')" by fastforce
  note q = prepare_batch_outcome [OF assms p]
  with commit_batch_outcome [of "iv_commit env s'"] show ?thesis
    by (auto simp: run_batch_def p interference_limits [OF assms] split: sum.split prod.split)
qed

lemma commit_transition_outcome:
  "outcome_wf (st_limits s) (fst (commit_transition ip caller i expected event ctx draft s))"
  by (auto simp: commit_transition_def Let_def split: option.split prod.split bool.split)

lemma prepare_transition_outcome:
  assumes "interference_ok env"
    and "prepare_transition env caller i expected event s = (r, s')"
  shows "st_limits s' = st_limits s \<and> (case r of Inl out \<Rightarrow> outcome_wf (st_limits s) out | Inr _ \<Rightarrow> True)"
  using assms
  by (auto simp: prepare_transition_def Let_def interference_limits [OF assms(1)]
      split: if_splits option.splits)

lemma transition_outcome:
  assumes "interference_ok env"
  shows "outcome_wf (st_limits s) (fst (transition ip env event caller i expected s))"
proof -
  obtain r s' where p: "prepare_transition env caller i expected event s = (r, s')" by fastforce
  note q = prepare_transition_outcome [OF assms p]
  with commit_transition_outcome [of "iv_commit env s'"] show ?thesis
    by (auto simp: transition_def p interference_limits [OF assms] split: sum.split prod.split)
qed

lemma revalidate_outcome:
  assumes "interference_ok env"
  shows "outcome_wf (st_limits s) (fst (revalidate ip env caller i expected s))"
  using run_batch_outcome [OF assms, of "iv_begin env s"]
  by (simp add: revalidate_def interference_limits [OF assms] split: option.split)

lemmas store_outcomes =
  run_batch_outcome transition_outcome revalidate_outcome

end
