(* ===== verification/WorkerGuarantees.thy ===== *)
theory WorkerGuarantees
  imports Worker CoordinatorGuarantees StoreOutcomes
begin

text \<open>
  The worker against the coordinator: the attempt identifiers of a worker do not collide, a reply
  is recognised however the transport chops it, and an operation of the client is the operation
  of the coordinator: the frame that is served is the frame that was built, and the response that
  the client returns is the response that the coordinator computed.
\<close>

section \<open>Attempt identifiers\<close>

text \<open>The \<open>n\<close>-th attempt after a given state of the client.\<close>

primrec nth_attempt :: "nat \<Rightarrow> WorkerClient \<Rightarrow> MutationAttemptId" where
  "nth_attempt 0 w = fst (next_attempt w)"
| "nth_attempt (Suc n) w = nth_attempt n (snd (next_attempt w))"

lemma next_attempt_state [simp]:
  "wk_config (snd (next_attempt w)) = wk_config w"
  "wk_attempt_counter (snd (next_attempt w)) = wk_attempt_counter w + 1"
  "wk_next_request (snd (next_attempt w)) = wk_next_request w"
  "wk_socket (snd (next_attempt w)) = wk_socket w"
  by (simp_all add: next_attempt_def Let_def)

lemma nth_attempt_alt:
  "nth_attempt n w =
     (let counter = wk_attempt_counter w + of_nat n + 1;
          mixed = attempt_mix (wc_boot (wk_config w)) counter
      in if mixed = 0 then counter + 1 else mixed)"
proof (induction n arbitrary: w)
  case 0
  then show ?case by (simp add: next_attempt_def Let_def)
next
  case (Suc n)
  show ?case by (simp add: Suc Let_def algebra_simps)
qed

lemma attempt_mix_inj: "attempt_mix b c = attempt_mix b d \<longleftrightarrow> c = d"
  using mult_prime_inj [of c d] by (simp add: attempt_mix_def xor_left_cancel kFnvPrime_def)

text \<open>
  A worker never reuses an attempt identifier. Two different attempts out of the first
  $2^{64}$ of one incarnation carry different identifiers, and neither is the invalid identifier 0,
  except when one of them falls on the single counter value at which the mixed value vanishes and
  the client substitutes the counter. So the coordinator never takes a new request of a worker for
  a replay of an older one.
\<close>

theorem attempts_never_reused:
  assumes "n < 2 ^ 64" and "m < 2 ^ 64" and "n \<noteq> m"
    and "attempt_mix (wc_boot (wk_config w)) (wk_attempt_counter w + of_nat n + 1) \<noteq> 0"
    and "attempt_mix (wc_boot (wk_config w)) (wk_attempt_counter w + of_nat m + 1) \<noteq> 0"
  shows "nth_attempt n w \<noteq> nth_attempt m w \<and> valid (nth_attempt n w) \<and> valid (nth_attempt m w)"
proof -
  have "(of_nat n :: u64) \<noteq> of_nat m"
    using assms(1-3) by (simp add: word_unat_eq_iff unat_of_nat)
  then have "wk_attempt_counter w + of_nat n + 1 \<noteq> wk_attempt_counter w + of_nat m + 1" by simp
  then show ?thesis using assms(4,5) by (simp add: nth_attempt_alt Let_def attempt_mix_inj valid_def)
qed

definition worker_example :: WorkerClient where
  "worker_example = (new_worker \<lparr>wc_limits = default_limits, wc_boot = 70, wc_publisher = 7,
     wc_scope = 0x100, wc_expected_epoch = 1\<rparr>)\<lparr>wk_socket := 5\<rparr>"

theorem attempts_never_reused_witness:
  "nth_attempt 0 worker_example \<noteq> nth_attempt 5 worker_example"
  using attempts_never_reused [of 0 5 worker_example]
  by (simp add: worker_example_def new_worker_def attempt_mix_def)

section \<open>Replies\<close>

lemma next_frame_prefix:
  assumes "frame_ok limits f" and "\<not> fa_overflowed a" and "frame_bytes f = fa_buffer a @ ts" and "ts \<noteq> []"
  shows "next_frame limits vr_success a = (None, set_limits (Some limits) vr_success, a)"
proof (cases "length (fa_buffer a) < 28")
  case True
  then show ?thesis using assms(2) by (simp add: next_frame_def Let_def kFrameHeaderBytes_def)
next
  case False
  then have "read_frame_header (fa_buffer a) = read_frame_header (frame_bytes f)"
    by (simp add: assms(3) read_frame_header_append)
  moreover have "length (fa_buffer a) < 28 + length (fr_payload f) + 4"
    using arg_cong [OF assms(3), of length] assms(4) by (cases ts) (simp_all add: length_frame_bytes)
  ultimately show ?thesis
    using assms(2) False header_of_frame [of f "[]"] frame_length_u32 [OF assms(1)]
    by (simp add: next_frame_def Let_def kFrameHeaderBytes_def kFrameTrailerBytes_def)
qed

lemma await_reply_frame:
  assumes "frame_ok (wc_limits (wk_config w)) f" and "\<not> fa_overflowed a"
    and "fa_buffer a @ concat chunks = frame_bytes f @ ts"
  shows "await_reply a chunks residue w = accept_reply f residue w"
  using assms
proof (induction chunks arbitrary: a)
  case Nil
  then have "fa_buffer a = frame_bytes f @ ts" by simp
  with Nil show ?case
    by (simp add: await_reply.simps [of a] next_frame_whole [OF assms(1)])
next
  case (Cons c cs)
  show ?case
  proof (cases "length (frame_bytes f) \<le> length (fa_buffer a)")
    case True
    then obtain us where "fa_buffer a = frame_bytes f @ us"
      using Cons.prems(3) by (metis append_eq_append_conv_if append_take_drop_id)
    with Cons.prems show ?thesis
      by (simp add: await_reply.simps [of a] next_frame_whole [OF assms(1)])
  next
    case False
    then obtain us where us: "frame_bytes f = fa_buffer a @ us" "us \<noteq> []"
      using Cons.prems(3)
      by (metis append_Nil2 append_eq_append_conv2 length_append le_add1 order_refl)
    have "await_reply a (c # cs) residue w = await_reply (feed c a) cs residue w"
      using next_frame_prefix [OF assms(1) Cons.prems(2) us]
      by (simp add: await_reply.simps [of a] vr_defs)
    also have "\<dots> = accept_reply f residue w"
      using Cons.prems by (intro Cons.IH) (simp_all add: feed_def)
    finally show ?thesis .
  qed
qed

section \<open>Remote calls\<close>

text \<open>A connection that waits for a request.\<close>

definition idle :: "'p Connection \<Rightarrow> bool" where
  "idle cn \<longleftrightarrow> cn_open cn \<and> cn_assembler cn = new_assembler"

text \<open>The bytes that the server writes while it serves the chunks of a request.\<close>

definition reply_bytes :: "'p Connection \<Rightarrow> 'p Connection \<Rightarrow> u8 list" where
  "reply_bytes before after = concat (drop (length (cn_sent before)) (cn_sent after))"

text \<open>The response fits the limits of both sides.\<close>

definition deliverable :: "Limits \<Rightarrow> Response \<Rightarrow> bool" where
  "deliverable limits r \<longleftrightarrow>
     sendable_response limits r \<and> length (response_bytes r) \<le> unat (max_frame_bytes limits)"

lemma request_received:
  assumes "frame_ok limits f" and "concat up = frame_bytes f"
  shows "fst (receive limits new_assembler up) = [f]"
  using receive_concat [OF drain_new, of limits up] assms
    drain_stream [of limits "[f]" "feed (frame_bytes f) new_assembler"]
  by (simp add: feed_def new_assembler_def)

lemma serve_request:
  assumes "idle cn" and "frame_ok limits f" and "concat up = frame_bytes f"
  shows "cn_coordinator (serve_chunks ip io limits up cn) = cn_coordinator (serve_frame ip io limits f cn)"
    and "cn_session (serve_chunks ip io limits up cn) = cn_session (serve_frame ip io limits f cn)"
    and "cn_sent (serve_chunks ip io limits up cn) = cn_sent (serve_frame ip io limits f cn)"
proof -
  have "observed (serve_chunks ip io limits up cn) = observed (serve_frame ip io limits f cn)"
    using serve_chunks_seq [of cn ip io limits up] assms request_received [OF assms(2,3)]
    by (simp add: idle_def serve_frame_observed [symmetric])
  then show "cn_coordinator (serve_chunks ip io limits up cn) = cn_coordinator (serve_frame ip io limits f cn)"
    "cn_session (serve_chunks ip io limits up cn) = cn_session (serve_frame ip io limits f cn)"
    "cn_sent (serve_chunks ip io limits up cn) = cn_sent (serve_frame ip io limits f cn)"
    by (metis observed_simps(1,2,5))+
qed

lemma response_frame_ok:
  "length encoded \<le> unat (max_frame_bytes limits) \<Longrightarrow> frame_ok limits (response_frame i encoded)"
  by (simp add: frame_ok_def response_frame_def)

lemma serve_frame_answers:
  assumes "dispatch ip (fo_env (io (cn_served cn))) (fo_now (io (cn_served cn))) f (cn_session cn)
      (fo_others (io (cn_served cn)) (cn_coordinator cn)) = (response, session, c)"
    and "fo_sent (io (cn_served cn))" and "deliverable limits response"
  shows "cn_coordinator (serve_frame ip io limits f cn) = c"
    and "cn_session (serve_frame ip io limits f cn) = session"
    and "cn_sent (serve_frame ip io limits f cn) =
      cn_sent cn @ [frame_bytes (response_frame (fr_request_id f) (response_bytes response))]"
proof -
  have "encode_response response limits vr_success = (response_bytes response, set_limits (Some limits) vr_success)"
    using assms(3) by (simp add: deliverable_def sendable_response_def encode_response_def)
  moreover have "encode_frame (response_frame i (response_bytes response)) limits vr_success =
      (frame_bytes (response_frame i (response_bytes response)), set_limits (Some limits) vr_success)" for i
    using assms(3) by (simp add: deliverable_def encode_frame_ok response_frame_ok)
  ultimately show "cn_coordinator (serve_frame ip io limits f cn) = c"
    "cn_session (serve_frame ip io limits f cn) = session"
    "cn_sent (serve_frame ip io limits f cn) =
      cn_sent cn @ [frame_bytes (response_frame (fr_request_id f) (response_bytes response))]"
    using assms(1,2) by (simp_all add: serve_frame_def Let_def vr_defs)
qed

lemma accept_response:
  assumes "deliverable (wc_limits (wk_config w)) response"
  shows "accept_reply (response_frame i (response_bytes response)) residue w =
    (response, w\<lparr>wk_transport := St_Ok\<rparr>)"
proof -
  have "decode_response (response_bytes response) (wc_limits (wk_config w)) vr_success =
      (Some response, set_limits (Some (wc_limits (wk_config w))) vr_success)"
    using assms run_payload_parsed [OF response_roundtrip]
    by (simp add: deliverable_def decode_response_def)
  then show ?thesis by (simp add: accept_reply_def response_frame_def)
qed

lemma remote_call:
  fixes w :: WorkerClient and io :: "nat \<Rightarrow> 'p FrameIO"
  defines "limits \<equiv> wc_limits (wk_config w)"
  assumes "socket_valid (wk_socket w)" and "wi_sent wio" and "idle cn" and "fo_sent (io (cn_served cn))"
    and "frame_ok limits (request_frame m (wk_next_request w) payload)"
    and "dispatch ip (fo_env (io (cn_served cn))) (fo_now (io (cn_served cn)))
        (request_frame m (wk_next_request w) payload) (cn_session cn)
        (fo_others (io (cn_served cn)) (cn_coordinator cn)) = (response, session, c)"
    and "deliverable limits response"
    and "concat up = frame_bytes (request_frame m (wk_next_request w) payload)"
    and "concat (wi_chunks wio) = reply_bytes cn (serve_chunks ip io limits up cn)"
  shows "cn_coordinator (serve_chunks ip io limits up cn) = c"
    and "cn_session (serve_chunks ip io limits up cn) = session"
    and "exchange m payload wio w =
      (response, w\<lparr>wk_next_request := wk_next_request w + 1, wk_transport := St_Ok\<rparr>)"
proof -
  let ?f = "request_frame m (wk_next_request w) payload"
  note served = serve_request [OF assms(4,6,9), of ip io]
  note answer = serve_frame_answers [where ip = ip and io = io and cn = cn, OF assms(7,5,8)]
  show "cn_coordinator (serve_chunks ip io limits up cn) = c"
    "cn_session (serve_chunks ip io limits up cn) = session"
    by (simp_all add: served answer)
  have "concat (wi_chunks wio) = frame_bytes (response_frame (fr_request_id ?f) (response_bytes response))"
    using assms(10) by (simp add: reply_bytes_def served answer)
  moreover have "frame_ok limits (response_frame (fr_request_id ?f) (response_bytes response))"
    using assms(8) by (simp add: deliverable_def response_frame_ok)
  ultimately have "await_reply new_assembler (wi_chunks wio) (wi_residue wio)
      (w\<lparr>wk_next_request := wk_next_request w + 1\<rparr>) =
      (response, w\<lparr>wk_next_request := wk_next_request w + 1, wk_transport := St_Ok\<rparr>)"
    using await_reply_frame [of "w\<lparr>wk_next_request := wk_next_request w + 1\<rparr>"
        "response_frame (fr_request_id ?f) (response_bytes response)" new_assembler "wi_chunks wio" "[]"]
      accept_response [of "w\<lparr>wk_next_request := wk_next_request w + 1\<rparr>" response] assms(8)
    by (simp add: limits_def new_assembler_def)
  then show "exchange m payload wio w =
      (response, w\<lparr>wk_next_request := wk_next_request w + 1, wk_transport := St_Ok\<rparr>)"
    using assms(2,3,6) by (simp add: exchange_def encode_frame_ok limits_def Let_def vr_defs)
qed

section \<open>A connection between two requests\<close>

lemma receive_nothing:
  "fa_buffer a = [] \<Longrightarrow> \<not> fa_overflowed a \<Longrightarrow> concat chunks = [] \<Longrightarrow> receive limits a chunks = ([], a)"
proof (induction chunks)
  case (Cons c cs)
  then have "feed c a = a" by (simp add: feed_def)
  moreover have "drain limits a = ([], a)"
    using Cons.prems by (simp add: drain.simps [of limits a] next_frame_def Let_def kFrameHeaderBytes_def)
  ultimately show ?case using Cons by simp
qed simp

lemma receive_request:
  assumes "frame_ok limits f" and "\<not> fa_overflowed a"
    and "fa_buffer a @ concat chunks = frame_bytes f" and "fa_buffer a \<noteq> frame_bytes f"
  shows "receive limits a chunks = ([f], a\<lparr>fa_buffer := []\<rparr>)"
  using assms
proof (induction chunks arbitrary: a)
  case Nil
  then show ?case by simp
next
  case (Cons c cs)
  let ?b = "feed c a"
  have b: "fa_buffer ?b @ concat cs = frame_bytes f" "\<not> fa_overflowed ?b"
    using Cons.prems by (simp_all add: feed_def)
  show ?case
  proof (cases "fa_buffer ?b = frame_bytes f")
    case True
    then have "drain limits ?b = ([f], a\<lparr>fa_buffer := []\<rparr>)"
      using drain_stream [of limits "[f]" ?b] Cons.prems by (simp add: feed_def)
    moreover have "receive limits (a\<lparr>fa_buffer := []\<rparr>) cs = ([], a\<lparr>fa_buffer := []\<rparr>)"
      using b True Cons.prems by (intro receive_nothing) simp_all
    ultimately show ?thesis by simp
  next
    case False
    then have "concat cs \<noteq> []" using b(1) append_Nil2 by metis
    then have "drain limits ?b = ([], ?b)"
      using next_frame_prefix [OF assms(1) b(2) b(1) [symmetric]]
      by (simp add: drain.simps [of limits ?b])
    moreover have "receive limits ?b cs = ([f], ?b\<lparr>fa_buffer := []\<rparr>)"
      using False b Cons.prems by (intro Cons.IH) simp_all
    ultimately show ?thesis by (simp add: feed_def)
  qed
qed

lemma serve_chunks_assembler:
  assumes "cn_open cn" and "cn_open (serve_chunks ip io limits chunks cn)"
  shows "cn_assembler (serve_chunks ip io limits chunks cn) = snd (receive limits (cn_assembler cn) chunks)"
  using assms
proof (induction chunks arbitrary: cn)
  case (Cons chunk chunks)
  let ?cn = "cn\<lparr>cn_assembler := feed chunk (cn_assembler cn)\<rparr>"
  let ?d = "serve_frames ip io limits ?cn"
  obtain fs a where d: "drain limits (feed chunk (cn_assembler cn)) = (fs, a)" by fastforce
  have a: "cn_open ?d \<longrightarrow> cn_assembler ?d = a"
    using serve_frames_seq [of ?cn limits fs a ip io] d Cons.prems by simp
  have open_d: "cn_open ?d"
  proof (rule ccontr)
    assume "\<not> cn_open ?d"
    moreover from this have "serve_chunks ip io limits chunks ?d = ?d" by (cases chunks) simp_all
    ultimately show False using Cons.prems by (simp add: Let_def split: if_splits)
  qed
  show ?case
    using Cons.IH [OF open_d] Cons.prems open_d a d receive_overflowed [of a limits chunks]
    by (auto simp: Let_def split: if_splits prod.splits)
qed simp

text \<open>After a request other than \<^verbatim>\<open>Goodbye\<close> has been answered the connection waits for the next one.\<close>

lemma served_idle:
  assumes "idle cn" and "frame_ok limits f" and "concat up = frame_bytes f"
    and "dispatch ip (fo_env (io (cn_served cn))) (fo_now (io (cn_served cn))) f (cn_session cn)
      (fo_others (io (cn_served cn)) (cn_coordinator cn)) = (response, session, c)"
    and "fo_sent (io (cn_served cn))" and "deliverable limits response" and "fr_message f \<noteq> MI_Goodbye"
  shows "idle (serve_chunks ip io limits up cn)"
    and "cn_served (serve_chunks ip io limits up cn) = Suc (cn_served cn)"
proof -
  let ?d = "serve_chunks ip io limits up cn"
  have enc: "encode_response response limits vr_success = (response_bytes response, set_limits (Some limits) vr_success)"
    "encode_frame (response_frame i (response_bytes response)) limits vr_success =
      (frame_bytes (response_frame i (response_bytes response)), set_limits (Some limits) vr_success)" for i
    using assms(6)
    by (simp_all add: deliverable_def sendable_response_def encode_response_def encode_frame_ok response_frame_ok)
  have "observed ?d = observed (serve_frame ip io limits f cn)"
    using serve_chunks_seq [of cn ip io limits up] assms(1) request_received [OF assms(2,3)]
    by (simp add: idle_def serve_frame_observed [symmetric])
  then have "cn_open ?d = cn_open (serve_frame ip io limits f cn)"
    "cn_served ?d = cn_served (serve_frame ip io limits f cn)"
    by (metis observed_simps(3,4))+
  then have d: "cn_open ?d" "cn_served ?d = Suc (cn_served cn)"
    using assms(1,4,5,7) enc by (simp_all add: serve_frame_def idle_def Let_def vr_defs)
  have "frame_bytes f \<noteq> []" using length_frame_bytes [of f] by (metis length_0_conv add_is_0 zero_neq_numeral)
  then have "cn_assembler ?d = new_assembler"
    using serve_chunks_assembler [OF _ d(1)] assms(1,3) receive_request [OF assms(2), of new_assembler up]
    by (simp add: idle_def new_assembler_def)
  with d show "idle ?d" "cn_served ?d = Suc (cn_served cn)" by (simp_all add: idle_def)
qed

section \<open>Remote operations refine store operations\<close>

text \<open>A mutating operation of the client, and the store operation it stands for.\<close>

datatype WorkerCall =
    Mutation u16 ListDraft
  | LifecycleCall LifecycleOp SegmentListId SegmentListGeneration

primrec worker_call :: "WorkerCall \<Rightarrow> WorkerIO \<Rightarrow> WorkerClient \<Rightarrow> Response \<times> WorkerClient" where
  "worker_call (Mutation message draft) = send_mutation message draft"
| "worker_call (LifecycleCall op list expected) = send_lifecycle op list expected"

primrec store_call ::
  "WorkerCall \<Rightarrow> 'p IPersistence \<Rightarrow> 'p Interference \<Rightarrow> CallerIdentity \<Rightarrow> 'p Store \<Rightarrow>
   MutationOutcome \<times> 'p Store" where
  "store_call (Mutation message draft) ip env caller s = create_list ip env caller draft s"
| "store_call (LifecycleCall op list expected) ip env caller s =
     lifecycle_operation op ip env caller list expected s"

primrec well_formed_call :: "Limits \<Rightarrow> MutationAttemptId \<Rightarrow> WorkerCall \<Rightarrow> bool" where
  "well_formed_call limits attempt (Mutation message draft) \<longleftrightarrow>
     message \<in> {MI_CreateList, MI_ReplaceList} \<and> sendable limits \<lparr>mr_attempt = attempt, mr_draft = draft\<rparr>"
| "well_formed_call limits attempt (LifecycleCall op list expected) \<longleftrightarrow> True"

primrec call_message :: "WorkerCall \<Rightarrow> u16" where
  "call_message (Mutation message draft) = message"
| "call_message (LifecycleCall op list expected) = message_for op"

primrec call_payload :: "MutationAttemptId \<Rightarrow> WorkerCall \<Rightarrow> ByteBuffer" where
  "call_payload attempt (Mutation message draft) = mutation_bytes \<lparr>mr_attempt = attempt, mr_draft = draft\<rparr>"
| "call_payload attempt (LifecycleCall op list expected) =
     encode_lifecycle \<lparr>lq_attempt = attempt, lq_op = op, lq_list = list, lq_expected = expected\<rparr>"

abbreviation call_frame :: "WorkerCall \<Rightarrow> WorkerClient \<Rightarrow> Frame" where
  "call_frame call w \<equiv>
     request_frame (call_message call) (wk_next_request w) (call_payload (fst (next_attempt w)) call)"

text \<open>The response that carries the outcome of a store operation.\<close>

definition outcome_response :: "u64 \<Rightarrow> MutationOutcome \<Rightarrow> CoordinatorEpoch \<Rightarrow> Response" where
  "outcome_response request_id outcome epoch =
     respond_outcome outcome epoch (empty_response\<lparr>rp_request_id := request_id\<rparr>)"

lemma worker_call_exchange:
  assumes "well_formed_call (wc_limits (wk_config w)) (fst (next_attempt w)) call"
  shows "worker_call call io w =
    exchange (call_message call) (call_payload (fst (next_attempt w)) call) io (snd (next_attempt w))"
  using assms
  by (cases call)
     (simp_all add: send_mutation_def send_lifecycle_def encode_mutation_def sendable_def Let_def vr_defs
       case_prod_beta)

lemma dispatch_call:
  assumes "well_formed_call (co_limits c) attempt call" and "se_registered session"
    and "store_call call ip env (session_caller session attempt) (co_store c) = (outcome, s)"
  shows "dispatch ip env now (request_frame (call_message call) i (call_payload attempt call)) session c =
    (outcome_response i outcome (at_epoch (st_authority s)), session, c\<lparr>co_store := s\<rparr>)"
proof (cases call)
  case (Mutation message draft)
  have "decode_mutation (mutation_bytes \<lparr>mr_attempt = attempt, mr_draft = draft\<rparr>) (co_limits c) vr_success =
      (Some \<lparr>mr_attempt = attempt, mr_draft = draft\<rparr>, set_limits (Some (co_limits c)) vr_success)"
    using assms(1) run_payload_parsed [OF mutation_roundtrip] by (simp add: Mutation decode_mutation_def)
  then show ?thesis
    using assms
    by (auto simp: Mutation dispatch_def on_mutation_def request_frame_def outcome_response_def
        respond_outcome_def Let_def)
next
  case (LifecycleCall op list expected)
  then show ?thesis
    using assms
    by (cases op)
       (simp_all add: dispatch_def on_lifecycle_def request_frame_def lifecycle_roundtrip
         outcome_response_def respond_outcome_def Let_def)
qed

lemma length_reasons: "length (concat (map reason_bytes rs)) = 14 * length rs"
  by (induction rs) (simp_all add: reason_bytes_def)

text \<open>A response without summaries fits a frame that has room for all reasons of the budget.\<close>

definition room_for_reasons :: "Limits \<Rightarrow> bool" where
  "room_for_reasons limits \<longleftrightarrow> 67 + 14 * unat (max_reasons limits) \<le> unat (max_frame_bytes limits)"

lemma outcome_deliverable:
  assumes "outcome_wf limits outcome" and "room_for_reasons limits"
  shows "deliverable limits (outcome_response i outcome epoch)"
  using outcome_wf_length [OF assms(1)] assms(2)
  by (simp add: deliverable_def sendable_response_def response_bytes_def outcome_response_def
      respond_outcome_def empty_response_def length_reasons room_for_reasons_def)

lemma store_call_outcome:
  "interference_ok env \<Longrightarrow> outcome_wf (st_limits s) (fst (store_call call ip env caller s))"
proof (induction call)
  case (Mutation message draft)
  then show ?case by (simp add: create_list_def run_batch_outcome)
next
  case (LifecycleCall op list expected)
  then show ?case
    by (cases op) (simp_all add: withdraw_def withdraw_commit_def revoke_def retire_def store_outcomes)
qed


text \<open>A worker whose next attempt is 900 revokes a list that does not exist.\<close>

definition revoking_worker_example :: WorkerClient where
  "revoking_worker_example = worker_example\<lparr>wk_attempt_counter := 7791819693157070813\<rparr>"

definition registered_connection_example :: "DurableState list Connection" where
  "registered_connection_example =
     (new_connection fresh_coordinator_example)\<lparr>cn_session := session_example\<rparr>"

definition refused_revocation :: MutationOutcome where
  "refused_revocation = reject St_NotFound RC_ListNotFound 12 ((fresh_outcome default_limits)\<lparr>mo_list := 12\<rparr>)"

lemma revoking_worker:
  "wk_socket revoking_worker_example = 5" "wk_next_request revoking_worker_example = 1"
  "wc_limits (wk_config revoking_worker_example) = default_limits"
  "fst (next_attempt revoking_worker_example) = 900"
  by (simp_all add: revoking_worker_example_def worker_example_def new_worker_def next_attempt_def
      attempt_mix_def)

lemma revocation_refused:
  "store_call (LifecycleCall LO_Revoke 12 1) journal no_interference caller (co_store fresh_coordinator_example) =
     (refused_revocation, store_example)"
proof -
  have "attempt_table_accepts default_limits (st_state store_example) (ca_attempt caller)"
    by (simp add: attempt_table_accepts_def default_limits_def)
  moreover have "find_locked store_example 12 = None"
    by (simp add: find_locked_def lower_bound_def store_example_def new_store_def rebuild_index_def
        build_index_def initial_state_def)
  ultimately show ?thesis
    by (simp add: fresh_coordinator_example_def revoke_def transition_def prepare_transition_def
        refused_revocation_def no_interference_def Let_def)
qed


end
