(* ===== verification/Tools.thy ===== *)
theory Tools
  imports Worker Coordinator OracleText
begin

text \<open>
  The two programs that are built from the library: \<^verbatim>\<open>srf_worker.cpp\<close> and \<^verbatim>\<open>srf_coordinator.cpp\<close>. Their
  command lines, the list the worker publishes, and their main functions with the lines they print
  and their exit codes. The answers of the system, of the peer and of the clock are arguments.
  What they print on the error stream is left out.
\<close>

section \<open>Command lines\<close>

definition is_space :: "char \<Rightarrow> bool" where
  "is_space c \<longleftrightarrow> (of_char c :: nat) \<in> {9, 10, 11, 12, 13, 32}"

primrec digits_value :: "nat \<Rightarrow> string \<Rightarrow> nat" where
  "digits_value acc [] = acc"
| "digits_value acc (c # cs) = digits_value (acc * 10 + (of_char c - 48)) cs"

text \<open>
  \<^verbatim>\<open>strtoull\<close> and \<^verbatim>\<open>strtoul\<close> in base 10, for a type of \<open>bits\<close> bits: white space, a sign, then the
  longest run of digits; no digits give 0, a value that does not fit gives the largest one, and a
  minus sign negates in the unsigned type.
\<close>

definition strtou :: "nat \<Rightarrow> string \<Rightarrow> nat" where
  "strtou bits s =
     (let t = dropWhile is_space s;
          negative = (t \<noteq> [] \<and> hd t = CHR ''-'');
          t = (if t \<noteq> [] \<and> hd t \<in> {CHR ''-'', CHR ''+''} then tl t else t);
          v = digits_value 0 (takeWhile is_digit t)
      in if v \<ge> 2 ^ bits then 2 ^ bits - 1
         else if negative then (2 ^ bits - v) mod 2 ^ bits else v)"

text \<open>
  The loop over the arguments that both programs share: an argument that takes a value, an
  argument that is a flag, or an unknown one, which ends the program.
\<close>

fun parse_options ::
  "(string \<Rightarrow> (string \<Rightarrow> 'o \<Rightarrow> 'o) option) \<Rightarrow> (string \<Rightarrow> ('o \<Rightarrow> 'o) option) \<Rightarrow> string list \<Rightarrow> 'o \<Rightarrow> 'o option" where
  "parse_options value flag [] options = Some options"
| "parse_options value flag (arg # args) options =
     (case value arg of
        Some assign \<Rightarrow>
          (case args of
             [] \<Rightarrow> None
           | v # args \<Rightarrow> parse_options value flag args (assign v options))
      | None \<Rightarrow>
          (case flag arg of
             Some assign \<Rightarrow> parse_options value flag args (assign options)
           | None \<Rightarrow> None))"

section \<open>The worker program\<close>

record WorkerOptions =
  wo_port_path :: string
  wo_boot :: u64
  wo_publisher :: u64
  wo_scope :: u64
  wo_list_id :: u64
  wo_segment_id :: u64
  wo_node_id :: u64
  wo_hold_ms :: u32
  wo_heartbeat_ms :: u32
  wo_publish :: bool
  wo_replace :: bool
  wo_revalidate :: bool

definition worker_defaults :: WorkerOptions where
  "worker_defaults = \<lparr>wo_port_path = [], wo_boot = 1, wo_publisher = 1, wo_scope = 1, wo_list_id = 0,
     wo_segment_id = 0, wo_node_id = 0, wo_hold_ms = 0, wo_heartbeat_ms = 0, wo_publish = False,
     wo_replace = False, wo_revalidate = False\<rparr>"

text \<open>\<open>long\<close> is the width of \<^verbatim>\<open>unsigned long\<close>, 64 or 32 bits by platform.\<close>

definition worker_value :: "nat \<Rightarrow> string \<Rightarrow> (string \<Rightarrow> WorkerOptions \<Rightarrow> WorkerOptions) option" where
  "worker_value long arg =
     (if arg = ''--port-file'' then Some (\<lambda>v o'. o'\<lparr>wo_port_path := v\<rparr>)
      else if arg = ''--boot'' then Some (\<lambda>v o'. o'\<lparr>wo_boot := of_nat (strtou 64 v)\<rparr>)
      else if arg = ''--publisher'' then Some (\<lambda>v o'. o'\<lparr>wo_publisher := of_nat (strtou 64 v)\<rparr>)
      else if arg = ''--scope'' then Some (\<lambda>v o'. o'\<lparr>wo_scope := of_nat (strtou 64 v)\<rparr>)
      else if arg = ''--list'' then Some (\<lambda>v o'. o'\<lparr>wo_list_id := of_nat (strtou 64 v)\<rparr>)
      else if arg = ''--segment'' then Some (\<lambda>v o'. o'\<lparr>wo_segment_id := of_nat (strtou 64 v)\<rparr>)
      else if arg = ''--node'' then Some (\<lambda>v o'. o'\<lparr>wo_node_id := of_nat (strtou 64 v)\<rparr>)
      else if arg = ''--hold-ms'' then Some (\<lambda>v o'. o'\<lparr>wo_hold_ms := of_nat (strtou long v)\<rparr>)
      else if arg = ''--heartbeat-ms'' then Some (\<lambda>v o'. o'\<lparr>wo_heartbeat_ms := of_nat (strtou long v)\<rparr>)
      else None)"

definition worker_flag :: "string \<Rightarrow> (WorkerOptions \<Rightarrow> WorkerOptions) option" where
  "worker_flag arg =
     (if arg = ''--publish'' then Some (\<lambda>o'. o'\<lparr>wo_publish := True\<rparr>)
      else if arg = ''--replace'' then Some (\<lambda>o'. o'\<lparr>wo_replace := True\<rparr>)
      else if arg = ''--revalidate'' then Some (\<lambda>o'. o'\<lparr>wo_revalidate := True\<rparr>)
      else None)"

definition parse_worker :: "nat \<Rightarrow> string list \<Rightarrow> WorkerOptions option" where
  "parse_worker long args = parse_options (worker_value long) worker_flag args worker_defaults"

definition make_draft :: "WorkerOptions \<Rightarrow> u64 \<Rightarrow> ListDraft" where
  "make_draft options generation = empty_draft\<lparr>dr_id := wo_list_id options, dr_scope := wo_scope options,
     dr_profile := 0x00010001, dr_expected_generation := generation,
     dr_segments := [\<lparr>seg_kind = SK_Node, seg_encoding = SE_Invalid, seg_id = wo_segment_id options,
       seg_generation = 1, seg_node = wo_node_id options, seg_adjacency = 0, seg_endpoint = 0,
       seg_binding = 0, seg_policy = 0, seg_policy_generation = 0, seg_topology = 0,
       seg_payload = [1, 2]\<rparr>]\<rparr>"

definition worker_config :: "WorkerOptions \<Rightarrow> WorkerConfig" where
  "worker_config options = \<lparr>wc_limits = default_limits, wc_boot = wo_boot options,
     wc_publisher = wo_publisher options, wc_scope = wo_scope options, wc_expected_epoch = 0\<rparr>"

text \<open>
  What the connection delivers for each exchange of a run, and the heartbeats that fall before the
  deadline: one entry per iteration of the holding loop.
\<close>

record WorkerRun =
  wr_hello :: WorkerIO
  wr_publish :: WorkerIO
  wr_before_replace :: WorkerIO
  wr_replace :: WorkerIO
  wr_before_revalidate :: WorkerIO
  wr_revalidate :: WorkerIO
  wr_beats :: "WorkerIO list"

definition primary_of :: "Response \<Rightarrow> string" where
  "primary_of r = (case rp_reasons r of [] \<Rightarrow> ''None'' | q # _ \<Rightarrow> reason_code_name (rs_code q))"

definition hello_line :: "Response \<Rightarrow> string" where
  "hello_line r = ''SRF_WORKER_HELLO status='' @ status_code_name (rp_status r) @
     '' epoch='' @ show_u64 (rp_epoch r) @ '' session='' @ show_u64 (rp_session r)"

definition report_line :: "string \<Rightarrow> Response \<Rightarrow> string" where
  "report_line what r = ''SRF_WORKER_'' @ what @ '' status='' @ status_code_name (rp_status r) @
     '' generation='' @ show_u64 (rp_generation r) @ '' digest='' @ digest_hex (rp_digest r) @
     '' replay='' @ (if rp_idempotent_replay r then ''1'' else ''0'')"

definition current_generation :: "Response \<Rightarrow> u64" where
  "current_generation r = (case rp_summaries r of [] \<Rightarrow> 0 | s # _ \<Rightarrow> su_generation s)"

definition publish_step :: "WorkerOptions \<Rightarrow> WorkerRun \<Rightarrow> WorkerClient \<Rightarrow> string list \<times> WorkerClient" where
  "publish_step options run w =
     (if \<not> wo_publish options then ([], w)
      else
        (let (response, w) = send_mutation MI_CreateList (make_draft options 0) (wr_publish run) w
         in ([report_line ''PUBLISH'' response], w)))"

definition replace_step :: "WorkerOptions \<Rightarrow> WorkerRun \<Rightarrow> WorkerClient \<Rightarrow> string list \<times> WorkerClient" where
  "replace_step options run w =
     (if \<not> wo_replace options then ([], w)
      else
        (let (current, w) = worker_get (wo_list_id options) (wr_before_replace run) w;
             (response, w) = send_mutation MI_ReplaceList
               (make_draft options (current_generation current)) (wr_replace run) w
         in ([report_line ''REPLACE'' response], w)))"

definition revalidate_step :: "WorkerOptions \<Rightarrow> WorkerRun \<Rightarrow> WorkerClient \<Rightarrow> string list \<times> WorkerClient" where
  "revalidate_step options run w =
     (if \<not> wo_revalidate options then ([], w)
      else
        (let (current, w) = worker_get (wo_list_id options) (wr_before_revalidate run) w;
             (response, w) = send_lifecycle LO_Revalidate (wo_list_id options)
               (current_generation current) (wr_revalidate run) w
         in ([report_line ''REVALIDATE'' response], w)))"

primrec hold_loop :: "WorkerOptions \<Rightarrow> WorkerIO list \<Rightarrow> WorkerClient \<Rightarrow> string list" where
  "hold_loop options [] w = []"
| "hold_loop options (io # beats) w =
     (if wo_heartbeat_ms options \<noteq> 0 then
        (let (beat, w) = worker_heartbeat io w in
         if rp_status beat \<noteq> St_Ok then [''SRF_WORKER_HEARTBEAT_FAILED primary='' @ primary_of beat]
         else hold_loop options beats w)
      else hold_loop options beats w)"

definition worker_session :: "WorkerOptions \<Rightarrow> WorkerRun \<Rightarrow> WorkerClient \<Rightarrow> string list" where
  "worker_session options run w =
     (let (hello, w) = handshake (wr_hello run) w in
      hello_line hello #
      (if rp_status hello \<noteq> St_Ok then [''SRF_WORKER_REJECTED primary='' @ primary_of hello]
       else
         (let (published, w) = publish_step options run w;
              (replaced, w) = replace_step options run w;
              (revalidated, w) = revalidate_step options run w
          in published @ replaced @ revalidated @ hold_loop options (wr_beats run) w @
             [''SRF_WORKER_DONE''])))"

definition worker_main ::
  "nat \<Rightarrow> u16 option \<Rightarrow> OpenAnswers \<Rightarrow> WorkerRun \<Rightarrow> string list \<Rightarrow> string list \<times> nat" where
  "worker_main long port os run args =
     (case parse_worker long args of
        None \<Rightarrow> ([], 2)
      | Some options \<Rightarrow>
          (case worker_open port os (worker_config options) vr_success
                  (new_worker (worker_config options)) of
             (False, _, _) \<Rightarrow> ([], 3)
           | (True, _, w) \<Rightarrow> (worker_session options run w, 0)))"

section \<open>The coordinator program\<close>

record CoordinatorOptions =
  oo_state_path :: string
  oo_port_path :: string
  oo_port :: u16
  oo_lease_ms :: u32
  oo_hold_ms :: u32
  oo_load_persisted :: bool
  oo_advance_epoch :: bool

definition coordinator_defaults :: CoordinatorOptions where
  "coordinator_defaults = \<lparr>oo_state_path = [], oo_port_path = [], oo_port = 0, oo_lease_ms = 4000,
     oo_hold_ms = 0, oo_load_persisted = True, oo_advance_epoch = True\<rparr>"

definition coordinator_value :: "nat \<Rightarrow> string \<Rightarrow> (string \<Rightarrow> CoordinatorOptions \<Rightarrow> CoordinatorOptions) option" where
  "coordinator_value long arg =
     (if arg = ''--state'' then Some (\<lambda>v o'. o'\<lparr>oo_state_path := v\<rparr>)
      else if arg = ''--port-file'' then Some (\<lambda>v o'. o'\<lparr>oo_port_path := v\<rparr>)
      else if arg = ''--port'' then Some (\<lambda>v o'. o'\<lparr>oo_port := of_nat (strtou long v)\<rparr>)
      else if arg = ''--lease-ms'' then Some (\<lambda>v o'. o'\<lparr>oo_lease_ms := of_nat (strtou long v)\<rparr>)
      else if arg = ''--hold-ms'' then Some (\<lambda>v o'. o'\<lparr>oo_hold_ms := of_nat (strtou long v)\<rparr>)
      else None)"

definition coordinator_flag :: "string \<Rightarrow> (CoordinatorOptions \<Rightarrow> CoordinatorOptions) option" where
  "coordinator_flag arg =
     (if arg = ''--no-load'' then Some (\<lambda>o'. o'\<lparr>oo_load_persisted := False\<rparr>)
      else if arg = ''--no-epoch-bump'' then Some (\<lambda>o'. o'\<lparr>oo_advance_epoch := False\<rparr>)
      else None)"

definition parse_coordinator :: "nat \<Rightarrow> string list \<Rightarrow> CoordinatorOptions option" where
  "parse_coordinator long args =
     parse_options (coordinator_value long) coordinator_flag args coordinator_defaults"

definition coordinator_config :: "CoordinatorOptions \<Rightarrow> CoordinatorConfig" where
  "coordinator_config options = \<lparr>cf_limits = default_limits, cf_lease_milliseconds = oo_lease_ms options,
     cf_load_persisted = oo_load_persisted options, cf_advance_epoch = oo_advance_epoch options\<rparr>"

text \<open>The report that \<^verbatim>\<open>start\<close> keeps: of the load, when it loads, otherwise the default.\<close>

definition start_report :: "'p IPersistence \<Rightarrow> CoordinatorConfig \<Rightarrow> 'p option \<Rightarrow> LoadReport" where
  "start_report ip cfg persistence =
     (if cf_load_persisted cfg \<and> persistence \<noteq> None
      then fst (load ip (new_store (cf_limits cfg) (Some (make_synthetic_fabric 64)) persistence))
      else empty_report)"

text \<open>
  The store behind the server is a pointer: \<^verbatim>\<open>stop\<close> resets it, and \<^verbatim>\<open>epoch\<close> follows it without a test.
  So a program ends with an exit code, follows the null pointer, or keeps serving: without a holding
  time nothing ever stops the accept loop.
\<close>

datatype ProgramEnd = Exit nat | NullDereference | Serving

definition server_stop :: "'p Coordinator option \<Rightarrow> 'p Coordinator option" where
  "server_stop server = None"

definition server_epoch :: "'p Coordinator option \<Rightarrow> CoordinatorEpoch option" where
  "server_epoch server = map_option (\<lambda>c. at_epoch (co_authority c)) server"

definition ready_line :: "'p Coordinator \<Rightarrow> u16 \<Rightarrow> LoadReport \<Rightarrow> string" where
  "ready_line c port report = ''SRF_COORDINATOR_READY epoch='' @ show_u64 (at_epoch (co_authority c)) @
     '' port='' @ show_nat (unat port) @ '' recovered='' @ show_nat (lr_lists_recovered report)"

text \<open>
  The file system decides what a path holds: \<open>backend\<close> is the persistence of a state path. \<open>served\<close> is what the
  connections and the monitor do to the server until it is stopped.
\<close>

definition coordinator_main ::
  "'p IPersistence \<Rightarrow> (string \<Rightarrow> 'p) \<Rightarrow> nat \<Rightarrow> Reason option \<Rightarrow> u16 \<Rightarrow> (string \<Rightarrow> bool) \<Rightarrow>
   ('p Coordinator \<Rightarrow> 'p Coordinator) \<Rightarrow> string list \<Rightarrow> string list \<times> ProgramEnd" where
  "coordinator_main ip backend long listen_error port written served args =
     (case parse_coordinator long args of
        None \<Rightarrow> ([], Exit 2)
      | Some options \<Rightarrow>
          (let cfg = coordinator_config options;
               path = oo_state_path options;
               persistence = (if path = [] then None else Some (backend path));
               port_written = (oo_port_path options = [] \<or> written (oo_port_path options))
           in
           case start ip cfg persistence listen_error port port_written vr_success of
             (False, _, _) \<Rightarrow> ([], Exit 3)
           | (True, _, c) \<Rightarrow>
               (let ready = ready_line c port (start_report ip cfg persistence);
                    server = server_stop (Some (served c))
                in
                if oo_hold_ms options = 0 then ([ready], Serving)
                else
                  (case server_epoch server of
                     None \<Rightarrow> ([ready], NullDereference)
                   | Some epoch \<Rightarrow>
                       ([ready, ''SRF_COORDINATOR_STOPPED epoch='' @ show_u64 epoch], Exit 0)))))"

section \<open>Command lines read back\<close>

lemma digits_value_append: "digits_value a (s @ t) = digits_value (digits_value a s) t"
  by (induction s arbitrary: a) simp_all

lemma digits_show_nat: "digits_value 0 (show_nat n) = n"
proof (induction n rule: show_nat.induct)
  case (1 n)
  then show ?case by (cases "n < 10") (simp_all add: show_nat.simps [of n] digits_value_append)
qed

lemma show_nat_digits: "c \<in> set (show_nat n) \<Longrightarrow> is_digit c"
proof (induction n rule: show_nat.induct)
  case (1 n)
  then show ?case
    by (cases "n < 10") (auto simp: show_nat.simps [of n] is_digit_def)
qed

lemma digit_not_special:
  assumes "is_digit c"
  shows "\<not> is_space c" "c \<noteq> CHR ''-''" "c \<noteq> CHR ''+''"
  using assms by (auto simp: is_digit_def is_space_def)

lemma strtou_show: "n < 2 ^ bits \<Longrightarrow> strtou bits (show_nat n) = n"
proof -
  assume n: "n < 2 ^ bits"
  have h: "is_digit (hd (show_nat n))" using show_nat_digits [of "hd (show_nat n)" n] by simp
  have d: "dropWhile is_space (show_nat n) = show_nat n"
    using digit_not_special(1) [OF h] by (cases "show_nat n") simp_all
  have t: "takeWhile is_digit (show_nat n) = show_nat n"
    using show_nat_digits by (simp add: takeWhile_eq_all_conv)
  show ?thesis
    using n digit_not_special(2,3) [OF h] by (simp add: strtou_def Let_def digits_show_nat d t)
qed

lemma strtou_show_u64 [simp]: "of_nat (strtou 64 (show_u64 v)) = v"
  using strtou_show [of "unat v" 64] unsigned_less [of v, where ?'a = nat]
  by (simp add: show_u64_def)

lemma strtou_show_u32 [simp]:
  assumes "32 \<le> bits"
  shows "of_nat (strtou bits (show_nat (unat (v :: u32)))) = v"
proof -
  have "unat v < 2 ^ 32" using unsigned_less [of v, where ?'a = nat] by simp
  also have "(2 :: nat) ^ 32 \<le> 2 ^ bits" using assms by (intro power_increasing) simp_all
  finally show ?thesis by (simp add: strtou_show)
qed

text \<open>A command line that states all options of the worker.\<close>

definition worker_arguments :: "WorkerOptions \<Rightarrow> string list" where
  "worker_arguments options =
     [''--port-file'', wo_port_path options, ''--boot'', show_u64 (wo_boot options),
      ''--publisher'', show_u64 (wo_publisher options), ''--scope'', show_u64 (wo_scope options),
      ''--list'', show_u64 (wo_list_id options), ''--segment'', show_u64 (wo_segment_id options),
      ''--node'', show_u64 (wo_node_id options),
      ''--hold-ms'', show_nat (unat (wo_hold_ms options)),
      ''--heartbeat-ms'', show_nat (unat (wo_heartbeat_ms options))] @
     (if wo_publish options then [''--publish''] else []) @
     (if wo_replace options then [''--replace''] else []) @
     (if wo_revalidate options then [''--revalidate''] else [])"

text \<open>
  The worker program reads back every option it is given, on platforms with either width of
  \<^verbatim>\<open>unsigned long\<close>.
\<close>

theorem worker_arguments_roundtrip:
  assumes "32 \<le> long"
  shows "parse_worker long (worker_arguments options) = Some options"
  using assms
  by (simp add: parse_worker_def worker_arguments_def worker_value_def worker_flag_def worker_defaults_def)

theorem worker_arguments_roundtrip_witness:
  "parse_worker 64 (worker_arguments (worker_defaults\<lparr>wo_boot := 70, wo_publish := True\<rparr>)) =
     Some (worker_defaults\<lparr>wo_boot := 70, wo_publish := True\<rparr>)"
  by (rule worker_arguments_roundtrip) simp

text \<open>
  The coordinator program never ends well. When it is told to stop after a holding time it follows the
  pointer it has just reset, so it never prints the line that says it stopped and never returns 0.
\<close>

theorem coordinator_never_stops_cleanly:
  "snd (coordinator_main ip backend long listen_error port written served args) \<noteq> Exit 0 \<and>
   length (fst (coordinator_main ip backend long listen_error port written served args)) \<le> 1"
  by (simp add: coordinator_main_def server_epoch_def server_stop_def Let_def
      split: option.split prod.split bool.split)

end
