(* ===== verification/ToolsGuarantees.thy ===== *)
theory ToolsGuarantees
  imports Tools WorkerGuarantees
begin

text \<open>
  The worker program against the coordinator, end to end: command line, handshake, publication and
  the lines that are printed, over one connection.
\<close>

section \<open>Handshake\<close>

text \<open>What a successful handshake leaves on the server: the lease and the session.\<close>

definition greeted :: "int \<Rightarrow> WorkerConfig \<Rightarrow> AuthorityTable \<Rightarrow> 'p Coordinator \<Rightarrow> 'p Coordinator" where
  "greeted now cfg a c = touch now (wc_publisher cfg) (set_authority a c)"

definition greeted_session :: "WorkerConfig \<Rightarrow> AuthorityTable \<Rightarrow> Session" where
  "greeted_session cfg a = \<lparr>se_publisher = wc_publisher cfg, se_boot = wc_boot cfg,
     se_scope = wc_scope cfg, se_epoch = at_epoch a, se_registered = True\<rparr>"

definition greeting :: "u64 \<Rightarrow> WorkerConfig \<Rightarrow> AuthorityTable \<Rightarrow> Response" where
  "greeting request_id cfg a = empty_response\<lparr>rp_request_id := request_id, rp_status := St_Ok,
     rp_epoch := at_epoch a, rp_session := wc_publisher cfg\<rparr>"

abbreviation hello_request :: "WorkerClient \<Rightarrow> Frame" where
  "hello_request w \<equiv> request_frame MI_Hello (wk_next_request w) (encode_hello (worker_hello w))"

lemma dispatch_hello:
  assumes "wc_expected_epoch (wk_config w) = 0"
    and "register_publisher (wc_publisher (wk_config w)) (wc_boot (wk_config w)) (wc_scope (wk_config w))
      (at_epoch (co_authority c)) (co_limits c) (co_authority c) = (registered, a)"
    and "vr_ok registered"
  shows "dispatch ip env now (hello_request w) session c =
    (greeting (wk_next_request w) (wk_config w) a, greeted_session (wk_config w) a,
     greeted now (wk_config w) a c)"
proof -
  have "co_authority (set_authority a c) = a" by (simp add: set_authority_def)
  then show ?thesis
    using assms
    by (simp add: dispatch_def on_hello_def request_frame_def hello_roundtrip worker_hello_def valid_def
        greeting_def greeted_session_def greeted_def Let_def vr_defs vr_failed_def vr_ok_def
        empty_response_def)
qed

lemma greeting_deliverable: "room_for_reasons limits \<Longrightarrow> deliverable limits (greeting i cfg a)"
  by (simp add: deliverable_def sendable_response_def response_bytes_def greeting_def
      empty_response_def room_for_reasons_def)

lemma hello_request_ok: "room_for_reasons limits \<Longrightarrow> frame_ok limits (hello_request w)"
  by (simp add: frame_ok_def request_frame_def encode_hello_def room_for_reasons_def)

text \<open>The bytes of a request reach the server, those of its reply reach the client, in any chunks.\<close>

definition delivers ::
  "'p IPersistence \<Rightarrow> (nat \<Rightarrow> 'p FrameIO) \<Rightarrow> Limits \<Rightarrow> Frame \<Rightarrow> 'p Connection \<Rightarrow> u8 list list \<Rightarrow> WorkerIO \<Rightarrow> bool" where
  "delivers ip io limits f cn up wio \<longleftrightarrow> concat up = frame_bytes f \<and> wi_sent wio \<and>
     fo_sent (io (cn_served cn)) \<and> concat (wi_chunks wio) = reply_bytes cn (serve_chunks ip io limits up cn)"

definition greeted_worker :: "AuthorityTable \<Rightarrow> WorkerClient \<Rightarrow> WorkerClient" where
  "greeted_worker a w = w\<lparr>wk_next_request := wk_next_request w + 1, wk_transport := St_Ok,
     wk_session_epoch := at_epoch a, wk_session := wc_publisher (wk_config w)\<rparr>"

lemma greeted_worker_simps [simp]:
  "wk_socket (greeted_worker a w) = wk_socket w" "wk_config (greeted_worker a w) = wk_config w"
  "wk_next_request (greeted_worker a w) = wk_next_request w + 1"
  "wk_attempt_counter (greeted_worker a w) = wk_attempt_counter w"
  by (simp_all add: greeted_worker_def)

lemma handshake_served:
  fixes io :: "nat \<Rightarrow> 'p FrameIO" and c :: "'p Coordinator"
  defines "cn \<equiv> new_connection c" and "c0 \<equiv> fo_others (io 0) c"
  assumes "socket_valid (wk_socket w)" and "wc_expected_epoch (wk_config w) = 0"
    and "wc_limits (wk_config w) = limits" and "co_limits c0 = limits" and "room_for_reasons limits"
    and "register_publisher (wc_publisher (wk_config w)) (wc_boot (wk_config w)) (wc_scope (wk_config w))
      (at_epoch (co_authority c0)) limits (co_authority c0) = (registered, a)" and "vr_ok registered"
    and "delivers ip io limits (hello_request w) cn up wio"
  shows "idle (serve_chunks ip io limits up cn)"
    and "cn_served (serve_chunks ip io limits up cn) = 1"
    and "cn_session (serve_chunks ip io limits up cn) = greeted_session (wk_config w) a"
    and "cn_coordinator (serve_chunks ip io limits up cn) = greeted (fo_now (io 0)) (wk_config w) a c0"
    and "handshake wio w = (greeting (wk_next_request w) (wk_config w) a, greeted_worker a w)"
proof -
  have cn: "idle cn" "cn_served cn = 0" "cn_session cn = new_session" "cn_coordinator cn = c"
    by (simp_all add: cn_def new_connection_def idle_def)
  have d: "dispatch ip (fo_env (io (cn_served cn))) (fo_now (io (cn_served cn))) (hello_request w)
      (cn_session cn) (fo_others (io (cn_served cn)) (cn_coordinator cn)) =
      (greeting (wk_next_request w) (wk_config w) a, greeted_session (wk_config w) a,
       greeted (fo_now (io 0)) (wk_config w) a c0)"
    using dispatch_hello [OF assms(4) assms(8) [folded assms(6)] assms(9)]
    by (simp add: cn(2-4) c0_def)
  have io: "concat up = frame_bytes (hello_request w)" "wi_sent wio" "fo_sent (io (cn_served cn))"
    "concat (wi_chunks wio) = reply_bytes cn (serve_chunks ip io limits up cn)"
    using assms(10) by (simp_all add: delivers_def)
  note out = greeting_deliverable [OF assms(7), of "wk_next_request w" "wk_config w" a]
  show "idle (serve_chunks ip io limits up cn)" "cn_served (serve_chunks ip io limits up cn) = 1"
    using served_idle [where ip = ip and io = io and cn = cn, OF cn(1) hello_request_ok [OF assms(7)] io(1) d io(3) out]
    by (simp_all add: request_frame_def cn(2))
  note call = remote_call [where w = w and wio = wio and cn = cn and io = io and up = up and ip = ip,
      unfolded assms(5), OF assms(3) io(2) cn(1) io(3) hello_request_ok [OF assms(7)] d out io(1,4)]
  show "cn_session (serve_chunks ip io limits up cn) = greeted_session (wk_config w) a"
    "cn_coordinator (serve_chunks ip io limits up cn) = greeted (fo_now (io 0)) (wk_config w) a c0"
    by (rule call)+
  show "handshake wio w = (greeting (wk_next_request w) (wk_config w) a, greeted_worker a w)"
    unfolding handshake_def call(3) by (simp add: greeting_def greeted_worker_def)
qed

section \<open>Publication\<close>

lemma draft_fits:
  "well_formed_call default_limits attempt (Mutation MI_CreateList (make_draft options g))"
  "frame_ok default_limits (request_frame MI_CreateList i
     (mutation_bytes \<lparr>mr_attempt = attempt, mr_draft = make_draft options g\<rparr>))"
  by (simp_all add: sendable_def sendable_segment_def make_draft_def empty_draft_def default_limits_def
      frame_ok_def request_frame_def mutation_bytes_def wire_segment_bytes_def Let_def)

lemma default_room: "room_for_reasons default_limits"
  by (simp add: room_for_reasons_def default_limits_def)

abbreviation opened_worker :: "WorkerOptions \<Rightarrow> Socket \<Rightarrow> WorkerClient" where
  "opened_worker options d \<equiv> (new_worker (worker_config options))\<lparr>wk_socket := d\<rparr>"


definition publishing_options :: WorkerOptions where
  "publishing_options = worker_defaults\<lparr>wo_boot := 70, wo_publisher := 7, wo_scope := 0x100,
     wo_list_id := 11, wo_segment_id := 5, wo_node_id := 1, wo_publish := True\<rparr>"

definition open_example :: OpenAnswers where
  "open_example = \<lparr>oa_ready = True, oa_descriptor = Some 5, oa_bound = True, oa_listening = True,
     oa_connected = True\<rparr>"

definition reply_io :: "'p IPersistence \<Rightarrow> (nat \<Rightarrow> 'p FrameIO) \<Rightarrow> Frame \<Rightarrow> 'p Connection \<Rightarrow> WorkerIO" where
  "reply_io ip io f cn = \<lparr>wi_sent = True,
     wi_chunks = [reply_bytes cn (serve_chunks ip io default_limits [frame_bytes f] cn)],
     wi_residue = empty_response\<rparr>"

lemma delivers_reply_io:
  "fo_sent (io (cn_served cn)) \<Longrightarrow> delivers ip io default_limits f cn [frame_bytes f] (reply_io ip io f cn)"
  by (simp add: delivers_def reply_io_def)


end
