(* ===== verification/PortFile.thy ===== *)
theory PortFile
  imports Tools
begin

text \<open>
  How a worker finds its coordinator (\<^verbatim>\<open>transport.cpp\<close>): the port a listening socket is bound to, the file the
  coordinator publishes it in, and the text a worker reads back. What the system answers is an
  argument: the address of the socket, whether the file can be opened, and how much of the text reaches it.
\<close>

section \<open>Operations\<close>

text \<open>\<open>answer\<close> is \<^verbatim>\<open>sin_port\<close> as \<^verbatim>\<open>getsockname\<close> fills it, two bytes in network order.\<close>

definition local_port :: "Socket \<Rightarrow> (u8 \<times> u8) option \<Rightarrow> u16" where
  "local_port s answer =
     (if s = 0 then 0
      else (case answer of None \<Rightarrow> 0 | Some (high, low) \<Rightarrow> push_bit 8 (ucast high) OR ucast low))"

text \<open>
  The answers for an output file: the directories of the path could be created, which is not looked at,
  the file could be opened, and the number of characters that reached it before the flush ended.
\<close>

record FileAnswers =
  fs_directories :: bool
  fs_opened :: bool
  fs_written :: nat

definition port_text :: "u16 \<Rightarrow> string" where
  "port_text port = show_nat (unat port) @ [CHR 0x0A]"

definition write_port_file :: "FileAnswers \<Rightarrow> u16 \<Rightarrow> string option \<Rightarrow> bool \<times> string option" where
  "write_port_file os port contents =
     (if \<not> fs_opened os then (False, contents)
      else (fs_written os \<ge> length (port_text port), Some (take (fs_written os) (port_text port))))"

text \<open>
  Formatted extraction of an \<^verbatim>\<open>unsigned int\<close>: white space is skipped, a sign may follow, then the longest run
  of digits. No digits and a value beyond 32 bits set the fail bit. What a minus sign gives differs between
  libraries and is an argument.
\<close>

definition extract_unsigned :: "(nat \<Rightarrow> u32 option) \<Rightarrow> string \<Rightarrow> u32 option" where
  "extract_unsigned negated text =
     (let t = dropWhile is_space text;
          negative = (t \<noteq> [] \<and> hd t = CHR ''-'');
          digits = takeWhile is_digit (if t \<noteq> [] \<and> hd t \<in> {CHR ''-'', CHR ''+''} then tl t else t);
          v = digits_value 0 digits
      in if digits = [] then None
         else if negative then negated v
         else if v \<ge> 2 ^ 32 then None else Some (of_nat v))"

definition read_port :: "(nat \<Rightarrow> u32 option) \<Rightarrow> string option \<Rightarrow> u16 option" where
  "read_port negated contents =
     (case contents of
        None \<Rightarrow> read_port_file False None
      | Some text \<Rightarrow> read_port_file True (extract_unsigned negated text))"

section \<open>A published port is read back\<close>

lemma extract_show_nat:
  assumes "n < 2 ^ 32" and "t = [] \<or> \<not> is_digit (hd t)"
  shows "extract_unsigned negated (show_nat n @ t) = Some (of_nat n)"
proof -
  obtain c cs where s: "show_nat n = c # cs" by (cases "show_nat n") simp_all
  have c: "is_digit c" using show_nat_digits [of c n] s by simp
  have w: "takeWhile is_digit (show_nat n @ t) = show_nat n"
    using assms(2) show_nat_digits by (cases t) (simp_all add: takeWhile_append takeWhile_eq_all_conv)
  show ?thesis
    using w digit_not_special [OF c] assms(1) digits_show_nat [of n]
    by (simp add: extract_unsigned_def s Let_def)
qed

lemma u16_in_u32:
  fixes port :: u16
  shows "unat (ucast port :: u32) = unat port" "ucast (ucast port :: u32) = port" "unat port < 65536"
proof -
  show "unat (ucast port :: u32) = unat port" by transfer (simp add: take_bit_take_bit min_def)
  show "ucast (ucast port :: u32) = port" by transfer (simp add: take_bit_take_bit min_def)
  show "unat port < 65536" using unsigned_less [of port] by simp
qed

lemma read_port_text: "read_port negated (Some (port_text port)) = (if port = 0 then None else Some port)"
proof -
  have "extract_unsigned negated (port_text port) = Some (of_nat (unat port))"
    unfolding port_text_def using u16_in_u32(3) [of port] by (intro extract_show_nat) (simp_all add: is_digit_def)
  then have e: "extract_unsigned negated (port_text port) = Some (ucast port)" by simp
  have z: "(ucast port :: u32) = 0 \<longleftrightarrow> port = 0" using u16_in_u32(1) [of port] by (metis unat_eq_0)
  have "\<not> (ucast port :: u32) > 65535" using u16_in_u32(1,3) [of port] by (simp add: word_less_nat_alt)
  with e z show ?thesis by (simp add: read_port_def read_port_file_def u16_in_u32(2))
qed

text \<open>
  C40: A port that was published is the port that is read: whenever \<^verbatim>\<open>write_port_file\<close> reports success, whatever
  the file held before, \<^verbatim>\<open>read_port_file\<close> delivers that port, and it delivers none for port 0.
\<close>

theorem port_file_roundtrip:
  assumes "write_port_file os port before = (True, after)"
  shows "read_port negated after = (if port = 0 then None else Some port)"
  using assms read_port_text [of negated port] by (auto simp: write_port_file_def split: if_splits)

theorem port_file_roundtrip_witness:
  "read_port (\<lambda>_. None) (snd (write_port_file \<lparr>fs_directories = False, fs_opened = True, fs_written = 6\<rparr> 65535
     (Some ''8080''))) = Some 65535"
proof -
  have "length (show_nat 65535) \<le> 5" by (rule length_show_nat) simp_all
  then have "write_port_file \<lparr>fs_directories = False, fs_opened = True, fs_written = 6\<rparr> 65535 (Some ''8080'') =
      (True, Some (port_text 65535))"
    by (simp add: write_port_file_def port_text_def)
  from port_file_roundtrip [OF this] show ?thesis using \<open>write_port_file _ _ _ = _\<close> by simp
qed

text \<open>
  The worker that reads the file of a coordinator listening on \<open>port\<close> goes on to connect, and a worker that finds
  no file, an unfinished one or port 0 gives up before it opens a socket.
\<close>

lemma worker_opens_published:
  assumes "write_port_file os port before = (True, after)" and "port \<noteq> 0" and "oa_ready answers"
    and "oa_descriptor answers = Some d" and "oa_connected answers"
  shows "worker_open (read_port negated after) answers cfg out w =
    (d \<noteq> 0, set_limits (Some (wc_limits cfg)) out, w\<lparr>wk_config := cfg, wk_socket := d\<rparr>)"
  using assms read_port_text [of negated port]
  by (auto simp: write_port_file_def worker_open_def connect_loopback_def socket_valid_def Let_def split: if_splits)

end
