(* ===== verification/Process.thy ===== *)
theory Process
  imports Reason
begin

text \<open>
  Child processes (\<^verbatim>\<open>process.cpp\<close>, the POSIX branch, and \<^verbatim>\<open>process.hpp\<close>): a handle on a process, its
  operations over the system calls, and the bounded polling loop. The system calls are an argument, functions on a
  world that holds the processes.
\<close>

section \<open>Child processes\<close>

type_synonym pid = "32 word"

text \<open>How a child ended, as \<^verbatim>\<open>WIFEXITED\<close> and \<^verbatim>\<open>WEXITSTATUS\<close> read it from the status.\<close>

datatype ExitStatus = Exited u8 | NotExited

text \<open>
  \<^verbatim>\<open>posix_spawn\<close> takes the argument vector and answers an error number and a process identifier;
  \<^verbatim>\<open>waitpid\<close> takes the identifier and whether to wait, and answers an identifier, 0 or -1.
\<close>

record 'w ProcessCalls =
  os_spawn :: "string list \<Rightarrow> 'w \<Rightarrow> (u32 \<times> pid) \<times> 'w"
  os_waitpid :: "pid \<Rightarrow> bool \<Rightarrow> 'w \<Rightarrow> (pid \<times> ExitStatus) \<times> 'w"
  os_kill :: "pid \<Rightarrow> 'w \<Rightarrow> 'w"

record ChildProcess =
  cp_handle :: u64
  cp_pid :: u64

definition no_process :: ChildProcess where
  "no_process = \<lparr>cp_handle = 0, cp_pid = 0\<rparr>"

definition started :: "ChildProcess \<Rightarrow> bool" where
  "started p \<longleftrightarrow> cp_handle p \<noteq> 0"

definition spawn ::
  "'w ProcessCalls \<Rightarrow> string \<Rightarrow> string list \<Rightarrow> string \<Rightarrow> ValidationResult \<Rightarrow> 'w \<Rightarrow>
   ChildProcess \<times> ValidationResult \<times> 'w" where
  "spawn os executable arguments working_directory out w =
     (let ((rc, pid), w) = os_spawn os (executable # arguments) w
      in if rc \<noteq> 0 then (no_process, vr_add RC_InternalError 0 (scast rc) out, w)
         else (\<lparr>cp_handle = scast pid, cp_pid = scast pid\<rparr>, out, w))"

definition running :: "'w ProcessCalls \<Rightarrow> ChildProcess \<Rightarrow> 'w \<Rightarrow> bool \<times> 'w" where
  "running os p w =
     (if cp_handle p = 0 then (False, w)
      else (let ((result, _), w) = os_waitpid os (ucast (cp_pid p)) False w in (result = 0, w)))"

definition kill_process :: "'w ProcessCalls \<Rightarrow> ChildProcess \<Rightarrow> 'w \<Rightarrow> 'w" where
  "kill_process os p w = (if cp_handle p = 0 then w else os_kill os (ucast (cp_pid p)) w)"

definition wait_process :: "'w ProcessCalls \<Rightarrow> ChildProcess \<Rightarrow> 'w \<Rightarrow> int \<times> 'w" where
  "wait_process os p w =
     (if cp_handle p = 0 then (- 1, w)
      else
        (let ((result, status), w) = os_waitpid os (ucast (cp_pid p)) True w in
         if sint result < 0 then (- 1, w)
         else (case status of Exited code \<Rightarrow> (uint code, w) | NotExited \<Rightarrow> (- 1, w))))"

text \<open>The move operations empty the source; an assignment forgets the process it replaces.\<close>

definition move_process :: "ChildProcess \<Rightarrow> ChildProcess \<times> ChildProcess" where
  "move_process other = (other, no_process)"

definition assign_process :: "bool \<Rightarrow> ChildProcess \<Rightarrow> ChildProcess \<Rightarrow> ChildProcess \<times> ChildProcess" where
  "assign_process same p other = (if same then (p, other) else (other, no_process))"

definition destroy_process :: "'w ProcessCalls \<Rightarrow> ChildProcess \<Rightarrow> 'w \<Rightarrow> 'w" where
  "destroy_process os p w =
     (if cp_handle p \<noteq> 0 then snd (os_waitpid os (ucast (cp_pid p)) False w) else w)"

section \<open>Bounded polling\<close>

text \<open>
  \<open>predicate n\<close> is the answer of the predicate when it is called for the time \<open>n\<close>, counted from 0. The result is the
  answer of \<^verbatim>\<open>wait_until\<close> with the number of calls. A loop that does not end has no result.
\<close>

partial_function (option) wait_loop :: "(nat \<Rightarrow> bool) \<Rightarrow> u32 \<Rightarrow> nat \<Rightarrow> u32 \<Rightarrow> (bool \<times> nat) option" where
  "wait_loop predicate bound_milliseconds calls elapsed =
     (if predicate calls then Some (True, calls + 1)
      else if elapsed \<ge> bound_milliseconds then Some (predicate (calls + 1), calls + 2)
      else wait_loop predicate bound_milliseconds (calls + 1) (elapsed + 5))"

definition wait_until :: "(nat \<Rightarrow> bool) \<Rightarrow> u32 \<Rightarrow> (bool \<times> nat) option" where
  "wait_until predicate bound_milliseconds = wait_loop predicate bound_milliseconds 0 0"

declare wait_loop.simps [code]

text \<open>
  The elapsed time is a multiple of the step, and so is the largest 32-bit value: it reaches every bound before
  it could wrap around.
\<close>

definition poll_limit :: "u32 \<Rightarrow> nat" where
  "poll_limit bound = (unat bound + 4) div 5"

lemma poll_elapsed:
  assumes "k \<le> poll_limit bound"
  shows "unat (of_nat (5 * k) :: u32) = 5 * k"
    "of_nat (5 * k) \<ge> bound \<longleftrightarrow> k = poll_limit bound"
proof -
  have b: "unat bound < 4294967296" using unsigned_less [of bound] by simp
  then have "k \<le> 858993459" using assms unfolding poll_limit_def by linarith
  then have k: "5 * k < 2 ^ LENGTH(32)" by simp
  then show e: "unat (of_nat (5 * k) :: u32) = 5 * k"
    by (simp only: unat_of_nat mod_less)
  show "of_nat (5 * k) \<ge> bound \<longleftrightarrow> k = poll_limit bound"
    using assms unfolding word_le_nat_alt e poll_limit_def by linarith
qed

lemma wait_loop_result:
  "k \<le> poll_limit bound \<Longrightarrow>
   \<exists>r n. wait_loop predicate bound k (of_nat (5 * k)) = Some (r, n) \<and> k < n \<and> n \<le> poll_limit bound + 2 \<and>
     (r \<longleftrightarrow> predicate (n - 1)) \<and> (\<forall>i. k \<le> i \<and> i < n - 1 \<longrightarrow> \<not> predicate i) \<and> (r \<or> n = poll_limit bound + 2)"
proof (induction "poll_limit bound - k" arbitrary: k)
  case 0
  then have e: "of_nat (5 * k) \<ge> bound" "poll_limit bound = k" using poll_elapsed(2) [of k bound] by simp_all
  have w: "wait_loop predicate bound k (of_nat (5 * k)) =
      (if predicate k then Some (True, k + 1) else Some (predicate (k + 1), k + 2))"
    by (subst wait_loop.simps) (simp only: e(1) if_True)
  show ?case
  proof (cases "predicate k")
    case True
    then show ?thesis unfolding w e(2) by (intro exI [of _ True] exI [of _ "k + 1"]) auto
  next
    case False
    have "i = k" if "k \<le> i \<and> i < k + 2 - 1" for i using that by simp
    with False show ?thesis unfolding w e(2)
      by (intro exI [of _ "predicate (k + 1)"] exI [of _ "k + 2"]) fastforce
  qed
next
  case (Suc d)
  show ?case
  proof (cases "predicate k")
    case True
    then have "wait_loop predicate bound k (of_nat (5 * k)) = Some (True, k + 1)"
      by (subst wait_loop.simps) (simp only: if_True)
    then show ?thesis using True Suc.prems by (intro exI [of _ True] exI [of _ "k + 1"]) auto
  next
    case False
    have k: "Suc k \<le> poll_limit bound" "\<not> of_nat (5 * k) \<ge> bound"
      using Suc.hyps(2) poll_elapsed(2) [of k bound] Suc.prems by simp_all
    have "(of_nat (5 * k) :: u32) + 5 = of_nat (5 * Suc k)" by (simp add: algebra_simps)
    then have "wait_loop predicate bound k (of_nat (5 * k)) =
        wait_loop predicate bound (Suc k) (of_nat (5 * Suc k))"
      using False k(2) by (subst wait_loop.simps) (simp only: if_False Suc_eq_plus1)
    moreover obtain r n where r: "wait_loop predicate bound (Suc k) (of_nat (5 * Suc k)) = Some (r, n)" "Suc k < n"
      "n \<le> poll_limit bound + 2" "r \<longleftrightarrow> predicate (n - 1)"
      "\<forall>i. Suc k \<le> i \<and> i < n - 1 \<longrightarrow> \<not> predicate i" "r \<or> n = poll_limit bound + 2"
      using Suc.hyps(1) [of "Suc k"] Suc.hyps(2) k(1) by (metis Suc_diff_Suc diff_Suc_Suc diff_Suc_1 Suc_le_lessD)
    moreover have "\<forall>i. k \<le> i \<and> i < n - 1 \<longrightarrow> \<not> predicate i"
      using False r(5) by (metis le_antisym not_less_eq_eq)
    ultimately show ?thesis by (intro exI [of _ r] exI [of _ n]) simp
  qed
qed

text \<open>
  C39: Polling ends for every bound a 32-bit number can give and every predicate, after at most as many calls as the
  bound has steps of five milliseconds and two more. It answers true exactly when one of its calls did, stops at
  the first such call, and answers false only after the whole bound has elapsed.
\<close>

theorem wait_until_returns:
  "\<exists>r n. wait_until predicate bound = Some (r, n) \<and> n \<le> (unat bound + 4) div 5 + 2 \<and>
     (r \<longleftrightarrow> (\<exists>i < n. predicate i)) \<and> (r \<or> n = (unat bound + 4) div 5 + 2) \<and> {i. i < n \<and> predicate i} \<subseteq> {n - 1}"
proof -
  obtain r n where r: "wait_loop predicate bound 0 (of_nat (5 * 0)) = Some (r, n)" "0 < n" "n \<le> poll_limit bound + 2"
    "r \<longleftrightarrow> predicate (n - 1)" "\<forall>i. 0 \<le> i \<and> i < n - 1 \<longrightarrow> \<not> predicate i" "r \<or> n = poll_limit bound + 2"
    using wait_loop_result [of 0 bound predicate] by auto
  have first: "i = n - 1" if "i < n" "predicate i" for i
  proof -
    have "\<not> i < n - 1" using r(5) that(2) by auto
    then show ?thesis using that(1) by linarith
  qed
  have "r \<longleftrightarrow> (\<exists>i < n. predicate i)" using first r(2,4) by (metis diff_less zero_less_one)
  then show ?thesis
    using r(1,3,6) first by (auto simp: wait_until_def poll_limit_def)
qed

section \<open>A child is reaped once\<close>

text \<open>
  What POSIX documents of \<^verbatim>\<open>waitpid\<close> on one identifier: it answers the identifier, 0 when it does not wait and the
  child still runs, or -1; a child it has answered is gone, and what is gone stays gone.
\<close>

definition reaps_once :: "'w ProcessCalls \<Rightarrow> bool" where
  "reaps_once os \<longleftrightarrow> (\<forall>p hang w result status w'. os_waitpid os p hang w = ((result, status), w') \<longrightarrow>
     result \<in> {p, 0, - 1} \<and>
     (result = p \<or> result = - 1 \<longrightarrow> (\<forall>hang'. \<exists>status'. os_waitpid os p hang' w' = ((- 1, status'), w'))))"

text \<open>
  After \<^verbatim>\<open>running\<close> has found that a child ended, \<^verbatim>\<open>wait\<close> has no exit code: the poll reaps the child and drops its
  status.
\<close>

theorem exit_code_lost:
  assumes "reaps_once os" and "started p" and "running os p w = (False, w')"
  shows "wait_process os p w' = (- 1, w')"
proof -
  let ?p = "ucast (cp_pid p) :: pid"
  obtain result status where r: "os_waitpid os ?p False w = ((result, status), w')" "result \<noteq> 0"
    using assms(2,3) by (auto simp: running_def started_def split: prod.splits if_splits)
  then obtain status' where "os_waitpid os ?p True w' = ((- 1, status'), w')"
    using assms(1) unfolding reaps_once_def by blast
  then show ?thesis using assms(2) by (simp add: wait_process_def started_def)
qed

text \<open>A child that has ended with exit code 7, in a world that says whether it was reaped.\<close>

definition ended_child :: "bool ProcessCalls" where
  "ended_child = \<lparr>os_spawn = (\<lambda>_ w. ((0, 41), w)),
     os_waitpid = (\<lambda>p _ reaped. (if reaped \<or> p \<noteq> 41 then (- 1, NotExited) else (p, Exited 7), p = 41 \<or> reaped)),
     os_kill = (\<lambda>_ w. w)\<rparr>"

lemma exit_code_lost_example:
  "let p = fst (spawn ended_child ''srf_worker'' [] [] vr_success False) in
   fst (wait_process ended_child p False) = 7 \<and>
   wait_process ended_child p (snd (running ended_child p False)) = (- 1, True)"
proof -
  have p: "fst (spawn ended_child ''srf_worker'' [] [] vr_success False) = \<lparr>cp_handle = 41, cp_pid = 41\<rparr>" (is "_ = ?p")
    by (simp add: spawn_def ended_child_def)
  have "reaps_once ended_child" by (simp add: reaps_once_def ended_child_def)
  moreover have r: "running ended_child ?p False = (False, True)" by (simp add: running_def ended_child_def)
  ultimately have "wait_process ended_child ?p True = (- 1, True)"
    by (intro exit_code_lost) (simp_all add: started_def)
  then show ?thesis unfolding p Let_def r by (simp add: wait_process_def ended_child_def)
qed

end
