(* ===== verification/Rendering.thy ===== *)
theory Rendering
  imports Reason OracleText
begin

text \<open>
  The text of a validation result (\<^verbatim>\<open>ValidationResult::to_string\<close> in \<^verbatim>\<open>reason.cpp\<close>). Every reason but the first
  is printed into a buffer of fixed size; no reason code has a name that is long enough to be cut off.
\<close>

definition kRenderBuffer :: nat where "kRenderBuffer = 96"

text \<open>\<^verbatim>\<open>snprintf\<close> keeps what fits in front of the terminating zero.\<close>

definition render_reason :: "Reason \<Rightarrow> string" where
  "render_reason r = take (kRenderBuffer - 1)
     ('','' @ reason_code_name (rs_code r) @ ''['' @ show_nat (unat (rs_index r)) @ '']'')"

definition to_string :: "ValidationResult \<Rightarrow> string" where
  "to_string v =
     (if vr_reasons v = [] then ''Ok''
      else primary_name v @ concat (map render_reason (tl (vr_reasons v))) @
        (if vr_truncated v then '',truncated'' else []))"

lemma reason_name_short: "length (reason_code_name c) \<le> 40"
proof -
  have "list_all (\<lambda>e. length (cn_name e) \<le> 40) kCodes" by (simp add: kCodes_def code_entry_def)
  then show ?thesis
    by (auto simp: reason_code_name_def code_lookup_def list_all_iff dest!: find_key_SomeD split: option.split)
qed

lemma render_reason_complete:
  "render_reason r = '','' @ reason_code_name (rs_code r) @ ''['' @ show_nat (unat (rs_index r)) @ '']''"
proof -
  have "unat (rs_index r) < 10 ^ 10" using unsigned_less [of "rs_index r", where ?'a = nat] by simp
  then have "length (show_nat (unat (rs_index r))) \<le> 10" by (intro length_show_nat) simp_all
  then show ?thesis
    using reason_name_short [of "rs_code r"] by (simp add: render_reason_def kRenderBuffer_def)
qed

end
